(* ===== verification/GoPrelude.thy ===== *)
theory GoPrelude
  imports Main
begin

text \<open>
  The Go language and standard library features the jsonot sources use, and the generic
  lemmas every component shares.
  \<^item> \<open>go_error\<close>: the values of Go's \<open>error\<close> interface the code creates, and \<open>Panic\<close>
    for a run-time panic (index out of range, nil dereference, \<open>MustGet\<close> on an error).
    A panic travels like an error but cannot be ignored or tested for by the code:
    \<open>reify\<close> and \<open>ignoreError\<close> let it through.
  \<^item> \<open>'a res\<close>: Go's pair of a value and an error, and \<open>mo.Result\<close>.
  \<^item> \<open>i64\<close>: the wrap-around of Go's 64-bit \<open>int\<close>.
  \<^item> \<open>slices.Insert\<close>, \<open>slices.Delete\<close>, string slicing and \<open>strconv.Atoi\<close>.
  Go strings are byte sequences, so \<open>string\<close> (lists of 8-bit characters) models them and
  \<open>length\<close> is \<open>len\<close>.
\<close>

named_theorems go_simps \<open>unfolding rules for results, options and Go integers\<close>
named_theorems path_simps \<open>rewriting rules for paths\<close>

section \<open>Errors and results\<close>

text \<open>\<open>error.go\<close>: the error codes of the package.\<close>

datatype ErrCode = Ok | InvalidParameter | InvalidOperation | InvalidPathFormat
  | InvalidPathElement | BadPath | UnexpectedError | ConflictSubType

text \<open>The sentinel errors of the \<open>sharedb\<close> package.\<close>

datatype sentinel = ErrDocumentNotFound | ErrDocumentExists | ErrInvalidVersion
  | ErrDuplicateSequenceConflict | ErrStaleResyncRequired
  | ErrEnvelopeNotFound | ErrDuplicateEnvelopeID | ErrInvalidEnvelope | ErrInvalidEvent
  | ErrInvalidClientMessage | ErrInvalidSession

text \<open>Why the server asks a client to resynchronise; \<open>NoStaleReason\<close> is the empty string.\<close>

datatype StaleReason = NoStaleReason | StaleReasonVersionBehindWindow | StaleReasonReplayCursorNotFound

text \<open>\<open>StaleSubmitError\<close>: reason, document, base version, current version, oldest supported
  version and the configured gap.\<close>

datatype StaleSubmitError = StaleSubmitError StaleReason string int int int int

text \<open>
  \<open>CodeError c\<close> is \<open>NewError(c)\<close> with any appended text, \<open>FmtError\<close> an error made by
  \<open>fmt.Errorf\<close> or \<open>errors.New\<close> without a wrapped error, \<open>WrapError e\<close> one made with
  \<open>%w\<close>, \<open>Sentinel\<close> a package-level error value, \<open>StaleError\<close> a \<open>*StaleSubmitError\<close>, which unwraps
  to \<open>ErrStaleResyncRequired\<close>, and \<open>LibError\<close> an error returned by a library.
  Message texts are not modelled.
\<close>

datatype go_error = CodeError ErrCode | FmtError | WrapError go_error
  | Sentinel sentinel | StaleError StaleSubmitError | LibError string | Panic

type_synonym 'a res = "go_error + 'a"

text \<open>\<open>IsError\<close>: \<open>errors.As\<close> looks through the wrapped errors for an \<open>*Error\<close>.\<close>

fun IsError :: "go_error \<Rightarrow> ErrCode \<Rightarrow> bool" where
  "IsError (CodeError c) code \<longleftrightarrow> c = code"
| "IsError (WrapError e) code \<longleftrightarrow> IsError e code"
| "IsError _ _ \<longleftrightarrow> False"

text \<open>\<open>errors.Is\<close> on a sentinel.\<close>

fun errors_Is :: "go_error \<Rightarrow> sentinel \<Rightarrow> bool" where
  "errors_Is (Sentinel s) t \<longleftrightarrow> s = t"
| "errors_Is (StaleError _) t \<longleftrightarrow> t = ErrStaleResyncRequired"
| "errors_Is (WrapError e) t \<longleftrightarrow> errors_Is e t"
| "errors_Is _ _ \<longleftrightarrow> False"

text \<open>Sequencing: the early return \<open>if err != nil { return err }\<close>.\<close>

fun andThen :: "'a res \<Rightarrow> ('a \<Rightarrow> 'b res) \<Rightarrow> 'b res" where
  "andThen (Inl e) f = Inl e"
| "andThen (Inr x) f = f x"

lemma andThen_Inr_iff: "andThen r f = Inr y \<longleftrightarrow> (\<exists>x. r = Inr x \<and> f x = Inr y)"
  by (cases r) auto

lemma andThen_Inl_iff:
  "andThen r f = Inl e \<longleftrightarrow> r = Inl e \<or> (\<exists>x. r = Inr x \<and> f x = Inl e)"
  by (cases r) auto

lemma andThen_assoc: "andThen (andThen r f) g = andThen r (\<lambda>x. andThen (f x) g)"
  by (cases r) auto

lemma andThen_Inr_id [simp]: "andThen r Inr = r"
  by (cases r) auto

lemma andThen_cong [fundef_cong]:
  "r = r' \<Longrightarrow> (\<And>x. r' = Inr x \<Longrightarrow> f x = g x) \<Longrightarrow> andThen r f = andThen r' g"
  by (cases r') auto

lemma andThen_split:
  "P (andThen r f) \<longleftrightarrow> (\<forall>e. r = Inl e \<longrightarrow> P (Inl e)) \<and> (\<forall>x. r = Inr x \<longrightarrow> P (f x))"
  by (cases r) auto

text \<open>\<open>mo.Result.MustGet\<close> and \<open>mo.Option.MustGet\<close> panic when there is no value.\<close>

fun MustGet :: "'a res \<Rightarrow> 'a res" where
  "MustGet (Inr x) = Inr x"
| "MustGet (Inl e) = Inl Panic"

fun MustSome :: "'a option \<Rightarrow> 'a res" where
  "MustSome (Some x) = Inr x"
| "MustSome None = Inl Panic"

fun OrEmpty :: "string res \<Rightarrow> string" where
  "OrEmpty (Inr s) = s"
| "OrEmpty (Inl e) = ''''"

lemma MustGet_Inr_iff [simp]: "MustGet r = Inr x \<longleftrightarrow> r = Inr x"
  by (cases r) auto

lemma MustSome_Inr_iff [simp]: "MustSome r = Inr x \<longleftrightarrow> r = Some x"
  by (cases r) auto

lemma MustSome_not_code [simp]: "MustSome r = Inl e \<longleftrightarrow> r = None \<and> e = Panic"
  by (cases r) auto

text \<open>A result kept as a value (\<open>mo.Result\<close>) while panics still unwind.\<close>

fun reify :: "'a res \<Rightarrow> 'a res res" where
  "reify (Inl Panic) = Inl Panic"
| "reify r = Inr r"

text \<open>\<open>_ = f(x)\<close>: an ignored error leaves the old value; a panic still unwinds.\<close>

fun ignoreError :: "'a \<Rightarrow> 'a res \<Rightarrow> 'a res" where
  "ignoreError old (Inl Panic) = Inl Panic"
| "ignoreError old (Inl e) = Inr old"
| "ignoreError old (Inr x) = Inr x"

lemma reify_Inr_Inr [simp]: "reify r = Inr (Inr x) \<longleftrightarrow> r = Inr x"
  by (cases r rule: reify.cases) auto

text \<open>The early return \<open>if err != nil { return err }\<close> with a state.\<close>

fun bindS :: "'a res \<times> 't \<Rightarrow> ('a \<Rightarrow> 't \<Rightarrow> 'b res \<times> 't) \<Rightarrow> 'b res \<times> 't" where
  "bindS (Inl e, st) f = (Inl e, st)"
| "bindS (Inr x, st) f = f x st"

lemma bindS_Inr_iff:
  "bindS r f = (Inr y, st') \<longleftrightarrow> (\<exists>x st. r = (Inr x, st) \<and> f x st = (Inr y, st'))"
  by (cases "(r, f)" rule: bindS.cases) auto

lemma bindS_cong [fundef_cong]:
  "r = r' \<Longrightarrow> (\<And>x st. r' = (Inr x, st) \<Longrightarrow> f x st = g x st) \<Longrightarrow> bindS r f = bindS r' g"
  by (cases "(r', f)" rule: bindS.cases) auto

lemmas res_split = andThen_split sum.split
lemmas res_iffs = andThen_Inr_iff andThen_Inl_iff

section \<open>Go integers\<close>

text \<open>\<open>int\<close> is 64 bits wide on every platform the package targets; arithmetic wraps.\<close>

definition i64 :: "int \<Rightarrow> int" where
  "i64 x = (x + 2 ^ 63) mod 2 ^ 64 - 2 ^ 63"

definition is_int64 :: "int \<Rightarrow> bool" where
  "is_int64 x \<longleftrightarrow> - (2 ^ 63) \<le> x \<and> x < 2 ^ 63"

lemma i64_id [simp]: "is_int64 x \<Longrightarrow> i64 x = x"
  by (simp add: i64_def is_int64_def)

lemma i64_range [simp]: "is_int64 (i64 x)"
  by (simp add: i64_def is_int64_def)

lemma i64_cong: "x mod 2 ^ 64 = y mod 2 ^ 64 \<Longrightarrow> i64 x = i64 y"
  unfolding i64_def by (metis mod_add_left_eq)

lemma i64_mod: "i64 x mod 2 ^ 64 = x mod 2 ^ 64"
  unfolding i64_def by (simp add: mod_diff_left_eq)

lemma i64_add_left: "i64 (i64 x + y) = i64 (x + y)"
  by (rule i64_cong) (metis i64_mod mod_add_left_eq)

lemma i64_add_right: "i64 (x + i64 y) = i64 (x + y)"
  by (metis add.commute i64_add_left)

lemma i64_diff_left: "i64 (i64 x - y) = i64 (x - y)"
  using i64_add_left [of x "- y"] by simp

section \<open>Slices\<close>

text \<open>\<open>slices.Insert(s, i, v)\<close> and \<open>slices.Delete(s, i, i+1)\<close> panic out of range.\<close>

definition slices_Insert :: "'a list \<Rightarrow> int \<Rightarrow> 'a \<Rightarrow> 'a list res" where
  "slices_Insert xs i v =
     (if i < 0 \<or> int (length xs) < i then Inl Panic
      else Inr (take (nat i) xs @ v # drop (nat i) xs))"

definition slices_Delete :: "'a list \<Rightarrow> int \<Rightarrow> 'a list res" where
  "slices_Delete xs i =
     (if i < 0 \<or> int (length xs) \<le> i then Inl Panic
      else Inr (take (nat i) xs @ drop (Suc (nat i)) xs))"

text \<open>\<open>s[i]\<close> and \<open>s[i] = v\<close> on a slice.\<close>

definition slice_get :: "'a list \<Rightarrow> int \<Rightarrow> 'a res" where
  "slice_get xs i = (if i < 0 \<or> int (length xs) \<le> i then Inl Panic else Inr (xs ! nat i))"

text \<open>\<open>s[start:end]\<close> on a string or slice.\<close>

definition slice_range :: "'a list \<Rightarrow> int \<Rightarrow> int \<Rightarrow> 'a list res" where
  "slice_range s start end =
     (if start < 0 \<or> end < start \<or> int (length s) < end then Inl Panic
      else Inr (take (nat (end - start)) (drop (nat start) s)))"

lemma slices_Insert_nat [simp]:
  "i \<le> length xs \<Longrightarrow> slices_Insert xs (int i) v = Inr (take i xs @ v # drop i xs)"
  by (simp add: slices_Insert_def)

lemma slices_Delete_nat [simp]:
  "i < length xs \<Longrightarrow> slices_Delete xs (int i) = Inr (take i xs @ drop (Suc i) xs)"
  by (simp add: slices_Delete_def)

lemma slice_get_nat [simp]: "i < length xs \<Longrightarrow> slice_get xs (int i) = Inr (xs ! i)"
  by (simp add: slice_get_def)

section \<open>strconv\<close>

fun parse_digits :: "int \<Rightarrow> string \<Rightarrow> int option" where
  "parse_digits acc [] = Some acc"
| "parse_digits acc (c # cs) =
     (let d = int (of_char c) - 48
      in if 0 \<le> d \<and> d \<le> 9 then parse_digits (acc * 10 + d) cs else None)"

text \<open>
  \<open>strconv.Atoi\<close>: an optional sign, then one or more decimal digits; \<open>None\<close> is the
  returned error (bad syntax or out of range).
\<close>

definition Atoi :: "string \<Rightarrow> int option" where
  "Atoi s =
     (let (neg, ds) = (case s of [] \<Rightarrow> (False, [])
                       | c # cs \<Rightarrow> if c = CHR ''-'' then (True, cs)
                                  else if c = CHR ''+'' then (False, cs) else (False, s))
      in if ds = [] then None
         else case parse_digits 0 ds of None \<Rightarrow> None
              | Some n \<Rightarrow> (let v = (if neg then - n else n)
                          in if is_int64 v then Some v else None))"

lemma Atoi_range: "Atoi s = Some v \<Longrightarrow> is_int64 v"
  by (auto simp: Atoi_def Let_def split: prod.splits option.splits if_splits)

end
