(* ===== verification/JsonValue.thy ===== *)
theory JsonValue
  imports GoPrelude
begin

text \<open>
  The \<open>Value\<close> interface of \<open>value.go\<close> and the factory functions of \<open>value_factory.go\<close>,
  as the rest of the package uses them.  A JSON node is implemented by a third-party parser
  (\<open>bytedance/sonic\<close> or \<open>spyzhov/ajson\<close>), so the operations on nodes are a parameter: a
  record \<open>value_api\<close> of one function per method.  A method that changes its receiver
  (\<open>SetKey\<close>, \<open>UpdateArray\<close>, \<open>PackAny\<close>, ...) returns the receiver's new content.
  What the OT code relies on is the contract \<open>value_contract\<close>: through an abstraction
  function, the methods behave like the JSON document they stand for (objects as finite maps,
  arrays as lists).  \<open>SonicNode\<close> gives the record for \<open>SonicValue\<close> and discharges the
  contract for it.
\<close>

section \<open>Value types\<close>

datatype ValueType = Null | Numeric | String | Bool | Array | Object | Any

text \<open>
  The Go values the package hands to \<open>json.Marshal\<close>: \<open>nil\<close>, booleans, integers, floats,
  strings, raw JSON, slices and maps (a list of distinct keys with their values).
\<close>

datatype 'f goAny = ANil | ABool bool | AInt int | AFloat 'f | AStr string | ARaw string
  | AList "'f goAny list" | AMap "(string \<times> 'f goAny) list"

text \<open>
  The \<open>Value\<close> interface, its factory, and Go's \<open>float64\<close> arithmetic (type \<open>'f\<close>).
  \<open>nilValue\<close> is the nil interface value that a call leaves behind when its error is
  dropped.  \<open>sameZeroSize\<close> is the outcome of comparing two pointers to distinct zero-size
  variables, which the Go specification leaves open.  \<open>sameInterface\<close> is Go's \<open>==\<close> on two
  \<open>Value\<close> interfaces: identity of the pointers, which the contents do not determine.
  \<open>sharedEdit t document version i new v\<close> is the content that a value \<open>v\<close> of a cached operation has
  after the \<open>t\<close>-th call that may edit values in place (\<open>ServerOps.touchCache\<close>): the new (or else
  the old) value of component \<open>i\<close> of the operation of that document and version.  Which of them such a
  call reaches depends on pointers and on how the node library stores its nodes, not on contents.
\<close>

record ('v, 'f) value_api =
  Type :: "'v \<Rightarrow> ValueType"
  IsBool :: "'v \<Rightarrow> bool"
  IsNull :: "'v \<Rightarrow> bool"
  IsNumeric :: "'v \<Rightarrow> bool"
  IsInt :: "'v \<Rightarrow> bool"
  IsString :: "'v \<Rightarrow> bool"
  IsArray :: "'v \<Rightarrow> bool"
  IsObject :: "'v \<Rightarrow> bool"
  PackAny :: "'v \<Rightarrow> 'v"
  GetKey :: "'v \<Rightarrow> string \<Rightarrow> 'v option"
  GetStringKey :: "'v \<Rightarrow> string \<Rightarrow> string option"
  GetIntKey :: "'v \<Rightarrow> string \<Rightarrow> int option"
  GetArray :: "'v \<Rightarrow> 'v list res"
  GetMap :: "'v \<Rightarrow> (string \<times> 'v) list res"
  GetNumeric :: "'v \<Rightarrow> 'f res"
  GetInt :: "'v \<Rightarrow> int res"
  GetString :: "'v \<Rightarrow> string res"
  UpdateArray :: "'v \<Rightarrow> 'v list \<Rightarrow> 'v res"
  UpdateObject :: "'v \<Rightarrow> 'v \<Rightarrow> 'v res"
  SetKey :: "'v \<Rightarrow> string \<Rightarrow> 'v \<Rightarrow> 'v res"
  DeleteKey :: "'v \<Rightarrow> string \<Rightarrow> 'v res"
  HasKey :: "'v \<Rightarrow> string \<Rightarrow> bool"
  Size :: "'v \<Rightarrow> int"
  Equals :: "'v \<Rightarrow> 'v \<Rightarrow> bool"
  RawMessage :: "'v \<Rightarrow> string"
  UnmarshalValue :: "string \<Rightarrow> 'v res"
  ValueFromString :: "string \<Rightarrow> 'v"
  ValueFromInt :: "int \<Rightarrow> 'v"
  ValueFromFloat :: "'f \<Rightarrow> 'v"
  ValueFromAny :: "'f goAny \<Rightarrow> 'v"
  ValueFromArray :: "'v list \<Rightarrow> 'v"
  json_Marshal :: "'f goAny \<Rightarrow> string"
  nilValue :: "'v"
  float_add :: "'f \<Rightarrow> 'f \<Rightarrow> 'f"
  float_sub :: "'f \<Rightarrow> 'f \<Rightarrow> 'f"
  float_neg :: "'f \<Rightarrow> 'f"
  float_is_zero :: "'f \<Rightarrow> bool"
  float_of_int :: "int \<Rightarrow> 'f"
  sameZeroSize :: bool
  sameInterface :: "'v \<Rightarrow> 'v \<Rightarrow> bool"
  sharedEdit :: "nat \<Rightarrow> string \<Rightarrow> int \<Rightarrow> nat \<Rightarrow> bool \<Rightarrow> 'v \<Rightarrow> 'v"

text \<open>\<open>IsSimpleValue\<close> and \<open>NewValue\<close> of \<open>value.go\<close>.\<close>

definition IsSimpleValue :: "('v, 'f, 'z) value_api_scheme \<Rightarrow> 'v \<Rightarrow> bool" where
  "IsSimpleValue V v \<longleftrightarrow> IsNull V v \<or> IsBool V v \<or> IsNumeric V v \<or> IsString V v"


fun NewValue :: "('v, 'f, 'z) value_api_scheme \<Rightarrow> ValueType \<Rightarrow> 'v" where
  "NewValue V Array = ValueFromAny V (AList [])"
| "NewValue V Object = ValueFromAny V (AMap [])"
| "NewValue V String = ValueFromAny V (AStr '''')"
| "NewValue V Numeric = ValueFromAny V (AFloat (float_of_int V 0))"
| "NewValue V Bool = ValueFromAny V (ABool False)"
| "NewValue V Null = ValueFromAny V ANil"
| "NewValue V Any = ValueFromAny V ANil"

section \<open>The documents values stand for\<close>

text \<open>\<open>ErrA\<close> is a node that is not JSON (the error node of a library).\<close>

datatype 'n atom = NullA | BoolA bool | NumA 'n | StrA string | ErrA

datatype (dead 'n) jdoc = Atom "'n atom" | Arr "'n jdoc list" | Obj "string \<Rightarrow> 'n jdoc option"

text \<open>
  The contract of a node implementation on the operations \<open>apply.go\<close> uses.  \<open>Equals\<close> may be
  finer than equality of documents (sonic compares the raw text, so member order and white
  space count), so only soundness and reflexivity are required.
\<close>

locale value_contract =
  fixes V :: "('v, 'f, 'z) value_api_scheme" and view :: "'v \<Rightarrow> 'n jdoc"
  assumes Type_Array: "Type V v = Array \<longleftrightarrow> (\<exists>xs. view v = Arr xs)"
    and Type_Object: "Type V v = Object \<longleftrightarrow> (\<exists>m. view v = Obj m)"
    and IsNull_iff: "IsNull V v \<longleftrightarrow> view v = Atom NullA"
    and IsArray_iff: "IsArray V v \<longleftrightarrow> (\<exists>xs. view v = Arr xs)"
    and IsObject_iff: "IsObject V v \<longleftrightarrow> (\<exists>m. view v = Obj m)"
    and abs_PackAny: "view (PackAny V v) = view v"
    and PackAny_container: "view v = Arr xs \<or> view v = Obj m \<Longrightarrow> PackAny V v = v"
    and GetArray_Arr: "view v = Arr xs \<Longrightarrow> \<exists>vs. GetArray V v = Inr vs \<and> map view vs = xs"
    and UpdateArray_abs: "\<exists>v'. UpdateArray V v vs = Inr v' \<and> view v' = Arr (map view vs)
          \<and> GetArray V v' = Inr vs"
    and UpdateObject_abs: "\<exists>v'. UpdateObject V v w = Inr v' \<and> view v' = view w"
    and SetKey_same: "view v = Obj m \<Longrightarrow> SetKey V v k w = Inr v' \<Longrightarrow> view w = Arr xs \<or> view w = Obj m' \<Longrightarrow>
          GetKey V v' k = Some w"
    and GetKey_Obj: "view v = Obj m \<Longrightarrow> map_option view (GetKey V v k) = m k"
    and SetKey_Obj: "view v = Obj m \<Longrightarrow>
          \<exists>v'. SetKey V v k w = Inr v' \<and> view v' = Obj (m(k \<mapsto> view w))"
    and DeleteKey_Obj: "view v = Obj m \<Longrightarrow> m k \<noteq> None \<Longrightarrow>
          \<exists>v'. DeleteKey V v k = Inr v' \<and> view v' = Obj (m(k := None))"
    and HasKey_member: "view v = Obj m \<Longrightarrow> HasKey V v k \<Longrightarrow> m k \<noteq> None"
    and HasKey_not_null: "view v = Obj m \<Longrightarrow> m k = Some d \<Longrightarrow> d \<noteq> Atom NullA \<Longrightarrow> HasKey V v k"
    and GetMap_Obj: "view v = Obj m \<Longrightarrow>
          \<exists>kvs. GetMap V v = Inr kvs \<and> distinct (map fst kvs)
            \<and> (\<forall>k. map_option view (map_of kvs k) = m k)"
    and Equals_sound: "Equals V v w \<Longrightarrow> view v = view w"
    and Equals_refl: "Equals V v v"
    and FromAny_array: "view (ValueFromAny V (AList [])) = Arr []"
    and FromAny_object: "view (ValueFromAny V (AMap [])) = Obj (\<lambda>_. None)"
    and FromAny_nil: "view (ValueFromAny V ANil) = Atom NullA"
begin

lemma Type_cases:
  "Type V v = Array \<and> (\<exists>xs vs. view v = Arr xs \<and> GetArray V v = Inr vs \<and> map view vs = xs)
   \<or> Type V v = Object \<and> (\<exists>m. view v = Obj m)
   \<or> Type V v \<noteq> Array \<and> Type V v \<noteq> Object \<and> (\<exists>a. view v = Atom a)"
proof (cases "view v")
  case (Atom a)
  then show ?thesis using Type_Array [of v] Type_Object [of v] by auto
next
  case (Arr xs)
  then show ?thesis using Type_Array [of v] GetArray_Arr [OF Arr] by blast
next
  case (Obj m)
  then show ?thesis using Type_Object [of v] by blast
qed

lemma GetKey_None: "view v = Obj m \<Longrightarrow> GetKey V v k = None \<longleftrightarrow> m k = None"
  using GetKey_Obj [of v m k] by (metis option.map_disc_iff)

lemma GetKey_Some: "view v = Obj m \<Longrightarrow> GetKey V v k = Some w \<Longrightarrow> m k = Some (view w)"
  using GetKey_Obj [of v m k] by auto

lemma GetKey_SetKey:
  "view v = Obj m \<Longrightarrow> SetKey V v k w = Inr v' \<Longrightarrow>
   map_option view (GetKey V v' j) = (if j = k then Some (view w) else m j)"
  using SetKey_Obj [of v m k w] GetKey_Obj [of v' "m(k \<mapsto> view w)" j] by auto

lemma GetArray_UpdateArray:
  "UpdateArray V v vs = Inr v' \<Longrightarrow> view v' = Arr (map view vs) \<and> GetArray V v' = Inr vs"
  using UpdateArray_abs [of v vs] by auto

lemma NewValue_Object: "view (NewValue V Object) = Obj (\<lambda>_. None)"
  by (simp add: FromAny_object)

lemma NewValue_Array: "view (NewValue V Array) = Arr []"
  by (simp add: FromAny_array)

end

text \<open>
  Numbers: \<open>numI i\<close> is the JSON number with the value \<open>i\<close>.  Integers are read through
  \<open>float64\<close>, which holds every integer up to \<open>2 ^ 53\<close> (\<open>value_floats\<close>); sonic also keeps
  larger integers it is given (\<open>value_numbers\<close>).  A sonic node made from a Go number
  (type \<open>V_ANY\<close>) is \<open>IsNumeric\<close> only after \<open>PackAny\<close>.
\<close>

definition float_exact :: "int \<Rightarrow> bool" where
  "float_exact i \<longleftrightarrow> \<bar>i\<bar> \<le> 2 ^ 53"

lemma float_exact_int64: "float_exact i \<Longrightarrow> is_int64 i"
  by (auto simp: float_exact_def is_int64_def)

locale value_floats = value_contract V view
  for V :: "('v, 'f, 'z) value_api_scheme" and view :: "'v \<Rightarrow> 'n jdoc" +
  fixes numI :: "int \<Rightarrow> 'n"
  assumes FromInt_exact: "float_exact i \<Longrightarrow> view (ValueFromInt V i) = Atom (NumA (numI i))"
    and number_int: "view v = Atom (NumA (numI i)) \<Longrightarrow> float_exact i \<Longrightarrow>
          IsInt V v \<and> GetInt V v = Inr i"
    and IsNumeric_pack: "view v = Atom (NumA n) \<Longrightarrow> IsNumeric V (PackAny V v)"
    and IsNumeric_number: "IsNumeric V v \<Longrightarrow> \<exists>n. view v = Atom (NumA n)"
begin

lemma numI_inj: "float_exact i \<Longrightarrow> float_exact j \<Longrightarrow> numI i = numI j \<longleftrightarrow> i = j"
  using number_int [of "ValueFromInt V i" i] number_int [of "ValueFromInt V i" j]
    FromInt_exact [of i] by auto

lemma FromInt_reads:
  "float_exact i \<Longrightarrow> IsInt V (ValueFromInt V i) \<and> GetInt V (ValueFromInt V i) = Inr i"
  using number_int FromInt_exact by blast

end

locale value_numbers = value_floats V view numI
  for V :: "('v, 'f, 'z) value_api_scheme" and view :: "'v \<Rightarrow> 'n jdoc" and numI :: "int \<Rightarrow> 'n" +
  assumes FromInt_abs: "is_int64 i \<Longrightarrow> view (ValueFromInt V i) = Atom (NumA (numI i))"

text \<open>
  Strings, and the flat objects of integers and strings that encode text operands.
  \<open>utf8\<close> are the strings \<open>json.Marshal\<close> does not alter (it replaces invalid UTF-8).
\<close>

definition flat_member :: "(string \<Rightarrow> bool) \<Rightarrow> 'f goAny \<Rightarrow> bool" where
  "flat_member utf8 a \<longleftrightarrow> (\<exists>i. a = AInt i \<and> is_int64 i) \<or> (\<exists>s. a = AStr s \<and> utf8 s)"

definition reads_flat ::
    "('v, 'f, 'z) value_api_scheme \<Rightarrow> 'v \<Rightarrow> string \<Rightarrow> 'f goAny option \<Rightarrow> bool" where
  "reads_flat V v k a \<longleftrightarrow>
     (case a of
        None \<Rightarrow> GetKey V v k = None \<and> GetIntKey V v k = None
      | Some (AInt i) \<Rightarrow> GetIntKey V v k = Some i
      | Some (AStr s) \<Rightarrow>
          (\<exists>w. GetKey V v k = Some w \<and> IsString V w \<and> GetString V w = Inr s) \<and> GetIntKey V v k = None
      | _ \<Rightarrow> True)"

locale value_texts = value_contract V view
  for V :: "('v, 'f, 'z) value_api_scheme" and view :: "'v \<Rightarrow> 'n jdoc" +
  fixes utf8 :: "string \<Rightarrow> bool"
  assumes FromString_abs: "view (ValueFromString V s) = Atom (StrA s)"
    and GetString_Str: "view v = Atom (StrA s) \<Longrightarrow> IsString V v \<and> GetString V v = Inr s"
    and flat_roundtrip: "distinct (map fst kvs) \<Longrightarrow> list_all (flat_member utf8) (map snd kvs) \<Longrightarrow>
          \<exists>v. UnmarshalValue V (json_Marshal V (AMap kvs)) = Inr v
            \<and> (\<forall>k. reads_flat V v k (map_of kvs k))"
begin

lemma FromString_reads: "GetString V (ValueFromString V s) = Inr s"
  using GetString_Str FromString_abs by blast

lemma FromString_not_null: "\<not> IsNull V (ValueFromString V s)"
  by (simp add: IsNull_iff FromString_abs)

end

end
