(* ===== verification/JsonPath.thy ===== *)
theory JsonPath
  imports JsonValue "HOL-Library.Sublist"
begin

text \<open>
  \<open>path.go\<close>: paths into a document.  A \<open>PathElement\<close> carries both a key and an index;
  code decides by \<open>Key != ""\<close> which one counts, except that the index of a keyed element is
  still read and changed by some operations.  The single-field struct \<open>Path\<close> is the list of
  its elements.  Methods that change the receiver return the changed path, paired with their
  own result where they have one.
\<close>

section \<open>Elements and paths\<close>

record PathElement =
  Key :: string
  Index :: int

type_synonym Path = "PathElement list"

definition PathElement_Equals :: "PathElement \<Rightarrow> PathElement \<Rightarrow> bool" where
  "PathElement_Equals pe other =
     (if Key pe \<noteq> '''' \<or> Key other \<noteq> '''' then Key pe = Key other
      else Index pe = Index other)"

definition PathElementFromKey :: "string \<Rightarrow> PathElement" where
  "PathElementFromKey k = \<lparr>Key = k, Index = 0\<rparr>"

definition PathElementFromIndex :: "int \<Rightarrow> PathElement" where
  "PathElementFromIndex i = \<lparr>Key = '''', Index = i\<rparr>"

definition NewPathFromIndexes :: "int list \<Rightarrow> Path" where
  "NewPathFromIndexes is = map (\<lambda>i. \<lparr>Key = '''', Index = i\<rparr>) is"

definition NewPathFromKeys :: "string list \<Rightarrow> Path" where
  "NewPathFromKeys ks = map (\<lambda>k. \<lparr>Key = k, Index = 0\<rparr>) ks"

text \<open>\<open>ToValue\<close>: indices are converted to \<open>float64\<close>.\<close>

definition Path_ToValue :: "('v, 'f, 'z) value_api_scheme \<Rightarrow> Path \<Rightarrow> 'v" where
  "Path_ToValue V p =
     ValueFromAny V (AList (map (\<lambda>pe. if Key pe \<noteq> '''' then AStr (Key pe) else AFloat (float_of_int V (Index pe))) p))"

text \<open>
  \<open>FromValue\<close>: an element that is both a string and an integer for the implementation (sonic
  reads \<open>"2"\<close> as a number, too) gets both fields; an element that is neither is dropped.
\<close>

fun path_elements :: "('v, 'f, 'z) value_api_scheme \<Rightarrow> 'v list \<Rightarrow> Path res" where
  "path_elements V [] = Inr []"
| "path_elements V (v # vs) =
     andThen (if IsString V v then MustGet (GetString V v) else Inr '''') (\<lambda>key.
     andThen (if IsInt V v then MustGet (GetInt V v) else Inr 0) (\<lambda>index.
     andThen (path_elements V vs) (\<lambda>rest.
       Inr (if IsString V v \<or> IsInt V v then \<lparr>Key = key, Index = index\<rparr> # rest else rest))))"

definition Path_FromValue :: "('v, 'f, 'z) value_api_scheme \<Rightarrow> 'v \<Rightarrow> Path res" where
  "Path_FromValue V path = andThen (MustGet (GetArray V path)) (path_elements V)"

fun Path_Equal :: "Path \<Rightarrow> Path \<Rightarrow> bool" where
  "Path_Equal p other \<longleftrightarrow> length p = length other \<and> list_all2 (=) p other"

definition Path_Clone :: "Path \<Rightarrow> Path" where
  "Path_Clone p = p"

fun FirstKeyPath :: "Path \<Rightarrow> string option" where
  "FirstKeyPath [] = None"
| "FirstKeyPath (pe # _) = Some (Key pe)"

fun FirstIndexPath :: "Path \<Rightarrow> int option" where
  "FirstIndexPath [] = None"
| "FirstIndexPath (pe # _) =
     (if Index pe > 0 then Some (Index pe)
      else if Key pe \<noteq> '''' then
        (case Atoi (Key pe) of Some index \<Rightarrow> Some index | None \<Rightarrow> Some 0)
      else Some 0)"

text \<open>
  \<open>Get\<close>, \<open>Replace\<close>, \<open>IncreaseIndex\<close> and \<open>DecreaseIndex\<close> only test \<open>index < len\<close>: a
  negative index panics.
\<close>

definition Path_Get :: "Path \<Rightarrow> int \<Rightarrow> PathElement option res" where
  "Path_Get p index =
     (if index < int (length p) then andThen (slice_get p index) (\<lambda>pe. Inr (Some pe))
      else Inr None)"

definition GetKeyAt :: "Path \<Rightarrow> int \<Rightarrow> string option res" where
  "GetKeyAt p index =
     (if index < int (length p) then andThen (slice_get p index) (\<lambda>pe. Inr (Some (Key pe)))
      else Inr None)"

definition GetIndexAt :: "Path \<Rightarrow> int \<Rightarrow> int option res" where
  "GetIndexAt p index =
     (if index < int (length p) then andThen (slice_get p index) (\<lambda>pe. Inr (Some (Index pe)))
      else Inr None)"

definition Path_Last :: "Path \<Rightarrow> PathElement option" where
  "Path_Last p = (if p \<noteq> [] then Some (p ! (length p - 1)) else None)"

definition Path_Replace :: "Path \<Rightarrow> int \<Rightarrow> PathElement \<Rightarrow> (PathElement option \<times> Path) res" where
  "Path_Replace p index pathElem =
     (if index < int (length p)
      then andThen (slice_get p index) (\<lambda>old. Inr (Some old, p[nat index := pathElem]))
      else Inr (None, p))"

definition IncreaseIndex :: "Path \<Rightarrow> int \<Rightarrow> Path res" where
  "IncreaseIndex p index =
     (if index < int (length p)
      then andThen (slice_get p index) (\<lambda>pe.
             if Index pe \<ge> 0 then Inr (p[nat index := pe\<lparr>Index := i64 (Index pe + 1)\<rparr>])
             else Inr p)
      else Inr p)"

definition DecreaseIndex :: "Path \<Rightarrow> int \<Rightarrow> Path res" where
  "DecreaseIndex p index =
     (if index < int (length p)
      then andThen (slice_get p index) (\<lambda>pe.
             if Index pe > 0 then Inr (p[nat index := pe\<lparr>Index := i64 (Index pe - 1)\<rparr>])
             else Inr p)
      else Inr p)"

definition SplitAt :: "Path \<Rightarrow> int \<Rightarrow> (Path \<times> Path) res" where
  "SplitAt p mid =
     andThen (slice_range p 0 mid) (\<lambda>left.
     andThen (slice_range p mid (int (length p))) (\<lambda>right. Inr (left, right)))"

text \<open>
  \<open>p.MaxCommonPath(path)\<close> runs over \<open>path\<close>, comparing whole elements (key and index);
  \<open>CommonPathPrefix\<close> is the same loop collecting the other element.
\<close>

fun MaxCommonPath :: "Path \<Rightarrow> Path \<Rightarrow> Path" where
  "MaxCommonPath (pb # p) (pa # path) = (if pa = pb then pb # MaxCommonPath p path else [])"
| "MaxCommonPath _ _ = []"

fun CommonPathPrefix :: "Path \<Rightarrow> Path \<Rightarrow> Path" where
  "CommonPathPrefix (pb # p) (pa # path) = (if pa = pb then pa # CommonPathPrefix p path else [])"
| "CommonPathPrefix _ _ = []"

fun IsPrefixOf :: "Path \<Rightarrow> Path \<Rightarrow> bool" where
  "IsPrefixOf [] other = True"
| "IsPrefixOf (p1 # p) [] = False"
| "IsPrefixOf (p1 # p) (p2 # other) = (if \<not> PathElement_Equals p1 p2 then False else IsPrefixOf p other)"

definition Path_Len :: "Path \<Rightarrow> int" where
  "Path_Len p = int (length p)"

definition Path_IsEmpty :: "Path \<Rightarrow> bool" where
  "Path_IsEmpty p \<longleftrightarrow> Path_Len p = 0"

definition NextLevel :: "Path \<Rightarrow> Path res" where
  "NextLevel p = slice_range p 1 (int (length p))"

section \<open>Well-formed paths\<close>

text \<open>
  The paths \<open>PathElementFromKey\<close> and \<open>PathElementFromIndex\<close> build, and the ones a
  strict parser reads: a key (with index 0) or an index that is not negative.
\<close>

definition canonical_element :: "PathElement \<Rightarrow> bool" where
  "canonical_element pe \<longleftrightarrow>
     (if Key pe \<noteq> '''' then Index pe = 0 else 0 \<le> Index pe \<and> is_int64 (Index pe))"

definition canonical :: "Path \<Rightarrow> bool" where
  "canonical p \<longleftrightarrow> list_all canonical_element p"

lemma canonical_simps [simp]:
  "canonical []"
  "canonical (pe # p) \<longleftrightarrow> canonical_element pe \<and> canonical p"
  "canonical (p @ q) \<longleftrightarrow> canonical p \<and> canonical q"
  by (simp_all add: canonical_def)

lemma PathElement_Equals_canonical:
  "canonical_element pe \<Longrightarrow> canonical_element pe' \<Longrightarrow> PathElement_Equals pe pe' \<longleftrightarrow> pe = pe'"
  by (auto simp: PathElement_Equals_def canonical_element_def split: if_splits)

lemma PathElement_Equals_refl [simp]: "PathElement_Equals pe pe"
  by (simp add: PathElement_Equals_def)

lemma IsPrefixOf_append [simp]: "IsPrefixOf p (p @ q)"
  by (induction p) auto

lemma IsPrefixOf_refl [simp]: "IsPrefixOf p p"
  using IsPrefixOf_append [of p "[]"] by simp

lemma IsPrefixOf_length: "IsPrefixOf p q \<Longrightarrow> length p \<le> length q"
  by (induction p q rule: IsPrefixOf.induct) (auto split: if_splits)

lemma IsPrefixOf_iff_prefix:
  "canonical p \<Longrightarrow> canonical q \<Longrightarrow> IsPrefixOf p q \<longleftrightarrow> prefix p q"
  by (induction p q rule: IsPrefixOf.induct) (auto simp: PathElement_Equals_canonical)

lemma MaxCommonPath_lcp: "MaxCommonPath p q = longest_common_prefix p q"
  by (induction p q rule: MaxCommonPath.induct) auto

lemma CommonPathPrefix_eq: "CommonPathPrefix p q = MaxCommonPath p q"
  by (induction p q rule: CommonPathPrefix.induct) auto

lemma MaxCommonPath_append [path_simps]:
  "MaxCommonPath (r @ p) (r @ q) = r @ MaxCommonPath p q"
  by (induction r) auto

lemma MaxCommonPath_self [path_simps]: "MaxCommonPath p p = p"
  by (induction p) auto

lemma MaxCommonPath_Nil [simp]: "MaxCommonPath [] p = []" "MaxCommonPath p [] = []"
  by (cases p; simp)+

lemma MaxCommonPath_self_append [path_simps]:
  "MaxCommonPath p (p @ q) = p" "MaxCommonPath (p @ q) p = p"
  using MaxCommonPath_append [of p "[]" q] MaxCommonPath_append [of p q "[]"]
  by simp_all

text \<open>Element access at the position where a component operates.\<close>

lemma Path_Get_append [path_simps]:
  "Path_Get (p @ pe # q) (int (length p)) = Inr (Some pe)"
  by (simp add: Path_Get_def)

lemma Path_Replace_append [path_simps]:
  "Path_Replace (p @ pe # q) (int (length p)) e = Inr (Some pe, p @ e # q)"
  by (simp add: Path_Replace_def)

lemma IncreaseIndex_append [path_simps]:
  "0 \<le> Index pe \<Longrightarrow>
   IncreaseIndex (p @ pe # q) (int (length p)) = Inr (p @ pe\<lparr>Index := i64 (Index pe + 1)\<rparr> # q)"
  by (simp add: IncreaseIndex_def)

lemma DecreaseIndex_append [path_simps]:
  "0 < Index pe \<Longrightarrow>
   DecreaseIndex (p @ pe # q) (int (length p)) = Inr (p @ pe\<lparr>Index := i64 (Index pe - 1)\<rparr> # q)"
  by (simp add: DecreaseIndex_def)

lemma Path_Get_negative: "i < 0 \<Longrightarrow> Path_Get p i = Inl Panic"
  by (simp add: Path_Get_def slice_get_def)

lemma SplitAt_append [path_simps]: "SplitAt (p @ q) (int (length p)) = Inr (p, q)"
  by (simp add: SplitAt_def slice_range_def)

lemma SplitAt_Inr:
  "SplitAt p mid = Inr (l, r) \<Longrightarrow> p = l @ r \<and> int (length l) = mid"
  by (auto simp: SplitAt_def slice_range_def res_iffs split: if_splits)

lemma NextLevel_Cons [path_simps]: "NextLevel (pe # p) = Inr p"
  by (simp add: NextLevel_def slice_range_def)

lemma Path_Last_append [path_simps]: "Path_Last (p @ [pe]) = Some pe"
  by (simp add: Path_Last_def)

lemma Path_Len_simps [path_simps]:
  "Path_Len [] = 0" "Path_Len (pe # p) = Path_Len p + 1"
  "Path_Len (p @ q) = Path_Len p + Path_Len q"
  by (simp_all add: Path_Len_def)

end
