(* ===== verification/Operators.thy ===== *)
theory Operators
  imports JsonPath
begin

text \<open>
  \<open>operator.go\<close>, \<open>action.go\<close> and the operation component of \<open>operation.go\<close>: the operators,
  their actions and validation, and the component that applies one operator at one path.
  All operators are used through pointers.  \<open>Noop\<close> is the pointer \<open>NewNoop\<close> returns;
  \<open>NoopValue\<close> is the struct value \<open>Noop{}\<close> that \<open>OperationComponent.Noop\<close> builds, which the
  type switches tell apart from the pointer.
\<close>

section \<open>Operators\<close>

datatype TransformSide = TransformSideLeft | TransformSideRight

text \<open>
  \<open>SubType\<close>: the pointers \<open>*NumberAdd\<close> and \<open>*Text\<close> to zero-size structs, and \<open>*Custom\<close>,
  whose number is the identity of the allocation: two pointers are equal when they come from
  the same \<open>NewCustom\<close> call.
\<close>

datatype SubType = NumberAdd | Text | Custom nat string

fun TypeName :: "SubType \<Rightarrow> string" where
  "TypeName NumberAdd = ''na''"
| "TypeName Text = ''text''"
| "TypeName (Custom _ name) = name"

text \<open>The implementations of \<open>SubTypeFunctions\<close>: the two built in ones and registered ones.\<close>

datatype SubTypeFn = NumberAddSubType | TextSubType | UserSubType nat

datatype 'v operator = Noop | NoopValue | ListInsert 'v | ListDelete 'v
  | ListReplace 'v 'v | ListMove int
  | ObjectInsert 'v | ObjectDelete 'v | ObjectReplace 'v 'v
  | SubTypeOperator SubType 'v SubTypeFn

fun Action :: "'v operator \<Rightarrow> string" where
  "Action Noop = ''''"
| "Action NoopValue = ''''"
| "Action (ListInsert _) = ''li''"
| "Action (ListDelete _) = ''ld''"
| "Action (ListReplace _ _) = ''lr''"
| "Action (ListMove _) = ''lm''"
| "Action (ObjectInsert _) = ''oi''"
| "Action (ObjectDelete _) = ''od''"
| "Action (ObjectReplace _ _) = ''or''"
| "Action (SubTypeOperator t _ _) = TypeName t"

definition OperatorForValueType :: "'v operator \<Rightarrow> ValueType" where
  "OperatorForValueType op =
     (let action = Action op
      in if action = ''oi'' \<or> action = ''od'' \<or> action = ''or'' then Object
         else if action = ''li'' \<or> action = ''ld'' \<or> action = ''lm'' \<or> action = ''lr'' then Array
         else Null)"

text \<open>\<open>Validates\<close> returns \<open>nil\<close> (here \<open>Inr ()\<close>) but for a move to a negative index.\<close>

fun Validates :: "'v operator \<Rightarrow> unit res" where
  "Validates (ListMove newIndex) =
     (if newIndex < 0 then Inl (CodeError InvalidParameter) else Inr ())"
| "Validates _ = Inr ()"

text \<open>\<open>Clone\<close> copies the operator struct and shares the values; it turns \<open>Noop{}\<close> into \<open>*Noop\<close>.\<close>

fun Operator_Clone :: "'v operator \<Rightarrow> 'v operator" where
  "Operator_Clone NoopValue = Noop"
| "Operator_Clone op = op"

section \<open>Operation components\<close>

record 'v OperationComponent =
  Operator :: "'v operator"
  Path :: Path

text \<open>\<open>NewOperationComponent\<close> never fails on a non-nil operator.\<close>

definition NewOperationComponent :: "Path \<Rightarrow> 'v operator \<Rightarrow> 'v OperationComponent" where
  "NewOperationComponent path operator =
     \<lparr>Operator = Operator_Clone operator, Path = Path_Clone path\<rparr>"

definition Component_Noop :: "'v OperationComponent \<Rightarrow> 'v OperationComponent" where
  "Component_Noop oc = \<lparr>Operator = NoopValue, Path = Path oc\<rparr>"

definition Component_Clone :: "'v OperationComponent \<Rightarrow> 'v OperationComponent" where
  "Component_Clone oc = \<lparr>Operator = Operator_Clone (Operator oc), Path = Path_Clone (Path oc)\<rparr>"

definition CloneNotNoop :: "'v OperationComponent \<Rightarrow> 'v OperationComponent option" where
  "CloneNotNoop oc = (case Operator oc of NoopValue \<Rightarrow> None | _ \<Rightarrow> Some oc)"

definition NotNoop :: "'v OperationComponent \<Rightarrow> 'v OperationComponent option" where
  "NotNoop oc = (case Operator oc of NoopValue \<Rightarrow> None | _ \<Rightarrow> Some oc)"

definition OperatePathLen :: "'v OperationComponent \<Rightarrow> int" where
  "OperatePathLen oc =
     (case Operator oc of SubTypeOperator _ _ _ \<Rightarrow> Path_Len (Path oc) | _ \<Rightarrow> Path_Len (Path oc) - 1)"

definition supportsRootPathOperator :: "'v operator \<Rightarrow> bool" where
  "supportsRootPathOperator operator =
     (case operator of Noop \<Rightarrow> True | ListInsert _ \<Rightarrow> True | ListDelete _ \<Rightarrow> True
      | ListReplace _ _ \<Rightarrow> True | ObjectInsert _ \<Rightarrow> True | ObjectDelete _ \<Rightarrow> True
      | ObjectReplace _ _ \<Rightarrow> True | SubTypeOperator _ _ _ \<Rightarrow> True | _ \<Rightarrow> False)"

definition Component_Validation :: "'v OperationComponent \<Rightarrow> unit res" where
  "Component_Validation oc =
     (if Path_IsEmpty (Path oc) \<and> \<not> supportsRootPathOperator (Operator oc)
      then Inl (CodeError BadPath) else Validates (Operator oc))"

section \<open>Registered subtype implementations\<close>

text \<open>
  A user implementation of the \<open>SubTypeFunctions\<close> interface, and the environment of the
  package: the value implementation and the objects \<open>RegisterSubType\<close> was given.
\<close>

record 'v subtype_impl =
  impl_OperatorName :: string
  impl_Invert :: "SubType \<Rightarrow> Path \<Rightarrow> 'v \<Rightarrow> 'v operator res"
  impl_Merge :: "'v \<Rightarrow> 'v operator \<Rightarrow> 'v operator option"
  impl_Transform :: "'v \<Rightarrow> 'v \<Rightarrow> TransformSide \<Rightarrow> 'v list res"
  impl_Apply :: "'v option \<Rightarrow> 'v \<Rightarrow> 'v option res"
  impl_ValidateOperand :: "'v \<Rightarrow> unit res"

record ('v, 'f) env = "('v, 'f) value_api" +
  user_subtypes :: "nat \<Rightarrow> 'v subtype_impl"

text \<open>
  \<open>SubTypeFunctionsHolder\<close>: the registry by subtype name; the built in names cannot be
  registered or removed.
\<close>

type_synonym SubTypeFunctionsHolder = "string \<Rightarrow> SubTypeFn option"

definition NewSubTypeFunctionsHolder :: SubTypeFunctionsHolder where
  "NewSubTypeFunctionsHolder = [''na'' \<mapsto> NumberAddSubType, ''text'' \<mapsto> TextSubType]"

definition Register :: "SubTypeFunctionsHolder \<Rightarrow> string \<Rightarrow> SubTypeFn \<Rightarrow> SubTypeFunctionsHolder" where
  "Register sfh subType fn =
     (if subType = ''na'' \<or> subType = ''text'' then sfh else sfh(subType \<mapsto> fn))"

definition Unregister :: "SubTypeFunctionsHolder \<Rightarrow> string \<Rightarrow> SubTypeFunctionsHolder" where
  "Unregister sfh subType =
     (if subType = ''na'' \<or> subType = ''text'' then sfh else sfh(subType := None))"

definition Holder_Get :: "SubTypeFunctionsHolder \<Rightarrow> string \<Rightarrow> SubTypeFn option" where
  "Holder_Get sfh subType = (case sfh subType of Some fn \<Rightarrow> Some fn | None \<Rightarrow> None)"

text \<open>
  \<open>SubTypeTryFromValue\<close>; \<open>fresh\<close> is the identity of the pointer \<open>NewCustom\<close> would allocate.
\<close>

definition SubTypeTryFromValue ::
    "('v, 'f, 'z) value_api_scheme \<Rightarrow> nat \<Rightarrow> 'v \<Rightarrow> SubType res" where
  "SubTypeTryFromValue V fresh value =
     (if IsString V value then
        andThen (MustGet (GetString V value)) (\<lambda>subType.
          if subType = ''na'' then Inr NumberAdd
          else if subType = ''text'' then Inr Text
          else Inr (Custom fresh subType))
      else Inl (CodeError InvalidOperation))"

text \<open>
  Registry histories: the built in entries survive every sequence of registrations.
\<close>

datatype holder_op = HRegister string SubTypeFn | HUnregister string

fun holder_step :: "SubTypeFunctionsHolder \<Rightarrow> holder_op \<Rightarrow> SubTypeFunctionsHolder" where
  "holder_step sfh (HRegister t fn) = Register sfh t fn"
| "holder_step sfh (HUnregister t) = Unregister sfh t"

definition builtins_intact :: "SubTypeFunctionsHolder \<Rightarrow> bool" where
  "builtins_intact sfh \<longleftrightarrow>
     Holder_Get sfh ''na'' = Some NumberAddSubType \<and> Holder_Get sfh ''text'' = Some TextSubType"

lemma Holder_Get_eq [simp]: "Holder_Get sfh t = sfh t"
  by (simp add: Holder_Get_def split: option.split)

lemma holder_step_builtins: "builtins_intact sfh \<Longrightarrow> builtins_intact (holder_step sfh op)"
  by (cases op) (auto simp: builtins_intact_def Register_def Unregister_def)

lemma new_holder_builtins: "builtins_intact NewSubTypeFunctionsHolder"
  by (simp add: builtins_intact_def NewSubTypeFunctionsHolder_def)

lemma foldl_holder_builtins:
  "builtins_intact sfh \<Longrightarrow> builtins_intact (foldl holder_step sfh ops)"
  by (induction ops arbitrary: sfh) (auto intro: holder_step_builtins)

lemma NewOperationComponent_simps [simp]:
  "Operator (NewOperationComponent p op) = Operator_Clone op"
  "Path (NewOperationComponent p op) = p"
  by (simp_all add: NewOperationComponent_def Path_Clone_def)

lemma Component_Clone_simps [simp]:
  "Operator (Component_Clone oc) = Operator_Clone (Operator oc)"
  "Path (Component_Clone oc) = Path oc"
  by (simp_all add: Component_Clone_def Path_Clone_def)

end
