(* ===== verification/SubTypes.thy ===== *)
theory SubTypes
  imports Operators
begin

text \<open>
  \<open>subtype.go\<close>: the number-add and text subtypes and the dispatch of a
  \<open>SubTypeOperator\<close> to its functions.  Floating point arithmetic is the parameter of the
  environment; integers wrap at 64 bits.  \<open>SubString\<close> is a Go slice expression and panics
  when its end lies before its start.
\<close>

section \<open>SubString\<close>

definition SubString :: "string \<Rightarrow> int \<Rightarrow> int \<Rightarrow> string res" where
  "SubString s start end =
     (if start < 0 \<or> end < 0 then Inr ''''
      else if start \<ge> int (length s) then Inr ''''
      else let end = (if end > int (length s) then int (length s) else end)
           in slice_range s start end)"

section \<open>Number add\<close>

definition NumberAdd_ValidateOperand :: "('v, 'f, 'z) value_api_scheme \<Rightarrow> 'v \<Rightarrow> unit res" where
  "NumberAdd_ValidateOperand E val =
     (if \<not> IsNumeric E val then Inl (CodeError InvalidOperation) else Inr ())"

definition NumberAdd_Invert ::
    "('v, 'f, 'z) value_api_scheme \<Rightarrow> SubType \<Rightarrow> 'v \<Rightarrow> 'v operator res" where
  "NumberAdd_Invert E subType subTypeOperand =
     andThen (NumberAdd_ValidateOperand E subTypeOperand) (\<lambda>_.
       if IsInt E subTypeOperand then
         andThen (MustGet (GetInt E subTypeOperand)) (\<lambda>val.
           Inr (SubTypeOperator subType (ValueFromInt E (i64 (- val))) NumberAddSubType))
       else
         andThen (MustGet (GetNumeric E subTypeOperand)) (\<lambda>val.
           Inr (SubTypeOperator subType (ValueFromFloat E (float_neg E val)) NumberAddSubType)))"

definition NumberAdd_Merge ::
    "('v, 'f, 'z) value_api_scheme \<Rightarrow> 'v \<Rightarrow> 'v operator \<Rightarrow> 'v operator option res" where
  "NumberAdd_Merge E baseOperand other =
     (case other of
        SubTypeOperator _ value _ \<Rightarrow>
          if IsInt E baseOperand \<and> IsInt E value then
            andThen (MustGet (GetInt E baseOperand)) (\<lambda>a.
            andThen (MustGet (GetInt E value)) (\<lambda>b.
              Inr (Some (SubTypeOperator NumberAdd (ValueFromInt E (i64 (a + b))) NumberAddSubType))))
          else if IsNumeric E baseOperand \<and> IsNumeric E value then
            andThen (MustGet (GetNumeric E baseOperand)) (\<lambda>a.
            andThen (MustGet (GetNumeric E value)) (\<lambda>b.
              Inr (Some (SubTypeOperator NumberAdd (ValueFromFloat E (float_add E a b)) NumberAddSubType))))
          else Inr None
      | _ \<Rightarrow> Inr None)"

definition NumberAdd_Transform :: "'v \<Rightarrow> 'v \<Rightarrow> TransformSide \<Rightarrow> 'v list res" where
  "NumberAdd_Transform newVal _ _ = Inr [newVal]"

definition NumberAdd_Apply ::
    "('v, 'f, 'z) value_api_scheme \<Rightarrow> 'v option \<Rightarrow> 'v \<Rightarrow> 'v option res" where
  "NumberAdd_Apply E val subTypeOperand =
     andThen (NumberAdd_ValidateOperand E subTypeOperand) (\<lambda>_.
       if (case val of None \<Rightarrow> True | Some v \<Rightarrow> IsNull E v) then
         (case GetNumeric E subTypeOperand of
            Inr addVal \<Rightarrow> Inr (Some (ValueFromFloat E addVal))
          | Inl _ \<Rightarrow> Inr (Some (ValueFromInt E 0)))
       else
         andThen (MustSome val) (\<lambda>oldVal.
           if IsInt E oldVal \<and> IsInt E subTypeOperand then
             andThen (MustGet (GetInt E oldVal)) (\<lambda>a.
             andThen (MustGet (GetInt E subTypeOperand)) (\<lambda>b.
               Inr (Some (ValueFromInt E (i64 (a + b))))))
           else
             andThen (MustGet (GetNumeric E oldVal)) (\<lambda>a.
             andThen (MustGet (GetNumeric E subTypeOperand)) (\<lambda>b.
               Inr (Some (ValueFromFloat E (float_add E a b)))))))"

section \<open>Text operands\<close>

record TextOperand =
  InsertVal :: "string option"
  DeleteVal :: "string option"
  Offset :: int

definition emptyTextOperand :: TextOperand where
  "emptyTextOperand = \<lparr>InsertVal = None, DeleteVal = None, Offset = 0\<rparr>"

definition NewInsertTextOperand :: "int \<Rightarrow> string \<Rightarrow> TextOperand" where
  "NewInsertTextOperand offset insertVal =
     \<lparr>InsertVal = Some insertVal, DeleteVal = None, Offset = offset\<rparr>"

definition NewDeleteTextOperand :: "int \<Rightarrow> string \<Rightarrow> TextOperand" where
  "NewDeleteTextOperand offset deleteVal =
     \<lparr>InsertVal = None, DeleteVal = Some deleteVal, Offset = offset\<rparr>"

definition IsInsert :: "TextOperand \<Rightarrow> bool" where
  "IsInsert t \<longleftrightarrow> InsertVal t \<noteq> None"

definition IsDelete :: "TextOperand \<Rightarrow> bool" where
  "IsDelete t \<longleftrightarrow> DeleteVal t \<noteq> None"

definition GetInsertVal :: "TextOperand \<Rightarrow> string option" where
  "GetInsertVal t = (if IsInsert t then InsertVal t else None)"

definition GetDeleteVal :: "TextOperand \<Rightarrow> string option" where
  "GetDeleteVal t = (if IsDelete t then DeleteVal t else None)"

text \<open>\<open>MustGetInsertVal\<close> and \<open>MustGetDeleteVal\<close> return the empty string for an absent value.\<close>

definition MustGetInsertVal :: "TextOperand \<Rightarrow> string" where
  "MustGetInsertVal t = (case InsertVal t of Some s \<Rightarrow> s | None \<Rightarrow> '''')"

definition MustGetDeleteVal :: "TextOperand \<Rightarrow> string" where
  "MustGetDeleteVal t = (case DeleteVal t of Some s \<Rightarrow> s | None \<Rightarrow> '''')"

definition InvertObject :: "TextOperand \<Rightarrow> TextOperand res" where
  "InvertObject t =
     (case GetInsertVal t of
        Some s \<Rightarrow> Inr (NewDeleteTextOperand (Offset t) s)
      | None \<Rightarrow> (case GetDeleteVal t of
                  Some s \<Rightarrow> Inr (NewInsertTextOperand (Offset t) s)
                | None \<Rightarrow> Inl (CodeError InvalidOperation)))"

definition TransformPosition :: "TextOperand \<Rightarrow> int \<Rightarrow> bool \<Rightarrow> int" where
  "TransformPosition t pos insertAfter =
     (let p = Offset t in
      case GetInsertVal t of
        Some s \<Rightarrow> if p < pos \<or> (p = pos \<and> insertAfter) then i64 (p + int (length s)) else pos
      | None \<Rightarrow>
          if pos \<le> p then pos
          else if pos \<le> i64 (p + int (length (MustGetDeleteVal t))) then p
          else i64 (pos - int (length (MustGetDeleteVal t))))"

definition TextOperand_ToValue :: "('v, 'f, 'z) value_api_scheme \<Rightarrow> TextOperand \<Rightarrow> 'v" where
  "TextOperand_ToValue E t =
     (let m = [(''p'', AInt (Offset t))]
              @ (case InsertVal t of Some s \<Rightarrow> [(''i'', AStr s)] | None \<Rightarrow> [])
              @ (case DeleteVal t of Some s \<Rightarrow> [(''d'', AStr s)] | None \<Rightarrow> [])
      in case UnmarshalValue E (json_Marshal E (AMap m)) of Inr node \<Rightarrow> node | Inl _ \<Rightarrow> nilValue E)"

definition TextOperand_FromValue ::
    "('v, 'f, 'z) value_api_scheme \<Rightarrow> TextOperand \<Rightarrow> 'v \<Rightarrow> TextOperand res" where
  "TextOperand_FromValue E t node =
     (case GetIntKey E node ''p'' of
        None \<Rightarrow> Inl (CodeError InvalidOperation)
      | Some p \<Rightarrow>
          (let t1 = t\<lparr>Offset := p\<rparr>;
               t2 = (case GetKey E node ''i'' of
                       Some n \<Rightarrow> t1\<lparr>InsertVal := Some (OrEmpty (GetString E n))\<rparr> | None \<Rightarrow> t1);
               t3 = (case GetKey E node ''d'' of
                       Some n \<Rightarrow> t2\<lparr>DeleteVal := Some (OrEmpty (GetString E n))\<rparr> | None \<Rightarrow> t2)
           in Inr t3))"

section \<open>The text subtype\<close>

definition Text_Invert ::
    "('v, 'f, 'z) value_api_scheme \<Rightarrow> SubType \<Rightarrow> 'v \<Rightarrow> 'v operator res" where
  "Text_Invert E subType subTypeOperand =
     andThen (TextOperand_FromValue E emptyTextOperand subTypeOperand) (\<lambda>textOperand.
     andThen (InvertObject textOperand) (\<lambda>invertedOperand.
       Inr (SubTypeOperator subType (TextOperand_ToValue E invertedOperand) TextSubType)))"

definition Text_Merge ::
    "('v, 'f, 'z) value_api_scheme \<Rightarrow> 'v \<Rightarrow> 'v operator \<Rightarrow> 'v operator option res" where
  "Text_Merge E baseOperand other =
     (case other of
        SubTypeOperator _ value _ \<Rightarrow>
          (case (TextOperand_FromValue E emptyTextOperand baseOperand,
                 TextOperand_FromValue E emptyTextOperand value) of
             (Inr base, Inr oth) \<Rightarrow>
               if IsInsert base \<and> IsInsert oth \<and> Offset base \<le> Offset oth
                  \<and> Offset oth \<le> i64 (Offset base + int (length (MustGetInsertVal base))) then
                 (let baseInsertVal = MustGetInsertVal base;
                      otherInsertVal = MustGetInsertVal oth;
                      splitAt = i64 (Offset oth - Offset base)
                  in andThen (SubString baseInsertVal 0 splitAt) (\<lambda>left.
                     andThen (SubString baseInsertVal splitAt (int (length baseInsertVal))) (\<lambda>right.
                       Inr (Some (SubTypeOperator Text
                         (TextOperand_ToValue E
                            (NewInsertTextOperand (Offset base) (left @ otherInsertVal @ right)))
                         TextSubType)))))
               else if IsDelete base \<and> IsDelete oth \<and> Offset oth \<le> Offset base
                  \<and> Offset base \<le> i64 (Offset oth + int (length (MustGetDeleteVal oth))) then
                 (let baseDeleteVal = MustGetDeleteVal base;
                      otherDeleteVal = MustGetDeleteVal oth;
                      splitAt = i64 (Offset base - Offset oth)
                  in andThen (SubString otherDeleteVal 0 splitAt) (\<lambda>left.
                     andThen (SubString otherDeleteVal splitAt (int (length otherDeleteVal))) (\<lambda>right.
                       Inr (Some (SubTypeOperator Text
                         (TextOperand_ToValue E
                            (NewDeleteTextOperand (Offset oth) (left @ baseDeleteVal @ right)))
                         TextSubType)))))
               else Inr None
           | _ \<Rightarrow> Inr None)
      | _ \<Rightarrow> Inr None)"

text \<open>
  \<open>TextSubType.Transform\<close>.  The last part reads the new operand's delete string where the
  base's is meant (\<open>baseDeleteStr := newTextOperand.MustGetDeleteVal()\<close>), as the source does.
\<close>

definition Text_Transform ::
    "('v, 'f, 'z) value_api_scheme \<Rightarrow> 'v \<Rightarrow> 'v \<Rightarrow> TransformSide \<Rightarrow> 'v list res" where
  "Text_Transform E newVal baseVal side =
     andThen (TextOperand_FromValue E emptyTextOperand newVal) (\<lambda>new.
     andThen (TextOperand_FromValue E emptyTextOperand baseVal) (\<lambda>base.
       if IsInsert new then
         (let p = TransformPosition base (Offset new) (side = TransformSideRight)
          in Inr [TextOperand_ToValue E (NewInsertTextOperand p (MustGetInsertVal new))])
       else
         (let deleteStr = MustGetDeleteVal new; baseP = Offset base; newP = Offset new
          in case GetInsertVal base of
               Some baseInsert \<Rightarrow>
                 andThen (if newP < baseP then
                            andThen (SubString deleteStr 0 (i64 (baseP - newP))) (\<lambda>trimmedStr.
                              Inr [TextOperand_ToValue E (NewDeleteTextOperand newP trimmedStr)])
                          else Inr []) (\<lambda>result.
                 andThen (SubString deleteStr (i64 (baseP - newP)) (int (length deleteStr))) (\<lambda>deleteStr.
                   if deleteStr \<noteq> '''' then
                     (let remainOffset = i64 (newP + int (length baseInsert))
                      in Inr (result @ [TextOperand_ToValue E (NewDeleteTextOperand remainOffset deleteStr)]))
                   else Inr result))
             | None \<Rightarrow>
                 (let baseDeleteStr = MustGetDeleteVal new in
                  if newP \<ge> i64 (baseP + int (length baseDeleteStr)) then
                    Inr [TextOperand_ToValue E
                           (NewDeleteTextOperand (i64 (newP - int (length baseDeleteStr))) deleteStr)]
                  else if i64 (newP + int (length deleteStr)) \<le> baseP then
                    Inr [TextOperand_ToValue E (NewDeleteTextOperand newP deleteStr)]
                  else
                    andThen (if newP < baseP then SubString deleteStr 0 (i64 (baseP - newP))
                             else Inr '''') (\<lambda>newDeleteStr.
                    andThen (if i64 (newP + int (length deleteStr)) > i64 (baseP + int (length baseDeleteStr))
                             then andThen (SubString deleteStr
                                     (i64 (i64 (baseP + int (length baseDeleteStr)) - newP))
                                     (int (length deleteStr))) (\<lambda>more. Inr (newDeleteStr @ more))
                             else Inr newDeleteStr) (\<lambda>newDeleteStr.
                      if newDeleteStr \<noteq> '''' then
                        (let offset = TransformPosition new newP False
                         in Inr [TextOperand_ToValue E (NewDeleteTextOperand offset newDeleteStr)])
                      else Inr [])))))) "

definition Text_ValidateOperand :: "('v, 'f, 'z) value_api_scheme \<Rightarrow> 'v \<Rightarrow> unit res" where
  "Text_ValidateOperand E val =
     (if GetIntKey E val ''p'' = None then Inl (CodeError InvalidOperation)
      else if (case GetKey E val ''i'' of Some n \<Rightarrow> \<not> IsString E n | None \<Rightarrow> False)
      then Inl (CodeError InvalidOperation)
      else if (case GetKey E val ''d'' of Some n \<Rightarrow> \<not> IsString E n | None \<Rightarrow> False)
      then Inl (CodeError InvalidOperation)
      else Inr ())"

definition Text_Apply ::
    "('v, 'f, 'z) value_api_scheme \<Rightarrow> 'v option \<Rightarrow> 'v \<Rightarrow> 'v option res" where
  "Text_Apply E val subTypeOperand =
     andThen (Text_ValidateOperand E subTypeOperand) (\<lambda>_.
     andThen (TextOperand_FromValue E emptyTextOperand subTypeOperand) (\<lambda>text.
       if (case val of None \<Rightarrow> True | Some v \<Rightarrow> IsNull E v) then
         (case GetInsertVal text of
            Some s \<Rightarrow> Inr (Some (ValueFromString E s))
          | None \<Rightarrow> Inr None)
       else
         (let p = Offset text in
          andThen (MustSome val) (\<lambda>v.
          if IsNull E v then Inr (Some (ValueFromString E ''''))
          else case GetString E v of
            Inl _ \<Rightarrow> Inl (CodeError InvalidParameter)
          | Inr s \<Rightarrow>
              (case GetInsertVal text of
                 Some insertVal \<Rightarrow>
                   if p \<le> int (length s) then
                     andThen (SubString s 0 p) (\<lambda>left.
                     andThen (SubString s p (int (length s))) (\<lambda>right.
                       Inr (Some (ValueFromString E (left @ insertVal @ right)))))
                   else Inr (Some (ValueFromString E (s @ insertVal)))
               | None \<Rightarrow>
                   (let toDelete = MustGetDeleteVal text in
                    andThen (SubString s p (int (length toDelete))) (\<lambda>deletedStr.
                      if toDelete \<noteq> deletedStr then Inl (CodeError InvalidOperation)
                      else if p < int (length s) then
                        andThen (SubString s 0 p) (\<lambda>left.
                        andThen (SubString s (i64 (p + int (length toDelete))) (int (length s))) (\<lambda>right.
                          Inr (Some (ValueFromString E (left @ right)))))
                      else Inr (Some (ValueFromString E s)))))))))"

section \<open>Dispatch\<close>

text \<open>The calls through the \<open>SubTypeFunctions\<close> interface of a \<open>SubTypeOperator\<close>.\<close>

fun SubType_Invert :: "('v, 'f) env \<Rightarrow> SubTypeFn \<Rightarrow> SubType \<Rightarrow> Path \<Rightarrow> 'v \<Rightarrow> 'v operator res" where
  "SubType_Invert E NumberAddSubType t path v = NumberAdd_Invert E t v"
| "SubType_Invert E TextSubType t path v = Text_Invert E t v"
| "SubType_Invert E (UserSubType n) t path v = impl_Invert (user_subtypes E n) t path v"

fun SubType_Merge :: "('v, 'f) env \<Rightarrow> SubTypeFn \<Rightarrow> 'v \<Rightarrow> 'v operator \<Rightarrow> 'v operator option res" where
  "SubType_Merge E NumberAddSubType v other = NumberAdd_Merge E v other"
| "SubType_Merge E TextSubType v other = Text_Merge E v other"
| "SubType_Merge E (UserSubType n) v other = Inr (impl_Merge (user_subtypes E n) v other)"

fun SubType_Transform :: "('v, 'f) env \<Rightarrow> SubTypeFn \<Rightarrow> 'v \<Rightarrow> 'v \<Rightarrow> TransformSide \<Rightarrow> 'v list res" where
  "SubType_Transform E NumberAddSubType newVal baseVal side = NumberAdd_Transform newVal baseVal side"
| "SubType_Transform E TextSubType newVal baseVal side = Text_Transform E newVal baseVal side"
| "SubType_Transform E (UserSubType n) newVal baseVal side =
     impl_Transform (user_subtypes E n) newVal baseVal side"

fun SubType_Apply :: "('v, 'f) env \<Rightarrow> SubTypeFn \<Rightarrow> 'v option \<Rightarrow> 'v \<Rightarrow> 'v option res" where
  "SubType_Apply E NumberAddSubType val v = NumberAdd_Apply E val v"
| "SubType_Apply E TextSubType val v = Text_Apply E val v"
| "SubType_Apply E (UserSubType n) val v = impl_Apply (user_subtypes E n) val v"

text \<open>
  Comparing two \<open>SubType\<close> interface values compares pointers: two \<open>*Custom\<close> are equal only
  when they are the same allocation.
\<close>

fun SubType_eq :: "('v, 'f, 'z) value_api_scheme \<Rightarrow> SubType \<Rightarrow> SubType \<Rightarrow> bool" where
  "SubType_eq E NumberAdd NumberAdd = sameZeroSize E"
| "SubType_eq E Text Text = sameZeroSize E"
| "SubType_eq E (Custom i a) (Custom j b) = (i = j)"
| "SubType_eq E _ _ = False"

end
