(* ===== verification/Operations.thy ===== *)
theory Operations
  imports SubTypes
begin

text \<open>
  \<open>operation.go\<close>: inverting and merging components, operations as lists of components with
  \<open>Append\<close> and \<open>Compose\<close>, and the builders.  An \<open>Operation\<close> holds a pointer to a
  \<open>container/list\<close>: \<open>None\<close> is the nil pointer \<open>EmptyOperation\<close> leaves, on which every
  method but \<open>ToValue\<close> panics.
\<close>

section \<open>Writing a component as a value\<close>

definition Component_ToValue :: "('v, 'f) env \<Rightarrow> 'v OperationComponent \<Rightarrow> 'v" where
  "Component_ToValue E oc =
     (let rawPath = map (\<lambda>element. if Key element \<noteq> '''' then AStr (Key element)
                                   else AInt (Index element)) (Path oc);
          raw = (\<lambda>v. ARaw (RawMessage E v));
          obj = (case Operator oc of
                   ListDelete v \<Rightarrow> [(''ld'', raw v)]
                 | ListInsert v \<Rightarrow> [(''li'', raw v)]
                 | ListReplace n d \<Rightarrow> [(''li'', raw n), (''ld'', raw d)]
                 | ListMove i \<Rightarrow> [(''lm'', AInt i)]
                 | ObjectInsert v \<Rightarrow> [(''oi'', raw v)]
                 | ObjectDelete v \<Rightarrow> [(''od'', raw v)]
                 | ObjectReplace n d \<Rightarrow> [(''oi'', raw n), (''od'', raw d)]
                 | SubTypeOperator st v _ \<Rightarrow>
                     (case st of
                        NumberAdd \<Rightarrow> [(''na'', raw v)]
                      | _ \<Rightarrow> [(''t'', AStr (TypeName st)), (''o'', raw v)])
                 | _ \<Rightarrow> [])
      in ValueFromAny E (AMap ((''p'', AList rawPath) # obj)))"

section \<open>Inverting a component\<close>

text \<open>
  \<open>Invert\<close> returns the result and the receiver afterwards: for a move, \<open>path.Replace\<close>
  writes into the slice the receiver's path shares.  A subtype whose \<open>Invert\<close> fails leaves a
  nil operator, on which \<open>NewOperationComponent\<close> panics; so does \<open>Noop{}\<close>, which no case of
  the switch matches.
\<close>

definition Component_Invert ::
    "('v, 'f) env \<Rightarrow> 'v OperationComponent \<Rightarrow> 'v OperationComponent res \<times> 'v OperationComponent" where
  "Component_Invert E oc =
     (let path = Path oc in
      case Operator oc of
        Noop \<Rightarrow> (Inr (NewOperationComponent path Noop), oc)
      | NoopValue \<Rightarrow> (Inl Panic, oc)
      | SubTypeOperator st v fn \<Rightarrow>
          (case SubType_Invert E fn st path v of
             Inr operator \<Rightarrow> (Inr (NewOperationComponent path operator), oc)
           | Inl _ \<Rightarrow> (Inl Panic, oc))
      | ListInsert v \<Rightarrow> (Inr (NewOperationComponent path (ListDelete v)), oc)
      | ListDelete v \<Rightarrow> (Inr (NewOperationComponent path (ListInsert v)), oc)
      | ListReplace n d \<Rightarrow> (Inr (NewOperationComponent path (ListReplace d n)), oc)
      | ListMove newIndex \<Rightarrow>
          (case Path_Replace path (Path_Len path - 1) (PathElementFromIndex newIndex) of
             Inl e \<Rightarrow> (Inl e, oc)
           | Inr (oldPath, path') \<Rightarrow>
               (case oldPath of
                  Some old \<Rightarrow>
                    if Index old \<noteq> 0
                    then (Inr (NewOperationComponent path' (ListMove (Index old))), oc\<lparr>Path := path'\<rparr>)
                    else (Inl (CodeError BadPath), oc\<lparr>Path := path'\<rparr>)
                | None \<Rightarrow> (Inl (CodeError BadPath), oc\<lparr>Path := path'\<rparr>)))
      | ObjectInsert v \<Rightarrow> (Inr (NewOperationComponent path (ObjectDelete v)), oc)
      | ObjectDelete v \<Rightarrow> (Inr (NewOperationComponent path (ObjectInsert v)), oc)
      | ObjectReplace n d \<Rightarrow> (Inr (NewOperationComponent path (ObjectReplace d n)), oc))"

section \<open>Merging components\<close>

definition MergeListInsert ::
    "('v, 'f) env \<Rightarrow> 'v OperationComponent \<Rightarrow> 'v \<Rightarrow> 'v operator option" where
  "MergeListInsert E op v1 =
     (case Operator op of
        ListDelete v2 \<Rightarrow> if Equals E v1 v2 then Some Noop else None
      | ListReplace n2 d2 \<Rightarrow> if Equals E v1 d2 then Some (ListInsert n2) else None
      | _ \<Rightarrow> None)"

text \<open>The delete case compares the two interfaces with \<open>==\<close>, the others use \<open>Equals\<close>.\<close>

definition MergeListReplace ::
    "('v, 'f) env \<Rightarrow> 'v OperationComponent \<Rightarrow> 'v \<Rightarrow> 'v \<Rightarrow> 'v operator option" where
  "MergeListReplace E op n1 d1 =
     (case Operator op of
        ListDelete v2 \<Rightarrow> if sameInterface E n1 v2 then Some (ListDelete d1) else None
      | ListReplace n2 d2 \<Rightarrow> if Equals E n1 d2 then Some (ListReplace n2 d1) else None
      | _ \<Rightarrow> None)"

definition MergeObjectInsert ::
    "('v, 'f) env \<Rightarrow> 'v OperationComponent \<Rightarrow> 'v \<Rightarrow> 'v operator option" where
  "MergeObjectInsert E op v1 =
     (case Operator op of
        ObjectDelete v2 \<Rightarrow> if Equals E v1 v2 then Some Noop else None
      | ObjectReplace n2 d2 \<Rightarrow> if Equals E v1 d2 then Some (ObjectInsert n2) else None
      | _ \<Rightarrow> None)"

definition MergeObjectReplace ::
    "('v, 'f) env \<Rightarrow> 'v OperationComponent \<Rightarrow> 'v \<Rightarrow> 'v \<Rightarrow> 'v operator option" where
  "MergeObjectReplace E op n1 d1 =
     (case Operator op of
        ObjectDelete v2 \<Rightarrow> if Equals E n1 v2 then Some (ObjectDelete d1) else None
      | ObjectReplace n2 d2 \<Rightarrow> if Equals E n1 d2 then Some (ObjectReplace n2 d1) else None
      | _ \<Rightarrow> None)"

definition Component_Merge ::
    "('v, 'f) env \<Rightarrow> 'v OperationComponent \<Rightarrow> 'v OperationComponent \<Rightarrow>
     'v OperationComponent option res" where
  "Component_Merge E oc op =
     andThen (case Operator oc of
                Noop \<Rightarrow> Inr (Some Noop)
              | SubTypeOperator _ v1 fn \<Rightarrow> SubType_Merge E fn v1 (Operator op)
              | ListInsert v1 \<Rightarrow> Inr (MergeListInsert E op v1)
              | ListReplace n1 d1 \<Rightarrow> Inr (MergeListReplace E op n1 d1)
              | ObjectInsert v1 \<Rightarrow> Inr (MergeObjectInsert E op v1)
              | ObjectDelete v1 \<Rightarrow>
                  (case Operator op of
                     ObjectInsert v2 \<Rightarrow> Inr (Some (ObjectReplace v2 v1))
                   | _ \<Rightarrow> Inr None)
              | ObjectReplace n1 d1 \<Rightarrow> Inr (MergeObjectReplace E op n1 d1)
              | _ \<Rightarrow> Inr None) (\<lambda>newOp.
       case newOp of None \<Rightarrow> Inr None
       | Some operator \<Rightarrow> Inr (Some \<lparr>Operator = operator, Path = Path oc\<rparr>))"

section \<open>Operations\<close>

type_synonym 'v Operation = "'v OperationComponent list option"

definition NewOperation :: "'v OperationComponent list \<Rightarrow> 'v Operation" where
  "NewOperation operations = Some operations"

definition EmptyOperation :: "'v Operation" where
  "EmptyOperation = None"

text \<open>Reading the list through the pointer.\<close>

fun Operation_Array :: "'v Operation \<Rightarrow> 'v OperationComponent list res" where
  "Operation_Array None = Inl Panic"
| "Operation_Array (Some ops) = Inr ops"

definition Operation_ToValue :: "('v, 'f) env \<Rightarrow> 'v Operation \<Rightarrow> 'v" where
  "Operation_ToValue E o' =
     (case o' of None \<Rightarrow> ValueFromArray E []
      | Some ops \<Rightarrow> if ops = [] then ValueFromArray E []
                   else ValueFromArray E (map (Component_ToValue E) ops))"

definition Operation_Append ::
    "('v, 'f) env \<Rightarrow> 'v Operation \<Rightarrow> 'v OperationComponent \<Rightarrow> 'v Operation res" where
  "Operation_Append E o' op =
     andThen (case Operator op of
                ListMove newIndex \<Rightarrow>
                  andThen (Path_Get (Path op) (Path_Len (Path op) - 1)) (\<lambda>lastPath.
                    case lastPath of None \<Rightarrow> Inr False
                    | Some pe \<Rightarrow> Inr (Index pe = newIndex))
              | _ \<Rightarrow> Inr False) (\<lambda>skip.
       if skip then Inr o'
       else
         andThen (Operation_Array o') (\<lambda>ops.
         if ops = [] then Inr (Some [op])
         else
           (let lastOC = last ops in
            if Path_Equal (Path lastOC) (Path op) then
              andThen (Component_Merge E lastOC op) (\<lambda>newOp.
                case newOp of
                  Some m \<Rightarrow> Inr (Some (butlast ops @ [m]))
                | None \<Rightarrow> (case Operator lastOC of
                            NoopValue \<Rightarrow> Inr (Some (butlast ops))
                          | _ \<Rightarrow> Inr (Some (ops @ [op]))))
            else Inr (Some (ops @ [op])))))"

fun Compose_loop ::
    "('v, 'f) env \<Rightarrow> 'v Operation \<Rightarrow> 'v OperationComponent list \<Rightarrow> 'v Operation res" where
  "Compose_loop E o' [] = Inr o'"
| "Compose_loop E o' (op # rest) =
     andThen (Operation_Append E o' op) (\<lambda>o''. Compose_loop E o'' rest)"

definition Operation_Compose :: "('v, 'f) env \<Rightarrow> 'v Operation \<Rightarrow> 'v Operation \<Rightarrow> 'v Operation res" where
  "Operation_Compose E o' other =
     andThen (Operation_Array other) (\<lambda>others. Compose_loop E o' others)"

fun components_Validation :: "'v OperationComponent list \<Rightarrow> unit res" where
  "components_Validation [] = Inr ()"
| "components_Validation (op # ops) =
     andThen (Component_Validation op) (\<lambda>_. components_Validation ops)"

definition Operation_Validation :: "'v Operation \<Rightarrow> unit res" where
  "Operation_Validation o' = andThen (Operation_Array o') components_Validation"

definition Operation_IsEmpty :: "'v Operation \<Rightarrow> bool res" where
  "Operation_IsEmpty o' = andThen (Operation_Array o') (\<lambda>ops. Inr (length ops = 0))"

definition Operation_Len :: "'v Operation \<Rightarrow> int res" where
  "Operation_Len o' = andThen (Operation_Array o') (\<lambda>ops. Inr (int (length ops)))"

section \<open>Builders\<close>

record 'v ListOperationBuilder =
  lb_insert :: "'v option"
  lb_delete :: "'v option"
  lb_path :: Path
  lb_moveTo :: "int option"

definition NewListOperationBuilder :: "Path \<Rightarrow> 'v ListOperationBuilder" where
  "NewListOperationBuilder path =
     \<lparr>lb_insert = None, lb_delete = None, lb_path = path, lb_moveTo = None\<rparr>"

definition ListBuilder_Insert :: "'v ListOperationBuilder \<Rightarrow> 'v \<Rightarrow> 'v ListOperationBuilder" where
  "ListBuilder_Insert b val = b\<lparr>lb_insert := Some val\<rparr>"

definition ListBuilder_Delete :: "'v ListOperationBuilder \<Rightarrow> 'v \<Rightarrow> 'v ListOperationBuilder" where
  "ListBuilder_Delete b val = b\<lparr>lb_delete := Some val\<rparr>"

definition ListBuilder_Replace :: "'v ListOperationBuilder \<Rightarrow> 'v \<Rightarrow> 'v \<Rightarrow> 'v ListOperationBuilder" where
  "ListBuilder_Replace b oldVal newVal = b\<lparr>lb_insert := Some newVal, lb_delete := Some oldVal\<rparr>"

definition ListBuilder_MoveTo :: "'v ListOperationBuilder \<Rightarrow> int \<Rightarrow> 'v ListOperationBuilder" where
  "ListBuilder_MoveTo b newIndex = b\<lparr>lb_moveTo := Some newIndex\<rparr>"

definition ListBuilder_Build :: "'v ListOperationBuilder \<Rightarrow> 'v OperationComponent res" where
  "ListBuilder_Build b =
     (case lb_moveTo b of
        Some i \<Rightarrow> Inr (NewOperationComponent (lb_path b) (ListMove i))
      | None \<Rightarrow>
          (case lb_delete b of
             Some d \<Rightarrow>
               (case lb_insert b of
                  Some n \<Rightarrow> Inr (NewOperationComponent (lb_path b) (ListReplace n d))
                | None \<Rightarrow> Inr (NewOperationComponent (lb_path b) (ListDelete d)))
           | None \<Rightarrow>
               (case lb_insert b of
                  Some n \<Rightarrow> Inr (NewOperationComponent (lb_path b) (ListInsert n))
                | None \<Rightarrow> Inr (NewOperationComponent (lb_path b) Noop))))"

record 'v ObjectOperationBuilder =
  ob_insert :: "'v option"
  ob_delete :: "'v option"
  ob_replace :: "'v option"
  ob_path :: Path

definition NewObjectOperationBuilder :: "Path \<Rightarrow> 'v ObjectOperationBuilder" where
  "NewObjectOperationBuilder path =
     \<lparr>ob_insert = None, ob_delete = None, ob_replace = None, ob_path = path\<rparr>"

definition ObjectBuilder_Insert :: "'v ObjectOperationBuilder \<Rightarrow> 'v \<Rightarrow> 'v ObjectOperationBuilder" where
  "ObjectBuilder_Insert b val = b\<lparr>ob_insert := Some val\<rparr>"

definition ObjectBuilder_Delete :: "'v ObjectOperationBuilder \<Rightarrow> 'v \<Rightarrow> 'v ObjectOperationBuilder" where
  "ObjectBuilder_Delete b val = b\<lparr>ob_delete := Some val\<rparr>"

definition ObjectBuilder_Replace ::
    "'v ObjectOperationBuilder \<Rightarrow> 'v \<Rightarrow> 'v \<Rightarrow> 'v ObjectOperationBuilder" where
  "ObjectBuilder_Replace b oldVal newVal = b\<lparr>ob_replace := Some newVal, ob_delete := Some oldVal\<rparr>"

text \<open>\<open>Build\<close> reads \<open>delete\<close> and \<open>insert\<close> only, never \<open>replace\<close>.\<close>

definition ObjectBuilder_Build :: "'v ObjectOperationBuilder \<Rightarrow> 'v OperationComponent res" where
  "ObjectBuilder_Build b =
     (case ob_delete b of
        Some d \<Rightarrow>
          (case ob_insert b of
             Some n \<Rightarrow> Inr (NewOperationComponent (ob_path b) (ObjectReplace n d))
           | None \<Rightarrow> Inr (NewOperationComponent (ob_path b) (ObjectDelete d)))
      | None \<Rightarrow>
          (case ob_insert b of
             Some n \<Rightarrow> Inr (NewOperationComponent (ob_path b) (ObjectInsert n))
           | None \<Rightarrow> Inr (NewOperationComponent (ob_path b) Noop)))"

record 'f NumberAddOperationBuilder =
  nb_path :: Path
  nb_numberInt :: "int option"
  nb_numberFlt :: "'f option"
  nb_subTypeFunctions :: SubTypeFn

definition NewNumberAddOperationBuilder :: "Path \<Rightarrow> SubTypeFn \<Rightarrow> 'f NumberAddOperationBuilder" where
  "NewNumberAddOperationBuilder path fn =
     \<lparr>nb_path = path, nb_numberInt = None, nb_numberFlt = None, nb_subTypeFunctions = fn\<rparr>"

definition NumberBuilder_AddInt :: "'f NumberAddOperationBuilder \<Rightarrow> int \<Rightarrow> 'f NumberAddOperationBuilder" where
  "NumberBuilder_AddInt b val = b\<lparr>nb_numberInt := Some val\<rparr>"

definition NumberBuilder_AddFloat :: "'f NumberAddOperationBuilder \<Rightarrow> 'f \<Rightarrow> 'f NumberAddOperationBuilder" where
  "NumberBuilder_AddFloat b val = b\<lparr>nb_numberFlt := Some val\<rparr>"

text \<open>The second test is \<open>b.numberFlt.IsAbsent()\<close>, and its branch calls \<open>MustGet\<close>.\<close>

definition NumberBuilder_Build ::
    "('v, 'f) env \<Rightarrow> 'f NumberAddOperationBuilder \<Rightarrow> 'v OperationComponent res" where
  "NumberBuilder_Build E b =
     (case nb_numberInt b of
        Some i \<Rightarrow> Inr (NewOperationComponent (nb_path b)
                   (SubTypeOperator NumberAdd (ValueFromInt E i) (nb_subTypeFunctions b)))
      | None \<Rightarrow>
          if nb_numberFlt b = None then
            andThen (MustSome (nb_numberFlt b)) (\<lambda>x.
              Inr (NewOperationComponent (nb_path b)
                (SubTypeOperator NumberAdd (ValueFromFloat E x) (nb_subTypeFunctions b))))
          else Inl (CodeError InvalidOperation))"

record TextOperationBuilder =
  tb_subTypeFunction :: SubTypeFn
  tb_insertVal :: "string option"
  tb_deleteVal :: "string option"
  tb_path :: Path
  tb_offset :: int

definition NewTextOperationBuilder :: "Path \<Rightarrow> SubTypeFn \<Rightarrow> TextOperationBuilder" where
  "NewTextOperationBuilder path fn =
     \<lparr>tb_subTypeFunction = fn, tb_insertVal = None, tb_deleteVal = None, tb_path = path, tb_offset = 0\<rparr>"

definition TextBuilder_InsertStr ::
    "TextOperationBuilder \<Rightarrow> int \<Rightarrow> string option \<Rightarrow> TextOperationBuilder" where
  "TextBuilder_InsertStr b offset val = b\<lparr>tb_offset := offset, tb_insertVal := val\<rparr>"

definition TextBuilder_DeleteStr ::
    "TextOperationBuilder \<Rightarrow> int \<Rightarrow> string option \<Rightarrow> TextOperationBuilder" where
  "TextBuilder_DeleteStr b offset val = b\<lparr>tb_offset := offset, tb_deleteVal := val\<rparr>"

definition TextBuilder_Build :: "('v, 'f) env \<Rightarrow> TextOperationBuilder \<Rightarrow> 'v OperationComponent res" where
  "TextBuilder_Build E b =
     (if (tb_insertVal b = None \<and> tb_deleteVal b = None) \<or> (tb_insertVal b \<noteq> None \<and> tb_deleteVal b \<noteq> None)
      then Inl (CodeError InvalidOperation)
      else
        andThen (case tb_insertVal b of
                   Some s \<Rightarrow> Inr (''i'', AStr s)
                 | None \<Rightarrow> andThen (MustSome (tb_deleteVal b)) (\<lambda>s. Inr (''d'', AStr s))) (\<lambda>entry.
          Inr (NewOperationComponent (tb_path b)
            (SubTypeOperator Text (ValueFromAny E (AMap [(''p'', AInt (tb_offset b)), entry]))
               (tb_subTypeFunction b)))))"

record 'v SubTypeOperationBuilder =
  sb_subType :: SubType
  sb_subTypeOperand :: "'v option"
  sb_subTypeFunction :: "SubTypeFn option"
  sb_path :: Path

definition NewSubTypeOperationBuilder ::
    "Path \<Rightarrow> SubType \<Rightarrow> SubTypeFn option \<Rightarrow> 'v SubTypeOperationBuilder" where
  "NewSubTypeOperationBuilder path subType fn =
     \<lparr>sb_subType = subType, sb_subTypeOperand = None, sb_subTypeFunction = fn, sb_path = path\<rparr>"

definition SubTypeBuilder_Operand ::
    "'v SubTypeOperationBuilder \<Rightarrow> 'v \<Rightarrow> 'v SubTypeOperationBuilder" where
  "SubTypeBuilder_Operand b val = b\<lparr>sb_subTypeOperand := Some val\<rparr>"

definition SubTypeBuilder_Functions ::
    "'v SubTypeOperationBuilder \<Rightarrow> SubTypeFn \<Rightarrow> 'v SubTypeOperationBuilder" where
  "SubTypeBuilder_Functions b fn = b\<lparr>sb_subTypeFunction := Some fn\<rparr>"

definition SubTypeBuilder_Build :: "'v SubTypeOperationBuilder \<Rightarrow> 'v OperationComponent res" where
  "SubTypeBuilder_Build b =
     (case sb_subTypeOperand b of
        None \<Rightarrow> Inl (CodeError InvalidOperation)
      | Some v \<Rightarrow>
          (case sb_subTypeFunction b of
             None \<Rightarrow> Inl (CodeError InvalidOperation)
           | Some fn \<Rightarrow> Inr (NewOperationComponent (sb_path b) (SubTypeOperator (sb_subType b) v fn))))"

end
