(* ===== verification/ApplyOps.thy ===== *)
theory ApplyOps
  imports Operations
begin

text \<open>
  \<open>apply.go\<close>: walking a path (\<open>RouteGet\<close>), writing back along it (\<open>RouteSet\<close>) and applying an
  operator to the array or object at its end.  The \<open>ValueBrian\<close> wrapper's parent links are
  only stored, never read, so a wrapped value is its value.  A function that changes the value
  it is given returns the new content.
\<close>

section \<open>Reading and writing along a path\<close>

fun RouteGetOnValue :: "('v, 'f, 'z) value_api_scheme \<Rightarrow> 'v \<Rightarrow> Path \<Rightarrow> ValueType \<Rightarrow> 'v option res"
  and RouteGetOnArray :: "('v, 'f, 'z) value_api_scheme \<Rightarrow> 'v \<Rightarrow> Path \<Rightarrow> ValueType \<Rightarrow> 'v option res"
  and RouteGetOnObject :: "('v, 'f, 'z) value_api_scheme \<Rightarrow> 'v \<Rightarrow> Path \<Rightarrow> ValueType \<Rightarrow> 'v option res" where
  "RouteGetOnValue V val paths valType =
     (case Type V val of
        Array \<Rightarrow> RouteGetOnArray V val paths valType
      | Object \<Rightarrow> RouteGetOnObject V val paths valType
      | _ \<Rightarrow> Inr None)"
| "RouteGetOnArray V val [] valType =
     andThen (GetArray V val) (\<lambda>arr. Inl (CodeError BadPath))"
| "RouteGetOnArray V val (pe # nextLevel) valType =
     andThen (GetArray V val) (\<lambda>arr.
     andThen (MustSome (FirstIndexPath (pe # nextLevel))) (\<lambda>index.
       if index < 0 then Inl (CodeError BadPath)
       else if index \<ge> int (length arr) then Inr (Some (NewValue V valType))
       else
         andThen (slice_get arr index) (\<lambda>node.
           if IsNull V node then Inr (Some (NewValue V valType))
           else
             (let node = PackAny V node in
              if nextLevel = [] then Inr (Some node)
              else RouteGetOnValue V node nextLevel valType))))"
| "RouteGetOnObject V obj [] valType = Inl (CodeError BadPath)"
| "RouteGetOnObject V obj (pe # nextLevel) valType =
     (case GetKey V obj (Key pe) of
        None \<Rightarrow> Inr (Some (NewValue V valType))
      | Some node \<Rightarrow>
          if nextLevel = [] then Inr (Some node)
          else RouteGetOnValue V node nextLevel valType)"

fun RouteSetOnValue :: "('v, 'f, 'z) value_api_scheme \<Rightarrow> 'v \<Rightarrow> Path \<Rightarrow> 'v \<Rightarrow> 'v res"
  and RouteSetOnArray :: "('v, 'f, 'z) value_api_scheme \<Rightarrow> 'v \<Rightarrow> Path \<Rightarrow> 'v \<Rightarrow> 'v res"
  and RouteSetOnObject :: "('v, 'f, 'z) value_api_scheme \<Rightarrow> 'v \<Rightarrow> Path \<Rightarrow> 'v \<Rightarrow> 'v res" where
  "RouteSetOnValue V val paths newValue =
     (let val = PackAny V val in
      case Type V val of
        Array \<Rightarrow> RouteSetOnArray V val paths newValue
      | Object \<Rightarrow> RouteSetOnObject V val paths newValue
      | _ \<Rightarrow> Inl (CodeError BadPath))"
| "RouteSetOnArray V arr [] newValue = Inl (CodeError BadPath)"
| "RouteSetOnArray V arr (pe # nextLevel) newValue =
     andThen (MustSome (FirstIndexPath (pe # nextLevel))) (\<lambda>index.
     andThen (GetArray V arr) (\<lambda>arrSlice.
       if index < 0 \<or> index \<ge> int (length arrSlice) then Inl (CodeError BadPath)
       else if nextLevel = [] then UpdateArray V arr (arrSlice[nat index := newValue])
       else
         andThen (slice_get arrSlice index) (\<lambda>child.
         andThen (RouteSetOnValue V child nextLevel newValue) (\<lambda>child.
           UpdateArray V arr (arrSlice[nat index := child])))))"
| "RouteSetOnObject V obj [] newValue = Inl (CodeError BadPath)"
| "RouteSetOnObject V obj (pe # nextLevel) newValue =
     (let key = Key pe;
          node = (case GetKey V obj key of Some node \<Rightarrow> node | None \<Rightarrow> ValueFromAny V (AMap []))
      in if nextLevel = [] then SetKey V obj key newValue
         else andThen (RouteSetOnValue V node nextLevel newValue) (\<lambda>child. SetKey V obj key child))"

section \<open>Arrays\<close>

text \<open>
  \<open>IndexFunc\<close>: the given index if the element there equals the searched value, else the only
  position of a simple value, else the given index; \<open>-1\<close> for an empty array.
\<close>

definition matching_indexes :: "('v, 'f, 'z) value_api_scheme \<Rightarrow> 'v list \<Rightarrow> 'v \<Rightarrow> int list" where
  "matching_indexes V arr search =
     map int (filter (\<lambda>k. Equals V (arr ! k) search) [0..<length arr])"

definition IndexFunc :: "('v, 'f, 'z) value_api_scheme \<Rightarrow> 'v list \<Rightarrow> 'v \<Rightarrow> int \<Rightarrow> int" where
  "IndexFunc V arr search inputIndex =
     (if arr = [] then -1
      else if inputIndex \<ge> 0 \<and> inputIndex < int (length arr)
              \<and> Equals V (arr ! nat inputIndex) search then inputIndex
      else
        (let indexes = (if IsSimpleValue V search then matching_indexes V arr search else [])
         in case indexes of [i] \<Rightarrow> i | _ \<Rightarrow> inputIndex))"

definition ApplyListDelete ::
    "('v, 'f, 'z) value_api_scheme \<Rightarrow> 'v list \<Rightarrow> 'v \<Rightarrow> int \<Rightarrow> 'v list res" where
  "ApplyListDelete V arr oldValue index =
     (let index = IndexFunc V arr oldValue index in
      if arr = [] then Inr arr
      else if index \<ge> 0 \<and> int (length arr) > index then slices_Delete arr index
      else Inr arr)"

definition ApplyListInsert :: "'v list \<Rightarrow> 'v \<Rightarrow> int \<Rightarrow> 'v list res" where
  "ApplyListInsert arr newValue index =
     (if index > int (length arr) then Inr (arr @ [newValue])
      else slices_Insert arr index newValue)"

text \<open>Both functions below ask for \<open>index > 0\<close>, so position 0 is never replaced or moved.\<close>

definition ApplyListReplace ::
    "('v, 'f, 'z) value_api_scheme \<Rightarrow> 'v list \<Rightarrow> 'v \<Rightarrow> 'v \<Rightarrow> int \<Rightarrow> 'v list" where
  "ApplyListReplace V arr newValue oldValue index =
     (let index = IndexFunc V arr oldValue index in
      if index > 0 \<and> index < int (length arr) then
        (let target = arr ! nat index in
         if \<not> IsNull V target then arr[nat index := newValue] else arr)
      else arr)"

definition ApplyListMove :: "'v list \<Rightarrow> int \<Rightarrow> int \<Rightarrow> 'v list res" where
  "ApplyListMove arr newIndex index =
     (if index > 0 \<and> index < int (length arr) then
        (if index \<noteq> newIndex then
           andThen (slice_get arr index) (\<lambda>oldValue.
           andThen (slices_Delete arr index) (\<lambda>arr.
             if newIndex > int (length arr) then Inr (arr @ [oldValue])
             else slices_Insert arr newIndex oldValue))
         else Inr arr)
      else Inr arr)"

text \<open>Object and subtype operators match no case: the array is returned as it is.\<close>

definition ApplyToArray ::
    "('v, 'f, 'z) value_api_scheme \<Rightarrow> 'v list \<Rightarrow> Path \<Rightarrow> 'v operator \<Rightarrow> 'v list res" where
  "ApplyToArray V arr paths operator =
     (case FirstIndexPath paths of
        None \<Rightarrow> Inl (CodeError BadPath)
      | Some index \<Rightarrow>
          if index < 0 then Inr arr
          else
            (case operator of
               ListDelete v \<Rightarrow> ApplyListDelete V arr v index
             | ListInsert v \<Rightarrow> ApplyListInsert arr v index
             | ListReplace n d \<Rightarrow> Inr (ApplyListReplace V arr n d index)
             | ListMove newIndex \<Rightarrow> ApplyListMove arr newIndex index
             | _ \<Rightarrow> Inr arr))"

section \<open>Objects\<close>

text \<open>\<open>fmt.Errorf("...: %w", err)\<close> around an error; a panic stays a panic.\<close>

fun wrapError :: "'a res \<Rightarrow> 'a res" where
  "wrapError (Inl Panic) = Inl Panic"
| "wrapError (Inl e) = Inl (WrapError e)"
| "wrapError (Inr x) = Inr x"

definition ApplyToObject :: "('v, 'f) env \<Rightarrow> 'v \<Rightarrow> Path \<Rightarrow> 'v operator \<Rightarrow> 'v res" where
  "ApplyToObject E obj paths operator =
     (if Path_Len paths < 1 then Inl (CodeError BadPath)
      else case FirstKeyPath paths of
        None \<Rightarrow> Inl (CodeError BadPath)
      | Some key \<Rightarrow>
          (case operator of
             ObjectInsert v \<Rightarrow> wrapError (SetKey E obj key v)
           | ObjectDelete _ \<Rightarrow>
               if GetKey E obj key = None then Inr obj else wrapError (DeleteKey E obj key)
           | ObjectReplace n _ \<Rightarrow> wrapError (SetKey E obj key n)
           | SubTypeOperator _ v fn \<Rightarrow>
               andThen (SubType_Apply E fn (GetKey E obj key) v) (\<lambda>result.
                 case result of
                   Some s \<Rightarrow> wrapError (SetKey E obj key s)
                 | None \<Rightarrow> Inr obj)
           | _ \<Rightarrow> Inl FmtError))"

section \<open>Applying an operator at a path\<close>

function ApplyToValue :: "('v, 'f) env \<Rightarrow> 'v \<Rightarrow> Path \<Rightarrow> 'v operator \<Rightarrow> 'v res" where
  "ApplyToValue E val paths operator =
     (if Path_Len paths > 1 then
        andThen (SplitAt paths (Path_Len paths - 1)) (\<lambda>(left, right).
          (let val = PackAny E val in
           andThen (RouteGetOnValue E val left (OperatorForValueType operator)) (\<lambda>leftVal.
             case leftVal of
               None \<Rightarrow> Inl (CodeError InvalidParameter)
             | Some lv \<Rightarrow>
                 andThen (wrapError (ApplyToValue E lv right operator)) (\<lambda>lv.
                   wrapError (RouteSetOnValue E val left lv)))))
      else
        (case Type E val of
           Array \<Rightarrow>
             andThen (GetArray E val) (\<lambda>arr.
             andThen (ApplyToArray E arr paths operator) (\<lambda>arrNode. UpdateArray E val arrNode))
         | Object \<Rightarrow>
             andThen (ApplyToObject E val paths operator) (\<lambda>node. UpdateObject E val node)
         | _ \<Rightarrow> Inl (CodeError InvalidParameter)))"
  by pat_completeness auto
termination
  by (relation "measure (\<lambda>(E, val, paths, operator). length paths)")
    (auto simp: Path_Len_def dest!: SplitAt_Inr)

declare ApplyToValue.simps [simp del]

definition ApplyToRootValue :: "('v, 'f) env \<Rightarrow> 'v \<Rightarrow> 'v operator \<Rightarrow> 'v res" where
  "ApplyToRootValue E val operator =
     (case operator of
        Noop \<Rightarrow> Inr val
      | ListInsert v \<Rightarrow> Inr v
      | ListDelete _ \<Rightarrow> Inr (ValueFromAny E ANil)
      | ListReplace n _ \<Rightarrow> Inr n
      | ObjectInsert v \<Rightarrow> Inr v
      | ObjectDelete _ \<Rightarrow> Inr (ValueFromAny E ANil)
      | ObjectReplace n _ \<Rightarrow> Inr n
      | SubTypeOperator _ v fn \<Rightarrow>
          andThen (SubType_Apply E fn (Some val) v) (\<lambda>result.
            case result of None \<Rightarrow> Inr (ValueFromAny E ANil) | Some r \<Rightarrow> Inr r)
      | _ \<Rightarrow> Inl FmtError)"

end
