(* ===== verification/TransformOps.thy ===== *)
theory TransformOps
  imports ApplyOps
begin

text \<open>
  \<open>transform.go\<close>.  \<open>TransformComponent(newOp, baseOp, side)\<close> changes the object \<open>newOp\<close> in
  place and returns a list that may hold it, so the model returns the pair of the Go result
  (\<open>mo.Result\<close>, an inner \<open>res\<close>) and of \<open>newOp\<close> afterwards; the outer \<open>res\<close> carries panics.
  \<open>Consume\<close> changes the deleted or replaced value, which clones of a component share by
  pointer; \<open>share_values\<close> carries that change over to the component that was cloned.  Sharing of
  a value between different components is not modelled.
\<close>

type_synonym 'v tc_result = "('v OperationComponent list res \<times> 'v OperationComponent) res"

text \<open>The Go result \<open>mo.Ok(\<dots>)\<close> with \<open>newOp\<close> in the list, and with other components.\<close>

definition keep :: "'v OperationComponent \<Rightarrow> 'v tc_result" where
  "keep newOp = Inr (Inr [newOp], newOp)"

definition emit :: "'v OperationComponent list \<Rightarrow> 'v OperationComponent \<Rightarrow> 'v tc_result" where
  "emit ops newOp = Inr (Inr ops, newOp)"

definition IsEquivalentToNoop :: "('v, 'f) env \<Rightarrow> 'v OperationComponent \<Rightarrow> bool" where
  "IsEquivalentToNoop E op =
     (case Operator op of
        Noop \<Rightarrow> True
      | ListReplace n d \<Rightarrow> Equals E n d
      | ObjectReplace n d \<Rightarrow> Equals E n d
      | ListMove newIndex \<Rightarrow>
          (case Path_Last (Path op) of Some lastPath \<Rightarrow> Index lastPath = newIndex | None \<Rightarrow> False)
      | _ \<Rightarrow> False)"

definition IsSameOperand :: "'v OperationComponent \<Rightarrow> 'v OperationComponent \<Rightarrow> bool" where
  "IsSameOperand opA opB =
     (case (Operator opA, Operator opB) of
        (SubTypeOperator _ _ _, _) \<Rightarrow> False
      | (_, SubTypeOperator _ _ _) \<Rightarrow> False
      | _ \<Rightarrow> Path_Len (Path opA) = Path_Len (Path opB))"

section \<open>Changing the path of the new component\<close>

definition increasePath :: "'v OperationComponent \<Rightarrow> int \<Rightarrow> 'v OperationComponent res" where
  "increasePath op i = andThen (IncreaseIndex (Path op) i) (\<lambda>p. Inr (op\<lparr>Path := p\<rparr>))"

definition decreasePath :: "'v OperationComponent \<Rightarrow> int \<Rightarrow> 'v OperationComponent res" where
  "decreasePath op i = andThen (DecreaseIndex (Path op) i) (\<lambda>p. Inr (op\<lparr>Path := p\<rparr>))"

definition replacePath :: "'v OperationComponent \<Rightarrow> int \<Rightarrow> PathElement \<Rightarrow> 'v OperationComponent res" where
  "replacePath op i pe = andThen (Path_Replace (Path op) i pe) (\<lambda>(old, p). Inr (op\<lparr>Path := p\<rparr>))"

definition whenDo :: "bool \<Rightarrow> ('a \<Rightarrow> 'a res) \<Rightarrow> 'a \<Rightarrow> 'a res" where
  "whenDo b f x = (if b then f x else Inr x)"

text \<open>\<open>p.Get(i).MustGet()\<close>.\<close>

definition mustGetElement :: "Path \<Rightarrow> int \<Rightarrow> PathElement res" where
  "mustGetElement p i = andThen (Path_Get p i) MustSome"

section \<open>Consuming an operation inside a deleted value\<close>

definition Consume ::
    "('v, 'f) env \<Rightarrow> 'v OperationComponent \<Rightarrow> Path \<Rightarrow> 'v OperationComponent \<Rightarrow> 'v OperationComponent res" where
  "Consume E op commonPath other =
     (let consumed = (\<lambda>old.
            andThen (SplitAt (Path other) (Path_Len commonPath)) (\<lambda>(p1, p2).
              ignoreError old (ApplyToValue E old p2 (Operator other))))
      in case Operator op of
           ListDelete d \<Rightarrow> andThen (consumed d) (\<lambda>d'. Inr (op\<lparr>Operator := ListDelete d'\<rparr>))
         | ListReplace n d \<Rightarrow> andThen (consumed d) (\<lambda>d'. Inr (op\<lparr>Operator := ListReplace n d'\<rparr>))
         | ObjectDelete d \<Rightarrow> andThen (consumed d) (\<lambda>d'. Inr (op\<lparr>Operator := ObjectDelete d'\<rparr>))
         | ObjectReplace n d \<Rightarrow> andThen (consumed d) (\<lambda>d'. Inr (op\<lparr>Operator := ObjectReplace n d'\<rparr>))
         | _ \<Rightarrow> Inr op)"

fun share_values :: "'v operator \<Rightarrow> 'v operator \<Rightarrow> 'v operator" where
  "share_values (ListDelete _) (ListDelete d) = ListDelete d"
| "share_values (ListReplace n _) (ListReplace _ d) = ListReplace n d"
| "share_values (ObjectDelete _) (ObjectDelete d) = ObjectDelete d"
| "share_values (ObjectReplace n _) (ObjectReplace _ d) = ObjectReplace n d"
| "share_values op _ = op"

section \<open>One function per base operator\<close>

definition TransformComponentForSubType ::
    "('v, 'f) env \<Rightarrow> 'v OperationComponent \<Rightarrow> 'v OperationComponent \<Rightarrow> TransformSide \<Rightarrow>
     SubType \<Rightarrow> 'v \<Rightarrow> SubTypeFn \<Rightarrow> 'v tc_result" where
  "TransformComponentForSubType E newOp baseOp side baseSubType baseValue baseFn =
     (case Operator newOp of
        SubTypeOperator newSubType newValue _ \<Rightarrow>
          if \<not> SubType_eq E baseSubType newSubType then keep newOp
          else
            andThen (reify (SubType_Transform E baseFn newValue baseValue side)) (\<lambda>ocs.
              case ocs of
                Inl e \<Rightarrow> Inr (Inl e, newOp)
              | Inr components \<Rightarrow>
                  emit (map (\<lambda>c. NewOperationComponent (Path baseOp)
                                   (SubTypeOperator baseSubType c baseFn)) components) newOp)
      | _ \<Rightarrow> keep newOp)"

definition TransformComponentForListReplace ::
    "('v, 'f) env \<Rightarrow> 'v OperationComponent \<Rightarrow> 'v OperationComponent \<Rightarrow> TransformSide \<Rightarrow>
     'v \<Rightarrow> 'v tc_result" where
  "TransformComponentForListReplace E newOp baseOp side baseNewValue =
     (if \<not> IsPrefixOf (Path baseOp) (Path newOp) then keep newOp
      else if \<not> IsSameOperand baseOp newOp then emit [] newOp
      else
        (case Operator newOp of
           ListReplace n _ \<Rightarrow>
             if side = TransformSideLeft
             then emit [NewOperationComponent (Path newOp) (ListReplace n baseNewValue)] newOp
             else emit [] newOp
         | ListDelete _ \<Rightarrow> emit [] newOp
         | _ \<Rightarrow> keep newOp))"

definition TransformComponentForListInsert ::
    "('v, 'f) env \<Rightarrow> 'v OperationComponent \<Rightarrow> 'v OperationComponent \<Rightarrow> TransformSide \<Rightarrow> 'v tc_result" where
  "TransformComponentForListInsert E newOp baseOp side =
     (let sameOperand = IsSameOperand baseOp newOp;
          baseOpIsPrefix = IsPrefixOf (Path baseOp) (Path newOp)
      in if (case Operator newOp of ListInsert _ \<Rightarrow> True | _ \<Rightarrow> False) \<and> sameOperand \<and> baseOpIsPrefix then
           andThen (whenDo (side = TransformSideRight)
                      (\<lambda>op. increasePath op (OperatePathLen baseOp)) newOp) keep
         else
           andThen (Path_Get (Path baseOp) (OperatePathLen baseOp)) (\<lambda>basePath.
           andThen (Path_Get (Path newOp) (OperatePathLen baseOp)) (\<lambda>newPath.
           andThen (case (basePath, newPath) of
                      (Some p1, Some p2) \<Rightarrow>
                        whenDo (Index p1 \<le> Index p2)
                          (\<lambda>op. increasePath op (OperatePathLen baseOp)) newOp
                    | _ \<Rightarrow> Inr newOp) (\<lambda>op.
             keep (case Operator op of
                     ListMove lm \<Rightarrow>
                       (case basePath of
                          Some p \<Rightarrow> if sameOperand \<and> Index p \<le> lm
                                    then op\<lparr>Operator := ListMove (i64 (lm + 1))\<rparr> else op
                        | None \<Rightarrow> op)
                   | _ \<Rightarrow> op)))))"

definition TransformComponentForListDelete ::
    "('v, 'f) env \<Rightarrow> 'v OperationComponent \<Rightarrow> 'v OperationComponent \<Rightarrow> TransformSide \<Rightarrow> 'v tc_result" where
  "TransformComponentForListDelete E newOp baseOp side =
     andThen (mustGetElement (Path baseOp) (OperatePathLen baseOp)) (\<lambda>baseEl.
     andThen (mustGetElement (Path newOp) (OperatePathLen baseOp)) (\<lambda>newEl.
       (let isMove = (case Operator newOp of ListMove _ \<Rightarrow> True | _ \<Rightarrow> False);
            same = IsSameOperand baseOp newOp;
            isPrefix = IsPrefixOf (Path baseOp) (Path newOp)
        in if isMove \<and> same \<and> isPrefix then emit [] newOp
           else
             (let newOp1 =
                (case Operator newOp of
                   ListMove to \<Rightarrow>
                     if same \<and> (Index baseEl < to \<or> (Index baseEl = to \<and> Index newEl < to))
                     then newOp\<lparr>Operator := ListMove (i64 (to - 1))\<rparr> else newOp
                 | _ \<Rightarrow> newOp)
              in if Index baseEl < Index newEl then
                   andThen (decreasePath newOp1 (OperatePathLen baseOp)) keep
                 else if isPrefix then
                   (if \<not> same then emit [] newOp1
                    else
                      (case Operator newOp1 of
                         ListDelete _ \<Rightarrow> emit [] newOp1
                       | ListReplace n _ \<Rightarrow>
                           emit [NewOperationComponent (Path newOp1) (ListInsert n)] newOp1
                       | _ \<Rightarrow> keep newOp1))
                 else keep newOp1))))"

definition TransformComponentForObjectReplace ::
    "('v, 'f) env \<Rightarrow> 'v OperationComponent \<Rightarrow> 'v OperationComponent \<Rightarrow> TransformSide \<Rightarrow>
     'v \<Rightarrow> 'v tc_result" where
  "TransformComponentForObjectReplace E newOp baseOp side baseNewValue =
     (if \<not> IsPrefixOf (Path baseOp) (Path newOp) then keep newOp
      else if \<not> IsSameOperand baseOp newOp then emit [] newOp
      else
        (case Operator newOp of
           ObjectReplace n _ \<Rightarrow>
             if side = TransformSideRight then emit [] newOp
             else emit [NewOperationComponent (Path newOp) (ObjectReplace n baseNewValue)] newOp
         | ObjectInsert n \<Rightarrow>
             if side = TransformSideRight then emit [] newOp
             else emit [NewOperationComponent (Path newOp) (ObjectReplace n baseNewValue)] newOp
         | _ \<Rightarrow> emit [] newOp))"

definition TransformComponentForObjectInsert ::
    "('v, 'f) env \<Rightarrow> 'v OperationComponent \<Rightarrow> 'v OperationComponent \<Rightarrow> TransformSide \<Rightarrow>
     'v \<Rightarrow> 'v tc_result" where
  "TransformComponentForObjectInsert E newOp baseOp side baseNewValue =
     (if \<not> IsPrefixOf (Path baseOp) (Path newOp) then keep newOp
      else
        (let overwrite = (\<lambda>n.
               if side = TransformSideRight then emit [] newOp
               else if IsSameOperand baseOp newOp
               then emit [NewOperationComponent (Path baseOp) (ObjectReplace n baseNewValue)] newOp
               else emit [NewOperationComponent (Path baseOp) (ObjectDelete baseNewValue), newOp] newOp)
         in case Operator newOp of
              ObjectReplace n _ \<Rightarrow> overwrite n
            | ObjectInsert n \<Rightarrow> overwrite n
            | ObjectDelete _ \<Rightarrow> if side = TransformSideRight then emit [] newOp else keep newOp
            | _ \<Rightarrow> keep newOp))"

definition TransformComponentForObjectDelete ::
    "('v, 'f) env \<Rightarrow> 'v OperationComponent \<Rightarrow> 'v OperationComponent \<Rightarrow> TransformSide \<Rightarrow> 'v tc_result" where
  "TransformComponentForObjectDelete E newOp baseOp side =
     (if \<not> IsPrefixOf (Path baseOp) (Path newOp) then keep newOp
      else if \<not> IsSameOperand baseOp newOp then emit [] newOp
      else
        (case Operator newOp of
           ObjectReplace n _ \<Rightarrow>
             if side = TransformSideRight then emit [] newOp
             else emit [NewOperationComponent (Path newOp) (ObjectInsert n)] newOp
         | ObjectInsert n \<Rightarrow>
             if side = TransformSideRight then emit [] newOp
             else emit [NewOperationComponent (Path newOp) (ObjectInsert n)] newOp
         | _ \<Rightarrow> emit [] newOp))"

section \<open>Moves\<close>

text \<open>\<open>mergeListMoveIndex\<close> shifts the path of \<open>newOp\<close> and returns its new target index.\<close>

definition mergeListMoveIndex ::
    "'v OperationComponent \<Rightarrow> int \<Rightarrow> int \<Rightarrow> TransformSide \<Rightarrow>
     PathElement \<Rightarrow> PathElement \<Rightarrow> PathElement \<Rightarrow> PathElement \<Rightarrow> (int \<times> 'v OperationComponent) res" where
  "mergeListMoveIndex newOp newListMoveIndex baseLen side from to' otherFrom otherTo =
     (let f = Index from; t = Index to'; ofr = Index otherFrom; ot = Index otherTo in
      andThen (whenDo (f > ofr) (\<lambda>op. decreasePath op baseLen) newOp) (\<lambda>op1.
      andThen (if f > ot then andThen (increasePath op1 baseLen) (\<lambda>op. Inr (newListMoveIndex, op))
               else if f = ot \<and> ofr > ot then
                 andThen (increasePath op1 baseLen) (\<lambda>op.
                   Inr (if f = t then i64 (newListMoveIndex + 1) else newListMoveIndex, op))
               else Inr (newListMoveIndex, op1)) (\<lambda>(i1, op2).
        (let i2 = (if t > ofr \<or> (t = ofr \<and> t > f) then i64 (i1 - 1) else i1);
             i3 = (if t > ot then i64 (i2 + 1) else i2);
             i4 = (if t = ot then
                     (if (ot > ofr \<and> t > f) \<or> (ot < ofr \<and> t < f) then
                        (if side = TransformSideRight then i64 (i3 + 1) else i3)
                      else if t > f then i64 (i3 + 1)
                      else if t = ofr then i64 (i3 - 1)
                      else i3)
                   else i3)
         in Inr (i4, op2)))))"

definition TransformComponentForListMoveWithListMove ::
    "('v, 'f) env \<Rightarrow> 'v OperationComponent \<Rightarrow> 'v OperationComponent \<Rightarrow> TransformSide \<Rightarrow>
     int \<Rightarrow> int \<Rightarrow> 'v tc_result" where
  "TransformComponentForListMoveWithListMove E newOp baseOp side listMove newListMove =
     (let baseLen = OperatePathLen baseOp; newLen = OperatePathLen newOp in
      andThen (mustGetElement (Path baseOp) newLen) (\<lambda>otherFrom.
        (let otherTo = PathElementFromIndex listMove in
         if otherFrom = otherTo then keep newOp
         else
           andThen (mustGetElement (Path newOp) newLen) (\<lambda>from.
             (let to' = PathElementFromIndex newListMove in
              if from = otherFrom then
                (if to' = otherTo then emit [] newOp
                 else if side = TransformSideLeft then
                   andThen (replacePath newOp baseLen otherTo) (\<lambda>op.
                     keep (if from = to' then op\<lparr>Operator := Operator baseOp\<rparr> else op))
                 else emit [] newOp)
              else
                andThen (mergeListMoveIndex newOp newListMove baseLen side from to' otherFrom otherTo)
                  (\<lambda>(i, op). keep (op\<lparr>Operator := ListMove i\<rparr>)))))))"

definition TransformComponentForListMoveWithListInsert ::
    "('v, 'f) env \<Rightarrow> 'v OperationComponent \<Rightarrow> 'v OperationComponent \<Rightarrow> TransformSide \<Rightarrow>
     int \<Rightarrow> 'v tc_result" where
  "TransformComponentForListMoveWithListInsert E newOp baseOp side listMove =
     (let operateIndex = OperatePathLen baseOp in
      andThen (mustGetElement (Path baseOp) operateIndex) (\<lambda>from.
      andThen (mustGetElement (Path newOp) operateIndex) (\<lambda>p.
      andThen (whenDo (Index p > Index from) (\<lambda>op. decreasePath op operateIndex) newOp) (\<lambda>op1.
      andThen (whenDo (Index p > listMove) (\<lambda>op. increasePath op operateIndex) op1) keep))))"

definition TransformComponentForListMove ::
    "('v, 'f) env \<Rightarrow> 'v OperationComponent \<Rightarrow> 'v OperationComponent \<Rightarrow> TransformSide \<Rightarrow>
     int \<Rightarrow> 'v tc_result" where
  "TransformComponentForListMove E newOp baseOp side listMove =
     (let other =
        (let b = OperatePathLen baseOp in
         andThen (mustGetElement (Path baseOp) b) (\<lambda>from.
           (let to' = PathElementFromIndex listMove in
            andThen (mustGetElement (Path newOp) b) (\<lambda>p.
              if Index p = Index from then andThen (replacePath newOp b to') keep
              else
                andThen (whenDo (Index p > Index from) (\<lambda>op. decreasePath op b) newOp) (\<lambda>op1.
                andThen (whenDo (Index p > Index to' \<or> (Index p = Index to' \<and> Index from > Index to'))
                           (\<lambda>op. increasePath op b) op1) keep)))))
      in if IsSameOperand baseOp newOp then
           (case Operator newOp of
              ListMove newListMove \<Rightarrow>
                TransformComponentForListMoveWithListMove E newOp baseOp side listMove newListMove
            | ListInsert _ \<Rightarrow>
                TransformComponentForListMoveWithListInsert E newOp baseOp side listMove
            | _ \<Rightarrow> other)
         else other)"

section \<open>Components\<close>

definition TransformComponentOperator ::
    "('v, 'f) env \<Rightarrow> 'v OperationComponent \<Rightarrow> 'v OperationComponent \<Rightarrow> TransformSide \<Rightarrow> 'v tc_result" where
  "TransformComponentOperator E newOp baseOp side =
     (case Operator baseOp of
        SubTypeOperator st v fn \<Rightarrow> TransformComponentForSubType E newOp baseOp side st v fn
      | ListReplace n _ \<Rightarrow> TransformComponentForListReplace E newOp baseOp side n
      | ListInsert _ \<Rightarrow> TransformComponentForListInsert E newOp baseOp side
      | ListDelete _ \<Rightarrow> TransformComponentForListDelete E newOp baseOp side
      | ListMove i \<Rightarrow> TransformComponentForListMove E newOp baseOp side i
      | ObjectReplace n _ \<Rightarrow> TransformComponentForObjectReplace E newOp baseOp side n
      | ObjectInsert v \<Rightarrow> TransformComponentForObjectInsert E newOp baseOp side v
      | ObjectDelete _ \<Rightarrow> TransformComponentForObjectDelete E newOp baseOp side
      | _ \<Rightarrow> keep newOp)"

definition TransformComponent ::
    "('v, 'f) env \<Rightarrow> 'v OperationComponent \<Rightarrow> 'v OperationComponent \<Rightarrow> TransformSide \<Rightarrow> 'v tc_result" where
  "TransformComponent E newOp baseOp side =
     (if IsEquivalentToNoop E newOp \<or> IsEquivalentToNoop E baseOp then keep newOp
      else
        (let maxCommonPath = MaxCommonPath (Path baseOp) (Path newOp);
             newOperatePathLen = OperatePathLen newOp;
             baseOperatePathLen = OperatePathLen baseOp
         in if Path_Len maxCommonPath < newOperatePathLen \<and> Path_Len maxCommonPath < baseOperatePathLen
            then keep newOp
            else if baseOperatePathLen > newOperatePathLen then
              andThen (if IsPrefixOf (Path newOp) (Path baseOp)
                       then Consume E newOp maxCommonPath baseOp else Inr newOp) keep
            else TransformComponentOperator E newOp baseOp side))"

section \<open>Operations\<close>

text \<open>
  The loop of \<open>TransformMulti\<close>: \<open>base\<close> is the current base component; while \<open>same\<close> holds it
  is the object \<open>orig\<close> the function was given.  A result of two or more components from the
  right side consists of new objects.
\<close>

fun TransformMulti_loop ::
    "('v, 'f) env \<Rightarrow> 'v OperationComponent \<Rightarrow> bool \<Rightarrow> 'v OperationComponent \<Rightarrow>
     'v OperationComponent list \<Rightarrow> 'v OperationComponent list \<Rightarrow>
     ('v OperationComponent list \<times> 'v OperationComponent) res" where
  "TransformMulti_loop E base same orig [] out = Inr (out, orig)"
| "TransformMulti_loop E base same orig (op # ops) out =
     andThen (TransformComponent E op base TransformSideLeft) (\<lambda>(a, op').
     andThen (TransformComponent E base op' TransformSideRight) (\<lambda>(b, base').
       (let orig' = (if same then base' else orig) in
        case b of
          Inl e \<Rightarrow> Inl e
        | Inr bOps \<Rightarrow>
            if length bOps \<le> 1 then Inr (out, orig')
            else andThen (MustGet a) (\<lambda>as.
                   TransformMulti_loop E (hd bOps) False orig' ops (out @ as)))))"

definition TransformMulti ::
    "('v, 'f) env \<Rightarrow> 'v OperationComponent list \<Rightarrow> 'v OperationComponent \<Rightarrow>
     ('v OperationComponent list \<times> 'v OperationComponent) res" where
  "TransformMulti E operation baseOperation =
     (case NotNoop baseOperation of
        None \<Rightarrow> Inr (operation, baseOperation)
      | Some base \<Rightarrow> TransformMulti_loop E base True baseOperation operation [])"

fun TransformMatrix_loop ::
    "('v, 'f) env \<Rightarrow> 'v OperationComponent list \<Rightarrow> 'v OperationComponent list \<Rightarrow>
     'v OperationComponent list \<Rightarrow> 'v OperationComponent list res" where
  "TransformMatrix_loop E ops [] outB = Inr outB"
| "TransformMatrix_loop E ops (baseOp # rest) outB =
     andThen (TransformMulti E ops baseOp) (\<lambda>(a, b). TransformMatrix_loop E a rest (outB @ [b]))"

text \<open>
  \<open>TransformMatrix\<close> returns the list it collected from the second results and the base
  operation, whose components those are; the transformed \<open>ops\<close> are dropped.
\<close>

definition TransformMatrix ::
    "('v, 'f) env \<Rightarrow> 'v OperationComponent list \<Rightarrow> 'v OperationComponent list \<Rightarrow>
     ('v Operation \<times> 'v Operation) res" where
  "TransformMatrix E operation baseOperation =
     (if operation = [] \<or> baseOperation = [] then Inr (NewOperation operation, NewOperation baseOperation)
      else andThen (TransformMatrix_loop E operation baseOperation []) (\<lambda>outB.
             Inr (NewOperation outB, Some outB)))"

definition Transformer_Transform ::
    "('v, 'f) env \<Rightarrow> 'v Operation \<Rightarrow> 'v Operation \<Rightarrow> ('v Operation \<times> 'v Operation) res" where
  "Transformer_Transform E operation baseOperation =
     andThen (Operation_IsEmpty baseOperation) (\<lambda>baseEmpty.
     if baseEmpty then Inr (operation, EmptyOperation)
     else
       andThen (Operation_Validation operation) (\<lambda>_.
       andThen (Operation_Validation baseOperation) (\<lambda>_.
       andThen (Operation_Array operation) (\<lambda>ops.
       andThen (Operation_Array baseOperation) (\<lambda>bases.
         case (ops, bases) of
           ([newOp], [baseOp]) \<Rightarrow>
             andThen (TransformComponent E (Component_Clone newOp) (Component_Clone baseOp)
                        TransformSideLeft) (\<lambda>(left, newOp').
             andThen (TransformComponent E (Component_Clone baseOp)
                        (Component_Clone
                           (newOp\<lparr>Operator := share_values (Operator newOp) (Operator newOp')\<rparr>))
                        TransformSideRight) (\<lambda>(right, baseOp').
             andThen (MustGet left) (\<lambda>l.
             andThen (MustGet right) (\<lambda>r.
               Inr (NewOperation l, NewOperation r)))))
         | _ \<Rightarrow> TransformMatrix E ops bases)))))"

end
