(* ===== verification/Factory.thy ===== *)
theory Factory
  imports Operations
begin

text \<open>
  \<open>OperationFactory\<close> of \<open>operation.go\<close>: reading operators and components from JSON objects.
  \<open>NewCustom\<close> allocates a pointer, whose identity later comparisons see, so every reading
  function takes the next free identity and returns the next one after it.
\<close>

definition ValidateOperationObjectSize ::
    "('v, 'f, 'z) value_api_scheme \<Rightarrow> 'v \<Rightarrow> int \<Rightarrow> unit res" where
  "ValidateOperationObjectSize V val expectSize =
     (let valSize = Size V val in
      if valSize < expectSize then Inl (CodeError InvalidParameter) else Inr ())"

definition MapToOperatorForSubType ::
    "('v, 'f, 'z) value_api_scheme \<Rightarrow> SubTypeFunctionsHolder \<Rightarrow> nat \<Rightarrow> 'v \<Rightarrow> ('v operator \<times> nat) res" where
  "MapToOperatorForSubType V holder fresh obj =
     (let subTypeKey = GetStringKey V obj ''t'' in
      andThen (ValidateOperationObjectSize V obj 3) (\<lambda>_.
        (let op = (case GetKey V obj ''o'' of Some v \<Rightarrow> v | None \<Rightarrow> ValueFromAny V (AMap [])) in
         andThen (MustSome subTypeKey) (\<lambda>name.
           (let subType = Custom fresh name in
            case Holder_Get holder name of
              None \<Rightarrow> Inl (CodeError InvalidOperation)
            | Some fn \<Rightarrow> Inr (SubTypeOperator subType op fn, Suc fresh))))))"

definition MapToOperatorForNumberAdd ::
    "('v, 'f, 'z) value_api_scheme \<Rightarrow> SubTypeFunctionsHolder \<Rightarrow> 'v \<Rightarrow> 'v operator res" where
  "MapToOperatorForNumberAdd V holder obj =
     (let na = GetKey V obj ''na'' in
      andThen (ValidateOperationObjectSize V obj 2) (\<lambda>_.
      andThen (MustSome na) (\<lambda>v.
        case GetNumeric V v of
          Inl _ \<Rightarrow> Inl (CodeError InvalidOperation)
        | Inr _ \<Rightarrow>
            andThen (MustSome (Holder_Get holder ''na'')) (\<lambda>fn.
              Inr (SubTypeOperator NumberAdd v fn)))))"

definition MapToOperatorForListMove :: "('v, 'f, 'z) value_api_scheme \<Rightarrow> 'v \<Rightarrow> 'v operator res" where
  "MapToOperatorForListMove V obj =
     andThen (ValidateOperationObjectSize V obj 2) (\<lambda>_.
       case GetIntKey V obj ''lm'' of
         None \<Rightarrow> Inl (CodeError InvalidOperation)
       | Some i \<Rightarrow> Inr (ListMove i))"

definition MapToOperatorForListInsert :: "('v, 'f, 'z) value_api_scheme \<Rightarrow> 'v \<Rightarrow> 'v operator res" where
  "MapToOperatorForListInsert V obj =
     (case GetKey V obj ''li'' of
        None \<Rightarrow> Inl (CodeError InvalidOperation)
      | Some li \<Rightarrow>
          if HasKey V obj ''ld'' then
            andThen (ValidateOperationObjectSize V obj 3) (\<lambda>_.
            andThen (MustSome (GetKey V obj ''ld'')) (\<lambda>ld. Inr (ListReplace li ld)))
          else
            andThen (ValidateOperationObjectSize V obj 2) (\<lambda>_. Inr (ListInsert li)))"

definition MapToOperatorForListDelete :: "('v, 'f, 'z) value_api_scheme \<Rightarrow> 'v \<Rightarrow> 'v operator res" where
  "MapToOperatorForListDelete V obj =
     andThen (ValidateOperationObjectSize V obj 2) (\<lambda>_.
       case GetKey V obj ''ld'' of
         None \<Rightarrow> Inl (CodeError InvalidOperation)
       | Some ld \<Rightarrow> Inr (ListDelete ld))"

definition MapToOperatorForListReplace :: "('v, 'f, 'z) value_api_scheme \<Rightarrow> 'v \<Rightarrow> 'v operator res" where
  "MapToOperatorForListReplace V obj =
     andThen (ValidateOperationObjectSize V obj 3) (\<lambda>_.
       case (GetKey V obj ''li'', GetKey V obj ''ld'') of
         (Some li, Some ld) \<Rightarrow> Inr (ListReplace li ld)
       | _ \<Rightarrow> Inl (CodeError InvalidOperation))"

definition MapToOperatorForObjectInsert :: "('v, 'f, 'z) value_api_scheme \<Rightarrow> 'v \<Rightarrow> 'v operator res" where
  "MapToOperatorForObjectInsert V obj =
     (let oi = GetKey V obj ''oi'' in
      if HasKey V obj ''od'' then
        andThen (ValidateOperationObjectSize V obj 3) (\<lambda>_.
        andThen (MustSome oi) (\<lambda>n.
        andThen (MustSome (GetKey V obj ''od'')) (\<lambda>d. Inr (ObjectReplace n d))))
      else
        andThen (ValidateOperationObjectSize V obj 2) (\<lambda>_.
        andThen (MustSome oi) (\<lambda>n. Inr (ObjectInsert n))))"

definition MapToOperatorForObjectDelete :: "('v, 'f, 'z) value_api_scheme \<Rightarrow> 'v \<Rightarrow> 'v operator res" where
  "MapToOperatorForObjectDelete V obj =
     (if \<not> HasKey V obj ''od'' then Inl (CodeError InvalidOperation)
      else
        andThen (ValidateOperationObjectSize V obj 2) (\<lambda>_.
        andThen (MustSome (GetKey V obj ''od'')) (\<lambda>d. Inr (ObjectDelete d))))"

definition MapToOperatorForObjectReplace :: "('v, 'f, 'z) value_api_scheme \<Rightarrow> 'v \<Rightarrow> 'v operator res" where
  "MapToOperatorForObjectReplace V obj =
     andThen (ValidateOperationObjectSize V obj 3) (\<lambda>_.
       case (GetKey V obj ''oi'', GetKey V obj ''od'') of
         (Some n, Some d) \<Rightarrow> Inr (ObjectReplace n d)
       | _ \<Rightarrow> Inl (CodeError InvalidOperation))"

definition MapToOperatorForNoop :: "('v, 'f, 'z) value_api_scheme \<Rightarrow> 'v \<Rightarrow> 'v operator res" where
  "MapToOperatorForNoop V obj =
     andThen (ValidateOperationObjectSize V obj 1) (\<lambda>_. Inr Noop)"

text \<open>An operator that allocates no \<open>*Custom\<close>.\<close>

definition noAlloc :: "nat \<Rightarrow> 'a res \<Rightarrow> ('a \<times> nat) res" where
  "noAlloc fresh r = andThen r (\<lambda>x. Inr (x, fresh))"

definition MapToOperator ::
    "('v, 'f, 'z) value_api_scheme \<Rightarrow> SubTypeFunctionsHolder \<Rightarrow> nat \<Rightarrow> 'v \<Rightarrow> ('v operator \<times> nat) res" where
  "MapToOperator V holder fresh obj =
     (if HasKey V obj ''na'' then noAlloc fresh (MapToOperatorForNumberAdd V holder obj)
      else if HasKey V obj ''t'' then MapToOperatorForSubType V holder fresh obj
      else if HasKey V obj ''lm'' then noAlloc fresh (MapToOperatorForListMove V obj)
      else if HasKey V obj ''li'' then
        noAlloc fresh (if HasKey V obj ''ld'' then MapToOperatorForListReplace V obj
                       else MapToOperatorForListInsert V obj)
      else if HasKey V obj ''ld'' then noAlloc fresh (MapToOperatorForListDelete V obj)
      else if HasKey V obj ''oi'' then
        noAlloc fresh (if HasKey V obj ''od'' then MapToOperatorForObjectReplace V obj
                       else MapToOperatorForObjectInsert V obj)
      else if HasKey V obj ''od'' then noAlloc fresh (MapToOperatorForObjectDelete V obj)
      else noAlloc fresh (andThen (ValidateOperationObjectSize V obj 1) (\<lambda>_. Inr Noop)))"

definition OperatorFromValue ::
    "('v, 'f, 'z) value_api_scheme \<Rightarrow> SubTypeFunctionsHolder \<Rightarrow> nat \<Rightarrow> 'v \<Rightarrow> ('v operator \<times> nat) res" where
  "OperatorFromValue V holder fresh val =
     (if IsObject V val then MapToOperator V holder fresh val
      else Inl (CodeError InvalidOperation))"

definition OperationComponentFromValue ::
    "('v, 'f, 'z) value_api_scheme \<Rightarrow> SubTypeFunctionsHolder \<Rightarrow> nat \<Rightarrow> 'v \<Rightarrow>
     ('v OperationComponent \<times> nat) res" where
  "OperationComponentFromValue V holder fresh val =
     (case GetKey V val ''p'' of
        None \<Rightarrow> Inl (CodeError InvalidOperation)
      | Some p \<Rightarrow>
          andThen (Path_FromValue V p) (\<lambda>path.
          andThen (OperatorFromValue V holder fresh val) (\<lambda>(operator, fresh).
            Inr (NewOperationComponent path operator, fresh))))"

section \<open>Builders from the factory\<close>

definition Factory_ListOperationBuilder :: "Path \<Rightarrow> 'v ListOperationBuilder" where
  "Factory_ListOperationBuilder path = NewListOperationBuilder path"

definition Factory_ObjectOperationBuilder :: "Path \<Rightarrow> 'v ObjectOperationBuilder" where
  "Factory_ObjectOperationBuilder path = NewObjectOperationBuilder path"

definition Factory_NumberAddOperationBuilder ::
    "SubTypeFunctionsHolder \<Rightarrow> Path \<Rightarrow> 'f NumberAddOperationBuilder res" where
  "Factory_NumberAddOperationBuilder holder path =
     andThen (MustSome (Holder_Get holder ''na'')) (\<lambda>fn. Inr (NewNumberAddOperationBuilder path fn))"

definition Factory_TextOperationBuilder ::
    "SubTypeFunctionsHolder \<Rightarrow> Path \<Rightarrow> TextOperationBuilder res" where
  "Factory_TextOperationBuilder holder path =
     andThen (MustSome (Holder_Get holder ''text'')) (\<lambda>fn. Inr (NewTextOperationBuilder path fn))"

end
