(* ===== verification/Engine.thy ===== *)
theory Engine
  imports TransformOps Factory
begin

text \<open>
  \<open>jsonot.go\<close>: the public engine.  \<open>JSONOperationTransformer\<close> holds the subtype registry;
  the transformer and the factory are stateless but for it.  Reading operations recurses into
  nested arrays; the depth a call may descend is a fuel argument (see \<open>parse_fuel_enough\<close>).
\<close>

record JSONOperationTransformer =
  ot_functions :: SubTypeFunctionsHolder

definition NewJSONOperationTransformer :: JSONOperationTransformer where
  "NewJSONOperationTransformer = \<lparr>ot_functions = NewSubTypeFunctionsHolder\<rparr>"

definition RegisterSubType ::
    "JSONOperationTransformer \<Rightarrow> string \<Rightarrow> SubTypeFn \<Rightarrow> JSONOperationTransformer" where
  "RegisterSubType ot subType fn = ot\<lparr>ot_functions := Register (ot_functions ot) subType fn\<rparr>"

definition UnregisterSubType :: "JSONOperationTransformer \<Rightarrow> string \<Rightarrow> JSONOperationTransformer" where
  "UnregisterSubType ot subType = ot\<lparr>ot_functions := Unregister (ot_functions ot) subType\<rparr>"

section \<open>Reading operations\<close>

text \<open>
  \<open>None\<close> is "out of fuel".  An array is read element by element, the first error ends it.
\<close>

fun OperationComponentsFromValue ::
    "nat \<Rightarrow> ('v, 'f, 'z) value_api_scheme \<Rightarrow> SubTypeFunctionsHolder \<Rightarrow> nat \<Rightarrow> 'v \<Rightarrow>
     ('v OperationComponent list \<times> nat) res option"
  and OperationComponentsFromArray ::
    "nat \<Rightarrow> ('v, 'f, 'z) value_api_scheme \<Rightarrow> SubTypeFunctionsHolder \<Rightarrow> nat \<Rightarrow> 'v list \<Rightarrow>
     ('v OperationComponent list \<times> nat) res option" where
  "OperationComponentsFromValue 0 V holder fresh node = None"
| "OperationComponentsFromValue (Suc fuel) V holder fresh node =
     (if IsArray V node then
        (case GetArray V node of
           Inl e \<Rightarrow> Some (Inl e)
         | Inr arr \<Rightarrow> OperationComponentsFromArray fuel V holder fresh arr)
      else if IsObject V node then
        Some (andThen (OperationComponentFromValue V holder fresh node) (\<lambda>(c, fresh). Inr ([c], fresh)))
      else Some (Inl FmtError))"
| "OperationComponentsFromArray fuel V holder fresh [] = Some (Inr ([], fresh))"
| "OperationComponentsFromArray fuel V holder fresh (item # rest) =
     (case OperationComponentsFromValue fuel V holder fresh item of
        None \<Rightarrow> None
      | Some (Inl e) \<Rightarrow> Some (Inl e)
      | Some (Inr (cs, fresh)) \<Rightarrow>
          (case OperationComponentsFromArray fuel V holder fresh rest of
             None \<Rightarrow> None
           | Some (Inl e) \<Rightarrow> Some (Inl e)
           | Some (Inr (ds, fresh)) \<Rightarrow> Some (Inr (cs @ ds, fresh))))"

definition Engine_OperationComponentFromValue ::
    "('v, 'f, 'z) value_api_scheme \<Rightarrow> SubTypeFunctionsHolder \<Rightarrow> nat \<Rightarrow> 'v \<Rightarrow>
     ('v OperationComponent \<times> nat) res" where
  "Engine_OperationComponentFromValue V holder fresh value =
     (if \<not> IsObject V value then Inl FmtError
      else OperationComponentFromValue V holder fresh value)"

definition OperationFromValueArray ::
    "nat \<Rightarrow> ('v, 'f, 'z) value_api_scheme \<Rightarrow> SubTypeFunctionsHolder \<Rightarrow> nat \<Rightarrow> 'v list \<Rightarrow>
     ('v Operation \<times> nat) res option" where
  "OperationFromValueArray fuel V holder fresh values =
     map_option (\<lambda>r. andThen r (\<lambda>(components, fresh). Inr (NewOperation components, fresh)))
       (OperationComponentsFromArray fuel V holder fresh values)"

section \<open>Applying operations\<close>

fun Apply_loop :: "('v, 'f) env \<Rightarrow> 'v \<Rightarrow> 'v OperationComponent list \<Rightarrow> 'v res" where
  "Apply_loop E resultValue [] = Inr resultValue"
| "Apply_loop E resultValue (c # components) =
     andThen (if Path_IsEmpty (Path c) then ApplyToRootValue E resultValue (Operator c)
              else ApplyToValue E resultValue (Path c) (Operator c)) (\<lambda>resultValue.
       Apply_loop E resultValue components)"

definition Engine_Apply :: "('v, 'f) env \<Rightarrow> 'v \<Rightarrow> 'v Operation \<Rightarrow> 'v res" where
  "Engine_Apply E value operations =
     andThen (Operation_Array operations) (\<lambda>components.
       if components = [] then Inr value
       else
         andThen (components_Validation components) (\<lambda>_.
           Apply_loop E (PackAny E value) components))"

fun Engine_Applies :: "('v, 'f) env \<Rightarrow> 'v \<Rightarrow> 'v Operation list \<Rightarrow> 'v res" where
  "Engine_Applies E value [] = Inr value"
| "Engine_Applies E value (op # operations) =
     andThen (Operation_Len op) (\<lambda>n.
       if n = 0 then Engine_Applies E value operations
       else andThen (Engine_Apply E value op) (\<lambda>value. Engine_Applies E value operations))"

text \<open>
  \<open>Transform\<close>: when the transformer returns no error both its results are present, so the
  branches that substitute an empty operation are never taken.
\<close>

definition Engine_Transform ::
    "('v, 'f) env \<Rightarrow> 'v Operation \<Rightarrow> 'v Operation \<Rightarrow> ('v Operation \<times> 'v Operation) res" where
  "Engine_Transform E left right = Transformer_Transform E left right"

end
