(* ===== verification/Documents.thy ===== *)
theory Documents
  imports ApplyOps
begin

text \<open>
  The abstract view of \<open>apply.go\<close>: a document is read at a path (\<open>doc_at\<close>) and written
  back at it (\<open>doc_put\<close>), a lens.  Inside the contract of the node implementation,
  \<open>RouteGet\<close> and \<open>RouteSet\<close> implement the two, and \<open>ApplyToValue\<close> is: apply the operator to
  the container the path leads to and put the result back.
\<close>

section \<open>Reading and writing documents\<close>

definition elem_index :: "PathElement \<Rightarrow> int" where
  "elem_index pe = (case FirstIndexPath [pe] of Some i \<Rightarrow> i | None \<Rightarrow> 0)"

fun doc_at :: "Path \<Rightarrow> 'n jdoc \<Rightarrow> 'n jdoc option" where
  "doc_at [] d = Some d"
| "doc_at (pe # p) (Arr xs) =
     (if 0 \<le> elem_index pe \<and> elem_index pe < int (length xs)
      then doc_at p (xs ! nat (elem_index pe)) else None)"
| "doc_at (pe # p) (Obj m) = (case m (Key pe) of None \<Rightarrow> None | Some d \<Rightarrow> doc_at p d)"
| "doc_at (pe # p) (Atom a) = None"

fun doc_put :: "Path \<Rightarrow> 'n jdoc \<Rightarrow> 'n jdoc \<Rightarrow> 'n jdoc" where
  "doc_put [] e d = e"
| "doc_put (pe # p) e (Arr xs) =
     Arr (xs[nat (elem_index pe) := doc_put p e (xs ! nat (elem_index pe))])"
| "doc_put (pe # p) e (Obj m) = Obj (m(Key pe \<mapsto> doc_put p e (the (m (Key pe)))))"
| "doc_put (pe # p) e (Atom a) = Atom a"

fun is_container :: "'n jdoc \<Rightarrow> bool" where
  "is_container (Atom _) = False"
| "is_container _ = True"

lemma is_container_iff: "is_container d \<longleftrightarrow> (\<exists>xs. d = Arr xs) \<or> (\<exists>m. d = Obj m)"
  by (cases d) auto

lemma doc_at_container: "doc_at p d = Some e \<Longrightarrow> p \<noteq> [] \<Longrightarrow> is_container d"
  by (cases p; cases d) auto

lemma doc_put_container: "is_container d \<Longrightarrow> p \<noteq> [] \<Longrightarrow> is_container (doc_put p e d)"
  by (cases p; cases d) auto

lemma FirstIndexPath_elem: "FirstIndexPath (pe # p) = Some (elem_index pe)"
  by (simp add: elem_index_def split: option.split)

lemma elem_index_Index [simp]: "0 \<le> i \<Longrightarrow> elem_index (PathElementFromIndex i) = i"
  by (simp add: elem_index_def PathElementFromIndex_def)

lemma doc_put_same: "doc_at p d = Some e \<Longrightarrow> doc_put p e d = d"
  by (induction p d rule: doc_at.induct) (auto split: if_splits option.splits)

lemma doc_at_put: "doc_at p d = Some e' \<Longrightarrow> doc_at p (doc_put p e d) = Some e"
  by (induction p d rule: doc_at.induct) (auto split: if_splits option.splits)

lemma doc_put_put: "doc_at p d = Some e' \<Longrightarrow> doc_put p e2 (doc_put p e1 d) = doc_put p e2 d"
  by (induction p d rule: doc_at.induct) (auto split: if_splits option.splits)

lemma doc_at_append: "doc_at (p @ q) d = (case doc_at p d of None \<Rightarrow> None | Some e \<Rightarrow> doc_at q e)"
  by (induction p d rule: doc_at.induct) (auto split: option.splits)

lemma doc_put_append:
  "doc_at p d = Some c \<Longrightarrow> doc_put (p @ q) e d = doc_put p (doc_put q e c) d"
  by (induction p d rule: doc_at.induct) (auto split: if_splits option.splits)

section \<open>The walk implements the lens\<close>

lemma RouteGet_Obj:
  "Type V v = Object \<Longrightarrow> RouteGetOnValue V v (pe # p) t =
     (case GetKey V v (Key pe) of None \<Rightarrow> Inr (Some (NewValue V t))
      | Some node \<Rightarrow> if p = [] then Inr (Some node) else RouteGetOnValue V node p t)"
  by (simp split: option.split)

lemma RouteGet_Arr:
  "Type V v = Array \<Longrightarrow> GetArray V v = Inr vs \<Longrightarrow> 0 \<le> elem_index pe \<Longrightarrow>
   elem_index pe < int (length vs) \<Longrightarrow> \<not> IsNull V (vs ! nat (elem_index pe)) \<Longrightarrow>
   RouteGetOnValue V v (pe # p) t =
     (if p = [] then Inr (Some (PackAny V (vs ! nat (elem_index pe))))
      else RouteGetOnValue V (PackAny V (vs ! nat (elem_index pe))) p t)"
  by (simp add: FirstIndexPath_elem slice_get_def Let_def del: FirstIndexPath.simps)

lemma RouteSet_Obj:
  "PackAny V v = v \<Longrightarrow> Type V v = Object \<Longrightarrow> GetKey V v (Key pe) = Some u \<Longrightarrow>
   RouteSetOnValue V v (pe # p) w =
     (if p = [] then SetKey V v (Key pe) w
      else andThen (RouteSetOnValue V u p w) (\<lambda>child. SetKey V v (Key pe) child))"
  by (simp add: Let_def)

lemma RouteSet_Arr:
  "PackAny V v = v \<Longrightarrow> Type V v = Array \<Longrightarrow> GetArray V v = Inr vs \<Longrightarrow>
   0 \<le> elem_index pe \<Longrightarrow> elem_index pe < int (length vs) \<Longrightarrow>
   RouteSetOnValue V v (pe # p) w =
     (if p = [] then UpdateArray V v (vs[nat (elem_index pe) := w])
      else andThen (RouteSetOnValue V (vs ! nat (elem_index pe)) p w) (\<lambda>child.
             UpdateArray V v (vs[nat (elem_index pe) := child])))"
  by (simp add: FirstIndexPath_elem slice_get_def del: FirstIndexPath.simps)

lemmas route_steps = RouteGet_Obj RouteGet_Arr RouteSet_Obj RouteSet_Arr

declare RouteGetOnValue.simps [simp del] RouteSetOnValue.simps [simp del]

context value_contract
begin

lemma Type_of:
  "view v = Arr xs \<Longrightarrow> Type V v = Array" "view v = Obj m \<Longrightarrow> Type V v = Object"
  by (auto simp: Type_Array Type_Object)

lemma GetKey_at: "view v = Obj m \<Longrightarrow> m k = Some d \<Longrightarrow> \<exists>w. GetKey V v k = Some w \<and> view w = d"
  using GetKey_Obj [of v m k] by (auto simp: map_option_eq_Some)

lemma GetArray_at:
  "view v = Arr xs \<Longrightarrow> \<exists>vs. GetArray V v = Inr vs \<and> map view vs = xs \<and> length vs = length xs"
  using GetArray_Arr [of v xs] by auto

text \<open>\<open>RouteGet\<close> on a path that leads to a non-null part of the document reads that part.\<close>

lemma RouteGet_doc_at:
  "doc_at p (view v) = Some d \<Longrightarrow> p \<noteq> [] \<Longrightarrow> d \<noteq> Atom NullA \<Longrightarrow>
   \<exists>w. (\<forall>t. RouteGetOnValue V v p t = Inr (Some w)) \<and> view w = d"
proof (induction p arbitrary: v)
  case Nil
  then show ?case by simp
next
  case (Cons pe p)
  show ?case
  proof (cases "view v")
    case (Atom a)
    then show ?thesis using Cons.prems by simp
  next
    case (Obj m)
    with Cons.prems obtain e where e: "m (Key pe) = Some e" "doc_at p e = Some d"
      by (auto split: option.splits)
    from GetKey_at [OF Obj e(1)] obtain w where w: "GetKey V v (Key pe) = Some w" "view w = e"
      by blast
    show ?thesis
    proof (cases "p = []")
      case True
      then show ?thesis using w e Obj by (simp add: Type_of RouteGet_Obj)
    next
      case False
      then show ?thesis using Cons.IH [of w] w e Obj Cons.prems by (simp add: Type_of RouteGet_Obj)
    qed
  next
    case (Arr xs)
    with Cons.prems have i: "0 \<le> elem_index pe" "elem_index pe < int (length xs)"
        "doc_at p (xs ! nat (elem_index pe)) = Some d"
      by (auto split: if_splits)
    obtain vs where vs: "GetArray V v = Inr vs" "map view vs = xs" "length vs = length xs"
      using GetArray_at [OF Arr] by blast
    let ?w = "vs ! nat (elem_index pe)"
    have w: "view ?w = xs ! nat (elem_index pe)" using vs i by auto
    have ne: "view ?w \<noteq> Atom NullA" using i(3) Cons.prems(3) w by (cases p) auto
    then have n: "\<not> IsNull V ?w" by (simp add: IsNull_iff)
    show ?thesis
    proof (cases "p = []")
      case True
      then show ?thesis using i vs w n Arr
        by (simp add: Type_of RouteGet_Arr abs_PackAny)
    next
      case False
      then show ?thesis using Cons.IH [of "PackAny V ?w"] i vs w n Arr Cons.prems
        by (simp add: Type_of RouteGet_Arr abs_PackAny)
    qed
  qed
qed

text \<open>\<open>RouteSet\<close> on such a path replaces that part and nothing else.\<close>

lemma RouteSet_doc_put:
  "doc_at p (view v) = Some d \<Longrightarrow> p \<noteq> [] \<Longrightarrow>
   \<exists>v'. RouteSetOnValue V v p w = Inr v' \<and> view v' = doc_put p (view w) (view v)"
proof (induction p arbitrary: v)
  case Nil
  then show ?case by simp
next
  case (Cons pe p)
  show ?case
  proof (cases "view v")
    case (Atom a)
    then show ?thesis using Cons.prems by simp
  next
    case (Obj m)
    with Cons.prems obtain e where e: "m (Key pe) = Some e" "doc_at p e = Some d"
      by (auto split: option.splits)
    from GetKey_at [OF Obj e(1)] obtain u where u: "GetKey V v (Key pe) = Some u" "view u = e"
      by blast
    have P: "PackAny V v = v" using Obj PackAny_container by blast
    show ?thesis
    proof (cases "p = []")
      case True
      then show ?thesis using Obj P u SetKey_Obj [OF Obj, of "Key pe" w]
        by (simp add: Type_of RouteSet_Obj)
    next
      case False
      with Cons.IH [of u] u e obtain u' where
          u': "RouteSetOnValue V u p w = Inr u'" "view u' = doc_put p (view w) e" by auto
      then show ?thesis using Obj P u e False SetKey_Obj [OF Obj, of "Key pe" u']
        by (simp add: Type_of RouteSet_Obj)
    qed
  next
    case (Arr xs)
    with Cons.prems have i: "0 \<le> elem_index pe" "elem_index pe < int (length xs)"
        "doc_at p (xs ! nat (elem_index pe)) = Some d"
      by (auto split: if_splits)
    obtain vs where vs: "GetArray V v = Inr vs" "map view vs = xs" "length vs = length xs"
      using GetArray_at [OF Arr] by blast
    let ?u = "vs ! nat (elem_index pe)"
    have u: "view ?u = xs ! nat (elem_index pe)" using vs i by auto
    have P: "PackAny V v = v" using Arr PackAny_container by blast
    show ?thesis
    proof (cases "p = []")
      case True
      then show ?thesis
        using Arr P i vs UpdateArray_abs [of v "vs[nat (elem_index pe) := w]"]
        by (auto simp: Type_of RouteSet_Arr map_update)
    next
      case False
      with Cons.IH [of ?u] u i obtain u' where
          u': "RouteSetOnValue V ?u p w = Inr u'" "view u' = doc_put p (view w) (view ?u)" by auto
      then show ?thesis
        using Arr P i vs u False UpdateArray_abs [of v "vs[nat (elem_index pe) := u']"]
        by (auto simp: Type_of RouteSet_Arr map_update)
    qed
  qed
qed

text \<open>What \<open>RouteSet\<close> wrote, \<open>RouteGet\<close> reads back: the very node, for containers.\<close>

lemma RouteGet_RouteSet:
  "doc_at p (view v) = Some d \<Longrightarrow> p \<noteq> [] \<Longrightarrow> RouteSetOnValue V v p w = Inr v' \<Longrightarrow>
   is_container (view w) \<Longrightarrow> RouteGetOnValue V v' p t = Inr (Some w)"
proof (induction p arbitrary: v v')
  case Nil
  then show ?case by simp
next
  case (Cons pe p)
  have w: "(\<exists>xs. view w = Arr xs) \<or> (\<exists>m. view w = Obj m)" using Cons.prems(4) by (cases "view w") auto
  then have Pw: "PackAny V w = w" and Nw: "\<not> IsNull V w"
    using PackAny_container by (auto simp: IsNull_iff)
  show ?case
  proof (cases "view v")
    case (Atom a)
    then show ?thesis using Cons.prems by simp
  next
    case (Obj m)
    with Cons.prems obtain e where e: "m (Key pe) = Some e" "doc_at p e = Some d"
      by (auto split: option.splits)
    from GetKey_at [OF Obj e(1)] obtain u where u: "GetKey V v (Key pe) = Some u" "view u = e"
      by blast
    have P: "PackAny V v = v" using Obj PackAny_container by blast
    show ?thesis
    proof (cases "p = []")
      case True
      then have s: "SetKey V v (Key pe) w = Inr v'"
        using Cons.prems(3) Obj P u by (simp add: Type_of RouteSet_Obj)
      have "view v' = Obj (m(Key pe \<mapsto> view w))" using SetKey_Obj [OF Obj, of "Key pe" w] s by auto
      then show ?thesis using True SetKey_same [OF Obj s] w by (auto simp: Type_of RouteGet_Obj)
    next
      case False
      with Cons.prems(3) Obj P u obtain u' where
          u': "RouteSetOnValue V u p w = Inr u'" "SetKey V v (Key pe) u' = Inr v'"
        by (auto simp: Type_of RouteSet_Obj andThen_Inr_iff)
      have a: "view v' = Obj (m(Key pe \<mapsto> view u'))"
        using SetKey_Obj [OF Obj, of "Key pe" u'] u' by auto
      have "view u' = doc_put p (view w) (view u)"
        using RouteSet_doc_put [of p u d w] u e u' False by auto
      moreover have "is_container (doc_put p (view w) (view u))"
        using doc_put_container doc_at_container e(2) u(2) False by blast
      ultimately have "(\<exists>xs. view u' = Arr xs) \<or> (\<exists>m. view u' = Obj m)"
        by (simp add: is_container_iff)
      then have "GetKey V v' (Key pe) = Some u'" using SetKey_same [OF Obj u'(2)] by auto
      moreover have "RouteGetOnValue V u' p t = Inr (Some w)"
        using Cons.IH [of u u'] u e u' False Cons.prems(4) by simp
      ultimately show ?thesis using a False by (simp add: Type_of RouteGet_Obj)
    qed
  next
    case (Arr xs)
    with Cons.prems have i: "0 \<le> elem_index pe" "elem_index pe < int (length xs)"
        "doc_at p (xs ! nat (elem_index pe)) = Some d"
      by (auto split: if_splits)
    obtain vs where vs: "GetArray V v = Inr vs" "map view vs = xs" "length vs = length xs"
      using GetArray_at [OF Arr] by blast
    let ?u = "vs ! nat (elem_index pe)"
    have u: "view ?u = xs ! nat (elem_index pe)" using vs i by auto
    have P: "PackAny V v = v" using Arr PackAny_container by blast
    show ?thesis
    proof (cases "p = []")
      case True
      then have "UpdateArray V v (vs[nat (elem_index pe) := w]) = Inr v'"
        using Cons.prems(3) Arr P i vs by (simp add: Type_of RouteSet_Arr)
      then have "view v' = Arr (map view (vs[nat (elem_index pe) := w]))"
          "GetArray V v' = Inr (vs[nat (elem_index pe) := w])"
        using GetArray_UpdateArray by blast+
      then show ?thesis using True i vs Pw Nw
        by (simp add: Type_of RouteGet_Arr)
    next
      case False
      with Cons.prems(3) Arr P i vs obtain u' where
          u': "RouteSetOnValue V ?u p w = Inr u'"
            "UpdateArray V v (vs[nat (elem_index pe) := u']) = Inr v'"
        by (auto simp: Type_of RouteSet_Arr andThen_Inr_iff)
      then have a: "view v' = Arr (map view (vs[nat (elem_index pe) := u']))"
          "GetArray V v' = Inr (vs[nat (elem_index pe) := u'])"
        using GetArray_UpdateArray by blast+
      have "view u' = doc_put p (view w) (view ?u)"
        using RouteSet_doc_put [of p ?u d w] u i u' False by auto
      moreover have "is_container (doc_put p (view w) (view ?u))"
        using doc_put_container doc_at_container i(3) u False by metis
      ultimately have c: "(\<exists>xs. view u' = Arr xs) \<or> (\<exists>m. view u' = Obj m)"
        by (simp add: is_container_iff)
      then have "PackAny V u' = u'" "\<not> IsNull V u'"
        using PackAny_container by (auto simp: IsNull_iff)
      moreover have "RouteGetOnValue V u' p t = Inr (Some w)"
        using Cons.IH [of ?u u'] u i u' False Cons.prems(4) by simp
      ultimately show ?thesis using a i vs False
        by (simp add: Type_of RouteGet_Arr)
    qed
  qed
qed

end

section \<open>Applying an operator inside a document\<close>

text \<open>\<open>located E view q v lv\<close>: walking \<open>v\<close> along \<open>q\<close> ends in the node \<open>lv\<close>.\<close>

definition located ::
    "('v, 'f) env \<Rightarrow> ('v \<Rightarrow> 'n jdoc) \<Rightarrow> Path \<Rightarrow> 'v \<Rightarrow> 'v \<Rightarrow> bool" where
  "located E view q v lv \<longleftrightarrow>
     (if q = [] then lv = v
      else (\<forall>t. RouteGetOnValue E v q t = Inr (Some lv)) \<and> doc_at q (view v) = Some (view lv))"

definition list_at ::
    "('v, 'f) env \<Rightarrow> ('v \<Rightarrow> 'n jdoc) \<Rightarrow> Path \<Rightarrow> 'v \<Rightarrow> 'v list \<Rightarrow> bool" where
  "list_at E view q v arr \<longleftrightarrow>
     (\<exists>lv. located E view q v lv \<and> GetArray E lv = Inr arr \<and> view lv = Arr (map view arr))"

text \<open>What the object operators make of the members.\<close>

fun object_effect ::
    "('v \<Rightarrow> 'n jdoc) \<Rightarrow> 'v operator \<Rightarrow> string \<Rightarrow> (string \<Rightarrow> 'n jdoc option) \<Rightarrow> (string \<Rightarrow> 'n jdoc option)" where
  "object_effect view (ObjectInsert v) k m = m(k \<mapsto> view v)"
| "object_effect view (ObjectDelete _) k m = m(k := None)"
| "object_effect view (ObjectReplace n _) k m = m(k \<mapsto> view n)"
| "object_effect view _ k m = m"

fun is_object_op :: "'v operator \<Rightarrow> bool" where
  "is_object_op (ObjectInsert _) = True"
| "is_object_op (ObjectDelete _) = True"
| "is_object_op (ObjectReplace _ _) = True"
| "is_object_op _ = False"

text \<open>The contract for the environment of the package, which adds the registered subtypes.\<close>

locale ot_contract = value_contract E view
  for E :: "('v, 'f) env" and view :: "'v \<Rightarrow> 'n jdoc"
begin

lemma located_ex:
  "doc_at q (view v) = Some d \<Longrightarrow> is_container d \<Longrightarrow> \<exists>lv. located E view q v lv \<and> view lv = d"
  using RouteGet_doc_at [of q v d] by (cases "q = []"; cases d) (auto simp: located_def)

lemma located_doc: "located E view q v lv \<Longrightarrow> doc_at q (view v) = Some (view lv)"
  by (auto simp: located_def split: if_splits)

lemma located_container: "located E view q v lv \<Longrightarrow> is_container (view lv) \<Longrightarrow> PackAny E v = v"
  using doc_at_container [of q "view v"] PackAny_container
  by (cases "q = []") (auto simp: located_def is_container_iff)

lemma ApplyToValue_at:
  assumes loc: "located E view q v lv" and c: "is_container (view lv)"
    and app: "ApplyToValue E lv [pe] op = Inr lv'" and c': "is_container (view lv')"
  shows "\<exists>v'. ApplyToValue E v (q @ [pe]) op = Inr v'
           \<and> view v' = doc_put q (view lv') (view v) \<and> located E view q v' lv'"
proof (cases "q = []")
  case True
  then show ?thesis using assms by (auto simp: located_def)
next
  case False
  have P: "PackAny E v = v" using located_container loc c .
  have d: "doc_at q (view v) = Some (view lv)" using located_doc loc .
  obtain v' where v': "RouteSetOnValue E v q lv' = Inr v'" "view v' = doc_put q (view lv') (view v)"
    using RouteSet_doc_put [OF d False] by blast
  have s: "SplitAt (q @ [pe]) (Path_Len (q @ [pe]) - 1) = Inr (q, [pe])"
    using SplitAt_append [of q "[pe]"] by (simp add: Path_Len_def)
  have g: "RouteGetOnValue E v q t = Inr (Some lv)" for t
    using loc False by (simp add: located_def)
  have "Path_Len (q @ [pe]) > 1" using False by (cases q) (simp_all add: Path_Len_def)
  then have "ApplyToValue E v (q @ [pe]) op = Inr v'"
    using s g P app v'(1) by (subst ApplyToValue.simps) simp
  moreover have "located E view q v' lv'"
    using False RouteGet_RouteSet [OF d False v'(1) c'] doc_at_put [OF d] v'(2)
    by (simp add: located_def)
  ultimately show ?thesis using v'(2) by blast
qed

subsection \<open>Arrays\<close>

lemma list_at_doc: "list_at E view q v arr \<Longrightarrow> doc_at q (view v) = Some (Arr (map view arr))"
  by (auto simp: list_at_def dest: located_doc)

lemma list_at_ex: "doc_at q (view v) = Some (Arr xs) \<Longrightarrow> \<exists>arr. list_at E view q v arr \<and> map view arr = xs"
  using located_ex [of q v "Arr xs"] GetArray_Arr by (fastforce simp: list_at_def)

lemma list_at_pack: "list_at E view q v arr \<Longrightarrow> PackAny E v = v"
  using located_container by (fastforce simp: list_at_def)

lemma ApplyToValue_list:
  assumes "list_at E view q v arr" and "ApplyToArray E arr [pe] op = Inr arr'"
  shows "\<exists>v'. ApplyToValue E v (q @ [pe]) op = Inr v'
           \<and> view v' = doc_put q (Arr (map view arr')) (view v) \<and> list_at E view q v' arr'"
proof -
  obtain lv where lv: "located E view q v lv" "GetArray E lv = Inr arr" "view lv = Arr (map view arr)"
    using assms(1) by (auto simp: list_at_def)
  obtain lv' where lv': "UpdateArray E lv arr' = Inr lv'" "view lv' = Arr (map view arr')"
      "GetArray E lv' = Inr arr'"
    using UpdateArray_abs by blast
  have "Type E lv = Array" using lv(3) by (rule Type_of)
  then have "ApplyToValue E lv [pe] op = Inr lv'"
    using lv(2) lv'(1) assms(2) by (subst ApplyToValue.simps) (simp add: Path_Len_def)
  from ApplyToValue_at [OF lv(1) _ this] show ?thesis
    using lv(3) lv'(2,3) by (auto simp: list_at_def)
qed

text \<open>When \<open>ApplyToArray\<close> fails, so does \<open>ApplyToValue\<close>, and with a panic if it panics.\<close>

lemma ApplyToValue_list_panic:
  assumes "list_at E view q v arr" and "ApplyToArray E arr [pe] op = Inl Panic"
  shows "ApplyToValue E v (q @ [pe]) op = Inl Panic"
proof -
  obtain lv where lv: "located E view q v lv" "GetArray E lv = Inr arr" "view lv = Arr (map view arr)"
    using assms(1) by (auto simp: list_at_def)
  have "Type E lv = Array" using lv(3) by (rule Type_of)
  then have a: "ApplyToValue E lv [pe] op = Inl Panic"
    using lv(2) assms(2) by (subst ApplyToValue.simps) (simp add: Path_Len_def)
  show ?thesis
  proof (cases "q = []")
    case True
    then show ?thesis using a lv(1) by (simp add: located_def)
  next
    case False
    have P: "PackAny E v = v" using located_container lv by auto
    have s: "SplitAt (q @ [pe]) (Path_Len (q @ [pe]) - 1) = Inr (q, [pe])"
      using SplitAt_append [of q "[pe]"] by (simp add: Path_Len_def)
    have g: "RouteGetOnValue E v q t = Inr (Some lv)" for t
      using lv(1) False by (simp add: located_def)
    have "Path_Len (q @ [pe]) > 1" using False by (cases q) (simp_all add: Path_Len_def)
    then show ?thesis using s g P a by (subst ApplyToValue.simps) simp
  qed
qed

subsection \<open>Objects\<close>

lemma ApplyToValue_object:
  assumes d: "doc_at q (view v) = Some (Obj m)"
    and app: "\<And>lv. view lv = Obj m \<Longrightarrow> \<exists>r. ApplyToObject E lv [pe] op = Inr r \<and> view r = Obj m'"
  shows "\<exists>v'. ApplyToValue E v (q @ [pe]) op = Inr v' \<and> view v' = doc_put q (Obj m') (view v)
           \<and> doc_at q (view v') = Some (Obj m')"
proof -
  obtain lv where lv: "located E view q v lv" "view lv = Obj m" using located_ex [OF d] by auto
  obtain r where r: "ApplyToObject E lv [pe] op = Inr r" "view r = Obj m'" using app lv(2) by blast
  obtain lv' where lv': "UpdateObject E lv r = Inr lv'" "view lv' = Obj m'"
    using UpdateObject_abs r(2) by metis
  have "Type E lv = Object" using lv(2) by (rule Type_of)
  then have "ApplyToValue E lv [pe] op = Inr lv'"
    using r(1) lv'(1) by (subst ApplyToValue.simps) (simp add: Path_Len_def)
  from ApplyToValue_at [OF lv(1) _ this] show ?thesis
    using lv(2) lv'(2) doc_at_put [OF d] by auto
qed

lemma ApplyToObject_effect:
  assumes "is_object_op op" and lv: "view lv = Obj m"
  shows "\<exists>r. ApplyToObject E lv [pe] op = Inr r \<and> view r = Obj (object_effect view op (Key pe) m)"
proof (cases op)
  case (ObjectInsert v)
  then show ?thesis using SetKey_Obj [OF lv, of "Key pe" v] by (auto simp: ApplyToObject_def Path_Len_def)
next
  case (ObjectDelete v)
  show ?thesis
  proof (cases "GetKey E lv (Key pe) = None")
    case True
    then have "m(Key pe := None) = m" using GetKey_None [OF lv, of "Key pe"] by auto
    with ObjectDelete True lv show ?thesis by (simp add: ApplyToObject_def Path_Len_def)
  next
    case False
    with ObjectDelete show ?thesis
      using DeleteKey_Obj [OF lv, of "Key pe"] GetKey_None [OF lv, of "Key pe"] by (auto simp: ApplyToObject_def Path_Len_def)
  qed
next
  case (ObjectReplace n d)
  then show ?thesis using SetKey_Obj [OF lv, of "Key pe" n] by (auto simp: ApplyToObject_def Path_Len_def)
qed (use assms(1) in simp_all)

lemma ApplyToValue_object_op:
  "is_object_op op \<Longrightarrow> doc_at q (view v) = Some (Obj m) \<Longrightarrow>
   \<exists>v'. ApplyToValue E v (q @ [pe]) op = Inr v'
     \<and> view v' = doc_put q (Obj (object_effect view op (Key pe) m)) (view v)
     \<and> doc_at q (view v') = Some (Obj (object_effect view op (Key pe) m))"
  by (rule ApplyToValue_object) (auto intro: ApplyToObject_effect)

end

end
