(* ===== verification/ListEdits.thy ===== *)
theory ListEdits
  imports GoPrelude
begin

text \<open>
  Inserting into and deleting from lists by position, as \<open>slices.Insert\<close> and \<open>slices.Delete\<close>
  do inside their bounds, and how such edits commute.
\<close>

definition insert_at :: "nat \<Rightarrow> 'a \<Rightarrow> 'a list \<Rightarrow> 'a list" where
  "insert_at i x xs = take i xs @ x # drop i xs"

definition delete_at :: "nat \<Rightarrow> 'a list \<Rightarrow> 'a list" where
  "delete_at i xs = take i xs @ drop (Suc i) xs"

lemma ins_simps: "insert_at 0 x xs = x # xs" "insert_at (Suc i) x (y # ys) = y # insert_at i x ys" by (auto simp: insert_at_def)

lemma del_simps: "delete_at i [] = []" "delete_at 0 (y # ys) = ys" "delete_at (Suc i) (y # ys) = y # delete_at i ys" by (auto simp: delete_at_def)


lemma ins_ins: 
  "i \<le> j \<Longrightarrow> j \<le> length xs \<Longrightarrow> insert_at i x (insert_at j y xs) = insert_at (Suc j) y (insert_at i x xs)"
proof (induction xs arbitrary: i j)
  case Nil
  then show ?case by (simp add: ins_simps)
next
  case (Cons a xs)
  then show ?case by (cases i; cases j) (auto simp: ins_simps)
qed

lemma ins_del_le: 
  "i \<le> j \<Longrightarrow> j < length xs \<Longrightarrow> insert_at i x (delete_at j xs) = delete_at (Suc j) (insert_at i x xs)"
proof (induction xs arbitrary: i j)
  case Nil
  then show ?case by simp
next
  case (Cons a xs)
  then show ?case by (cases i; cases j) (auto simp: ins_simps del_simps)
qed

lemma ins_del_gt: 
  "j \<le> i \<Longrightarrow> i < length xs \<Longrightarrow> insert_at j x (delete_at i xs) = delete_at (Suc i) (insert_at j x xs)"
  by (rule ins_del_le)

lemma del_ins_lt: 
  "j \<le> i \<Longrightarrow> i < length xs \<Longrightarrow> insert_at i x (delete_at j xs) = delete_at j (insert_at (Suc i) x xs)"
proof (induction xs arbitrary: i j)
  case Nil
  then show ?case by simp
next
  case (Cons a xs)
  then show ?case by (cases i; cases j) (auto simp: ins_simps del_simps)
qed

lemma del_del: 
  "i \<le> j \<Longrightarrow> Suc j < length xs \<Longrightarrow> delete_at i (delete_at (Suc j) xs) = delete_at j (delete_at i xs)"
proof (induction xs arbitrary: i j)
  case Nil
  then show ?case by simp
next
  case (Cons a xs)
  then show ?case by (cases i; cases j) (auto simp: ins_simps del_simps)
qed

lemma ins_upd: 
  "j < length xs \<Longrightarrow> i \<le> length xs \<Longrightarrow> insert_at i x (xs[j := y]) = (insert_at i x xs)[(if i \<le> j then Suc j else j) := y]"
proof (induction xs arbitrary: i j)
  case Nil
  then show ?case by simp
next
  case (Cons a xs)
  then show ?case by (cases i; cases j) (auto simp: ins_simps del_simps)
qed

lemma del_upd: 
  "j < length xs \<Longrightarrow> i < length xs \<Longrightarrow> i \<noteq> j \<Longrightarrow> delete_at i (xs[j := y]) = (delete_at i xs)[(if i < j then j - 1 else j) := y]"
  by (rule nth_equalityI) (auto simp: delete_at_def nth_append nth_list_update min_def)

lemma ins_del_same: 
  "i < length xs \<Longrightarrow> insert_at i y (delete_at i xs) = xs[i := y]"
proof (induction xs arbitrary: i)
  case Nil
  then show ?case by simp
next
  case (Cons a xs)
  then show ?case by (cases i) (auto simp: ins_simps del_simps)
qed

lemma del_ins_same: 
  "i \<le> length xs \<Longrightarrow> delete_at i (insert_at i y xs) = xs"
proof (induction xs arbitrary: i)
  case Nil
  then show ?case by (simp add: ins_simps del_simps)
next
  case (Cons a xs)
  then show ?case by (cases i) (auto simp: ins_simps del_simps)
qed

lemma nth_ins: 
  "i \<le> length xs \<Longrightarrow> j < length xs \<Longrightarrow> insert_at i x xs ! (if i \<le> j then Suc j else j) = xs ! j"
  by (auto simp: insert_at_def nth_append min_def)

lemma nth_del: 
  "i < length xs \<Longrightarrow> j < length xs \<Longrightarrow> i \<noteq> j \<Longrightarrow> delete_at i xs ! (if i < j then j - 1 else j) = xs ! j"
  by (auto simp: delete_at_def nth_append min_def)

lemma length_ins: "i \<le> length xs \<Longrightarrow> length (insert_at i x xs) = Suc (length xs)" by (simp add: insert_at_def)

lemma length_del: "i < length xs \<Longrightarrow> length (delete_at i xs) = length xs - 1" by (simp add: delete_at_def)

lemma upd_ins_same: "i \<le> length xs \<Longrightarrow> (insert_at i x xs)[i := y] = insert_at i y xs"
  by (simp add: insert_at_def list_update_append)

lemma del_upd_same: "delete_at i (xs[i := y]) = delete_at i xs"
  by (simp add: delete_at_def)

lemma slices_Insert_at: "i \<le> length xs \<Longrightarrow> slices_Insert xs (int i) v = Inr (insert_at i v xs)"
  by (simp add: insert_at_def slices_Insert_def)

lemma slices_Delete_at: "i < length xs \<Longrightarrow> slices_Delete xs (int i) = Inr (delete_at i xs)"
  by (simp add: delete_at_def slices_Delete_def)

end
