(* ===== verification/Convergence.thy ===== *)
theory Convergence
  imports Engine Documents ListEdits
begin

text \<open>
  The convergence of concurrent operations (TP1): \<open>converges\<close> says that after \<open>Transform\<close>
  both sites reach the same document, whichever operation they apply first.  The list part
  works on the values of the array the two components address, the object part on documents.
\<close>

section \<open>Convergence\<close>

definition converges ::
    "('v, 'f) env \<Rightarrow> ('v \<Rightarrow> 'n jdoc) \<Rightarrow> 'v \<Rightarrow> 'v OperationComponent \<Rightarrow> 'v OperationComponent \<Rightarrow> bool" where
  "converges E view v new base \<longleftrightarrow>
     (\<exists>new' base' v1 v2.
        Engine_Transform E (NewOperation [new]) (NewOperation [base]) = Inr (new', base')
      \<and> Engine_Applies E v [NewOperation [base], new'] = Inr v1
      \<and> Engine_Applies E v [NewOperation [new], base'] = Inr v2
      \<and> view v1 = view v2)"

section \<open>Applying single components\<close>

definition list_component :: "Path \<Rightarrow> int \<Rightarrow> 'v operator \<Rightarrow> 'v OperationComponent" where
  "list_component q i op = \<lparr>Operator = op, Path = q @ [PathElementFromIndex i]\<rparr>"

definition key_component :: "Path \<Rightarrow> string \<Rightarrow> 'v operator \<Rightarrow> 'v OperationComponent" where
  "key_component q k op = \<lparr>Operator = op, Path = q @ [PathElementFromKey k]\<rparr>"

lemma component_simps [simp]:
  "Operator (list_component q i op) = op"
  "Path (list_component q i op) = q @ [PathElementFromIndex i]"
  "Operator (key_component q k op) = op"
  "Path (key_component q k op) = q @ [PathElementFromKey k]"
  by (simp_all add: list_component_def key_component_def)

lemma Index_simps [simp]:
  "Index (PathElementFromIndex i) = i" "Key (PathElementFromIndex i) = ''''"
  "Index (PathElementFromKey k) = 0" "Key (PathElementFromKey k) = k"
  by (simp_all add: PathElementFromIndex_def PathElementFromKey_def)

lemma Applies_Cons_empty: "Engine_Applies E v (Some [] # ops) = Engine_Applies E v ops"
  by (simp add: Operation_Len_def)

lemma Applies_Cons_single:
  "Path c \<noteq> [] \<Longrightarrow> Validates (Operator c) = Inr () \<Longrightarrow>
   Engine_Applies E v (Some [c] # ops)
     = andThen (ApplyToValue E (PackAny E v) (Path c) (Operator c)) (\<lambda>v'. Engine_Applies E v' ops)"
  by (simp add: Operation_Len_def Engine_Apply_def Component_Validation_def Path_IsEmpty_def
      Path_Len_def andThen_assoc)

lemma Applies_Nil [simp]: "Engine_Applies E v [] = Inr v"
  by simp

section \<open>Lists\<close>

text \<open>The list operators with the conditions under which they do what they say.\<close>

fun list_op_ok :: "('v, 'f) env \<Rightarrow> 'v list \<Rightarrow> nat \<Rightarrow> 'v operator \<Rightarrow> bool" where
  "list_op_ok E arr i (ListInsert x) \<longleftrightarrow> i \<le> length arr"
| "list_op_ok E arr i (ListDelete d) \<longleftrightarrow> i < length arr \<and> Equals E (arr ! i) d"
| "list_op_ok E arr i (ListReplace n d) \<longleftrightarrow>
     0 < i \<and> i < length arr \<and> Equals E (arr ! i) d \<and> \<not> IsNull E (arr ! i)"
| "list_op_ok E arr i _ \<longleftrightarrow> False"

fun list_effect :: "'v operator \<Rightarrow> nat \<Rightarrow> 'v list \<Rightarrow> 'v list" where
  "list_effect (ListInsert x) i arr = insert_at i x arr"
| "list_effect (ListDelete _) i arr = delete_at i arr"
| "list_effect (ListReplace n _) i arr = arr[i := n]"
| "list_effect _ i arr = arr"

lemma IndexFunc_at:
  "i < length arr \<Longrightarrow> Equals E (arr ! i) d \<Longrightarrow> IndexFunc E arr d (int i) = int i"
  by (auto simp: IndexFunc_def)

lemma ApplyToArray_effect:
  assumes "list_op_ok E arr i op"
  shows "ApplyToArray E arr [PathElementFromIndex (int i)] op = Inr (list_effect op i arr)"
proof (cases op)
  case (ListInsert x)
  then show ?thesis using assms
    by (simp add: ApplyToArray_def ApplyListInsert_def slices_Insert_def insert_at_def)
next
  case (ListDelete d)
  then show ?thesis using assms IndexFunc_at [of i arr E d]
    by (auto simp: ApplyToArray_def ApplyListDelete_def slices_Delete_def delete_at_def Let_def)
next
  case (ListReplace n d)
  then show ?thesis using assms IndexFunc_at [of i arr E d]
    by (auto simp: ApplyToArray_def ApplyListReplace_def Let_def)
qed (use assms in simp_all)

lemma list_op_valid: "list_op_ok E arr i op \<Longrightarrow> Validates op = Inr ()"
  by (cases op) auto

context ot_contract
begin

lemma Applies_list1:
  assumes "list_at E view q v arr" and "list_op_ok E arr i op"
  shows "\<exists>v'. Engine_Applies E v (Some [list_component q (int i) op] # ops) = Engine_Applies E v' ops
           \<and> view v' = doc_put q (Arr (map view (list_effect op i arr))) (view v)
           \<and> list_at E view q v' (list_effect op i arr)"
  using ApplyToValue_list [OF assms(1) ApplyToArray_effect [OF assms(2)]] list_at_pack [OF assms(1)]
    list_op_valid [OF assms(2)]
  by (auto simp: Applies_Cons_single simp del: Engine_Applies.simps)

lemma Applies_list2:
  assumes l: "list_at E view q v arr" and "list_op_ok E arr i op"
    and "list_op_ok E (list_effect op i arr) j op'"
  shows "\<exists>v'. Engine_Applies E v [Some [list_component q (int i) op], Some [list_component q (int j) op']]
             = Inr v'
           \<and> view v' = doc_put q (Arr (map view (list_effect op' j (list_effect op i arr)))) (view v)"
proof -
  let ?o2 = "Some [list_component q (int j) op']"
  from Applies_list1 [OF l assms(2), of "[?o2]"] obtain v1 where
    v1: "Engine_Applies E v [Some [list_component q (int i) op], ?o2] = Engine_Applies E v1 [?o2]"
      "view v1 = doc_put q (Arr (map view (list_effect op i arr))) (view v)"
      "list_at E view q v1 (list_effect op i arr)" by auto
  from Applies_list1 [OF v1(3) assms(3), of "[]"] obtain v2 where
    v2: "Engine_Applies E v1 [?o2] = Inr v2"
      "view v2 = doc_put q (Arr (map view (list_effect op' j (list_effect op i arr)))) (view v1)"
    by auto
  show ?thesis using v1 v2 doc_put_put [OF list_at_doc [OF l]] by auto
qed

end

subsection \<open>Transforming list components of one array\<close>

lemma IsPrefixOf_append_cancel [path_simps]: "IsPrefixOf (p @ q) (p @ r) = IsPrefixOf q r"
  by (induction p) auto

lemma IsPrefixOf_index [simp]:
  "IsPrefixOf (q @ [PathElementFromIndex i]) (q @ [PathElementFromIndex j]) \<longleftrightarrow> i = j"
  by (simp add: path_simps PathElement_Equals_def)

lemma IsPrefixOf_key [simp]:
  "IsPrefixOf (q @ [PathElementFromKey k]) (q @ [PathElementFromKey l]) \<longleftrightarrow> k = l"
  by (auto simp: path_simps PathElement_Equals_def)

fun plain_op :: "'v operator \<Rightarrow> bool" where
  "plain_op (ListInsert _) = True" | "plain_op (ListDelete _) = True"
| "plain_op (ListReplace _ _) = True" | "plain_op (ObjectInsert _) = True"
| "plain_op (ObjectDelete _) = True" | "plain_op (ObjectReplace _ _) = True"
| "plain_op _ = False"

lemma OperatePathLen_plain:
  "plain_op (Operator c) \<Longrightarrow> OperatePathLen c = int (length (Path c)) - 1"
  by (cases "Operator c") (auto simp: OperatePathLen_def Path_Len_def)

lemma IsSameOperand_plain:
  "plain_op (Operator a) \<Longrightarrow> plain_op (Operator b) \<Longrightarrow>
   IsSameOperand a b \<longleftrightarrow> length (Path a) = length (Path b)"
  by (cases "Operator a"; cases "Operator b") (auto simp: IsSameOperand_def Path_Len_def)

text \<open>Components of one container reach the function for the base operator.\<close>

lemma TransformComponent_same_container:
  assumes "Path new = q @ [a]" "Path base = q @ [b]" "plain_op (Operator new)" "plain_op (Operator base)"
    and "\<not> IsEquivalentToNoop E new" "\<not> IsEquivalentToNoop E base"
  shows "TransformComponent E new base side = TransformComponentOperator E new base side"
  using assms
  by (simp add: TransformComponent_def OperatePathLen_plain MaxCommonPath_append Path_Len_def Let_def)

lemmas tc_defs = TransformComponentOperator_def TransformComponentForListInsert_def
  TransformComponentForListDelete_def TransformComponentForListReplace_def
  TransformComponentForObjectInsert_def TransformComponentForObjectDelete_def
  TransformComponentForObjectReplace_def

text \<open>The position and the operator a component gets against a base at position \<open>j\<close>.\<close>

definition list_xform ::
    "'v operator \<Rightarrow> nat \<Rightarrow> 'v operator \<Rightarrow> nat \<Rightarrow> TransformSide \<Rightarrow> (nat \<times> 'v operator) option" where
  "list_xform op i base j side =
     (case base of
        ListInsert _ \<Rightarrow>
          (case op of
             ListInsert x \<Rightarrow> Some (if j < i \<or> j = i \<and> side = TransformSideRight then Suc i else i, op)
           | _ \<Rightarrow> Some (if j \<le> i then Suc i else i, op))
      | ListDelete _ \<Rightarrow>
          (if j < i then Some (i - 1, op)
           else if j = i then
             (case op of ListDelete _ \<Rightarrow> None | ListReplace n _ \<Rightarrow> Some (i, ListInsert n)
              | _ \<Rightarrow> Some (i, op))
           else Some (i, op))
      | ListReplace bn _ \<Rightarrow>
          (if j = i then
             (case op of
                ListReplace n _ \<Rightarrow>
                  if side = TransformSideLeft then Some (i, ListReplace n bn) else None
              | ListDelete _ \<Rightarrow> None
              | _ \<Rightarrow> Some (i, op))
           else Some (i, op))
      | _ \<Rightarrow> Some (i, op))"

definition xform_result :: "Path \<Rightarrow> (nat \<times> 'v operator) option \<Rightarrow> 'v OperationComponent list" where
  "xform_result q r = (case r of None \<Rightarrow> [] | Some (i, op) \<Rightarrow> [list_component q (int i) op])"

fun list_op :: "'v operator \<Rightarrow> bool" where
  "list_op (ListInsert _) = True" | "list_op (ListDelete _) = True"
| "list_op (ListReplace _ _) = True" | "list_op _ = False"

lemma list_op_plain: "list_op op \<Longrightarrow> plain_op op"
  by (cases op) auto

lemma list_op_ok_op: "list_op_ok E arr i op \<Longrightarrow> list_op op"
  by (cases op) auto

lemma increase_list_component:
  "0 \<le> i \<Longrightarrow> is_int64 (i + 1) \<Longrightarrow>
   increasePath (list_component q i op) (int (length q)) = Inr (list_component q (i + 1) op)"
  by (simp add: increasePath_def IncreaseIndex_append list_component_def PathElementFromIndex_def)

lemma decrease_list_component:
  "0 < i \<Longrightarrow> is_int64 (i - 1) \<Longrightarrow>
   decreasePath (list_component q i op) (int (length q)) = Inr (list_component q (i - 1) op)"
  by (simp add: decreasePath_def DecreaseIndex_append list_component_def PathElementFromIndex_def)

lemma list_component_eq:
  "list_component q i op = list_component q j op' \<longleftrightarrow> i = j \<and> op = op'"
  by (auto simp: list_component_def PathElementFromIndex_def)

lemma mustGet_list_component [simp]:
  "mustGetElement (q @ [PathElementFromIndex i]) (int (length q)) = Inr (PathElementFromIndex i)"
  "Path_Get (q @ [PathElementFromIndex i]) (int (length q)) = Inr (Some (PathElementFromIndex i))"
  by (simp_all add: mustGetElement_def Path_Get_append)

lemma OperatePathLen_list [simp]:
  "plain_op op \<Longrightarrow> OperatePathLen (list_component q i op) = int (length q)"
  by (simp add: OperatePathLen_plain)

lemma New_list_component [simp]:
  "plain_op op \<Longrightarrow>
   NewOperationComponent (q @ [PathElementFromIndex i]) op = list_component q i op"
  by (cases op) (simp_all add: NewOperationComponent_def list_component_def Path_Clone_def)

lemma list_transform_insert:
  assumes "list_op op" "is_int64 (int i + 1)"
  shows "\<exists>new'. TransformComponentForListInsert E (list_component q (int i) op)
             (list_component q (int j) (ListInsert y)) side
           = Inr (Inr (xform_result q (list_xform op i (ListInsert y) j side)), new')
           \<and> Operator new' = op"
  using assms increase_list_component [of "int i" q op]
  by (cases op)
    (auto simp: TransformComponentForListInsert_def IsSameOperand_plain list_xform_def
      xform_result_def keep_def whenDo_def Let_def add.commute)

lemma list_transform_delete:
  assumes "list_op op" "is_int64 (int i + 1)"
  shows "\<exists>new'. TransformComponentForListDelete E (list_component q (int i) op)
             (list_component q (int j) (ListDelete y)) side
           = Inr (Inr (xform_result q (list_xform op i (ListDelete y) j side)), new')
           \<and> Operator new' = op"
proof -
  have "is_int64 (int i - 1)" using assms(2) by (simp add: is_int64_def)
  then show ?thesis
  using assms decrease_list_component [of "int i" q op]
  by (cases op)
    (auto simp: TransformComponentForListDelete_def IsSameOperand_plain list_xform_def
      xform_result_def keep_def emit_def whenDo_def Let_def of_nat_diff)
qed

lemma list_transform_replace:
  assumes "list_op op"
  shows "\<exists>new'. TransformComponentForListReplace E (list_component q (int i) op)
             (list_component q (int j) (ListReplace bn bd)) side bn
           = Inr (Inr (xform_result q (list_xform op i (ListReplace bn bd) j side)), new')
           \<and> Operator new' = op"
  using assms
  by (cases op)
    (auto simp: TransformComponentForListReplace_def IsSameOperand_plain list_xform_def
      xform_result_def keep_def emit_def)

lemma list_transform:
  assumes "list_op_ok E arr i op" "list_op_ok E arr j base" "is_int64 (int (length arr) + 1)"
    and "\<not> IsEquivalentToNoop E (list_component q (int i) op)"
    and "\<not> IsEquivalentToNoop E (list_component q (int j) base)"
  shows "\<exists>new'. TransformComponent E (list_component q (int i) op) (list_component q (int j) base) side
           = Inr (Inr (xform_result q (list_xform op i base j side)), new') \<and> Operator new' = op"
proof -
  have op: "list_op op" "list_op base" using assms list_op_ok_op by blast+
  have "i \<le> length arr" using assms(1) by (cases op) auto
  then have i: "is_int64 (int i + 1)" using assms(3) by (simp add: is_int64_def)
  have "TransformComponent E (list_component q (int i) op) (list_component q (int j) base) side
    = TransformComponentOperator E (list_component q (int i) op) (list_component q (int j) base) side"
    using op assms list_op_plain
    by (intro TransformComponent_same_container) auto
  then show ?thesis
    using op i list_transform_insert list_transform_delete list_transform_replace
    by (cases base) (simp_all add: TransformComponentOperator_def)
qed

text \<open>One round of \<open>Transform\<close> on a pair of list components.\<close>

lemma Transformer_pair:
  assumes "TransformComponent E new base TransformSideLeft = Inr (Inr l, new')"
    and "TransformComponent E base new TransformSideRight = Inr (Inr r, base')"
    and "share_values (Operator new) (Operator new') = Operator new"
    and "plain_op (Operator new)" "plain_op (Operator base)" "Path new \<noteq> []" "Path base \<noteq> []"
  shows "Engine_Transform E (NewOperation [new]) (NewOperation [base])
         = Inr (NewOperation l, NewOperation r)"
proof -
  have c: "Component_Clone c = c" if "plain_op (Operator c)" for c :: "'a OperationComponent"
    using that by (cases "Operator c") (auto simp: Component_Clone_def Path_Clone_def)
  have v: "Component_Validation c = Inr ()"
    if "plain_op (Operator c)" "Path c \<noteq> []" for c :: "'a OperationComponent"
    using that by (cases "Operator c") (auto simp: Component_Validation_def Path_IsEmpty_def Path_Len_def)
  show ?thesis
    using assms by (simp add: Engine_Transform_def Transformer_Transform_def NewOperation_def
        Operation_IsEmpty_def Operation_Validation_def v c)
qed

subsection \<open>Convergence on one array\<close>

text \<open>
  \<open>step_xform\<close> applies a transformed component to the array, \<open>None\<close> being the dropped one.
\<close>

definition xform_ok :: "('v, 'f) env \<Rightarrow> 'v list \<Rightarrow> (nat \<times> 'v operator) option \<Rightarrow> bool" where
  "xform_ok E arr r \<longleftrightarrow> (case r of None \<Rightarrow> True | Some (i, op) \<Rightarrow> list_op_ok E arr i op)"

definition xform_effect :: "(nat \<times> 'v operator) option \<Rightarrow> 'v list \<Rightarrow> 'v list" where
  "xform_effect r arr = (case r of None \<Rightarrow> arr | Some (i, op) \<Rightarrow> list_effect op i arr)"

definition pair_ok :: "('v, 'f) env \<Rightarrow> 'v list \<Rightarrow> nat \<Rightarrow> 'v operator \<Rightarrow> nat \<Rightarrow> 'v operator \<Rightarrow> bool" where
  "pair_ok E arr i op j base \<longleftrightarrow>
     (let l = list_xform op i base j TransformSideLeft; r = list_xform base j op i TransformSideRight
      in xform_ok E (list_effect base j arr) l \<and> xform_ok E (list_effect op i arr) r
         \<and> xform_effect l (list_effect base j arr) = xform_effect r (list_effect op i arr))"

fun is_replace :: "'v operator \<Rightarrow> bool" where
  "is_replace (ListReplace _ _) = True" | "is_replace _ = False"

lemma nth_insert_at_le: "i \<le> j \<Longrightarrow> j < length xs \<Longrightarrow> insert_at i x xs ! Suc j = xs ! j"
  using nth_ins [of i xs j x] by simp

lemma nth_insert_at_gt: "j < i \<Longrightarrow> i \<le> length xs \<Longrightarrow> insert_at i x xs ! j = xs ! j"
  using nth_ins [of i xs j x] by simp

lemma nth_delete_at_lt: "i < j \<Longrightarrow> j < length xs \<Longrightarrow> delete_at i xs ! (j - 1) = xs ! j"
  using nth_del [of i xs j] by simp

lemma nth_delete_at_gt: "j < i \<Longrightarrow> i < length xs \<Longrightarrow> delete_at i xs ! j = xs ! j"
  using nth_del [of i xs j] by simp

lemmas nth_edits = nth_insert_at_le nth_insert_at_gt nth_delete_at_lt nth_delete_at_gt

lemma pair_insert_insert:
  "i \<le> length arr \<Longrightarrow> j \<le> length arr \<Longrightarrow> pair_ok E arr i (ListInsert x) j (ListInsert y)"
  by (auto simp: pair_ok_def list_xform_def xform_ok_def xform_effect_def length_ins ins_ins Let_def)

lemma pair_insert_delete:
  assumes "i \<le> length arr" "j < length arr" "Equals E (arr ! j) d"
  shows "pair_ok E arr i (ListInsert x) j (ListDelete d)"
proof (cases "j < i")
  case True
  then obtain k where "i = Suc k" by (cases i) auto
  with True assms show ?thesis
    by (simp add: pair_ok_def list_xform_def xform_ok_def xform_effect_def length_ins length_del
        nth_edits del_ins_lt Let_def)
next
  case False
  with assms show ?thesis
    by (simp add: pair_ok_def list_xform_def xform_ok_def xform_effect_def length_ins length_del
        nth_edits ins_del_le Let_def)
qed

lemma pair_delete_delete:
  assumes "i < length arr" "j < length arr" "Equals E (arr ! i) c" "Equals E (arr ! j) d"
  shows "pair_ok E arr i (ListDelete c) j (ListDelete d)"
proof (cases i j rule: linorder_cases)
  case less
  then obtain k where "j = Suc k" by (cases j) auto
  with less assms show ?thesis using del_del [of i k arr] nth_delete_at_lt [of i j arr] nth_delete_at_gt [of i j arr]
    by (auto simp: pair_ok_def list_xform_def xform_ok_def xform_effect_def length_del Let_def)
next
  case equal
  with assms show ?thesis
    by (simp add: pair_ok_def list_xform_def xform_ok_def xform_effect_def Let_def)
next
  case greater
  then obtain k where "i = Suc k" by (cases i) auto
  with greater assms show ?thesis using del_del [of j k arr] nth_delete_at_lt [of j i arr] nth_delete_at_gt [of j i arr]
    by (auto simp: pair_ok_def list_xform_def xform_ok_def xform_effect_def length_del Let_def)
qed

lemma pair_ok_sym_insert_delete:
  assumes "i \<le> length arr" "j < length arr" "Equals E (arr ! j) d"
  shows "pair_ok E arr j (ListDelete d) i (ListInsert x)"
  using pair_insert_delete [OF assms, of x]
  by (auto simp: pair_ok_def list_xform_def Let_def)

lemma pair_replace_insert:
  assumes "j \<le> length arr" "list_op_ok E arr i (ListReplace n d)"
  shows "pair_ok E arr i (ListReplace n d) j (ListInsert y)"
  using assms
  by (auto simp: pair_ok_def list_xform_def xform_ok_def xform_effect_def length_ins nth_edits
      ins_upd Let_def)

lemma pair_replace_delete:
  assumes "list_op_ok E arr j (ListDelete c)" "list_op_ok E arr i (ListReplace n d)"
    and "j < i \<Longrightarrow> 1 < i"
  shows "pair_ok E arr i (ListReplace n d) j (ListDelete c)"
proof (cases i j rule: linorder_cases)
  case less
  with assms show ?thesis using del_upd [of i arr j n] nth_delete_at_gt [of i j arr]
    by (auto simp: pair_ok_def list_xform_def xform_ok_def xform_effect_def length_del Let_def)
next
  case equal
  with assms show ?thesis
    by (auto simp: pair_ok_def list_xform_def xform_ok_def xform_effect_def length_del ins_del_same Let_def)
next
  case greater
  with assms show ?thesis using del_upd [of i arr j n] nth_delete_at_lt [of j i arr]
    by (auto simp: pair_ok_def list_xform_def xform_ok_def xform_effect_def length_del Let_def)
qed

context ot_contract
begin

lemma pair_replace_replace:
  assumes "list_op_ok E arr i (ListReplace n d)" "list_op_ok E arr j (ListReplace bn bd)"
    and "\<not> IsNull E bn"
  shows "pair_ok E arr i (ListReplace n d) j (ListReplace bn bd)"
  using assms Equals_refl [of bn]
  by (auto simp: pair_ok_def list_xform_def xform_ok_def xform_effect_def list_update_swap Let_def)

lemma xform_list2:
  assumes l: "list_at E view q v arr" and ok: "list_op_ok E arr i op"
    and x: "xform_ok E (list_effect op i arr) r"
  shows "\<exists>v'. Engine_Applies E v [Some [list_component q (int i) op], Some (xform_result q r)] = Inr v'
           \<and> view v' = doc_put q (Arr (map view (xform_effect r (list_effect op i arr)))) (view v)"
proof (cases r)
  case None
  then show ?thesis using Applies_list1 [OF l ok, of "[Some []]"]
    by (auto simp: xform_result_def xform_effect_def Applies_Cons_empty simp del: Engine_Applies.simps(2))
next
  case (Some a)
  then show ?thesis using Applies_list2 [OF l ok] x
    by (cases a) (auto simp: xform_result_def xform_effect_def xform_ok_def simp del: Engine_Applies.simps)
qed

lemma list_pair_converges:
  assumes l: "list_at E view q v arr" and len: "is_int64 (int (length arr) + 1)"
    and i: "list_op_ok E arr i op" and j: "list_op_ok E arr j base"
    and "\<not> IsEquivalentToNoop E (list_component q (int i) op)"
    and "\<not> IsEquivalentToNoop E (list_component q (int j) base)"
    and pair: "pair_ok E arr i op j base"
  shows "converges E view v (list_component q (int i) op) (list_component q (int j) base)"
proof -
  let ?n = "list_component q (int i) op" and ?b = "list_component q (int j) base"
  let ?l = "list_xform op i base j TransformSideLeft" and ?r = "list_xform base j op i TransformSideRight"
  obtain n' b' where tc: "TransformComponent E ?n ?b TransformSideLeft = Inr (Inr (xform_result q ?l), n')"
      "TransformComponent E ?b ?n TransformSideRight = Inr (Inr (xform_result q ?r), b')"
    and op: "Operator n' = op"
    using list_transform [OF i j len] list_transform [OF j i len] assms(5,6) by blast
  have "share_values op op = op" by (cases op) auto
  then have t: "Engine_Transform E (NewOperation [?n]) (NewOperation [?b])
      = Inr (NewOperation (xform_result q ?l), NewOperation (xform_result q ?r))"
    using op list_op_plain [OF list_op_ok_op [OF i]] list_op_plain [OF list_op_ok_op [OF j]]
    by (intro Transformer_pair [OF tc]) auto
  have p: "xform_ok E (list_effect base j arr) ?l" "xform_ok E (list_effect op i arr) ?r"
      "xform_effect ?l (list_effect base j arr) = xform_effect ?r (list_effect op i arr)"
    using pair by (simp_all add: pair_ok_def Let_def)
  show ?thesis
    using t xform_list2 [OF l j p(1)] xform_list2 [OF l i p(2)] p(3)
    by (auto simp: converges_def NewOperation_def simp del: Engine_Applies.simps)
qed

end

end
