(* ===== verification/ObjectConvergence.thy ===== *)
theory ObjectConvergence
  imports Convergence
begin

text \<open>
  Pairs of object operators on members of one object: what \<open>TransformComponent\<close> makes of
  them, and exactly which pairs converge.
\<close>

definition key_xform ::
    "'v operator \<Rightarrow> string \<Rightarrow> 'v operator \<Rightarrow> string \<Rightarrow> TransformSide \<Rightarrow> 'v operator option" where
  "key_xform op k base l side =
     (if k \<noteq> l then Some op
      else
        (case base of
           ObjectReplace bn _ \<Rightarrow>
             (case op of
                ObjectReplace n _ \<Rightarrow> if side = TransformSideRight then None else Some (ObjectReplace n bn)
              | ObjectInsert n \<Rightarrow> if side = TransformSideRight then None else Some (ObjectReplace n bn)
              | _ \<Rightarrow> None)
         | ObjectInsert bn \<Rightarrow>
             (case op of
                ObjectReplace n _ \<Rightarrow> if side = TransformSideRight then None else Some (ObjectReplace n bn)
              | ObjectInsert n \<Rightarrow> if side = TransformSideRight then None else Some (ObjectReplace n bn)
              | _ \<Rightarrow> if side = TransformSideRight then None else Some op)
         | _ \<Rightarrow>
             (case op of
                ObjectReplace n _ \<Rightarrow> if side = TransformSideRight then None else Some (ObjectInsert n)
              | ObjectInsert n \<Rightarrow> if side = TransformSideRight then None else Some (ObjectInsert n)
              | _ \<Rightarrow> None)))"

definition key_result :: "Path \<Rightarrow> string \<Rightarrow> 'v operator option \<Rightarrow> 'v OperationComponent list" where
  "key_result q k r = (case r of None \<Rightarrow> [] | Some op \<Rightarrow> [key_component q k op])"

lemma object_op_plain: "is_object_op op \<Longrightarrow> plain_op op"
  by (cases op) auto

lemma New_key_component [simp]:
  "plain_op op \<Longrightarrow> NewOperationComponent (q @ [PathElementFromKey k]) op = key_component q k op"
  by (cases op) (simp_all add: NewOperationComponent_def key_component_def Path_Clone_def)

lemma key_transform:
  assumes "is_object_op op" "is_object_op base"
    and "\<not> IsEquivalentToNoop E (key_component q k op)"
    and "\<not> IsEquivalentToNoop E (key_component q l base)"
  shows "TransformComponent E (key_component q k op) (key_component q l base) side
         = Inr (Inr (key_result q k (key_xform op k base l side)), key_component q k op)"
proof -
  have "TransformComponent E (key_component q k op) (key_component q l base) side
    = TransformComponentOperator E (key_component q k op) (key_component q l base) side"
    using assms by (intro TransformComponent_same_container) (auto simp: object_op_plain)
  moreover have "IsSameOperand (key_component q l base) (key_component q k op)"
    using assms(1,2) by (simp add: IsSameOperand_plain object_op_plain)
  ultimately show ?thesis
    using assms(1,2)
    by (cases base; cases op)
      (auto simp: tc_defs key_xform_def key_result_def keep_def emit_def Let_def)
qed

definition xform_member ::
    "('v \<Rightarrow> 'n jdoc) \<Rightarrow> 'v operator option \<Rightarrow> string \<Rightarrow> (string \<Rightarrow> 'n jdoc option) \<Rightarrow> (string \<Rightarrow> 'n jdoc option)" where
  "xform_member view r k m = (case r of None \<Rightarrow> m | Some op \<Rightarrow> object_effect view op k m)"

text \<open>The pair that loses: deleting a member the other side replaced.\<close>

definition delete_meets_replace :: "'v operator \<Rightarrow> string \<Rightarrow> 'v operator \<Rightarrow> string \<Rightarrow> bool" where
  "delete_meets_replace op k base l \<longleftrightarrow>
     k = l \<and> (\<exists>d. op = ObjectDelete d) \<and> (\<exists>n d. base = ObjectReplace n d)"

lemma object_effect_commute:
  "k \<noteq> l \<Longrightarrow> is_object_op op \<Longrightarrow> is_object_op base \<Longrightarrow>
   object_effect view op k (object_effect view base l m) = object_effect view base l (object_effect view op k m)"
  by (cases op; cases base) (auto simp: fun_upd_twist)

lemma key_pair_effect:
  assumes "is_object_op op" "is_object_op base"
  shows "xform_member view (key_xform op k base l TransformSideLeft) k (object_effect view base l m)
       = xform_member view (key_xform base l op k TransformSideRight) l (object_effect view op k m)
       \<longleftrightarrow> \<not> delete_meets_replace op k base l"
proof (cases "k = l")
  case False
  then show ?thesis
    using assms object_effect_commute [OF False assms]
    by (simp add: key_xform_def xform_member_def delete_meets_replace_def)
next
  case True
  have "m(l \<mapsto> x) = m(l := None) \<longleftrightarrow> False" for x
    by (metis fun_upd_same option.distinct(1))
  then show ?thesis using True assms
    by (cases op; cases base)
      (auto simp: key_xform_def xform_member_def delete_meets_replace_def fun_eq_iff)
qed

lemma xform_is_object_op:
  "is_object_op op \<Longrightarrow> is_object_op base \<Longrightarrow> key_xform op k base l side = Some op' \<Longrightarrow> is_object_op op'"
  by (cases op; cases base) (auto simp: key_xform_def split: if_splits)

lemma object_op_valid: "is_object_op op \<Longrightarrow> Validates op = Inr ()"
  by (cases op) auto

context ot_contract
begin

lemma object_pack: "doc_at q (view v) = Some (Obj m) \<Longrightarrow> PackAny E v = v"
  using doc_at_container [of q "view v"] PackAny_container
  by (cases "q = []") (auto simp: is_container_iff)

lemma Applies_object1:
  assumes "doc_at q (view v) = Some (Obj m)" and "is_object_op op"
  shows "\<exists>v'. Engine_Applies E v (Some [key_component q k op] # ops) = Engine_Applies E v' ops
           \<and> view v' = doc_put q (Obj (object_effect view op k m)) (view v)
           \<and> doc_at q (view v') = Some (Obj (object_effect view op k m))"
  using ApplyToValue_object_op [OF assms(2,1), of "PathElementFromKey k"] object_pack [OF assms(1)]
    object_op_valid [OF assms(2)]
  by (auto simp: Applies_Cons_single simp del: Engine_Applies.simps)

lemma Applies_object2:
  assumes d: "doc_at q (view v) = Some (Obj m)" and op: "is_object_op op"
    and r: "\<And>op'. r = Some op' \<Longrightarrow> is_object_op op'"
  shows "\<exists>v'. Engine_Applies E v [Some [key_component q k op], Some (key_result q l r)] = Inr v'
           \<and> view v' = doc_put q (Obj (xform_member view r l (object_effect view op k m))) (view v)"
proof -
  obtain v1 where v1: "Engine_Applies E v [Some [key_component q k op], Some (key_result q l r)]
        = Engine_Applies E v1 [Some (key_result q l r)]"
      "view v1 = doc_put q (Obj (object_effect view op k m)) (view v)"
      "doc_at q (view v1) = Some (Obj (object_effect view op k m))"
    using Applies_object1 [OF d op] by blast
  show ?thesis
  proof (cases r)
    case None
    then show ?thesis using v1
      by (auto simp: key_result_def xform_member_def Applies_Cons_empty simp del: Engine_Applies.simps(2))
  next
    case (Some op')
    obtain v2 where "Engine_Applies E v1 [Some [key_component q l op']] = Inr v2"
        "view v2 = doc_put q (Obj (object_effect view op' l (object_effect view op k m))) (view v1)"
      using Applies_object1 [OF v1(3) r [OF Some], of l "[]"] by auto
    then show ?thesis using v1 Some doc_put_put [OF d]
      by (auto simp: key_result_def xform_member_def simp del: Engine_Applies.simps)
  qed
qed

lemma key_pair_transform:
  assumes "is_object_op op" "is_object_op base"
    and "\<not> IsEquivalentToNoop E (key_component q k op)"
    and "\<not> IsEquivalentToNoop E (key_component q l base)"
  shows "Engine_Transform E (NewOperation [key_component q k op]) (NewOperation [key_component q l base])
    = Inr (NewOperation (key_result q k (key_xform op k base l TransformSideLeft)),
           NewOperation (key_result q l (key_xform base l op k TransformSideRight)))"
proof -
  have "share_values op op = op" using assms(1) by (cases op) auto
  then show ?thesis
    using assms
    by (intro Transformer_pair [OF key_transform key_transform]) (auto simp: object_op_plain)
qed

lemma doc_put_inj:
  "doc_at q d = Some e \<Longrightarrow> doc_put q a d = doc_put q b d \<longleftrightarrow> a = b"
  by (metis doc_at_put option.inject)

lemma key_pair_converges:
  assumes d: "doc_at q (view v) = Some (Obj m)"
    and op: "is_object_op op" "is_object_op base"
    and noop: "\<not> IsEquivalentToNoop E (key_component q k op)"
      "\<not> IsEquivalentToNoop E (key_component q l base)"
  shows "converges E view v (key_component q k op) (key_component q l base)
         \<longleftrightarrow> \<not> delete_meets_replace op k base l"
proof -
  let ?l = "key_xform op k base l TransformSideLeft" and ?r = "key_xform base l op k TransformSideRight"
  obtain v1 where v1: "Engine_Applies E v [Some [key_component q l base], Some (key_result q k ?l)] = Inr v1"
      "view v1 = doc_put q (Obj (xform_member view ?l k (object_effect view base l m))) (view v)"
    using Applies_object2 [OF d op(2), of ?l l k] xform_is_object_op [OF op] by blast
  obtain v2 where v2: "Engine_Applies E v [Some [key_component q k op], Some (key_result q l ?r)] = Inr v2"
      "view v2 = doc_put q (Obj (xform_member view ?r l (object_effect view op k m))) (view v)"
    using Applies_object2 [OF d op(1), of ?r k l] xform_is_object_op [OF op(2,1)] by blast
  have "converges E view v (key_component q k op) (key_component q l base) \<longleftrightarrow> view v1 = view v2"
    using key_pair_transform [OF op noop] v1(1) v2(1)
    by (simp add: converges_def NewOperation_def del: Engine_Applies.simps)
  then show ?thesis
    using v1(2) v2(2) key_pair_effect [OF op] by (simp add: doc_put_inj [OF d])
qed

end

end
