(* ===== verification/Decimal.thy ===== *)
theory Decimal
  imports GoPrelude
begin

text \<open>
  Writing integers in decimal, as \<open>strconv\<close> does, and reading them back with \<open>Atoi\<close>.
\<close>

fun print_nat :: "nat \<Rightarrow> string" where
  "print_nat n = (if n < 10 then [char_of (48 + n)] else print_nat (n div 10) @ [char_of (48 + n mod 10)])"

declare print_nat.simps [simp del]

definition print_int :: "int \<Rightarrow> string" where
  "print_int i = (if i < 0 then CHR ''-'' # print_nat (nat (- i)) else print_nat (nat i))"

definition is_digit :: "char \<Rightarrow> bool" where
  "is_digit c \<longleftrightarrow> 48 \<le> (of_char c :: nat) \<and> (of_char c :: nat) \<le> 57"

lemma of_char_digit: "n < 10 \<Longrightarrow> (of_char (char_of (48 + n) :: char) :: nat) = 48 + n"
  by simp

lemma is_digit_char_of [simp]: "(n::nat) < 10 \<Longrightarrow> is_digit (char_of (48 + n))"
  by (simp add: is_digit_def)

lemma print_nat_digits: "\<forall>c \<in> set (print_nat n). is_digit c"
  by (induction n rule: print_nat.induct) (subst print_nat.simps, auto)

lemma print_nat_ne [simp]: "print_nat n \<noteq> []"
  by (subst print_nat.simps) simp

lemma parse_digits_append:
  "parse_digits a (s @ t) = (case parse_digits a s of None \<Rightarrow> None | Some b \<Rightarrow> parse_digits b t)"
  by (induction a s rule: parse_digits.induct) (auto simp: Let_def)

lemma parse_digit_one: "n < 10 \<Longrightarrow> parse_digits a [char_of (48 + n)] = Some (a * 10 + int n)"
proof -
  assume "n < 10"
  then have "(of_char (char_of (48 + n) :: char) :: int) = 48 + int n"
    using of_char_digit [of n] by (metis of_nat_add of_nat_numeral of_nat_of_char)
  with \<open>n < 10\<close> show ?thesis by simp
qed

lemma parse_digits_print_nat: "parse_digits 0 (print_nat n) = Some (int n)"
proof (induction n rule: print_nat.induct)
  case (1 n)
  show ?case
  proof (cases "n < 10")
    case True
    then show ?thesis by (subst print_nat.simps) (use parse_digit_one [of n 0] in simp)
  next
    case False
    have "int (n div 10) * 10 + int (n mod 10) = int n"
      by (metis div_mult_mod_eq of_nat_add of_nat_mult of_nat_numeral)
    with False 1 show ?thesis
      by (subst print_nat.simps) (simp add: parse_digits_append parse_digit_one del: parse_digits.simps)
  qed
qed

lemma Atoi_print_int: "is_int64 v \<Longrightarrow> Atoi (print_int v) = Some v"
proof -
  have head: "c \<noteq> CHR ''-'' \<and> c \<noteq> CHR ''+''" if "print_nat n = c # s" for n c s
    using print_nat_digits [of n] that by (auto simp: is_digit_def)
  assume v: "is_int64 v"
  show ?thesis
  proof (cases "v < 0")
    case True
    then show ?thesis
      using v parse_digits_print_nat [of "nat (- v)"]
      by (simp add: Atoi_def print_int_def Let_def del: parse_digits.simps)
  next
    case False
    obtain c s where c: "print_nat (nat v) = c # s" using print_nat_ne [of "nat v"] by (cases "print_nat (nat v)") auto
    then show ?thesis
      using v False parse_digits_print_nat [of "nat v"] head [OF c]
      by (simp add: Atoi_def print_int_def Let_def del: parse_digits.simps)
  qed
qed

end
