(* ===== verification/ReferenceJson.thy ===== *)
theory ReferenceJson
  imports JsonValue Decimal "HOL-Library.AList"
begin

text \<open>
  A concrete JSON tree with a printer and a parser of compact JSON text.  It is not a model of
  code of the repository: it is the executable instance of the third-party node library on
  which the contracts of \<open>SonicNode\<close> are discharged and the witnesses are evaluated.
  Numbers are integers; in strings the quote and the backslash are escaped, every other byte
  is printed as it is.  \<open>JError\<close> is the error node a failed access returns, \<open>JNone\<close> such a node stored in
  a document (both print as \<open>!\<close>), and \<open>JAny\<close> its node of type
  \<open>V_ANY\<close>, which holds a Go number until it is parsed.  The main lemma is \<open>parse_print\<close>.
\<close>

datatype jnode = JNull | JBool bool | JNum int | JStr string | JArr "jnode list"
  | JObj "(string \<times> jnode) list" | JAny int | JError | JNone

section \<open>Printing\<close>

definition dquote :: char where "dquote = CHR 0x22"
definition bslash :: char where "bslash = CHR 0x5C"

fun escape :: "string \<Rightarrow> string" where
  "escape [] = []"
| "escape (c # s) = (if c = dquote \<or> c = bslash then bslash # c # escape s else c # escape s)"

definition print_string :: "string \<Rightarrow> string" where
  "print_string s = dquote # escape s @ [dquote]"

text \<open>Punctuated sequences of printed members.\<close>

fun members :: "char \<Rightarrow> string list \<Rightarrow> string" where
  "members close [] = [close]"
| "members close (x # xs) = CHR '','' # x @ members close xs"

fun seq :: "char \<Rightarrow> string list \<Rightarrow> string" where
  "seq close [] = [close]"
| "seq close (x # xs) = x @ members close xs"

fun print_json :: "jnode \<Rightarrow> string" where
  "print_json JNull = ''null''"
| "print_json (JBool b) = (if b then ''true'' else ''false'')"
| "print_json (JNum i) = print_int i"
| "print_json (JAny i) = print_int i"
| "print_json (JStr s) = print_string s"
| "print_json (JArr xs) = CHR ''['' # seq (CHR '']'') (map print_json xs)"
| "print_json (JObj kvs) =
     CHR ''{'' # seq (CHR ''}'') (map (\<lambda>(k, v). print_string k @ CHR '':'' # print_json v) kvs)"
| "print_json JError = ''!''"
| "print_json JNone = ''!''"

section \<open>Parsing\<close>

fun parse_string_body :: "string \<Rightarrow> (string \<times> string) option" where
  "parse_string_body [] = None"
| "parse_string_body (c # s) =
     (if c = dquote then Some ([], s)
      else if c = bslash then
        (case s of [] \<Rightarrow> None
         | d # s' \<Rightarrow> map_option (\<lambda>(b, r). (d # b, r)) (parse_string_body s'))
      else map_option (\<lambda>(b, r). (c # b, r)) (parse_string_body s))"

definition parse_nat :: "string \<Rightarrow> (int \<times> string) option" where
  "parse_nat s =
     (let ds = takeWhile is_digit s in
      if ds = [] then None
      else map_option (\<lambda>n. (n, dropWhile is_digit s)) (parse_digits 0 ds))"

fun parse_json :: "nat \<Rightarrow> string \<Rightarrow> (jnode \<times> string) option"
  and parse_elems :: "nat \<Rightarrow> string \<Rightarrow> (jnode list \<times> string) option"
  and parse_fields :: "nat \<Rightarrow> string \<Rightarrow> ((string \<times> jnode) list \<times> string) option"
  and parse_field :: "nat \<Rightarrow> string \<Rightarrow> ((string \<times> jnode) \<times> string) option" where
  "parse_json 0 s = None"
| "parse_json (Suc n) s =
     (case s of [] \<Rightarrow> None
      | c # r \<Rightarrow>
          if c = CHR ''!'' then Some (JNone, r)
          else if c = CHR ''n'' \<and> take 4 s = ''null'' then Some (JNull, drop 4 s)
          else if c = CHR ''t'' \<and> take 4 s = ''true'' then Some (JBool True, drop 4 s)
          else if c = CHR ''f'' \<and> take 5 s = ''false'' then Some (JBool False, drop 5 s)
          else if c = dquote then map_option (\<lambda>(b, r). (JStr b, r)) (parse_string_body r)
          else if c = CHR ''-'' then map_option (\<lambda>(i, r). (JNum (- i), r)) (parse_nat r)
          else if is_digit c then map_option (\<lambda>(i, r). (JNum i, r)) (parse_nat s)
          else if c = CHR ''['' then
            (case r of d # r' \<Rightarrow>
               if d = CHR '']'' then Some (JArr [], r')
               else (case parse_json n r of None \<Rightarrow> None
                     | Some (x, r) \<Rightarrow> map_option (\<lambda>(xs, r). (JArr (x # xs), r)) (parse_elems n r))
             | [] \<Rightarrow> None)
          else if c = CHR ''{'' then
            (case r of d # r' \<Rightarrow>
               if d = CHR ''}'' then Some (JObj [], r')
               else (case parse_field n r of None \<Rightarrow> None
                     | Some (x, r) \<Rightarrow> map_option (\<lambda>(xs, r). (JObj (x # xs), r)) (parse_fields n r))
             | [] \<Rightarrow> None)
          else None)"
| "parse_elems 0 s = None"
| "parse_elems (Suc n) s =
     (case s of [] \<Rightarrow> None
      | c # r \<Rightarrow>
          if c = CHR '']'' then Some ([], r)
          else if c = CHR '','' then
            (case parse_json n r of None \<Rightarrow> None
             | Some (x, r) \<Rightarrow> map_option (\<lambda>(xs, r). (x # xs, r)) (parse_elems n r))
          else None)"
| "parse_fields 0 s = None"
| "parse_fields (Suc n) s =
     (case s of [] \<Rightarrow> None
      | c # r \<Rightarrow>
          if c = CHR ''}'' then Some ([], r)
          else if c = CHR '','' then
            (case parse_field n r of None \<Rightarrow> None
             | Some (x, r) \<Rightarrow> map_option (\<lambda>(xs, r). (x # xs, r)) (parse_fields n r))
          else None)"
| "parse_field 0 s = None"
| "parse_field (Suc n) s =
     (case s of [] \<Rightarrow> None
      | c # r \<Rightarrow>
          if c = dquote then
            (case parse_string_body r of None \<Rightarrow> None
             | Some (k, r) \<Rightarrow>
                 (case r of [] \<Rightarrow> None
                  | d # r \<Rightarrow> if d = CHR '':'' then map_option (\<lambda>(v, r). ((k, v), r)) (parse_json n r)
                            else None))
          else None)"

text \<open>Parsing a whole text; the fuel \<open>parse_print_whole\<close> needs is its length doubled.\<close>

definition parse_text :: "string \<Rightarrow> jnode option" where
  "parse_text s = (case parse_json (Suc (2 * length s)) s of Some (n, []) \<Rightarrow> Some n | _ \<Rightarrow> None)"

section \<open>Parsing what was printed\<close>

definition no_digit :: "string \<Rightarrow> bool" where
  "no_digit s \<longleftrightarrow> (case s of [] \<Rightarrow> True | c # _ \<Rightarrow> \<not> is_digit c)"

lemma parse_nat_print: "no_digit r \<Longrightarrow> parse_nat (print_nat n @ r) = Some (int n, r)"
proof -
  assume "no_digit r"
  then have "takeWhile is_digit r = []" "dropWhile is_digit r = r"
    by (auto simp: no_digit_def split: list.splits)
  with print_nat_digits [of n] show ?thesis
    by (simp add: parse_nat_def parse_digits_print_nat)
qed

lemma parse_string_escape: "parse_string_body (escape s @ dquote # r) = Some (s, r)"
  by (induction s) (auto simp: dquote_def bslash_def)

text \<open>\<open>norm\<close> is what parsing makes of a node.\<close>

fun norm :: "jnode \<Rightarrow> jnode" where
  "norm (JAny i) = JNum i"
| "norm (JArr xs) = JArr (map norm xs)"
| "norm (JObj kvs) = JObj (map (\<lambda>(k, v). (k, norm v)) kvs)"
| "norm JError = JNone"
| "norm x = x"

definition value_start :: "string \<Rightarrow> bool" where
  "value_start s \<longleftrightarrow> (case s of [] \<Rightarrow> False | c # _ \<Rightarrow> c \<noteq> CHR '']'' \<and> c \<noteq> CHR ''}'')"

lemma print_nat_Cons: "\<exists>c s. print_nat n = c # s \<and> is_digit c"
  using print_nat_digits [of n] print_nat_ne [of n] by (cases "print_nat n") auto

lemma parse_int_print:
  "no_digit r \<Longrightarrow> parse_json (Suc n) (print_int i @ r) = Some (JNum i, r)"
proof -
  assume r: "no_digit r"
  show ?thesis
  proof (cases "i < 0")
    case True
    then show ?thesis using parse_nat_print [OF r, of "nat (- i)"]
      by (simp add: print_int_def dquote_def)
  next
    case False
    obtain c s where c: "print_nat (nat i) = c # s" "is_digit c"
      using print_nat_Cons by blast
    then have "c \<noteq> CHR ''!''" "c \<noteq> CHR ''n''" "c \<noteq> CHR ''t''" "c \<noteq> CHR ''f''" "c \<noteq> dquote" "c \<noteq> CHR ''-''"
      by (auto simp: is_digit_def dquote_def)
    with False c show ?thesis using parse_nat_print [OF r, of "nat i"]
      by (simp add: print_int_def)
  qed
qed

lemma value_start_print: "value_start (print_json x @ r)"
proof -
  have i: "value_start (print_int i @ r)" for i
    using print_nat_Cons [of "nat i"]
    by (auto simp: value_start_def print_int_def is_digit_def)
  show ?thesis
    by (cases x) (auto simp: i, auto simp: value_start_def print_string_def dquote_def)
qed

lemma members_no_digit: "c = CHR '']'' \<or> c = CHR ''}'' \<Longrightarrow> no_digit (members c xs @ r)"
  by (cases xs) (auto simp: no_digit_def is_digit_def)

lemma members_length: "0 < length (members c xs)"
  by (cases xs) auto

definition parses :: "jnode \<Rightarrow> bool" where
  "parses x \<longleftrightarrow> (\<forall>n r. length (print_json x) \<le> n \<longrightarrow> no_digit r \<longrightarrow>
     parse_json (Suc n) (print_json x @ r) = Some (norm x, r))"

lemma parsesD:
  "parses x \<Longrightarrow> length (print_json x) < n \<Longrightarrow> no_digit r \<Longrightarrow>
   parse_json n (print_json x @ r) = Some (norm x, r)"
  unfolding parses_def by (cases n) auto

lemma parse_elems_members:
  "list_all parses xs \<Longrightarrow> length (members (CHR '']'') (map print_json xs)) \<le> n \<Longrightarrow>
   parse_elems n (members (CHR '']'') (map print_json xs) @ r) = Some (map norm xs, r)"
proof (induction xs arbitrary: n)
  case Nil
  then show ?case by (cases n) auto
next
  case (Cons x xs)
  then obtain m where n: "n = Suc m" by (cases n) auto
  have "length (print_json x) < m"
    using Cons.prems(2) members_length [of "CHR '']''" "map print_json xs"]
    unfolding n list.map members.simps length_Cons length_append by linarith
  then have "parse_json m (print_json x @ members (CHR '']'') (map print_json xs) @ r)
             = Some (norm x, members (CHR '']'') (map print_json xs) @ r)"
    using Cons.prems(1) by (intro parsesD members_no_digit) auto
  with Cons n show ?case by simp
qed

definition print_field :: "string \<times> jnode \<Rightarrow> string" where
  "print_field kv = (case kv of (k, v) \<Rightarrow> print_string k @ CHR '':'' # print_json v)"

lemma parse_field_print:
  "parses v \<Longrightarrow> length (print_field (k, v)) \<le> n \<Longrightarrow> no_digit r \<Longrightarrow>
   parse_field n (print_field (k, v) @ r) = Some ((k, norm v), r)"
proof -
  assume v: "parses v" and n: "length (print_field (k, v)) \<le> n" and r: "no_digit r"
  then obtain m where m: "n = Suc m" by (cases n) (auto simp: print_field_def)
  have "length (print_json v) < m" using n by (simp add: print_field_def print_string_def m)
  then have "parse_json m (print_json v @ r) = Some (norm v, r)"
    using v r by (simp add: parsesD)
  then show ?thesis by (simp add: m print_field_def print_string_def parse_string_escape)
qed

lemma parse_fields_members:
  "list_all (\<lambda>(k, v). parses v) kvs \<Longrightarrow>
   length (members (CHR ''}'') (map print_field kvs)) \<le> n \<Longrightarrow>
   parse_fields n (members (CHR ''}'') (map print_field kvs) @ r)
   = Some (map (\<lambda>(k, v). (k, norm v)) kvs, r)"
proof (induction kvs arbitrary: n)
  case Nil
  then show ?case by (cases n) auto
next
  case (Cons kv kvs)
  then obtain m where n: "n = Suc m" by (cases n) auto
  obtain k v where kv: "kv = (k, v)" by (cases kv)
  have "parse_field m (print_field (k, v) @ members (CHR ''}'') (map print_field kvs) @ r)
             = Some ((k, norm v), members (CHR ''}'') (map print_field kvs) @ r)"
    using Cons.prems kv n by (intro parse_field_print members_no_digit) auto
  with Cons n kv show ?case by simp
qed

lemma print_json_JObj: "print_json (JObj kvs) = CHR ''{'' # seq (CHR ''}'') (map print_field kvs)"
  by (simp add: print_field_def [abs_def])

lemma parses_JArr: "list_all parses xs \<Longrightarrow> parses (JArr xs)"
  unfolding parses_def [of "JArr xs"]
proof (intro allI impI)
  fix n r assume x: "list_all parses xs"
    and n: "length (print_json (JArr xs)) \<le> n" and r: "no_digit r"
  show "parse_json (Suc n) (print_json (JArr xs) @ r) = Some (norm (JArr xs), r)"
  proof (cases xs)
    case Nil
    then show ?thesis by (simp add: dquote_def is_digit_def)
  next
    case (Cons y ys)
    let ?m = "members (CHR '']'') (map print_json ys)"
    have ml: "0 < length ?m" by (rule members_length)
    have l: "length (print_json y) < n" "length ?m \<le> n"
      using n Cons ml by simp_all
    have vs: "value_start (print_json y @ ?m @ r)"
      by (rule value_start_print)
    have py: "parse_json n (print_json y @ ?m @ r) = Some (norm y, ?m @ r)"
      using x Cons l(1) members_no_digit by (intro parsesD) auto
    have pm: "parse_elems n (?m @ r) = Some (map norm ys, r)"
      using x Cons l(2) by (intro parse_elems_members) auto
    obtain d s where ds: "print_json y @ ?m @ r = d # s" "d \<noteq> CHR '']''"
      using vs by (auto simp: value_start_def split: list.splits)
    have eq: "parse_json (Suc n) (CHR ''['' # d # s) =
        (case parse_json n (d # s) of None \<Rightarrow> None
         | Some (x, r) \<Rightarrow> map_option (\<lambda>(xs, r). (JArr (x # xs), r)) (parse_elems n r))"
      using ds(2) by (simp add: dquote_def is_digit_def)
    have "parse_json (Suc n) (CHR ''['' # (print_json y @ ?m @ r)) = Some (norm (JArr xs), r)"
      using eq py pm Cons by (simp add: ds(1))
    then show ?thesis by (simp add: Cons)
  qed
qed

lemma parses_JObj: "list_all (\<lambda>(k, v). parses v) kvs \<Longrightarrow> parses (JObj kvs)"
  unfolding parses_def [of "JObj kvs"]
proof (intro allI impI)
  fix n r assume x: "list_all (\<lambda>(k, v). parses v) kvs"
    and n: "length (print_json (JObj kvs)) \<le> n" and r: "no_digit r"
  show "parse_json (Suc n) (print_json (JObj kvs) @ r) = Some (norm (JObj kvs), r)"
  proof (cases kvs)
    case Nil
    then show ?thesis by (simp add: dquote_def is_digit_def)
  next
    case (Cons kv ys)
    obtain k v where kv: "kv = (k, v)" by (cases kv)
    let ?m = "members (CHR ''}'') (map print_field ys)"
    have ml: "0 < length ?m" by (rule members_length)
    have l: "length (print_field (k, v)) \<le> n" "length ?m \<le> n"
      using n Cons kv ml unfolding print_json_JObj by simp_all
    have py: "parse_field n (print_field (k, v) @ ?m @ r) = Some ((k, norm v), ?m @ r)"
      using x Cons kv l(1) members_no_digit by (intro parse_field_print) auto
    have pm: "parse_fields n (?m @ r) = Some (map (\<lambda>(k, v). (k, norm v)) ys, r)"
      using x Cons l(2) by (intro parse_fields_members) auto
    obtain s where ds: "print_field (k, v) @ ?m @ r = dquote # s"
      by (simp add: print_field_def print_string_def)
    have eq: "parse_json (Suc n) (CHR ''{'' # dquote # s) =
        (case parse_field n (dquote # s) of None \<Rightarrow> None
         | Some (x, r) \<Rightarrow> map_option (\<lambda>(xs, r). (JObj (x # xs), r)) (parse_fields n r))"
      by (simp add: dquote_def is_digit_def)
    have "parse_json (Suc n) (CHR ''{'' # (print_field (k, v) @ ?m @ r)) = Some (norm (JObj kvs), r)"
      using eq py pm Cons kv by (simp add: ds)
    then show ?thesis unfolding print_json_JObj by (simp add: Cons kv)
  qed
qed

lemma all_parses: "parses x"
proof (induction x)
  case (JArr xs)
  then show ?case by (intro parses_JArr) (auto simp: list_all_iff)
next
  case (JObj kvs)
  then show ?case by (intro parses_JObj) (fastforce simp: list_all_iff snds.simps)
next
  case (JStr s)
  have "dquote \<noteq> CHR ''n''" "dquote \<noteq> CHR ''t''" "dquote \<noteq> CHR ''f''" "dquote \<noteq> CHR ''!''"
    by (simp_all add: dquote_def)
  then show ?case
    by (simp add: parses_def print_string_def parse_string_escape)
next
  case (JBool b)
  then show ?case by (cases b) (auto simp: parses_def)
qed (auto simp: parses_def parse_int_print simp del: parse_json.simps(2), auto)

lemma parse_print: "parse_text (print_json x) = Some (norm x)"
proof -
  have "parse_json (Suc (2 * length (print_json x))) (print_json x @ []) = Some (norm x, [])"
    using all_parses [of x] by (rule parsesD) (simp_all add: no_digit_def)
  then show ?thesis by (simp add: parse_text_def del: parse_json.simps)
qed

lemma norm_norm [simp]: "norm (norm x) = norm x"
  by (induction x) auto

lemma print_norm [simp]: "print_json (norm x) = print_json x"
proof (induction x)
  case (JArr xs)
  then have "map (print_json \<circ> norm) xs = map print_json xs" by simp
  then show ?case by (simp only: norm.simps print_json.simps map_map)
next
  case (JObj kvs)
  then have "map (print_field \<circ> (\<lambda>(k, v). (k, norm v))) kvs = map print_field kvs"
    by (auto simp: print_field_def)
  then show ?case unfolding norm.simps print_json_JObj by (simp only: map_map)
qed simp_all

lemma print_json_inj: "print_json x = print_json y \<Longrightarrow> norm x = norm y"
  by (metis parse_print option.inject)

end
