(* ===== verification/SonicNode.thy ===== *)
theory SonicNode
  imports ReferenceJson
begin

text \<open>
  \<open>value_sonic.go\<close> and the sonic part of \<open>value_factory.go\<close>: the methods of \<open>SonicValue\<close> over
  the third-party \<open>ast.Node\<close>.  The library is a record of functions (\<open>sonic_ast\<close>), one per
  function of the package that the code calls; the record also holds what the code takes from
  the Go runtime (\<open>json.Marshal\<close>, \<open>float64\<close> arithmetic).  A \<open>SonicValue\<close> is its node: the
  pointer is never nil in values the package makes.  \<open>SonicAPI\<close> collects the methods into the
  \<open>Value\<close> interface.  The locale \<open>sonic_contract\<close> says what the code relies on of the library;
  inside it \<open>SonicAPI\<close> is shown to meet the contracts of \<open>JsonValue\<close>, and the reference JSON
  tree instantiates it.
\<close>

section \<open>The library\<close>

datatype ast_type = V_NONE | V_ERROR | V_NULL | V_TRUE | V_FALSE | V_ARRAY | V_OBJECT
  | V_STRING | V_NUMBER | V_ANY

datatype path_arg = ArgString string | ArgInt int | ArgSlice "path_arg list"

record ('n, 'f) sonic_ast =
  TypeSafe :: "'n \<Rightarrow> ast_type"
  ast_Raw :: "'n \<Rightarrow> string res"
  ast_UnmarshalJSON :: "string \<Rightarrow> 'n res"
  ast_Parse :: "string \<Rightarrow> 'n option"
  ast_StrictBool :: "'n \<Rightarrow> bool res"
  ast_Float64 :: "'n \<Rightarrow> 'f res"
  ast_StrictFloat64 :: "'n \<Rightarrow> 'f res"
  ast_Int64 :: "'n \<Rightarrow> int res"
  ast_StrictInt64 :: "'n \<Rightarrow> int res"
  ast_String :: "'n \<Rightarrow> string res"
  ast_StrictString :: "'n \<Rightarrow> string res"
  ast_Array :: "'n \<Rightarrow> 'f goAny list res"
  ast_Map :: "'n \<Rightarrow> (string \<times> 'f goAny) list res"
  ast_ArrayUseNode :: "'n \<Rightarrow> 'n list res"
  ast_MapUseNode :: "'n \<Rightarrow> (string \<times> 'n) list res"
  ast_Get :: "'n \<Rightarrow> string \<Rightarrow> 'n"
  ast_Index :: "'n \<Rightarrow> int \<Rightarrow> 'n"
  ast_GetByPath :: "'n \<Rightarrow> path_arg list \<Rightarrow> 'n"
  ast_Set :: "'n \<Rightarrow> string \<Rightarrow> 'n \<Rightarrow> 'n res"
  ast_Unset :: "'n \<Rightarrow> string \<Rightarrow> 'n"
  ast_NewArray :: "'n list \<Rightarrow> 'n"
  ast_NewString :: "string \<Rightarrow> 'n"
  ast_NewBool :: "bool \<Rightarrow> 'n"
  ast_NewAny :: "'f goAny \<Rightarrow> 'n"
  ast_NewNull :: 'n
  go_json_Marshal :: "'f goAny \<Rightarrow> string"
  go_nilValue :: 'n
  go_float_add :: "'f \<Rightarrow> 'f \<Rightarrow> 'f"
  go_float_sub :: "'f \<Rightarrow> 'f \<Rightarrow> 'f"
  go_float_neg :: "'f \<Rightarrow> 'f"
  go_float_is_zero :: "'f \<Rightarrow> bool"
  go_float_eq :: "'f \<Rightarrow> 'f \<Rightarrow> bool"
  go_float_of_int :: "int \<Rightarrow> 'f"
  go_int_of_float :: "'f \<Rightarrow> int"
  go_sameZeroSize :: bool
  go_sameInterface :: "'n \<Rightarrow> 'n \<Rightarrow> bool"
  go_sharedEdit :: "nat \<Rightarrow> string \<Rightarrow> int \<Rightarrow> nat \<Rightarrow> bool \<Rightarrow> 'n \<Rightarrow> 'n"

fun isOk :: "'a res \<Rightarrow> bool" where
  "isOk (Inr _) = True"
| "isOk (Inl _) = False"

section \<open>The methods of \<open>SonicValue\<close>\<close>

definition IsErrorSonicValue :: "('n, 'f) sonic_ast \<Rightarrow> 'n \<Rightarrow> bool" where
  "IsErrorSonicValue A node \<longleftrightarrow> TypeSafe A node = V_ERROR"

definition Sonic_RawMessage :: "('n, 'f) sonic_ast \<Rightarrow> 'n \<Rightarrow> string" where
  "Sonic_RawMessage A n = OrEmpty (ast_Raw A n)"

definition Sonic_Unmarshal :: "('n, 'f) sonic_ast \<Rightarrow> string \<Rightarrow> 'n res" where
  "Sonic_Unmarshal A data =
     (case ast_UnmarshalJSON A data of Inl e \<Rightarrow> Inl (CodeError UnexpectedError) | Inr n \<Rightarrow> Inr n)"

definition Sonic_UpdateArray :: "('n, 'f) sonic_ast \<Rightarrow> 'n \<Rightarrow> 'n list \<Rightarrow> 'n res" where
  "Sonic_UpdateArray A n values = Inr (ast_NewArray A values)"

definition Sonic_UpdateObject :: "'n \<Rightarrow> 'n \<Rightarrow> 'n res" where
  "Sonic_UpdateObject n value = Inr value"

definition Sonic_IsBool :: "('n, 'f) sonic_ast \<Rightarrow> 'n \<Rightarrow> bool" where
  "Sonic_IsBool A n =
     (if TypeSafe A n = V_TRUE \<or> TypeSafe A n = V_FALSE then True else isOk (ast_StrictBool A n))"

definition Sonic_IsNull :: "('n, 'f) sonic_ast \<Rightarrow> 'n \<Rightarrow> bool" where
  "Sonic_IsNull A n \<longleftrightarrow> TypeSafe A n = V_NULL"

definition Sonic_IsNumber :: "('n, 'f) sonic_ast \<Rightarrow> 'n \<Rightarrow> bool" where
  "Sonic_IsNumber A n = (if TypeSafe A n = V_NUMBER then True else isOk (ast_Float64 A n))"

definition Sonic_IsString :: "('n, 'f) sonic_ast \<Rightarrow> 'n \<Rightarrow> bool" where
  "Sonic_IsString A n =
     (if TypeSafe A n = V_STRING then True
      else case ast_StrictString A n of Inr str \<Rightarrow> str \<noteq> '''' | Inl _ \<Rightarrow> False)"

definition Sonic_IsArray :: "('n, 'f) sonic_ast \<Rightarrow> 'n \<Rightarrow> bool" where
  "Sonic_IsArray A n = (if TypeSafe A n = V_ARRAY then True else isOk (ast_Array A n))"

definition Sonic_IsObject :: "('n, 'f) sonic_ast \<Rightarrow> 'n \<Rightarrow> bool" where
  "Sonic_IsObject A n = (if TypeSafe A n = V_OBJECT then True else isOk (ast_Map A n))"

definition Sonic_IsNumeric :: "('n, 'f) sonic_ast \<Rightarrow> 'n \<Rightarrow> bool" where
  "Sonic_IsNumeric A n \<longleftrightarrow> TypeSafe A n = V_NUMBER"

definition Sonic_IsInt :: "('n, 'f) sonic_ast \<Rightarrow> 'n \<Rightarrow> bool" where
  "Sonic_IsInt A n =
     (case ast_Float64 A n of
        Inr val \<Rightarrow> go_float_eq A val (go_float_of_int A (go_int_of_float A val))
      | Inl _ \<Rightarrow> False)"

definition Sonic_IsFloat :: "('n, 'f) sonic_ast \<Rightarrow> 'n \<Rightarrow> bool" where
  "Sonic_IsFloat A n = isOk (ast_StrictFloat64 A n)"

text \<open>The last case is \<open>ValueType(ts)\<close> of \<open>V_NONE\<close>, which is 0.\<close>

definition Sonic_Type :: "('n, 'f) sonic_ast \<Rightarrow> 'n \<Rightarrow> ValueType" where
  "Sonic_Type A n =
     (case TypeSafe A n of
        V_NULL \<Rightarrow> Null
      | V_ERROR \<Rightarrow> Null
      | V_TRUE \<Rightarrow> Bool
      | V_FALSE \<Rightarrow> Bool
      | V_ARRAY \<Rightarrow> Array
      | V_OBJECT \<Rightarrow> Object
      | V_NUMBER \<Rightarrow> Numeric
      | V_STRING \<Rightarrow> String
      | V_ANY \<Rightarrow> Any
      | V_NONE \<Rightarrow> Null)"

definition Sonic_PackAny :: "('n, 'f) sonic_ast \<Rightarrow> 'n \<Rightarrow> 'n" where
  "Sonic_PackAny A n =
     (if TypeSafe A n \<noteq> V_ANY then n
      else case ast_Parse A (OrEmpty (ast_Raw A n)) of None \<Rightarrow> n | Some node \<Rightarrow> node)"

text \<open>
  Methods that pack their receiver first read the packed node; the packing of the receiver
  itself is not an observable change of the document.
\<close>

definition Sonic_GetKey :: "('n, 'f) sonic_ast \<Rightarrow> 'n \<Rightarrow> string \<Rightarrow> 'n option" where
  "Sonic_GetKey A n key =
     (let node = ast_Get A (Sonic_PackAny A n) key in
      if IsErrorSonicValue A node then None else Some node)"

text \<open>\<open>n.node.GetByPath(path)\<close> passes the whole slice as one argument.\<close>

definition Sonic_GetByPath :: "('n, 'f) sonic_ast \<Rightarrow> 'n \<Rightarrow> path_arg list \<Rightarrow> 'n option" where
  "Sonic_GetByPath A n path =
     (let node = ast_GetByPath A n [ArgSlice path] in
      if IsErrorSonicValue A node then None else Some (Sonic_PackAny A node))"

definition Sonic_GetIndex :: "('n, 'f) sonic_ast \<Rightarrow> 'n \<Rightarrow> int \<Rightarrow> 'n option" where
  "Sonic_GetIndex A n index =
     (let n = Sonic_PackAny A n in
      if \<not> Sonic_IsArray A n then None
      else (let node = ast_Index A n index in
            if IsErrorSonicValue A node then None else Some node))"

definition Sonic_GetStringKey :: "('n, 'f) sonic_ast \<Rightarrow> 'n \<Rightarrow> string \<Rightarrow> string option" where
  "Sonic_GetStringKey A n key =
     (let n = Sonic_PackAny A n in
      if \<not> Sonic_IsObject A n then None
      else case ast_StrictString A (ast_Get A n key) of Inl _ \<Rightarrow> None | Inr str \<Rightarrow> Some str)"

definition Sonic_GetIntKey :: "('n, 'f) sonic_ast \<Rightarrow> 'n \<Rightarrow> string \<Rightarrow> int option" where
  "Sonic_GetIntKey A n key =
     (let n = Sonic_PackAny A n in
      if \<not> Sonic_IsObject A n then None
      else case ast_StrictInt64 A (ast_Get A n key) of Inl _ \<Rightarrow> None | Inr num \<Rightarrow> Some num)"

definition Sonic_GetArray :: "('n, 'f) sonic_ast \<Rightarrow> 'n \<Rightarrow> 'n list res" where
  "Sonic_GetArray A n = ast_ArrayUseNode A n"

definition Sonic_GetMap :: "('n, 'f) sonic_ast \<Rightarrow> 'n \<Rightarrow> (string \<times> 'n) list res" where
  "Sonic_GetMap A n = ast_MapUseNode A n"

definition Sonic_GetNumeric :: "('n, 'f) sonic_ast \<Rightarrow> 'n \<Rightarrow> 'f res" where
  "Sonic_GetNumeric A n = ast_Float64 A n"

definition Sonic_GetInt :: "('n, 'f) sonic_ast \<Rightarrow> 'n \<Rightarrow> int res" where
  "Sonic_GetInt A n = ast_Int64 A n"

definition Sonic_GetString :: "('n, 'f) sonic_ast \<Rightarrow> 'n \<Rightarrow> string res" where
  "Sonic_GetString A n = (if \<not> Sonic_IsString A n then Inl FmtError else ast_String A n)"

definition Sonic_SetKey :: "('n, 'f) sonic_ast \<Rightarrow> 'n \<Rightarrow> string \<Rightarrow> 'n \<Rightarrow> 'n res" where
  "Sonic_SetKey A n key value =
     (if \<not> Sonic_IsObject A n then Inl FmtError else ast_Set A n key value)"

definition Sonic_DeleteKey :: "('n, 'f) sonic_ast \<Rightarrow> 'n \<Rightarrow> string \<Rightarrow> 'n res" where
  "Sonic_DeleteKey A n key = (if \<not> Sonic_IsObject A n then Inr n else Inr (ast_Unset A n key))"

definition Sonic_HasKey :: "('n, 'f) sonic_ast \<Rightarrow> 'n \<Rightarrow> string \<Rightarrow> bool" where
  "Sonic_HasKey A n key =
     (if \<not> Sonic_IsObject A n then False
      else (let node = ast_Get A n key in
            \<not> IsErrorSonicValue A node \<and> TypeSafe A node \<noteq> V_NULL))"

definition Sonic_Size :: "('n, 'f) sonic_ast \<Rightarrow> 'n \<Rightarrow> int" where
  "Sonic_Size A n =
     (if Sonic_IsObject A n then
        (case ast_Map A n of Inl _ \<Rightarrow> 0 | Inr properties \<Rightarrow> int (length properties))
      else if Sonic_IsArray A n then
        (case ast_Array A n of Inl _ \<Rightarrow> 0 | Inr nodes \<Rightarrow> int (length nodes))
      else 0)"

definition Sonic_Equals :: "('n, 'f) sonic_ast \<Rightarrow> 'n \<Rightarrow> 'n \<Rightarrow> bool" where
  "Sonic_Equals A n other \<longleftrightarrow> OrEmpty (ast_Raw A n) = OrEmpty (ast_Raw A other)"

section \<open>\<open>SonicValueFactory\<close>\<close>

definition SonicFactory_FromAny :: "('n, 'f) sonic_ast \<Rightarrow> 'f goAny \<Rightarrow> 'n" where
  "SonicFactory_FromAny A data =
     (case ast_UnmarshalJSON A (go_json_Marshal A data) of Inl _ \<Rightarrow> ast_NewNull A | Inr node \<Rightarrow> node)"

definition SonicFactory_FromPrimitive :: "('n, 'f) sonic_ast \<Rightarrow> 'f goAny \<Rightarrow> 'n" where
  "SonicFactory_FromPrimitive A data =
     (case data of
        AStr v \<Rightarrow> ast_NewString A v
      | ABool v \<Rightarrow> ast_NewBool A v
      | AInt _ \<Rightarrow> ast_NewAny A data
      | AFloat _ \<Rightarrow> ast_NewAny A data
      | _ \<Rightarrow> ast_NewNull A)"

definition SonicFactory_FromArray :: "('n, 'f) sonic_ast \<Rightarrow> 'n list \<Rightarrow> 'n" where
  "SonicFactory_FromArray A values = ast_NewArray A values"

definition SonicAPI :: "('n, 'f) sonic_ast \<Rightarrow> ('n, 'f) value_api" where
  "SonicAPI A =
     \<lparr>Type = Sonic_Type A, IsBool = Sonic_IsBool A, IsNull = Sonic_IsNull A,
      IsNumeric = Sonic_IsNumeric A, IsInt = Sonic_IsInt A, IsString = Sonic_IsString A,
      IsArray = Sonic_IsArray A, IsObject = Sonic_IsObject A, PackAny = Sonic_PackAny A,
      GetKey = Sonic_GetKey A, GetStringKey = Sonic_GetStringKey A, GetIntKey = Sonic_GetIntKey A,
      GetArray = Sonic_GetArray A, GetMap = Sonic_GetMap A, GetNumeric = Sonic_GetNumeric A,
      GetInt = Sonic_GetInt A, GetString = Sonic_GetString A, UpdateArray = Sonic_UpdateArray A,
      UpdateObject = Sonic_UpdateObject, SetKey = Sonic_SetKey A, DeleteKey = Sonic_DeleteKey A,
      HasKey = Sonic_HasKey A, Size = Sonic_Size A, Equals = Sonic_Equals A,
      RawMessage = Sonic_RawMessage A, UnmarshalValue = ast_UnmarshalJSON A,
      ValueFromString = (\<lambda>s. SonicFactory_FromPrimitive A (AStr s)),
      ValueFromInt = (\<lambda>i. SonicFactory_FromPrimitive A (AInt i)),
      ValueFromFloat = (\<lambda>x. SonicFactory_FromPrimitive A (AFloat x)),
      ValueFromAny = SonicFactory_FromAny A, ValueFromArray = SonicFactory_FromArray A,
      json_Marshal = go_json_Marshal A, nilValue = go_nilValue A,
      float_add = go_float_add A, float_sub = go_float_sub A, float_neg = go_float_neg A,
      float_is_zero = go_float_is_zero A, float_of_int = go_float_of_int A,
      sameZeroSize = go_sameZeroSize A, sameInterface = go_sameInterface A,
      sharedEdit = go_sharedEdit A\<rparr>"

lemma SonicAPI_simps [simp]:
  "Type (SonicAPI A) = Sonic_Type A" "IsBool (SonicAPI A) = Sonic_IsBool A"
  "IsNull (SonicAPI A) = Sonic_IsNull A" "IsNumeric (SonicAPI A) = Sonic_IsNumeric A"
  "IsInt (SonicAPI A) = Sonic_IsInt A" "IsString (SonicAPI A) = Sonic_IsString A"
  "IsArray (SonicAPI A) = Sonic_IsArray A" "IsObject (SonicAPI A) = Sonic_IsObject A"
  "PackAny (SonicAPI A) = Sonic_PackAny A" "GetKey (SonicAPI A) = Sonic_GetKey A"
  "GetStringKey (SonicAPI A) = Sonic_GetStringKey A" "GetIntKey (SonicAPI A) = Sonic_GetIntKey A"
  "GetArray (SonicAPI A) = Sonic_GetArray A" "GetMap (SonicAPI A) = Sonic_GetMap A"
  "GetNumeric (SonicAPI A) = Sonic_GetNumeric A" "GetInt (SonicAPI A) = Sonic_GetInt A"
  "GetString (SonicAPI A) = Sonic_GetString A" "UpdateArray (SonicAPI A) = Sonic_UpdateArray A"
  "UpdateObject (SonicAPI A) = Sonic_UpdateObject" "SetKey (SonicAPI A) = Sonic_SetKey A"
  "DeleteKey (SonicAPI A) = Sonic_DeleteKey A" "HasKey (SonicAPI A) = Sonic_HasKey A"
  "Size (SonicAPI A) = Sonic_Size A" "Equals (SonicAPI A) = Sonic_Equals A"
  "RawMessage (SonicAPI A) = Sonic_RawMessage A"
  "UnmarshalValue (SonicAPI A) = ast_UnmarshalJSON A"
  "ValueFromString (SonicAPI A) s = ast_NewString A s"
  "ValueFromInt (SonicAPI A) i = ast_NewAny A (AInt i)"
  "ValueFromFloat (SonicAPI A) x = ast_NewAny A (AFloat x)"
  "ValueFromAny (SonicAPI A) = SonicFactory_FromAny A"
  "ValueFromArray (SonicAPI A) = SonicFactory_FromArray A"
  "json_Marshal (SonicAPI A) = go_json_Marshal A"
  by (simp_all add: SonicAPI_def SonicFactory_FromPrimitive_def)

section \<open>What the code relies on of the library\<close>

locale sonic_contract =
  fixes A :: "('n, 'f) sonic_ast" and doc :: "'n \<Rightarrow> 'm jdoc"
    and numI :: "int \<Rightarrow> 'm" and utf8 :: "string \<Rightarrow> bool"
  assumes type_array: "TypeSafe A n = V_ARRAY \<longleftrightarrow> (\<exists>xs. doc n = Arr xs)"
    and type_object: "TypeSafe A n = V_OBJECT \<longleftrightarrow> (\<exists>m. doc n = Obj m)"
    and type_null: "TypeSafe A n = V_NULL \<longleftrightarrow> doc n = Atom NullA"
    and type_string: "TypeSafe A n = V_STRING \<longleftrightarrow> (\<exists>s. doc n = Atom (StrA s))"
    and type_number: "TypeSafe A n = V_NUMBER \<or> TypeSafe A n = V_ANY \<longleftrightarrow> (\<exists>x. doc n = Atom (NumA x))"
    and any_parse: "TypeSafe A n = V_ANY \<Longrightarrow>
          \<exists>p. ast_Parse A (OrEmpty (ast_Raw A n)) = Some p \<and> doc p = doc n \<and> TypeSafe A p = V_NUMBER"
    and array_go: "ast_Array A n = Inr gs \<Longrightarrow> TypeSafe A n = V_ARRAY"
    and map_go: "ast_Map A n = Inr gkvs \<Longrightarrow> TypeSafe A n = V_OBJECT"
    and array_nodes: "doc n = Arr xs \<Longrightarrow> \<exists>ns. ast_ArrayUseNode A n = Inr ns \<and> map doc ns = xs"
    and map_nodes: "doc n = Obj m \<Longrightarrow>
          \<exists>kvs. ast_MapUseNode A n = Inr kvs \<and> distinct (map fst kvs)
            \<and> (\<forall>k. map_option doc (map_of kvs k) = m k)"
    and get_present: "doc n = Obj m \<Longrightarrow> m k = Some d \<Longrightarrow>
          TypeSafe A (ast_Get A n k) \<noteq> V_ERROR \<and> doc (ast_Get A n k) = d"
    and get_absent: "doc n = Obj m \<Longrightarrow> m k = None \<Longrightarrow> TypeSafe A (ast_Get A n k) = V_ERROR"
    and new_array_nodes: "ast_ArrayUseNode A (ast_NewArray A ns) = Inr ns"
    and set_get: "doc n = Obj m \<Longrightarrow> ast_Set A n k w = Inr n' \<Longrightarrow>
          TypeSafe A w = V_ARRAY \<or> TypeSafe A w = V_OBJECT \<Longrightarrow> ast_Get A n' k = w"
    and set_object: "doc n = Obj m \<Longrightarrow>
          \<exists>n'. ast_Set A n k w = Inr n' \<and> doc n' = Obj (m(k \<mapsto> doc w))"
    and unset_object: "doc n = Obj m \<Longrightarrow> doc (ast_Unset A n k) = Obj (m(k := None))"
    and raw_doc: "OrEmpty (ast_Raw A n) = OrEmpty (ast_Raw A n') \<Longrightarrow> doc n = doc n'"
    and new_array: "doc (ast_NewArray A ns) = Arr (map doc ns)"
    and new_string: "doc (ast_NewString A s) = Atom (StrA s)"
    and new_int: "is_int64 i \<Longrightarrow> doc (ast_NewAny A (AInt i)) = Atom (NumA (numI i))"
    and new_any_type: "TypeSafe A (ast_NewAny A (AInt i)) = V_ANY"
    and new_null: "doc (ast_NewNull A) = Atom NullA"
    and string_value: "doc n = Atom (StrA s) \<Longrightarrow> ast_String A n = Inr s"
    and int_value: "doc n = Atom (NumA (numI i)) \<Longrightarrow> float_exact i \<Longrightarrow>
          ast_Float64 A n = Inr (go_float_of_int A i) \<and> ast_Int64 A n = Inr i"
    and float_int: "float_exact i \<Longrightarrow> go_int_of_float A (go_float_of_int A i) = i"
    and float_eq_int: "float_exact i \<Longrightarrow> go_float_eq A (go_float_of_int A i) (go_float_of_int A i)"
    and marshal_array: "\<exists>n. ast_UnmarshalJSON A (go_json_Marshal A (AList [])) = Inr n \<and> doc n = Arr []"
    and marshal_object: "\<exists>n. ast_UnmarshalJSON A (go_json_Marshal A (AMap [])) = Inr n
          \<and> doc n = Obj (\<lambda>_. None)"
    and marshal_nil: "\<exists>n. ast_UnmarshalJSON A (go_json_Marshal A ANil) = Inr n \<and> doc n = Atom NullA"
    and marshal_flat: "distinct (map fst fkvs) \<Longrightarrow> list_all (flat_member utf8) (map snd fkvs) \<Longrightarrow>
          \<exists>n. ast_UnmarshalJSON A (go_json_Marshal A (AMap fkvs)) = Inr n \<and> TypeSafe A n = V_OBJECT
            \<and> (\<forall>k. case map_of fkvs k of
                      None \<Rightarrow> TypeSafe A (ast_Get A n k) = V_ERROR
                              \<and> \<not> isOk (ast_StrictInt64 A (ast_Get A n k))
                    | Some (AInt i) \<Rightarrow> ast_StrictInt64 A (ast_Get A n k) = Inr i
                    | Some (AStr s) \<Rightarrow> TypeSafe A (ast_Get A n k) = V_STRING
                              \<and> ast_String A (ast_Get A n k) = Inr s
                              \<and> \<not> isOk (ast_StrictInt64 A (ast_Get A n k))
                    | _ \<Rightarrow> True)"
begin

lemma Sonic_IsArray_iff: "Sonic_IsArray A n \<longleftrightarrow> TypeSafe A n = V_ARRAY"
  unfolding Sonic_IsArray_def using array_go [of n]
  by (cases "ast_Array A n") auto

lemma Sonic_IsObject_iff: "Sonic_IsObject A n \<longleftrightarrow> TypeSafe A n = V_OBJECT"
  unfolding Sonic_IsObject_def using map_go [of n]
  by (cases "ast_Map A n") auto

lemma Sonic_PackAny_object: "TypeSafe A n \<noteq> V_ANY \<Longrightarrow> Sonic_PackAny A n = n"
  by (simp add: Sonic_PackAny_def)

lemma Obj_not_any: "doc n = Obj m \<Longrightarrow> Sonic_PackAny A n = n"
  using type_object [of n] by (simp add: Sonic_PackAny_object)

lemma doc_PackAny: "doc (Sonic_PackAny A n) = doc n"
  using any_parse [of n] by (auto simp: Sonic_PackAny_def)

lemma doc_GetKey: "doc n = Obj m \<Longrightarrow> map_option doc (Sonic_GetKey A n k) = m k"
  using get_present [of n m k] get_absent [of n m k]
  by (cases "m k") (auto simp: Sonic_GetKey_def Obj_not_any IsErrorSonicValue_def Let_def)

lemma container_PackAny: "doc n = Arr xs \<or> doc n = Obj m \<Longrightarrow> Sonic_PackAny A n = n"
  using type_array [of n] type_object [of n] by (auto simp: Sonic_PackAny_object)

lemma SetKey_GetKey:
  assumes n: "doc n = Obj m" and set: "Sonic_SetKey A n k w = Inr n'"
    and w: "doc w = Arr xs \<or> doc w = Obj m'"
  shows "Sonic_GetKey A n' k = Some w"
proof -
  have s: "ast_Set A n k w = Inr n'"
    using set by (auto simp: Sonic_SetKey_def split: if_splits)
  have t: "TypeSafe A w = V_ARRAY \<or> TypeSafe A w = V_OBJECT"
    using w type_array [of w] type_object [of w] by auto
  have d: "doc n' = Obj (m(k \<mapsto> doc w))" using set_object [OF n, of k w] s by auto
  have g: "ast_Get A n' k = w" by (rule set_get [OF n s t])
  show ?thesis using d g t
    by (auto simp: Sonic_GetKey_def Obj_not_any IsErrorSonicValue_def Let_def)
qed

lemma doc_HasKey:
  "doc n = Obj m \<Longrightarrow> Sonic_HasKey A n k \<longleftrightarrow> m k \<noteq> None \<and> m k \<noteq> Some (Atom NullA)"
  using get_present [of n m k] get_absent [of n m k] type_object [of n] type_null [of "ast_Get A n k"]
  by (cases "m k") (auto simp: Sonic_HasKey_def Sonic_IsObject_iff IsErrorSonicValue_def Let_def)

lemma FromAny_docs:
  "doc (SonicFactory_FromAny A (AList [])) = Arr []"
  "doc (SonicFactory_FromAny A (AMap [])) = Obj (\<lambda>_. None)"
  "doc (SonicFactory_FromAny A ANil) = Atom NullA"
  using marshal_array marshal_object marshal_nil by (auto simp: SonicFactory_FromAny_def)

lemma api_contract: "value_contract (SonicAPI A) doc"
proof
  fix v w :: 'n and k and vs :: "'n list" and xs m
  show "(Type (SonicAPI A) v = Array) = (\<exists>xs. doc v = Arr xs)"
    using type_array [of v] by (auto simp: Sonic_Type_def split: ast_type.splits)
  show "(Type (SonicAPI A) v = Object) = (\<exists>m. doc v = Obj m)"
    using type_object [of v] by (auto simp: Sonic_Type_def split: ast_type.splits)
  show "IsNull (SonicAPI A) v = (doc v = Atom NullA)" by (simp add: Sonic_IsNull_def type_null)
  show "IsArray (SonicAPI A) v = (\<exists>xs. doc v = Arr xs)" by (simp add: Sonic_IsArray_iff type_array)
  show "IsObject (SonicAPI A) v = (\<exists>m. doc v = Obj m)" by (simp add: Sonic_IsObject_iff type_object)
  show "doc (PackAny (SonicAPI A) v) = doc v" by (simp add: doc_PackAny)
  show "doc v = Arr xs \<Longrightarrow> \<exists>vs. GetArray (SonicAPI A) v = Inr vs \<and> map doc vs = xs"
    by (simp add: Sonic_GetArray_def array_nodes)
  show "\<exists>v'. UpdateArray (SonicAPI A) v vs = Inr v' \<and> doc v' = Arr (map doc vs)
      \<and> GetArray (SonicAPI A) v' = Inr vs"
    by (simp add: Sonic_UpdateArray_def Sonic_GetArray_def new_array new_array_nodes)
  show "doc v = Arr xs \<or> doc v = Obj m \<Longrightarrow> PackAny (SonicAPI A) v = v"
    by (simp add: container_PackAny)
  show "doc v = Obj m \<Longrightarrow> SetKey (SonicAPI A) v k w = Inr v' \<Longrightarrow>
      doc w = Arr xs \<or> doc w = Obj m' \<Longrightarrow> GetKey (SonicAPI A) v' k = Some w" for v' m'
    unfolding SonicAPI_simps by (rule SetKey_GetKey)
  show "\<exists>v'. UpdateObject (SonicAPI A) v w = Inr v' \<and> doc v' = doc w"
    by (simp add: Sonic_UpdateObject_def)
  show "doc v = Obj m \<Longrightarrow> map_option doc (GetKey (SonicAPI A) v k) = m k"
    by (simp add: doc_GetKey)
  show "doc v = Obj m \<Longrightarrow> \<exists>v'. SetKey (SonicAPI A) v k w = Inr v' \<and> doc v' = Obj (m(k \<mapsto> doc w))"
    using type_object [of v] by (simp add: Sonic_SetKey_def Sonic_IsObject_iff set_object)
  show "doc v = Obj m \<Longrightarrow> m k \<noteq> None \<Longrightarrow>
      \<exists>v'. DeleteKey (SonicAPI A) v k = Inr v' \<and> doc v' = Obj (m(k := None))"
    using type_object [of v] by (simp add: Sonic_DeleteKey_def Sonic_IsObject_iff unset_object)
  show "doc v = Obj m \<Longrightarrow> HasKey (SonicAPI A) v k \<Longrightarrow> m k \<noteq> None"
    by (simp add: doc_HasKey)
  show "doc v = Obj m \<Longrightarrow> m k = Some d \<Longrightarrow> d \<noteq> Atom NullA \<Longrightarrow> HasKey (SonicAPI A) v k" for d
    by (simp add: doc_HasKey)
  show "doc v = Obj m \<Longrightarrow> \<exists>kvs. GetMap (SonicAPI A) v = Inr kvs \<and> distinct (map fst kvs)
          \<and> (\<forall>k. map_option doc (map_of kvs k) = m k)"
    unfolding SonicAPI_simps Sonic_GetMap_def by (rule map_nodes)
  show "Equals (SonicAPI A) v w \<Longrightarrow> doc v = doc w"
    unfolding SonicAPI_simps Sonic_Equals_def by (rule raw_doc)
  show "Equals (SonicAPI A) v v" by (simp add: Sonic_Equals_def)
qed (simp_all add: FromAny_docs)

end

sublocale sonic_contract \<subseteq> value_contract "SonicAPI A" doc
  by (rule api_contract)

context sonic_contract
begin

lemma IsInt_float_exact:
  "doc n = Atom (NumA (numI i)) \<Longrightarrow> float_exact i \<Longrightarrow> Sonic_IsInt A n \<and> Sonic_GetInt A n = Inr i"
  using int_value [of n i] float_int [of i] float_eq_int [of i]
  by (simp add: Sonic_IsInt_def Sonic_GetInt_def)

lemma api_numbers: "value_numbers (SonicAPI A) doc numI"
proof
  fix v x assume n: "doc v = Atom (NumA x)"
  then have "TypeSafe A v = V_NUMBER \<or> TypeSafe A v = V_ANY" using type_number [of v] by auto
  then show "IsNumeric (SonicAPI A) (PackAny (SonicAPI A) v)"
    using any_parse [of v] by (auto simp: Sonic_IsNumeric_def Sonic_PackAny_def)
next
  fix v assume "IsNumeric (SonicAPI A) v"
  then show "\<exists>x. doc v = Atom (NumA x)"
    using type_number [of v] by (auto simp: Sonic_IsNumeric_def)
qed (auto simp: new_int IsInt_float_exact float_exact_int64)

lemma GetString_doc:
  "doc n = Atom (StrA s) \<Longrightarrow> Sonic_IsString A n \<and> Sonic_GetString A n = Inr s"
  using type_string [of n] string_value [of n s]
  by (simp add: Sonic_IsString_def Sonic_GetString_def)

lemma api_texts: "value_texts (SonicAPI A) doc utf8"
proof
  fix kvs :: "(string \<times> 'f goAny) list"
  assume kvs: "distinct (map fst kvs)" "list_all (flat_member utf8) (map snd kvs)"
  obtain n where n: "ast_UnmarshalJSON A (go_json_Marshal A (AMap kvs)) = Inr n"
      "TypeSafe A n = V_OBJECT"
    and k: "\<And>k. case map_of kvs k of
                      None \<Rightarrow> TypeSafe A (ast_Get A n k) = V_ERROR
                              \<and> \<not> isOk (ast_StrictInt64 A (ast_Get A n k))
                    | Some (AInt i) \<Rightarrow> ast_StrictInt64 A (ast_Get A n k) = Inr i
                    | Some (AStr s) \<Rightarrow> TypeSafe A (ast_Get A n k) = V_STRING
                              \<and> ast_String A (ast_Get A n k) = Inr s
                              \<and> \<not> isOk (ast_StrictInt64 A (ast_Get A n k))
                    | _ \<Rightarrow> True"
    using marshal_flat [OF kvs] by blast
  have p: "Sonic_PackAny A n = n" "Sonic_IsObject A n"
    using n(2) by (simp_all add: Sonic_PackAny_object Sonic_IsObject_iff)
  have "reads_flat (SonicAPI A) n k (map_of kvs k)" for k
    using k [of k] p
    by (auto simp: reads_flat_def Sonic_GetKey_def Sonic_GetIntKey_def Let_def
        IsErrorSonicValue_def Sonic_IsString_def Sonic_GetString_def
        split: option.splits goAny.splits sum.splits)
  with n(1) show "\<exists>v. UnmarshalValue (SonicAPI A) (json_Marshal (SonicAPI A) (AMap kvs)) = Inr v
      \<and> (\<forall>k. reads_flat (SonicAPI A) v k (map_of kvs k))"
    by auto
qed (auto simp: new_string GetString_doc)

end

sublocale sonic_contract \<subseteq> value_numbers "SonicAPI A" doc numI
  by (rule api_numbers)

sublocale sonic_contract \<subseteq> value_texts "SonicAPI A" doc utf8
  by (rule api_texts)

end
