(* ===== verification/ReferenceNode.thy ===== *)
theory ReferenceNode
  imports SonicNode
begin

text \<open>
  The reference JSON tree as a node library: every function \<open>value_sonic.go\<close> calls, on
  \<open>jnode\<close>.  It meets \<open>sonic_contract\<close>, so \<open>SonicAPI ref_ast\<close> is a concrete
  \<open>Value\<close> implementation on which the definitions of the development evaluate.
\<close>

fun ref_TypeSafe :: "jnode \<Rightarrow> ast_type" where
  "ref_TypeSafe JNull = V_NULL"
| "ref_TypeSafe (JBool b) = (if b then V_TRUE else V_FALSE)"
| "ref_TypeSafe (JNum _) = V_NUMBER"
| "ref_TypeSafe (JStr _) = V_STRING"
| "ref_TypeSafe (JArr _) = V_ARRAY"
| "ref_TypeSafe (JObj _) = V_OBJECT"
| "ref_TypeSafe (JAny _) = V_ANY"
| "ref_TypeSafe JError = V_ERROR"
| "ref_TypeSafe JNone = V_NONE"

fun jdoc_of :: "jnode \<Rightarrow> int jdoc" where
  "jdoc_of JNull = Atom NullA"
| "jdoc_of (JBool b) = Atom (BoolA b)"
| "jdoc_of (JNum i) = Atom (NumA i)"
| "jdoc_of (JAny i) = Atom (NumA i)"
| "jdoc_of (JStr s) = Atom (StrA s)"
| "jdoc_of (JArr xs) = Arr (map jdoc_of xs)"
| "jdoc_of (JObj kvs) = Obj (map_of (map (\<lambda>(k, v). (k, jdoc_of v)) kvs))"
| "jdoc_of JError = Atom ErrA"
| "jdoc_of JNone = Atom ErrA"

definition ref_fail :: "'a res" where
  "ref_fail = Inl (LibError ''type mismatch'')"

fun go_of :: "jnode \<Rightarrow> int goAny" where
  "go_of (JBool b) = ABool b"
| "go_of (JNum i) = AFloat i"
| "go_of (JAny i) = AFloat i"
| "go_of (JStr s) = AStr s"
| "go_of (JArr xs) = AList (map go_of xs)"
| "go_of (JObj kvs) = AMap (map (\<lambda>(k, v). (k, go_of v)) kvs)"
| "go_of _ = ANil"

fun node_of :: "int goAny \<Rightarrow> jnode" where
  "node_of ANil = JNull"
| "node_of (ABool b) = JBool b"
| "node_of (AInt i) = JNum i"
| "node_of (AFloat i) = JNum i"
| "node_of (AStr s) = JStr s"
| "node_of (ARaw s) = (case parse_text s of Some n \<Rightarrow> n | None \<Rightarrow> JNull)"
| "node_of (AList xs) = JArr (map node_of xs)"
| "node_of (AMap kvs) = JObj (map (\<lambda>(k, v). (k, node_of v)) kvs)"

fun ref_bool :: "jnode \<Rightarrow> bool res" where
  "ref_bool (JBool b) = Inr b" | "ref_bool _ = ref_fail"

fun ref_number :: "jnode \<Rightarrow> int res" where
  "ref_number (JNum i) = Inr i" | "ref_number (JAny i) = Inr i" | "ref_number _ = ref_fail"

fun ref_string :: "jnode \<Rightarrow> string res" where
  "ref_string (JStr s) = Inr s" | "ref_string _ = ref_fail"

fun ref_array :: "jnode \<Rightarrow> jnode list res" where
  "ref_array (JArr xs) = Inr xs" | "ref_array _ = ref_fail"

definition dedup :: "(string \<times> 'a) list \<Rightarrow> (string \<times> 'a) list" where
  "dedup kvs = AList.clearjunk kvs"

fun ref_map :: "jnode \<Rightarrow> (string \<times> jnode) list res" where
  "ref_map (JObj kvs) = Inr (dedup kvs)" | "ref_map _ = ref_fail"

text \<open>A stored error node is not an access error.\<close>

fun ref_Get :: "jnode \<Rightarrow> string \<Rightarrow> jnode" where
  "ref_Get (JObj kvs) k =
     (case map_of kvs k of None \<Rightarrow> JError | Some JError \<Rightarrow> JNone | Some v \<Rightarrow> v)"
| "ref_Get _ _ = JError"

fun ref_Index :: "jnode \<Rightarrow> int \<Rightarrow> jnode" where
  "ref_Index (JArr xs) i = (if 0 \<le> i \<and> i < int (length xs) then xs ! nat i else JError)"
| "ref_Index _ _ = JError"

fun ref_GetByPath :: "jnode \<Rightarrow> path_arg list \<Rightarrow> jnode" where
  "ref_GetByPath n [] = n"
| "ref_GetByPath n (ArgString k # p) = ref_GetByPath (ref_Get n k) p"
| "ref_GetByPath n (ArgInt i # p) = ref_GetByPath (ref_Index n i) p"
| "ref_GetByPath n (ArgSlice _ # p) = JError"

fun ref_Set :: "jnode \<Rightarrow> string \<Rightarrow> jnode \<Rightarrow> jnode res" where
  "ref_Set (JObj kvs) k v = Inr (JObj (AList.update k v kvs))" | "ref_Set _ _ _ = ref_fail"

fun ref_Unset :: "jnode \<Rightarrow> string \<Rightarrow> jnode" where
  "ref_Unset (JObj kvs) k = JObj (AList.delete k kvs)" | "ref_Unset n _ = n"

definition ref_Unmarshal :: "string \<Rightarrow> jnode res" where
  "ref_Unmarshal s = (case parse_text s of Some n \<Rightarrow> Inr n | None \<Rightarrow> ref_fail)"

definition ref_ast :: "(jnode, int) sonic_ast" where
  "ref_ast =
     \<lparr>TypeSafe = ref_TypeSafe, ast_Raw = (\<lambda>n. Inr (print_json n)),
      ast_UnmarshalJSON = ref_Unmarshal, ast_Parse = parse_text, ast_StrictBool = ref_bool,
      ast_Float64 = ref_number, ast_StrictFloat64 = ref_number, ast_Int64 = ref_number,
      ast_StrictInt64 = ref_number, ast_String = ref_string, ast_StrictString = ref_string,
      ast_Array = (\<lambda>n. andThen (ref_array n) (\<lambda>xs. Inr (map go_of xs))),
      ast_Map = (\<lambda>n. andThen (ref_map n) (\<lambda>kvs. Inr (map (\<lambda>(k, v). (k, go_of v)) kvs))),
      ast_ArrayUseNode = ref_array, ast_MapUseNode = ref_map, ast_Get = ref_Get,
      ast_Index = ref_Index, ast_GetByPath = ref_GetByPath, ast_Set = ref_Set,
      ast_Unset = ref_Unset, ast_NewArray = JArr, ast_NewString = JStr, ast_NewBool = JBool,
      ast_NewAny = (\<lambda>a. case a of AInt i \<Rightarrow> JAny i | AFloat i \<Rightarrow> JAny i | _ \<Rightarrow> JNull),
      ast_NewNull = JNull, go_json_Marshal = (\<lambda>a. print_json (node_of a)), go_nilValue = JNone,
      go_float_add = (+), go_float_sub = (-), go_float_neg = uminus,
      go_float_is_zero = (\<lambda>x. x = 0), go_float_eq = (=), go_float_of_int = (\<lambda>i. i),
      go_int_of_float = (\<lambda>i. i), go_sameZeroSize = False, go_sameInterface = (\<lambda>_ _. False),
      go_sharedEdit = (\<lambda>_ _ _ _ _ v. v)\<rparr>"

lemma ref_ast_simps [simp]:
  "TypeSafe ref_ast = ref_TypeSafe" "ast_Raw ref_ast n = Inr (print_json n)"
  "ast_UnmarshalJSON ref_ast = ref_Unmarshal" "ast_Parse ref_ast = parse_text"
  "ast_StrictBool ref_ast = ref_bool" "ast_Float64 ref_ast = ref_number"
  "ast_StrictFloat64 ref_ast = ref_number" "ast_Int64 ref_ast = ref_number"
  "ast_StrictInt64 ref_ast = ref_number" "ast_String ref_ast = ref_string"
  "ast_StrictString ref_ast = ref_string"
  "ast_Array ref_ast n = andThen (ref_array n) (\<lambda>xs. Inr (map go_of xs))"
  "ast_Map ref_ast n = andThen (ref_map n) (\<lambda>kvs. Inr (map (\<lambda>(k, v). (k, go_of v)) kvs))"
  "ast_ArrayUseNode ref_ast = ref_array" "ast_MapUseNode ref_ast = ref_map"
  "ast_Get ref_ast = ref_Get" "ast_Index ref_ast = ref_Index"
  "ast_GetByPath ref_ast = ref_GetByPath" "ast_Set ref_ast = ref_Set"
  "ast_Unset ref_ast = ref_Unset" "ast_NewArray ref_ast = JArr" "ast_NewString ref_ast = JStr"
  "ast_NewBool ref_ast = JBool" "ast_NewNull ref_ast = JNull"
  "ast_NewAny ref_ast (AInt i) = JAny i" "ast_NewAny ref_ast (AFloat i) = JAny i"
  "go_json_Marshal ref_ast a = print_json (node_of a)" "go_nilValue ref_ast = JNone"
  "go_float_add ref_ast = (+)" "go_float_sub ref_ast = (-)" "go_float_neg ref_ast = uminus"
  "go_float_is_zero ref_ast x \<longleftrightarrow> x = 0" "go_float_eq ref_ast = (=)"
  "go_float_of_int ref_ast i = i" "go_int_of_float ref_ast i = i"
  "go_sameZeroSize ref_ast = False" "go_sameInterface ref_ast n n' = False"
  "go_sharedEdit ref_ast edits docID version component new n = n"
  by (simp_all add: ref_ast_def)

lemma jdoc_norm: "jdoc_of (norm n) = jdoc_of n"
proof (induction n)
  case (JArr xs)
  then show ?case by simp
next
  case (JObj kvs)
  then have "map ((\<lambda>(k, v). (k, jdoc_of v)) \<circ> (\<lambda>(k, v). (k, norm v))) kvs
             = map (\<lambda>(k, v). (k, jdoc_of v)) kvs"
    by (auto simp: snds.simps)
  then show ?case by (simp only: norm.simps jdoc_of.simps map_map)
qed simp_all

lemma jdoc_print: "print_json n = print_json n' \<Longrightarrow> jdoc_of n = jdoc_of n'"
  by (metis print_json_inj jdoc_norm)

lemma Unmarshal_print: "ref_Unmarshal (print_json n) = Inr (norm n)"
  by (simp add: ref_Unmarshal_def parse_print)

lemma map_of_jdoc: "map_of (map (\<lambda>(k, v). (k, jdoc_of v)) kvs) k = map_option jdoc_of (map_of kvs k)"
  by (simp add: map_of_map)

lemma jdoc_JObj: "jdoc_of (JObj kvs) = Obj (\<lambda>k. map_option jdoc_of (map_of kvs k))"
  by (simp add: fun_eq_iff map_of_jdoc)

lemma jdoc_Set:
  "jdoc_of n = Obj m \<Longrightarrow> \<exists>n'. ref_Set n k w = Inr n' \<and> jdoc_of n' = Obj (m(k \<mapsto> jdoc_of w))"
proof (cases n)
  case (JObj kvs)
  have "(\<lambda>j. map_option jdoc_of (map_of (AList.update k w kvs) j))
        = (\<lambda>j. map_option jdoc_of (map_of kvs j))(k \<mapsto> jdoc_of w)"
    by (rule ext) (simp add: update_conv)
  moreover assume "jdoc_of n = Obj m"
  ultimately show ?thesis using JObj by (simp add: jdoc_JObj del: jdoc_of.simps(7))
qed auto

lemma ref_Set_Get:
  "ref_Set n k w = Inr n' \<Longrightarrow> ref_TypeSafe w = V_ARRAY \<or> ref_TypeSafe w = V_OBJECT \<Longrightarrow>
   ref_Get n' k = w"
  by (cases n) (auto simp: update_conv ref_fail_def split: jnode.splits)

lemma jdoc_Unset: "jdoc_of n = Obj m \<Longrightarrow> jdoc_of (ref_Unset n k) = Obj (m(k := None))"
proof (cases n)
  case (JObj kvs)
  have "(\<lambda>j. map_option jdoc_of (map_of (AList.delete k kvs) j))
        = (\<lambda>j. map_option jdoc_of (map_of kvs j))(k := None)"
    by (rule ext) (simp add: delete_conv)
  moreover assume "jdoc_of n = Obj m"
  ultimately show ?thesis using JObj by (simp add: jdoc_JObj del: jdoc_of.simps(7))
qed auto

lemma jdoc_map:
  "jdoc_of n = Obj m \<Longrightarrow> \<exists>kvs. ref_map n = Inr kvs \<and> distinct (map fst kvs)
      \<and> (\<forall>k. map_option jdoc_of (map_of kvs k) = m k)"
  by (cases n) (auto simp: jdoc_JObj dedup_def map_of_clearjunk distinct_clearjunk
      simp del: jdoc_of.simps(7))

lemma ref_types:
  "ref_TypeSafe n = V_ARRAY \<longleftrightarrow> (\<exists>xs. jdoc_of n = Arr xs)"
  "ref_TypeSafe n = V_OBJECT \<longleftrightarrow> (\<exists>m. jdoc_of n = Obj m)"
  "ref_TypeSafe n = V_NULL \<longleftrightarrow> jdoc_of n = Atom NullA"
  "ref_TypeSafe n = V_STRING \<longleftrightarrow> (\<exists>s. jdoc_of n = Atom (StrA s))"
  "ref_TypeSafe n = V_NUMBER \<or> ref_TypeSafe n = V_ANY \<longleftrightarrow> (\<exists>x. jdoc_of n = Atom (NumA x))"
  by (cases n; simp)+

lemma ref_any: "ref_TypeSafe n = V_ANY \<Longrightarrow> \<exists>i. n = JAny i"
  by (cases n) (auto split: if_splits)

lemma ref_Get_absent:
  "jdoc_of n = Obj m \<Longrightarrow> m k = None \<Longrightarrow> ref_TypeSafe (ref_Get n k) = V_ERROR"
  by (cases n) (auto simp: jdoc_JObj simp del: jdoc_of.simps(7))

lemma ref_Get_present:
  "jdoc_of n = Obj m \<Longrightarrow> m k = Some d \<Longrightarrow>
   ref_TypeSafe (ref_Get n k) \<noteq> V_ERROR \<and> jdoc_of (ref_Get n k) = d"
proof (cases n)
  case (JObj kvs)
  assume "jdoc_of n = Obj m" "m k = Some d"
  then obtain v where "map_of kvs k = Some v" "d = jdoc_of v"
    using JObj by (auto simp: jdoc_JObj simp del: jdoc_of.simps(7))
  then show ?thesis using JObj by (cases v) auto
qed auto

lemma flat_reads:
  assumes "list_all (flat_member utf8) (map snd kvs)"
  shows "case map_of kvs k of
      None \<Rightarrow> ref_TypeSafe (ref_Get (norm (node_of (AMap kvs))) k) = V_ERROR
              \<and> \<not> isOk (ref_number (ref_Get (norm (node_of (AMap kvs))) k))
    | Some (AInt i) \<Rightarrow> ref_number (ref_Get (norm (node_of (AMap kvs))) k) = Inr i
    | Some (AStr s) \<Rightarrow> ref_TypeSafe (ref_Get (norm (node_of (AMap kvs))) k) = V_STRING
              \<and> ref_string (ref_Get (norm (node_of (AMap kvs))) k) = Inr s
              \<and> \<not> isOk (ref_number (ref_Get (norm (node_of (AMap kvs))) k))
    | _ \<Rightarrow> True"
proof -
  let ?n = "norm (node_of (AMap kvs))"
  have n: "?n = JObj (map (\<lambda>(k, v). (k, norm (node_of v))) kvs)"
    by (simp add: comp_def case_prod_beta)
  have m: "map_of (map (\<lambda>(k, v). (k, norm (node_of v))) kvs) k
           = map_option (\<lambda>v. norm (node_of v)) (map_of kvs k)"
    by (simp add: map_of_map)
  show ?thesis
  proof (cases "map_of kvs k")
    case None
    then show ?thesis unfolding n using m by (simp add: ref_fail_def)
  next
    case (Some a)
    then have "(k, a) \<in> set kvs" by (rule map_of_SomeD)
    then have "flat_member utf8 a" using assms by (force simp: list_all_iff)
    then show ?thesis unfolding n using m Some
      by (auto simp: flat_member_def ref_fail_def)
  qed
qed

interpretation ref: sonic_contract ref_ast jdoc_of "\<lambda>i. i" "\<lambda>_. True"
proof
  fix n n' w and ns xs :: "jnode list" and i and k s :: string and m :: "string \<Rightarrow> int jdoc option" and d
  show "(TypeSafe ref_ast n = V_ARRAY) = (\<exists>xs. jdoc_of n = Arr xs)" by (simp add: ref_types)
  show "(TypeSafe ref_ast n = V_OBJECT) = (\<exists>m. jdoc_of n = Obj m)" by (simp add: ref_types)
  show "(TypeSafe ref_ast n = V_NULL) = (jdoc_of n = Atom NullA)" by (simp add: ref_types)
  show "(TypeSafe ref_ast n = V_STRING) = (\<exists>s. jdoc_of n = Atom (StrA s))" by (simp add: ref_types)
  show "(TypeSafe ref_ast n = V_NUMBER \<or> TypeSafe ref_ast n = V_ANY) = (\<exists>x. jdoc_of n = Atom (NumA x))"
    by (simp add: ref_types)
  show "TypeSafe ref_ast n = V_ANY \<Longrightarrow> \<exists>p. ast_Parse ref_ast (OrEmpty (ast_Raw ref_ast n)) = Some p
      \<and> jdoc_of p = jdoc_of n \<and> TypeSafe ref_ast p = V_NUMBER"
    using ref_any [of n] by (auto simp: parse_print simp del: print_json.simps)
  show "jdoc_of n = Obj m \<Longrightarrow> m k = Some d \<Longrightarrow>
      TypeSafe ref_ast (ast_Get ref_ast n k) \<noteq> V_ERROR \<and> jdoc_of (ast_Get ref_ast n k) = d"
    unfolding ref_ast_simps by (rule ref_Get_present)
  show "jdoc_of n = Obj m \<Longrightarrow> m k = None \<Longrightarrow> TypeSafe ref_ast (ast_Get ref_ast n k) = V_ERROR"
    unfolding ref_ast_simps by (rule ref_Get_absent)
  show "jdoc_of n = Obj m \<Longrightarrow>
      \<exists>n'. ast_Set ref_ast n k w = Inr n' \<and> jdoc_of n' = Obj (m(k \<mapsto> jdoc_of w))"
    unfolding ref_ast_simps by (rule jdoc_Set)
  show "jdoc_of n = Obj m \<Longrightarrow> ast_Set ref_ast n k w = Inr n' \<Longrightarrow>
      TypeSafe ref_ast w = V_ARRAY \<or> TypeSafe ref_ast w = V_OBJECT \<Longrightarrow> ast_Get ref_ast n' k = w"
    unfolding ref_ast_simps by (rule ref_Set_Get)
  show "jdoc_of n = Obj m \<Longrightarrow> jdoc_of (ast_Unset ref_ast n k) = Obj (m(k := None))"
    unfolding ref_ast_simps by (rule jdoc_Unset)
  show "OrEmpty (ast_Raw ref_ast n) = OrEmpty (ast_Raw ref_ast n') \<Longrightarrow> jdoc_of n = jdoc_of n'"
    by (rule jdoc_print) simp
  show "jdoc_of n = Obj m \<Longrightarrow> \<exists>kvs. ast_MapUseNode ref_ast n = Inr kvs \<and> distinct (map fst kvs)
      \<and> (\<forall>k. map_option jdoc_of (map_of kvs k) = m k)"
    unfolding ref_ast_simps by (rule jdoc_map)
  show "ast_Array ref_ast n = Inr gs \<Longrightarrow> TypeSafe ref_ast n = V_ARRAY" for gs
    by (cases n) (auto simp: ref_fail_def)
  show "ast_Map ref_ast n = Inr gs \<Longrightarrow> TypeSafe ref_ast n = V_OBJECT" for gs
    by (cases n) (auto simp: ref_fail_def)
  show "jdoc_of n = Arr ds \<Longrightarrow> \<exists>ns. ast_ArrayUseNode ref_ast n = Inr ns \<and> map jdoc_of ns = ds" for ds
    by (cases n) auto
  show "jdoc_of n = Atom (StrA s) \<Longrightarrow> ast_String ref_ast n = Inr s" by (cases n) auto
  show "jdoc_of n = Atom (NumA i) \<Longrightarrow> float_exact i \<Longrightarrow>
      ast_Float64 ref_ast n = Inr (go_float_of_int ref_ast i) \<and> ast_Int64 ref_ast n = Inr i"
    by (cases n) auto
  show "\<exists>n. ast_UnmarshalJSON ref_ast (go_json_Marshal ref_ast (AList [])) = Inr n \<and> jdoc_of n = Arr []"
    by (simp add: Unmarshal_print del: print_json.simps)
  show "\<exists>n. ast_UnmarshalJSON ref_ast (go_json_Marshal ref_ast (AMap [])) = Inr n
      \<and> jdoc_of n = Obj (\<lambda>_. None)"
    by (simp add: Unmarshal_print del: print_json.simps)
  show "\<exists>n. ast_UnmarshalJSON ref_ast (go_json_Marshal ref_ast ANil) = Inr n \<and> jdoc_of n = Atom NullA"
    by (simp add: Unmarshal_print del: print_json.simps)
next
  fix fkvs :: "(string \<times> int goAny) list"
  assume "list_all (flat_member (\<lambda>_. True)) (map snd fkvs)"
  then have k: "case map_of fkvs k of
      None \<Rightarrow> ref_TypeSafe (ref_Get (norm (node_of (AMap fkvs))) k) = V_ERROR
              \<and> \<not> isOk (ref_number (ref_Get (norm (node_of (AMap fkvs))) k))
    | Some (AInt i) \<Rightarrow> ref_number (ref_Get (norm (node_of (AMap fkvs))) k) = Inr i
    | Some (AStr s) \<Rightarrow> ref_TypeSafe (ref_Get (norm (node_of (AMap fkvs))) k) = V_STRING
              \<and> ref_string (ref_Get (norm (node_of (AMap fkvs))) k) = Inr s
              \<and> \<not> isOk (ref_number (ref_Get (norm (node_of (AMap fkvs))) k))
    | _ \<Rightarrow> True" for k
    by (rule flat_reads)
  show "\<exists>n. ast_UnmarshalJSON ref_ast (go_json_Marshal ref_ast (AMap fkvs)) = Inr n
      \<and> TypeSafe ref_ast n = V_OBJECT
      \<and> (\<forall>k. case map_of fkvs k of
              None \<Rightarrow> TypeSafe ref_ast (ast_Get ref_ast n k) = V_ERROR
                \<and> \<not> isOk (ast_StrictInt64 ref_ast (ast_Get ref_ast n k))
            | Some (AInt i) \<Rightarrow> ast_StrictInt64 ref_ast (ast_Get ref_ast n k) = Inr i
            | Some (AStr s) \<Rightarrow> TypeSafe ref_ast (ast_Get ref_ast n k) = V_STRING
                \<and> ast_String ref_ast (ast_Get ref_ast n k) = Inr s
                \<and> \<not> isOk (ast_StrictInt64 ref_ast (ast_Get ref_ast n k))
            | _ \<Rightarrow> True)"
    unfolding ref_ast_simps
    by (intro exI [of _ "norm (node_of (AMap fkvs))"] conjI allI k Unmarshal_print) simp
qed simp_all

end
