(* ===== verification/SonicEnv.thy ===== *)
theory SonicEnv
  imports ReferenceNode Documents
begin

text \<open>
  The package with its default value implementation: the sonic \<open>Value\<close> functions together with
  the registered subtype implementations.  \<open>ref_env\<close> is this environment over the reference
  node library; the witnesses evaluate the model in it.
\<close>

definition SonicEnv :: "('n, 'f) sonic_ast \<Rightarrow> (nat \<Rightarrow> 'n subtype_impl) \<Rightarrow> ('n, 'f) env" where
  "SonicEnv A us = value_api.extend (SonicAPI A) (env.fields us)"

lemmas extend_defs = SonicEnv_def value_api.extend_def env.fields_def

lemma SonicEnv_simps [simp]:
  "Type (SonicEnv A us) = Type (SonicAPI A)" "IsBool (SonicEnv A us) = IsBool (SonicAPI A)"
  "IsNull (SonicEnv A us) = IsNull (SonicAPI A)" "IsNumeric (SonicEnv A us) = IsNumeric (SonicAPI A)"
  "IsInt (SonicEnv A us) = IsInt (SonicAPI A)" "IsString (SonicEnv A us) = IsString (SonicAPI A)"
  "IsArray (SonicEnv A us) = IsArray (SonicAPI A)" "IsObject (SonicEnv A us) = IsObject (SonicAPI A)"
  "PackAny (SonicEnv A us) = PackAny (SonicAPI A)" "GetKey (SonicEnv A us) = GetKey (SonicAPI A)"
  "GetStringKey (SonicEnv A us) = GetStringKey (SonicAPI A)"
  "GetIntKey (SonicEnv A us) = GetIntKey (SonicAPI A)"
  "GetArray (SonicEnv A us) = GetArray (SonicAPI A)" "GetMap (SonicEnv A us) = GetMap (SonicAPI A)"
  "GetNumeric (SonicEnv A us) = GetNumeric (SonicAPI A)" "GetInt (SonicEnv A us) = GetInt (SonicAPI A)"
  "GetString (SonicEnv A us) = GetString (SonicAPI A)"
  "UpdateArray (SonicEnv A us) = UpdateArray (SonicAPI A)"
  "UpdateObject (SonicEnv A us) = UpdateObject (SonicAPI A)"
  "SetKey (SonicEnv A us) = SetKey (SonicAPI A)" "DeleteKey (SonicEnv A us) = DeleteKey (SonicAPI A)"
  "HasKey (SonicEnv A us) = HasKey (SonicAPI A)" "Size (SonicEnv A us) = Size (SonicAPI A)"
  "Equals (SonicEnv A us) = Equals (SonicAPI A)"
  "RawMessage (SonicEnv A us) = RawMessage (SonicAPI A)"
  "UnmarshalValue (SonicEnv A us) = UnmarshalValue (SonicAPI A)"
  "ValueFromString (SonicEnv A us) = ValueFromString (SonicAPI A)"
  "ValueFromInt (SonicEnv A us) = ValueFromInt (SonicAPI A)"
  "ValueFromFloat (SonicEnv A us) = ValueFromFloat (SonicAPI A)"
  "ValueFromAny (SonicEnv A us) = ValueFromAny (SonicAPI A)"
  "ValueFromArray (SonicEnv A us) = ValueFromArray (SonicAPI A)"
  "json_Marshal (SonicEnv A us) = json_Marshal (SonicAPI A)"
  "sameZeroSize (SonicEnv A us) = go_sameZeroSize A"
  "sameInterface (SonicEnv A us) = go_sameInterface A" "sharedEdit (SonicEnv A us) = go_sharedEdit A"
  "float_add (SonicEnv A us) = go_float_add A" "float_sub (SonicEnv A us) = go_float_sub A"
  "float_neg (SonicEnv A us) = go_float_neg A" "float_is_zero (SonicEnv A us) = go_float_is_zero A"
  "float_of_int (SonicEnv A us) = go_float_of_int A" "nilValue (SonicEnv A us) = go_nilValue A"
  "user_subtypes (SonicEnv A us) = us"
  by (simp_all add: extend_defs, simp_all add: SonicAPI_def)

context sonic_contract
begin

lemma env_value_contract: "value_contract (SonicEnv A us) doc"
  using api_contract unfolding value_contract_def SonicEnv_simps .

lemma env_contract: "ot_contract (SonicEnv A us) doc"
  unfolding ot_contract_def by (rule env_value_contract)

lemma env_numbers: "value_numbers (SonicEnv A us) doc numI"
  using api_numbers env_value_contract
  unfolding value_numbers_def value_numbers_axioms_def value_floats_def value_floats_axioms_def
    SonicEnv_simps by blast

lemma env_texts: "value_texts (SonicEnv A us) doc utf8"
  using api_texts env_value_contract
  unfolding value_texts_def value_texts_axioms_def reads_flat_def SonicEnv_simps by blast

end

sublocale sonic_contract \<subseteq> env: ot_contract "SonicEnv A us" doc for us
  by (rule env_contract)

definition no_subtype :: "'v subtype_impl" where
  "no_subtype = \<lparr>impl_OperatorName = '''', impl_Invert = (\<lambda>_ _ _. Inl FmtError),
     impl_Merge = (\<lambda>_ _. None), impl_Transform = (\<lambda>_ _ _. Inl FmtError),
     impl_Apply = (\<lambda>_ _. Inl FmtError), impl_ValidateOperand = (\<lambda>_. Inl FmtError)\<rparr>"

definition ref_env :: "(jnode, int) env" where
  "ref_env = SonicEnv ref_ast (\<lambda>_. no_subtype)"

interpretation ref_env: ot_contract ref_env jdoc_of
  unfolding ref_env_def by (rule ref.env_contract)

interpretation ref_numbers: value_numbers ref_env jdoc_of "\<lambda>i. i"
  unfolding ref_env_def by (rule ref.env_numbers)

interpretation ref_texts: value_texts ref_env jdoc_of "\<lambda>_. True"
  unfolding ref_env_def by (rule ref.env_texts)

lemmas ref_contracts = ref_env.ot_contract_axioms ref_numbers.value_numbers_axioms
  ref_texts.value_texts_axioms

end
