(* ===== verification/EditProperties.thy ===== *)
theory EditProperties
  imports OTProperties
begin

text \<open>
  Inverting components and merging them (\<open>Invert\<close>, \<open>Merge\<close>, \<open>Append\<close>, \<open>Compose\<close>): when the
  result undoes or sums up the originals, and where the code falls short of that.
\<close>

section \<open>Inverting\<close>

fun inverse_op :: "'v operator \<Rightarrow> 'v operator" where
  "inverse_op (ListInsert v) = ListDelete v"
| "inverse_op (ListDelete v) = ListInsert v"
| "inverse_op (ListReplace n d) = ListReplace d n"
| "inverse_op (ObjectInsert v) = ObjectDelete v"
| "inverse_op (ObjectDelete v) = ObjectInsert v"
| "inverse_op (ObjectReplace n d) = ObjectReplace d n"
| "inverse_op op = op"

lemma Invert_list: "list_op op \<Longrightarrow>
    Component_Invert E (list_component q i op) = (Inr (list_component q i (inverse_op op)), list_component q i op)"
  by (cases op) (simp_all add: Component_Invert_def)

lemma Invert_key: "is_object_op op \<Longrightarrow>
    Component_Invert E (key_component q k op) = (Inr (key_component q k (inverse_op op)), key_component q k op)"
  by (cases op) (simp_all add: Component_Invert_def)

text \<open>When undoing is possible: the values the component carries are the ones in the document.\<close>

fun list_undoable :: "('v, 'f) env \<Rightarrow> 'v operator \<Rightarrow> bool" where
  "list_undoable E (ListReplace n _) \<longleftrightarrow> \<not> IsNull E n"
| "list_undoable E _ \<longleftrightarrow> True"

fun object_undoable :: "('v \<Rightarrow> 'n jdoc) \<Rightarrow> 'v operator \<Rightarrow> 'n jdoc option \<Rightarrow> bool" where
  "object_undoable view (ObjectInsert _) old \<longleftrightarrow> old = None"
| "object_undoable view (ObjectDelete d) old \<longleftrightarrow> old = Some (view d)"
| "object_undoable view (ObjectReplace _ d) old \<longleftrightarrow> old = Some (view d)"
| "object_undoable view _ old \<longleftrightarrow> False"

lemma object_undo: "object_undoable view op (m k) \<Longrightarrow>
    object_effect view (inverse_op op) k (object_effect view op k m) = m"
  by (cases op) (auto simp: fun_upd_idem)

lemma object_undoable_op: "object_undoable view op old \<Longrightarrow> is_object_op op \<and> is_object_op (inverse_op op)"
  by (cases op) auto

context ot_contract
begin

lemma list_undo:
  assumes "list_op_ok E arr i op" "list_undoable E op"
  shows "list_op_ok E (list_effect op i arr) i (inverse_op op)
       \<and> map view (list_effect (inverse_op op) i (list_effect op i arr)) = map view arr"
proof (cases op)
  case (ListInsert x)
  have "insert_at i x arr ! i = x" using assms ListInsert by (simp add: insert_at_def nth_append)
  then show ?thesis using assms ListInsert Equals_refl [of x] by (simp add: length_ins del_ins_same)
next
  case (ListDelete d)
  have "view d = view (arr ! i)" using assms ListDelete Equals_sound by fastforce
  moreover have "i \<le> length (delete_at i arr)" using assms ListDelete by (auto simp: length_del)
  ultimately show ?thesis using assms ListDelete
    by (simp add: ins_del_same map_update list_update_same_conv)
next
  case (ListReplace n d)
  have "view d = view (arr ! i)" using assms ListReplace Equals_sound by fastforce
  then show ?thesis using assms ListReplace Equals_refl [of n]
    by (simp add: map_update list_update_same_conv)
qed (use assms in simp_all)

lemma Applies_undo_list:
  assumes l: "list_at E view q v arr" and ok: "list_op_ok E arr i op" "list_undoable E op"
  shows "\<exists>v'. Engine_Applies E v [Some [list_component q (int i) op],
              Some [list_component q (int i) (inverse_op op)]] = Inr v' \<and> view v' = view v"
  using Applies_list2 [OF l ok(1), of i "inverse_op op"] list_undo [OF ok]
    doc_put_same [OF list_at_doc [OF l]] by auto

lemma Applies_undo_object:
  assumes d: "doc_at q (view v) = Some (Obj m)" and u: "object_undoable view op (m k)"
  shows "\<exists>v'. Engine_Applies E v [Some [key_component q k op],
              Some [key_component q k (inverse_op op)]] = Inr v' \<and> view v' = view v"
proof -
  have o: "is_object_op op" "is_object_op (inverse_op op)" using object_undoable_op [OF u] by auto
  show ?thesis
    using Applies_object2 [OF d o(1), of "Some (inverse_op op)" k k] o(2)
      object_undo [of view op m k, OF u]
      doc_put_same [OF d]
    by (simp add: key_result_def xform_member_def)
qed

end

text \<open>C32: \<open>Invert\<close> of a list insert, delete or replace gives a component that, applied after the
  original, restores the document, when the original does what it says and leaves something to find
  (\<open>list_op_ok\<close> and \<open>list_undoable\<close>): the position of an insertion is at most the length of the array; that of
  a deletion or a replacement is in bounds, and the component carries the element that is there; a
  replacement is not at position 0, and neither the replaced element nor the new value is null.
  Without the last condition there is no restoring: see \<open>replace_by_null_not_restored\<close>.\<close>

theorem invert_list_restores:
  assumes "ot_contract E view" and "list_at E view q v arr"
    and "list_op_ok E arr i op" and "list_undoable E op"
  shows "\<exists>c' v'. Component_Invert E (list_component q (int i) op) = (Inr c', list_component q (int i) op)
           \<and> Engine_Applies E v [NewOperation [list_component q (int i) op], NewOperation [c']] = Inr v'
           \<and> view v' = view v"
  using ot_contract.Applies_undo_list [OF assms] Invert_list [OF list_op_ok_op [OF assms(3)]]
  by (auto simp: NewOperation_def)

lemma invert_list_restores_witness:
  "\<exists>c' v'. Component_Invert ref_env (list_component [] (int 1) (ListDelete (JNum 2)))
        = (Inr c', list_component [] (int 1) (ListDelete (JNum 2)))
      \<and> Engine_Applies ref_env (JArr [JNum 1, JNum 2])
          [NewOperation [list_component [] (int 1) (ListDelete (JNum 2))], NewOperation [c']] = Inr v'
      \<and> jdoc_of v' = jdoc_of (JArr [JNum 1, JNum 2])"
  using invert_list_restores [OF ref_env.ot_contract_axioms ref_list_at_root,
      where arr = "[JNum 1, JNum 2]" and i = 1 and op = "ListDelete (JNum 2)"]
  by (simp add: ref_Equals)

text \<open>Replacing 2 by null in \<open>[1,2]\<close> is not undone: the inverse leaves a null where it is.\<close>

lemma replace_by_null_not_restored:
  "let c = list_component [] 1 (ListReplace JNull (JNum 2))
   in andThen (fst (Component_Invert ref_env c)) (\<lambda>c'.
        Engine_Applies ref_env (JArr [JNum 1, JNum 2]) [NewOperation [c], NewOperation [c']])
      = Inr (JArr [JNum 1, JNull])"
  by code_simp

text \<open>C33: \<open>Invert\<close> of an object operator gives a component that restores the document, when an
  inserted member was absent and a deleted or replaced one had the value the component names.\<close>

theorem invert_object_restores:
  assumes "ot_contract E view" and "doc_at q (view v) = Some (Obj m)" and "object_undoable view op (m k)"
  shows "\<exists>c' v'. Component_Invert E (key_component q k op) = (Inr c', key_component q k op)
           \<and> Engine_Applies E v [NewOperation [key_component q k op], NewOperation [c']] = Inr v'
           \<and> view v' = view v"
  using ot_contract.Applies_undo_object [OF assms] object_undoable_op [OF assms(3)]
  by (auto simp: NewOperation_def Invert_key)

lemma invert_object_restores_witness:
  "\<exists>c' v'. Component_Invert ref_env (key_component [] ''a'' (ObjectReplace (JNum 2) (JNum 1)))
        = (Inr c', key_component [] ''a'' (ObjectReplace (JNum 2) (JNum 1)))
      \<and> Engine_Applies ref_env (JObj [(''a'', JNum 1)])
          [NewOperation [key_component [] ''a'' (ObjectReplace (JNum 2) (JNum 1))], NewOperation [c']] = Inr v'
      \<and> jdoc_of v' = jdoc_of (JObj [(''a'', JNum 1)])"
  using invert_object_restores [OF ref_env.ot_contract_axioms, of "[]" "JObj [(''a'', JNum 1)]"
      "[''a'' \<mapsto> Atom (NumA 1)]" "ObjectReplace (JNum 2) (JNum 1)" "''a''"]
  by simp

text \<open>\<open>Invert\<close> of a list move writes the target index into the path of the component it
  inverts, so the original no longer says where it moved from; and a move from position 0 has no
  inverse but an error.\<close>

theorem invert_move_clobbers_receiver:
  assumes "0 \<le> i"
  shows "Component_Invert E (list_component q i (ListMove j))
       = (if i = 0 then Inl (CodeError BadPath) else Inr (list_component q j (ListMove i)),
          list_component q j (ListMove j))"
  using assms
  by (auto simp: Component_Invert_def Path_Len_def Path_Replace_append
      NewOperationComponent_def Path_Clone_def list_component_def)

lemma invert_move_clobbers_receiver_witness:
  "Component_Invert ref_env (list_component [] 2 (ListMove 1))
     = (Inr (list_component [] 1 (ListMove 2)), list_component [] 1 (ListMove 1))"
  using invert_move_clobbers_receiver [of 2 ref_env "[]" 1] by simp

section \<open>Merging\<close>

text \<open>C34: Two consecutive operators on one member of an object that \<open>Merge\<close> turns into one
  (not the no-op) have the effect of the merged one.\<close>

theorem merge_object_sound:
  assumes "ot_contract E view" and "doc_at q (view v) = Some (Obj m)"
    and "is_object_op a" and "is_object_op b"
    and "Component_Merge E (key_component q k a) (key_component q k b) = Inr (Some c)"
    and "Operator c \<noteq> Noop"
  shows "\<exists>v1 v2. Engine_Applies E v [NewOperation [key_component q k a], NewOperation [key_component q k b]] = Inr v1
           \<and> Engine_Applies E v [NewOperation [c]] = Inr v2 \<and> view v1 = view v2"
proof -
  note C = ot_contract.Applies_object1 [OF assms(1)] ot_contract.Applies_object2 [OF assms(1)]
  obtain c' where c: "c = key_component q k c'" "is_object_op c'"
    and e: "object_effect view c' k m = object_effect view b k (object_effect view a k m)"
    using assms(3-6)
    by (cases a; cases b) (auto simp: Component_Merge_def MergeObjectInsert_def MergeObjectReplace_def
        key_component_def split: if_splits)
  obtain v1 where v1: "Engine_Applies E v [Some [key_component q k a], Some [key_component q k b]] = Inr v1"
      "view v1 = doc_put q (Obj (object_effect view b k (object_effect view a k m))) (view v)"
    using C(2) [OF assms(2,3), of "Some b" k k] assms(4) by (auto simp: key_result_def xform_member_def)
  obtain v2 where v2: "Engine_Applies E v [Some [c]] = Inr v2"
      "view v2 = doc_put q (Obj (object_effect view c' k m)) (view v)"
    using C(1) [OF assms(2) c(2), of k "[]"] c(1) by auto
  show ?thesis using v1 v2 e by (auto simp: NewOperation_def)
qed

lemma merge_object_sound_witness:
  "\<exists>v1 v2. Engine_Applies ref_env (JObj [(''a'', JNum 1)])
        [NewOperation [key_component [] ''a'' (ObjectDelete (JNum 1))],
         NewOperation [key_component [] ''a'' (ObjectInsert (JNum 2))]] = Inr v1
      \<and> Engine_Applies ref_env (JObj [(''a'', JNum 1)])
          [NewOperation [key_component [] ''a'' (ObjectReplace (JNum 2) (JNum 1))]] = Inr v2
      \<and> jdoc_of v1 = jdoc_of v2"
  by (rule merge_object_sound [OF ref_env.ot_contract_axioms, where m = "[''a'' \<mapsto> Atom (NumA 1)]"])
    (simp_all add: Component_Merge_def key_component_def)

text \<open>Composing the insertion of a member with its deletion gives a single no-op at that key.
  Applying the two one after the other restores the document, but applying the composed operation
  is an error: \<open>ApplyToObject\<close> does not know the no-op.\<close>

theorem composed_insert_delete_fails:
  assumes "ot_contract E view" and "view v = Obj m" and "m k = None"
  shows "Operation_Compose E (NewOperation [key_component [] k (ObjectInsert x)])
           (NewOperation [key_component [] k (ObjectDelete x)]) = Inr (NewOperation [key_component [] k Noop])
       \<and> Engine_Applies E v [NewOperation [key_component [] k Noop]] = Inl FmtError
       \<and> (\<exists>v'. Engine_Applies E v [NewOperation [key_component [] k (ObjectInsert x)],
                NewOperation [key_component [] k (ObjectDelete x)]] = Inr v' \<and> view v' = view v)"
proof -
  have V: "value_contract E view" using assms(1) by (simp add: ot_contract_def)
  have "Equals E x x" by (rule value_contract.Equals_refl [OF V])
  moreover have "PackAny E v = v" "Type E v = Object"
    using value_contract.PackAny_container [OF V] value_contract.Type_Object [OF V] assms(2) by blast+
  moreover have "\<exists>v'. Engine_Applies E v [Some [key_component [] k (ObjectInsert x)],
                Some [key_component [] k (inverse_op (ObjectInsert x))]] = Inr v' \<and> view v' = view v"
    using assms ot_contract.Applies_undo_object [OF assms(1), of "[]" v m "ObjectInsert x" k] by simp
  moreover have "ApplyToValue E v [PathElementFromKey k] Noop = Inl FmtError"
    using calculation(3) by (subst ApplyToValue.simps) (simp add: Path_Len_def ApplyToObject_def)
  ultimately show ?thesis
    by (simp add: Applies_simps Operation_Compose_def Operation_Append_def Component_Merge_def
        MergeObjectInsert_def key_component_def)
qed

lemma composed_insert_delete_fails_witness:
  "Engine_Applies ref_env (JObj []) [NewOperation [key_component [] ''a'' Noop]] = Inl FmtError"
  using composed_insert_delete_fails [OF ref_env.ot_contract_axioms, of "JObj []" "\<lambda>_. None" "''a''" JNull]
  by simp

text \<open>Once a composed operation ends in a no-op at some path, every later component for that
  path is lost: \<open>Append\<close> answers with the unchanged operation.\<close>

theorem noop_absorbs_later_components:
  assumes "\<And>j. Operator c \<noteq> ListMove j"
  shows "Operation_Append E (NewOperation (cs @ [\<lparr>Operator = Noop, Path = Path c\<rparr>])) c
         = Inr (NewOperation (cs @ [\<lparr>Operator = Noop, Path = Path c\<rparr>]))"
proof -
  have "Path_Equal p p" for p by (simp add: list_all2_refl)
  then show ?thesis using assms
    by (cases "Operator c") (auto simp: Operation_Append_def NewOperation_def Component_Merge_def)
qed

lemma noop_absorbs_later_components_witness:
  "Operation_Append ref_env (NewOperation [key_component [] ''a'' Noop])
     (key_component [] ''a'' (ObjectInsert (JNum 1))) = Inr (NewOperation [key_component [] ''a'' Noop])"
  using noop_absorbs_later_components [of "key_component [] ''a'' (ObjectInsert (JNum 1))" ref_env "[]"]
  by (simp add: key_component_def)

text \<open>Two consecutive list operators at one position that \<open>Merge\<close> turns into one have, on
  the array, the effect of the merged one; a no-op leaves the array as it is.\<close>

theorem merge_list_sound:
  assumes "ot_contract E view"
    and "list_op_ok E arr i a" and "list_op_ok E (list_effect a i arr) i b"
    and "Component_Merge E (list_component q (int i) a) (list_component q (int i) b) = Inr (Some c)"
  shows "Path c = q @ [PathElementFromIndex (int i)]
       \<and> ApplyToArray E arr [PathElementFromIndex (int i)] (Operator c)
         = Inr (list_effect b i (list_effect a i arr))"
proof -
  have *: "(c = list_component q (int i) Noop \<and> list_effect b i (list_effect a i arr) = arr)
      \<or> (\<exists>op. c = list_component q (int i) op \<and> list_op_ok E arr i op
             \<and> list_effect op i arr = list_effect b i (list_effect a i arr))"
    using assms(2-4)
    by (cases a; cases b) (auto simp: Component_Merge_def MergeListInsert_def MergeListReplace_def
        list_component_def del_ins_same length_ins upd_ins_same del_upd_same split: if_splits)
  then show ?thesis
  proof
    assume "c = list_component q (int i) Noop \<and> list_effect b i (list_effect a i arr) = arr"
    then show ?thesis by (auto simp: ApplyToArray_def)
  qed (auto simp: ApplyToArray_effect)
qed

lemma merge_list_sound_witness:
  "ApplyToArray ref_env [JNum 1, JNum 2] [PathElementFromIndex (int 1)]
     (Operator (list_component [] (int 1) (ListInsert (JNum 2)))) = Inr [JNum 1, JNum 2, JNum 2]"
  using merge_list_sound [OF ref_env.ot_contract_axioms, where arr = "[JNum 1, JNum 2]" and i = 1
      and a = "ListInsert (JNum 3)" and b = "ListReplace (JNum 2) (JNum 3)" and q = "[]"
      and c = "list_component [] (int 1) (ListInsert (JNum 2))"]
  by (simp add: ref_eval insert_at_def Component_Merge_def MergeListInsert_def list_component_def)

end
