(* ===== verification/SubTypeProperties.thy ===== *)
theory SubTypeProperties
  imports OTProperties
begin

text \<open>
  The number-add and text subtypes: what applying, merging and encoding their operands does.
\<close>

section \<open>Numbers\<close>


context value_numbers
begin

lemma number_not_null: "view v = Atom (NumA x) \<Longrightarrow> \<not> IsNull V v"
  by (simp add: IsNull_iff)

lemma NumberAdd_Apply_int:
  assumes "view v = Atom (NumA (numI i))" and "view w = Atom (NumA (numI j))" and "IsNumeric V w"
    and "float_exact i" and "float_exact j"
  shows "\<exists>r. NumberAdd_Apply V (Some v) w = Inr (Some r) \<and> view r = Atom (NumA (numI (i64 (i + j))))"
  using assms number_int [of v i] number_int [of w j] number_not_null [of v]
    FromInt_abs [of "i64 (i + j)"]
  by (simp add: NumberAdd_Apply_def NumberAdd_ValidateOperand_def)

lemma NumberAdd_Merge_int:
  assumes "view v = Atom (NumA (numI i))" and "view w = Atom (NumA (numI j))"
    and "float_exact i" and "float_exact j"
  shows "NumberAdd_Merge V v (SubTypeOperator t w fn)
         = Inr (Some (SubTypeOperator NumberAdd (ValueFromInt V (i64 (i + j))) NumberAddSubType))"
  using assms number_int [of v i] number_int [of w j] by (simp add: NumberAdd_Merge_def)

end

text \<open>C35: Adding two integer operands to an integer in turn gives the same number as adding the
  operand \<open>Merge\<close> makes of them, once that operand is packed, as long as the numbers stay in the
  range a \<open>float64\<close> holds exactly.\<close>

theorem number_merge_sound:
  assumes "value_numbers E view numI"
    and "view v = Atom (NumA (numI k))" and "float_exact k"
    and "view a = Atom (NumA (numI i))" and "float_exact i" and "IsNumeric E a"
    and "view b = Atom (NumA (numI j))" and "float_exact j" and "IsNumeric E b"
    and "float_exact (k + i)" and "float_exact (i + j)"
  shows "\<exists>v1 v2 m v3. NumberAdd_Apply E (Some v) a = Inr (Some v1)
     \<and> NumberAdd_Apply E (Some v1) b = Inr (Some v2)
     \<and> NumberAdd_Merge E a (SubTypeOperator NumberAdd b NumberAddSubType)
         = Inr (Some (SubTypeOperator NumberAdd m NumberAddSubType))
     \<and> NumberAdd_Apply E (Some v) (PackAny E m) = Inr (Some v3)
     \<and> view v3 = view v2 \<and> view v2 = Atom (NumA (numI (k + i + j)))"
proof -
  note C = value_numbers.NumberAdd_Apply_int [OF assms(1)]
  have F: "value_floats E view numI" using assms(1) by (simp add: value_numbers_def)
  then have V: "value_contract E view" by (simp add: value_floats_def)
  have kij: "is_int64 (k + i + j)" "is_int64 (k + i)" "is_int64 (i + j)"
    using assms(8,10,11) by (auto simp: float_exact_def is_int64_def)
  obtain v1 where v1: "NumberAdd_Apply E (Some v) a = Inr (Some v1)" "view v1 = Atom (NumA (numI (k + i)))"
    using C [OF assms(2,4,6,3,5)] kij by auto
  obtain v2 where v2: "NumberAdd_Apply E (Some v1) b = Inr (Some v2)" "view v2 = Atom (NumA (numI (k + i + j)))"
    using C [OF v1(2) assms(7,9,10,8)] kij by auto
  let ?m = "ValueFromInt E (i + j)"
  have m: "NumberAdd_Merge E a (SubTypeOperator NumberAdd b NumberAddSubType)
         = Inr (Some (SubTypeOperator NumberAdd ?m NumberAddSubType))"
    using value_numbers.NumberAdd_Merge_int [OF assms(1,4,7,5,8)] kij by simp
  have "view ?m = Atom (NumA (numI (i + j)))"
    using value_numbers.FromInt_abs [OF assms(1)] kij by blast
  then have p: "view (PackAny E ?m) = Atom (NumA (numI (i + j)))" "IsNumeric E (PackAny E ?m)"
    using value_contract.abs_PackAny [OF V] value_floats.IsNumeric_pack [OF F] by auto
  obtain v3 where "NumberAdd_Apply E (Some v) (PackAny E ?m) = Inr (Some v3)"
      "view v3 = Atom (NumA (numI (k + i + j)))"
    using C [OF assms(2) p assms(3,11)] kij by (auto simp: add.assoc)
  then show ?thesis using v1 v2 m by auto
qed

lemma number_merge_sound_witness:
  "\<exists>v1 v2 m v3. NumberAdd_Apply ref_env (Some (JNum 5)) (JNum 1) = Inr (Some v1)
     \<and> NumberAdd_Apply ref_env (Some v1) (JNum 2) = Inr (Some v2)
     \<and> NumberAdd_Merge ref_env (JNum 1) (SubTypeOperator NumberAdd (JNum 2) NumberAddSubType)
         = Inr (Some (SubTypeOperator NumberAdd m NumberAddSubType))
     \<and> NumberAdd_Apply ref_env (Some (JNum 5)) (PackAny ref_env m) = Inr (Some v3)
     \<and> jdoc_of v3 = jdoc_of v2 \<and> jdoc_of v2 = Atom (NumA (5 + 1 + 2))"
  by (rule number_merge_sound [OF ref_numbers.value_numbers_axioms])
    (simp_all add: float_exact_def ref_env_def Sonic_IsNumeric_def)

text \<open>With the sonic values, the operand of a merged or inverted integer addition is a node of
  type \<open>V_ANY\<close>, which \<open>Apply\<close> refuses as not numeric: the composed or inverted operation
  cannot be applied before it has been written out and read back.\<close>

theorem merged_number_operand_is_refused:
  assumes "sonic_contract A doc numI utf8"
    and "doc a = Atom (NumA (numI i))" and "float_exact i"
    and "doc b = Atom (NumA (numI j))" and "float_exact j"
  shows "\<exists>m. NumberAdd_Merge (SonicEnv A us) a (SubTypeOperator NumberAdd b NumberAddSubType)
           = Inr (Some (SubTypeOperator NumberAdd m NumberAddSubType))
         \<and> NumberAdd_Apply (SonicEnv A us) v m = Inl (CodeError InvalidOperation)"
proof -
  have t: "TypeSafe A (ast_NewAny A (AInt n)) = V_ANY" for n
    by (rule sonic_contract.new_any_type [OF assms(1)])
  show ?thesis
    using value_numbers.NumberAdd_Merge_int [OF sonic_contract.env_numbers [OF assms(1)] assms(2,4,3,5)]
    by (simp add: NumberAdd_Apply_def NumberAdd_ValidateOperand_def Sonic_IsNumeric_def t)
qed

lemma merged_number_operand_is_refused_witness:
  "\<exists>m. NumberAdd_Merge (SonicEnv ref_ast (\<lambda>_. no_subtype)) (JNum 1)
         (SubTypeOperator NumberAdd (JNum 2) NumberAddSubType)
       = Inr (Some (SubTypeOperator NumberAdd m NumberAddSubType))
     \<and> NumberAdd_Apply (SonicEnv ref_ast (\<lambda>_. no_subtype)) (Some (JNum 5)) m = Inl (CodeError InvalidOperation)"
  by (rule merged_number_operand_is_refused [OF ref.sonic_contract_axioms, where i = 1 and j = 2])
    (simp_all add: float_exact_def)

section \<open>Text operands\<close>

definition text_operand_ok :: "(string \<Rightarrow> bool) \<Rightarrow> TextOperand \<Rightarrow> bool" where
  "text_operand_ok utf8 t \<longleftrightarrow> is_int64 (Offset t) \<and> pred_option utf8 (InsertVal t)
     \<and> pred_option utf8 (DeleteVal t)"

lemma text_operand_eqI:
  "Offset t = Offset u \<Longrightarrow> InsertVal t = InsertVal u \<Longrightarrow> DeleteVal t = DeleteVal u \<Longrightarrow> t = (u :: TextOperand)"
  by (cases t; cases u) simp

context value_texts
begin

lemma text_operand_reads:
  assumes "text_operand_ok utf8 t"
  shows "reads_flat V (TextOperand_ToValue V t) ''p'' (Some (AInt (Offset t)))"
    and "reads_flat V (TextOperand_ToValue V t) ''i'' (map_option AStr (InsertVal t))"
    and "reads_flat V (TextOperand_ToValue V t) ''d'' (map_option AStr (DeleteVal t))"
proof -
  define m :: "(string \<times> 'f goAny) list" where
    "m = [(''p'', AInt (Offset t))]
         @ (case InsertVal t of Some s \<Rightarrow> [(''i'', AStr s)] | None \<Rightarrow> [])
         @ (case DeleteVal t of Some s \<Rightarrow> [(''d'', AStr s)] | None \<Rightarrow> [])"
  have "distinct (map fst m)" "list_all (flat_member utf8) (map snd m)"
    using assms by (auto simp: m_def text_operand_ok_def flat_member_def split: option.splits)
  from flat_roundtrip [OF this] obtain v where
    v: "UnmarshalValue V (json_Marshal V (AMap m)) = Inr v" "\<And>k. reads_flat V v k (map_of m k)"
    by blast
  have t: "TextOperand_ToValue V t = v"
    using v(1) by (simp add: TextOperand_ToValue_def m_def)
  have "map_of m ''p'' = Some (AInt (Offset t))" "map_of m ''i'' = map_option AStr (InsertVal t)"
    "map_of m ''d'' = map_option AStr (DeleteVal t)"
    by (auto simp: m_def split: option.splits)
  then show "reads_flat V (TextOperand_ToValue V t) ''p'' (Some (AInt (Offset t)))"
    "reads_flat V (TextOperand_ToValue V t) ''i'' (map_option AStr (InsertVal t))"
    "reads_flat V (TextOperand_ToValue V t) ''d'' (map_option AStr (DeleteVal t))"
    using v(2) t by metis+
qed

lemma TextOperand_roundtrip:
  assumes "text_operand_ok utf8 t"
  shows "TextOperand_FromValue V emptyTextOperand (TextOperand_ToValue V t) = Inr t"
  using text_operand_reads [OF assms]
  by (auto simp: TextOperand_FromValue_def reads_flat_def emptyTextOperand_def Let_def
      intro!: text_operand_eqI split: option.splits)

lemma Text_ValidateOperand_ok:
  "text_operand_ok utf8 t \<Longrightarrow> Text_ValidateOperand V (TextOperand_ToValue V t) = Inr ()"
  using text_operand_reads [of t]
  by (auto simp: Text_ValidateOperand_def reads_flat_def split: option.splits)

end

text \<open>A text operand that has been encoded as a value decodes to itself.\<close>

theorem text_operand_roundtrip:
  assumes "value_texts E view utf8" and "text_operand_ok utf8 t"
  shows "TextOperand_FromValue E emptyTextOperand (TextOperand_ToValue E t) = Inr t"
  using assms by (rule value_texts.TextOperand_roundtrip)

lemma text_operand_roundtrip_witness:
  "TextOperand_FromValue ref_env emptyTextOperand
     (TextOperand_ToValue ref_env (NewInsertTextOperand 3 ''abc'')) = Inr (NewInsertTextOperand 3 ''abc'')"
  by (rule text_operand_roundtrip [OF ref_texts.value_texts_axioms])
    (simp add: text_operand_ok_def NewInsertTextOperand_def is_int64_def)

section \<open>Text edits\<close>

definition text_insert :: "int \<Rightarrow> string \<Rightarrow> string \<Rightarrow> string" where
  "text_insert p b s = take (nat p) s @ b @ drop (nat p) s"

lemma SubString_range:
  "0 \<le> a \<Longrightarrow> a \<le> b \<Longrightarrow> b \<le> int (length s) \<Longrightarrow>
   SubString s a b = Inr (take (nat (b - a)) (drop (nat a) s))"
  by (auto simp: SubString_def slice_range_def)

lemma text_insert_insert:
  assumes "0 \<le> p" "p \<le> q" "q \<le> p + int (length a)" "p \<le> int (length s)"
  shows "text_insert q b (text_insert p a s)
       = text_insert p (take (nat (q - p)) a @ b @ drop (nat (q - p)) a) s"
proof -
  obtain i j where ij: "p = int i" "q = int (i + j)"
    using assms(1,2) by (metis nonneg_int_cases zle_iff_zadd of_nat_add)
  then have "i \<le> length s" "j \<le> length a" using assms by auto
  moreover have "nat (int i + int j) - i = j" by simp
  ultimately show ?thesis using ij by (simp add: text_insert_def nat_int_add)
qed

lemma length_text_insert: "length (text_insert p b s) = length s + length b"
  by (simp add: text_insert_def)

context value_texts
begin

lemma Text_Apply_insert:
  assumes v: "view v = Atom (StrA s)" and t: "text_operand_ok utf8 (NewInsertTextOperand p b)"
    and p: "0 \<le> p" "p \<le> int (length s)"
  shows "\<exists>r. Text_Apply V (Some v) (TextOperand_ToValue V (NewInsertTextOperand p b)) = Inr (Some r)
           \<and> view r = Atom (StrA (text_insert p b s))"
proof -
  have "SubString s 0 p = Inr (take (nat p) s)" "SubString s p (int (length s)) = Inr (drop (nat p) s)"
    using p by (simp_all add: SubString_range)
  moreover have "\<not> IsNull V v" using v by (simp add: IsNull_iff)
  ultimately show ?thesis
    using p v GetString_Str [OF v] Text_ValidateOperand_ok [OF t] TextOperand_roundtrip [OF t]
    by (simp add: Text_Apply_def NewInsertTextOperand_def GetInsertVal_def IsInsert_def
        FromString_abs text_insert_def)
qed

lemma Text_Apply_delete:
  assumes v: "view v = Atom (StrA s)" and t: "text_operand_ok utf8 (NewDeleteTextOperand p d)"
  shows "Text_Apply V (Some v) (TextOperand_ToValue V (NewDeleteTextOperand p d)) =
     andThen (SubString s p (int (length d))) (\<lambda>deleted.
       if d \<noteq> deleted then Inl (CodeError InvalidOperation)
       else if p < int (length s) then
         andThen (SubString s 0 p) (\<lambda>left.
         andThen (SubString s (i64 (p + int (length d))) (int (length s))) (\<lambda>right.
           Inr (Some (ValueFromString V (left @ right)))))
       else Inr (Some (ValueFromString V s)))"
proof -
  have "\<not> IsNull V v" using v by (simp add: IsNull_iff)
  then show ?thesis
    using v GetString_Str [OF v] Text_ValidateOperand_ok [OF t] TextOperand_roundtrip [OF t]
    by (simp add: Text_Apply_def NewDeleteTextOperand_def GetInsertVal_def IsInsert_def
        MustGetDeleteVal_def)
qed

lemma Text_Merge_insert:
  assumes a: "text_operand_ok utf8 (NewInsertTextOperand p a)"
    and b: "text_operand_ok utf8 (NewInsertTextOperand q b)"
    and p: "0 \<le> p" "p \<le> q" "q \<le> p + int (length a)" "is_int64 (p + int (length a))"
  shows "Text_Merge V (TextOperand_ToValue V (NewInsertTextOperand p a))
           (SubTypeOperator t (TextOperand_ToValue V (NewInsertTextOperand q b)) fn)
       = Inr (Some (SubTypeOperator Text (TextOperand_ToValue V
           (NewInsertTextOperand p (take (nat (q - p)) a @ b @ drop (nat (q - p)) a))) TextSubType))"
proof -
  have "is_int64 (q - p)" using p by (simp add: is_int64_def)
  moreover have "SubString a 0 (q - p) = Inr (take (nat (q - p)) a)"
      "SubString a (q - p) (int (length a)) = Inr (drop (nat (q - p)) a)"
    using p by (simp_all add: SubString_range)
  ultimately show ?thesis
    using p TextOperand_roundtrip [OF a] TextOperand_roundtrip [OF b]
    by (simp add: Text_Merge_def NewInsertTextOperand_def IsInsert_def MustGetInsertVal_def Let_def)
qed

end

text \<open>Two text insertions of which the second falls into the text the first inserted (or at one
  of its ends) merge into one insertion with the same effect.\<close>

theorem text_merge_insert_sound:
  assumes "value_texts E view utf8" and "view v = Atom (StrA s)"
    and "text_operand_ok utf8 (NewInsertTextOperand p a)"
    and "text_operand_ok utf8 (NewInsertTextOperand q b)"
    and "text_operand_ok utf8 (NewInsertTextOperand p (take (nat (q - p)) a @ b @ drop (nat (q - p)) a))"
    and "0 \<le> p" and "p \<le> q" and "q \<le> p + int (length a)" and "p \<le> int (length s)"
    and "is_int64 (p + int (length a))"
  shows "\<exists>v1 v2 m v3.
      Text_Apply E (Some v) (TextOperand_ToValue E (NewInsertTextOperand p a)) = Inr (Some v1)
    \<and> Text_Apply E (Some v1) (TextOperand_ToValue E (NewInsertTextOperand q b)) = Inr (Some v2)
    \<and> Text_Merge E (TextOperand_ToValue E (NewInsertTextOperand p a))
        (SubTypeOperator Text (TextOperand_ToValue E (NewInsertTextOperand q b)) TextSubType)
        = Inr (Some (SubTypeOperator Text m TextSubType))
    \<and> Text_Apply E (Some v) m = Inr (Some v3)
    \<and> view v3 = view v2 \<and> view v2 = Atom (StrA (text_insert q b (text_insert p a s)))"
proof -
  note A = value_texts.Text_Apply_insert [OF assms(1)]
  let ?m = "TextOperand_ToValue E (NewInsertTextOperand p (take (nat (q - p)) a @ b @ drop (nat (q - p)) a))"
  obtain v1 where v1: "Text_Apply E (Some v) (TextOperand_ToValue E (NewInsertTextOperand p a)) = Inr (Some v1)"
      "view v1 = Atom (StrA (text_insert p a s))"
    using A [OF assms(2,3,6,9)] by auto
  obtain v2 where v2: "Text_Apply E (Some v1) (TextOperand_ToValue E (NewInsertTextOperand q b)) = Inr (Some v2)"
      "view v2 = Atom (StrA (text_insert q b (text_insert p a s)))"
    using A [OF v1(2) assms(4)] assms(6-9) by (auto simp: length_text_insert)
  obtain v3 where v3: "Text_Apply E (Some v) ?m = Inr (Some v3)"
      "view v3 = Atom (StrA (text_insert p (take (nat (q - p)) a @ b @ drop (nat (q - p)) a) s))"
    using A [OF assms(2,5,6,9)] by auto
  have m: "Text_Merge E (TextOperand_ToValue E (NewInsertTextOperand p a))
        (SubTypeOperator Text (TextOperand_ToValue E (NewInsertTextOperand q b)) TextSubType)
        = Inr (Some (SubTypeOperator Text ?m TextSubType))"
    by (rule value_texts.Text_Merge_insert [OF assms(1,3,4,6-8,10)])
  show ?thesis
    using v1(1) v2 v3 m text_insert_insert [OF assms(6-9), of b] by auto
qed

lemma text_merge_insert_sound_witness:
  "\<exists>v1 v2 m v3.
      Text_Apply ref_env (Some (JStr ''hello'')) (TextOperand_ToValue ref_env (NewInsertTextOperand 5 ''ab'')) = Inr (Some v1)
    \<and> Text_Apply ref_env (Some v1) (TextOperand_ToValue ref_env (NewInsertTextOperand 6 ''X'')) = Inr (Some v2)
    \<and> Text_Merge ref_env (TextOperand_ToValue ref_env (NewInsertTextOperand 5 ''ab''))
        (SubTypeOperator Text (TextOperand_ToValue ref_env (NewInsertTextOperand 6 ''X'')) TextSubType)
        = Inr (Some (SubTypeOperator Text m TextSubType))
    \<and> Text_Apply ref_env (Some (JStr ''hello'')) m = Inr (Some v3)
    \<and> jdoc_of v3 = jdoc_of v2
    \<and> jdoc_of v2 = Atom (StrA (text_insert 6 ''X'' (text_insert 5 ''ab'' ''hello'')))"
  by (rule text_merge_insert_sound [OF ref_texts.value_texts_axioms])
    (simp_all add: text_operand_ok_def NewInsertTextOperand_def is_int64_def)

lemma SubString_delete:
  assumes "0 < p" "p < int (length s)"
  shows "SubString s p (int (length d)) = Inl Panic
       \<or> (\<exists>r. SubString s p (int (length d)) = Inr r \<and> length r < length d)"
  using assms by (auto simp: SubString_def slice_range_def)

text \<open>A text deletion works at offset 0 only.  At offset 0 it removes the text it names when the
  string begins with it and is refused otherwise; at any offset \<open>0 < p < length s\<close>
  it never succeeds: the text to compare is cut with the length of the deleted text as its end.\<close>

theorem text_delete_only_at_start:
  assumes "value_texts E view utf8" and "view v = Atom (StrA s)"
    and "text_operand_ok utf8 (NewDeleteTextOperand p d)"
    and "d \<noteq> ''''" and "0 \<le> p" and "p < int (length s)" and "is_int64 (int (length s))"
  shows "Text_Apply E (Some v) (TextOperand_ToValue E (NewDeleteTextOperand p d)) = Inr r
         \<longleftrightarrow> p = 0 \<and> take (length d) s = d \<and> r = Some (ValueFromString E (drop (length d) s))"
proof (cases "p = 0")
  case True
  have s0: "SubString s 0 (int (length d)) = Inr (take (length d) s)"
    using assms(6) True by (auto simp: SubString_def slice_range_def)
  show ?thesis
  proof (cases "take (length d) s = d")
    case d: True
    then have l: "length d \<le> length s" by (metis length_take min.cobounded1)
    then have i: "i64 (0 + int (length d)) = int (length d)"
      using assms(7) by (simp add: is_int64_def)
    have r: "SubString s (int (length d)) (int (length s)) = Inr (drop (length d) s)"
      using l by (simp add: SubString_range)
    have e: "SubString s 0 0 = Inr ''''" using assms(6) True by (simp add: SubString_range)
    show ?thesis
      unfolding value_texts.Text_Apply_delete [OF assms(1-3)]
      using True s0 assms(6) d i r e by auto
  next
    case False
    then show ?thesis
      unfolding value_texts.Text_Apply_delete [OF assms(1-3)] using True s0 by simp
  qed
next
  case False
  then show ?thesis
    unfolding value_texts.Text_Apply_delete [OF assms(1-3)]
    using SubString_delete [of p s d] assms(5,6) by (auto split: if_splits)
qed

lemma text_delete_only_at_start_witness:
  "Text_Apply ref_env (Some (JStr ''abc'')) (TextOperand_ToValue ref_env (NewDeleteTextOperand 1 ''b''))
     \<noteq> Inr (Some (JStr ''ac''))
   \<and> Text_Apply ref_env (Some (JStr ''abc'')) (TextOperand_ToValue ref_env (NewDeleteTextOperand 0 ''a''))
     = Inr (Some (ValueFromString ref_env ''bc''))"
  using text_delete_only_at_start [OF ref_texts.value_texts_axioms, where v = "JStr ''abc''"
      and s = "''abc''" and p = 1 and d = "''b''" and r = "Some (JStr ''ac'')"]
    text_delete_only_at_start [OF ref_texts.value_texts_axioms, where v = "JStr ''abc''"
      and s = "''abc''" and p = 0 and d = "''a''" and r = "Some (ValueFromString ref_env ''bc'')"]
  by (simp add: text_operand_ok_def NewDeleteTextOperand_def is_int64_def)

text \<open>A text insertion transformed against a base insertion at a smaller offset should move right
  by the length of the base's text; \<open>TransformPosition\<close> instead returns the end of the base's
  text, whatever the position was, so two positions after the base insertion collapse into one.\<close>

theorem insert_position_collapses:
  assumes "Offset t < pos1" and "Offset t < pos2" and "InsertVal t = Some s"
    and "is_int64 (Offset t + int (length s))"
  shows "TransformPosition t pos1 after1 = Offset t + int (length s)
       \<and> TransformPosition t pos1 after1 = TransformPosition t pos2 after2
       \<and> TransformPosition t pos1 after1 < pos1 + int (length s)"
  using assms by (simp add: TransformPosition_def GetInsertVal_def IsInsert_def)

lemma insert_position_collapses_witness:
  "TransformPosition (NewInsertTextOperand 0 ''ab'') 3 True = TransformPosition (NewInsertTextOperand 0 ''ab'') 7 True"
  using insert_position_collapses [of "NewInsertTextOperand 0 ''ab''" 3 7 "''ab''" True True]
  by (simp add: NewInsertTextOperand_def is_int64_def)

end
