(* ===== verification/TransformProperties.thy ===== *)
theory TransformProperties
  imports OTProperties
begin

text \<open>
  What \<open>Transform\<close> does beyond pairs of list or object operators: components far apart, list
  operators at the document root, operations of several components and custom subtypes; and the
  reading of operations, the paths and the registry.
\<close>

section \<open>Transform\<close>

lemma Component_Clone_id: "Operator c \<noteq> NoopValue \<Longrightarrow> Component_Clone c = c"
  by (cases "Operator c") (simp_all add: Component_Clone_def Path_Clone_def)

lemma Engine_Transform_pair:
  "Component_Validation new = Inr () \<Longrightarrow> Component_Validation base = Inr () \<Longrightarrow>
   Operator new \<noteq> NoopValue \<Longrightarrow> Operator base \<noteq> NoopValue \<Longrightarrow>
   Engine_Transform E (NewOperation [new]) (NewOperation [base]) =
     andThen (TransformComponent E new base TransformSideLeft) (\<lambda>(left, newOp').
     andThen (TransformComponent E base
        (Component_Clone (new\<lparr>Operator := share_values (Operator new) (Operator newOp')\<rparr>))
        TransformSideRight) (\<lambda>(right, baseOp').
     andThen (MustGet left) (\<lambda>l. andThen (MustGet right) (\<lambda>r. Inr (NewOperation l, NewOperation r)))))"
  by (simp add: Engine_Transform_def Transformer_Transform_def NewOperation_def Operation_IsEmpty_def
      Operation_Validation_def Component_Clone_id)

lemma Operator_update_same [simp]: "Operator c = op \<Longrightarrow> c\<lparr>Operator := op\<rparr> = c"
  by (cases c) auto

lemma share_values_same: "share_values op op = op"
  by (cases op) auto

lemma Engine_Transform_keep:
  assumes "Component_Validation new = Inr ()" "Component_Validation base = Inr ()"
    and "Operator new \<noteq> NoopValue" "Operator base \<noteq> NoopValue"
    and "TransformComponent E new base TransformSideLeft = keep new"
    and "TransformComponent E base new TransformSideRight = keep base"
  shows "Engine_Transform E (NewOperation [new]) (NewOperation [base])
       = Inr (NewOperation [new], NewOperation [base])"
  using assms by (simp add: Engine_Transform_pair keep_def share_values_same Component_Clone_id)

text \<open>Components whose paths part before the position either of them edits do not influence each
  other: \<open>Transform\<close> returns both unchanged.\<close>

theorem independent_components_unchanged:
  assumes "Component_Validation new = Inr ()" and "Component_Validation base = Inr ()"
    and "Operator new \<noteq> NoopValue" and "Operator base \<noteq> NoopValue"
    and "int (length (longest_common_prefix (Path new) (Path base))) < OperatePathLen new"
    and "int (length (longest_common_prefix (Path new) (Path base))) < OperatePathLen base"
  shows "Engine_Transform E (NewOperation [new]) (NewOperation [base])
       = Inr (NewOperation [new], NewOperation [base])"
proof -
  have "longest_common_prefix (Path base) (Path new) = longest_common_prefix (Path new) (Path base)"
    by (metis MaxCommonPath_lcp longest_common_prefix_max_prefix longest_common_prefix_prefix1
        longest_common_prefix_prefix2 prefix_order.antisym)
  then show ?thesis
    using assms by (intro Engine_Transform_keep)
      (simp_all add: TransformComponent_def MaxCommonPath_lcp Path_Len_def Let_def)
qed

lemma independent_components_unchanged_witness:
  "Engine_Transform ref_env (NewOperation [list_component [PathElementFromKey ''a''] 0 (ListInsert JNull)])
      (NewOperation [key_component [PathElementFromKey ''b''] ''c'' (ObjectDelete JNull)])
    = Inr (NewOperation [list_component [PathElementFromKey ''a''] 0 (ListInsert JNull)],
           NewOperation [key_component [PathElementFromKey ''b''] ''c'' (ObjectDelete JNull)])"
  by (rule independent_components_unchanged)
    (simp_all add: Component_Validation_def Path_IsEmpty_def Path_Len_def OperatePathLen_def
      PathElementFromKey_def)

text \<open>A base component that inserts into or deletes from a list at the document root (empty path)
  makes \<open>Transform\<close> panic, whatever valid component that does something it is given: the
  position is looked up at index -1.\<close>

theorem root_list_base_panics:
  assumes "Path base = []" and "(\<exists>y. Operator base = ListInsert y) \<or> (\<exists>d. Operator base = ListDelete d)"
    and "Component_Validation new = Inr ()" and "Operator new \<noteq> NoopValue"
    and "\<not> IsEquivalentToNoop E new"
  shows "Engine_Transform E (NewOperation [new]) (NewOperation [base]) = Inl Panic"
proof -
  have v: "Component_Validation base = Inr ()" "Operator base \<noteq> NoopValue"
    "\<not> IsEquivalentToNoop E base" "OperatePathLen base = -1"
    using assms(1,2) by (auto simp: Component_Validation_def supportsRootPathOperator_def
        IsEquivalentToNoop_def OperatePathLen_def Path_Len_def)
  have len: "\<not> OperatePathLen new < -1"
    by (auto simp: OperatePathLen_def Path_Len_def split: operator.splits)
  have pair: "Engine_Transform E (NewOperation [new]) (NewOperation [base]) =
     andThen (TransformComponentOperator E new base TransformSideLeft) (\<lambda>(left, newOp').
     andThen (TransformComponent E base
        (Component_Clone (new\<lparr>Operator := share_values (Operator new) (Operator newOp')\<rparr>))
        TransformSideRight) (\<lambda>(right, baseOp').
     andThen (MustGet left) (\<lambda>l. andThen (MustGet right) (\<lambda>r. Inr (NewOperation l, NewOperation r)))))"
    using assms(3-5) v len
    by (subst Engine_Transform_pair) (simp_all add: TransformComponent_def Path_Len_def Let_def)
  show ?thesis
  proof (cases "\<exists>x y. Operator new = ListInsert x \<and> Operator base = ListInsert y \<and> Path new = []")
    case True
    then obtain x y where n: "Operator new = ListInsert x" "Operator base = ListInsert y" "Path new = []"
      by blast
    have "TransformComponentOperator E new base TransformSideLeft = keep new"
      using n assms(1) by (simp add: TransformComponentOperator_def
          TransformComponentForListInsert_def IsSameOperand_def whenDo_def)
    moreover have "TransformComponent E base new TransformSideRight = Inl Panic"
      using n assms(1) v(4) by (simp add: TransformComponent_def TransformComponentOperator_def
          TransformComponentForListInsert_def IsSameOperand_def whenDo_def OperatePathLen_def
          increasePath_def IncreaseIndex_def slice_get_def Path_Len_def IsEquivalentToNoop_def)
    ultimately show ?thesis
      using pair n by (simp add: keep_def share_values_same Component_Clone_id)
  next
    case False
    have "TransformComponentOperator E new base TransformSideLeft = Inl Panic"
      using assms(2)
    proof
      assume "\<exists>y. Operator base = ListInsert y"
      then show ?thesis using False assms(1) v(4)
        by (auto simp: TransformComponentOperator_def TransformComponentForListInsert_def
            Path_Get_negative IsSameOperand_def Path_Len_def Let_def split: operator.splits)
    next
      assume "\<exists>d. Operator base = ListDelete d"
      then show ?thesis using v(4)
        by (auto simp: TransformComponentOperator_def TransformComponentForListDelete_def
            mustGetElement_def Path_Get_negative)
    qed
    then show ?thesis using pair by simp
  qed
qed

lemma root_list_base_panics_witness:
  "Engine_Transform ref_env (NewOperation [key_component [] ''a'' (ObjectInsert JNull)])
     (NewOperation [\<lparr>Operator = ListInsert JNull, Path = []\<rparr>]) = Inl Panic"
  by (rule root_list_base_panics)
    (simp_all add: Component_Validation_def Path_IsEmpty_def Path_Len_def IsEquivalentToNoop_def)

lemma TransformMatrix_loop_length:
  "TransformMatrix_loop E ops bases out = Inr r \<Longrightarrow> length r = length out + length bases"
  by (induction E ops bases out rule: TransformMatrix_loop.induct) (auto simp: andThen_Inr_iff)

text \<open>As soon as one of the two operations has more than one component, \<open>Transform\<close> loses the
  operation to be transformed: both results are the same operation, with as many components as
  the base operation.\<close>

theorem multi_component_transform_loses_operation:
  assumes "ops \<noteq> []" and "bases \<noteq> []" and "length ops \<noteq> 1 \<or> length bases \<noteq> 1"
    and "Engine_Transform E (NewOperation ops) (NewOperation bases) = Inr (l, r)"
  shows "l = r \<and> (\<exists>cs. l = NewOperation cs \<and> length cs = length bases)"
proof -
  have "Engine_Transform E (NewOperation ops) (NewOperation bases)
     = andThen (components_Validation ops) (\<lambda>_. andThen (components_Validation bases) (\<lambda>_.
         TransformMatrix E ops bases))"
    using assms(1-3)
    by (auto simp: Engine_Transform_def Transformer_Transform_def NewOperation_def
        Operation_IsEmpty_def Operation_Validation_def split: list.splits)
  with assms(1,2,4) obtain out where "TransformMatrix_loop E ops bases [] = Inr out"
      "l = NewOperation out" "r = Some out"
    by (auto simp: TransformMatrix_def andThen_Inr_iff)
  then show ?thesis using TransformMatrix_loop_length [of E ops bases "[]" out]
    by (auto simp: NewOperation_def)
qed

lemma multi_component_transform_loses_operation_witness:
  "\<exists>l r. Engine_Transform ref_env
      (NewOperation [key_component [] ''a'' (ObjectInsert JNull), key_component [] ''b'' (ObjectInsert JNull)])
      (NewOperation [key_component [] ''c'' (ObjectInsert JNull)]) = Inr (l, r) \<and> l = r"
proof -
  have "Engine_Transform ref_env
      (NewOperation [key_component [] ''a'' (ObjectInsert JNull), key_component [] ''b'' (ObjectInsert JNull)])
      (NewOperation [key_component [] ''c'' (ObjectInsert JNull)])
    = Inr (NewOperation [key_component [] ''c'' (ObjectInsert JNull)],
           NewOperation [key_component [] ''c'' (ObjectInsert JNull)])"
    by code_simp
  then show ?thesis using multi_component_transform_loses_operation
    [of "[key_component [] ''a'' (ObjectInsert JNull), key_component [] ''b'' (ObjectInsert JNull)]"
        "[key_component [] ''c'' (ObjectInsert JNull)]"] by blast
qed

section \<open>Custom subtypes\<close>

lemma MapToOperator_custom:
  "MapToOperator E holder fresh obj = Inr (SubTypeOperator (Custom i n) v fn, fresh') \<Longrightarrow>
   i = fresh \<and> fresh' = Suc fresh"
  by (auto simp: MapToOperator_def noAlloc_def MapToOperatorForSubType_def MapToOperatorForNumberAdd_def
      MapToOperatorForListMove_def MapToOperatorForListInsert_def MapToOperatorForListReplace_def
      MapToOperatorForListDelete_def MapToOperatorForObjectInsert_def MapToOperatorForObjectReplace_def
      MapToOperatorForObjectDelete_def andThen_Inr_iff Let_def
      split: if_splits option.splits sum.splits) (metis sum.exhaust)

lemma OperationComponentFromValue_custom:
  "OperationComponentFromValue E holder fresh val = Inr (c, fresh') \<Longrightarrow>
   Operator c = SubTypeOperator (Custom i n) v fn \<Longrightarrow> i = fresh \<and> fresh' = Suc fresh"
proof -
  assume a: "OperationComponentFromValue E holder fresh val = Inr (c, fresh')"
    "Operator c = SubTypeOperator (Custom i n) v fn"
  then obtain path op where op: "OperatorFromValue E holder fresh val = Inr (op, fresh')"
      "c = NewOperationComponent path op"
    by (auto simp: OperationComponentFromValue_def andThen_Inr_iff split: option.splits)
  then have "op = SubTypeOperator (Custom i n) v fn" using a(2) by (cases op) auto
  with op(1) show ?thesis
    using MapToOperator_custom [of E holder fresh val i n v fn fresh']
    by (auto simp: OperatorFromValue_def split: if_splits)
qed

lemma TransformComponent_custom:
  assumes "Operator new = SubTypeOperator (Custom i n) v fn"
    and "Operator base = SubTypeOperator (Custom j m) w gn" and "i \<noteq> j"
  shows "TransformComponent E new base side = keep new"
  using assms
  by (auto simp: TransformComponent_def Consume_def TransformComponentOperator_def
      TransformComponentForSubType_def Let_def)

text \<open>Two operations of a registered subtype that have been read from JSON are never transformed
  against each other: every read allocates its own \<open>*Custom\<close>, the comparison of the two
  subtypes compares the pointers, and the registered \<open>Transform\<close> function is not called.\<close>

theorem read_custom_operations_never_transform:
  assumes "OperationComponentFromValue E holder fresh a = Inr (new, fresh1)"
    and "OperationComponentFromValue E holder fresh1 b = Inr (base, fresh2)"
    and "Operator new = SubTypeOperator (Custom i n) v fn"
    and "Operator base = SubTypeOperator (Custom j m) w gn"
  shows "Engine_Transform E (NewOperation [new]) (NewOperation [base])
       = Inr (NewOperation [new], NewOperation [base])"
proof -
  have "i \<noteq> j"
    using OperationComponentFromValue_custom [OF assms(1,3)]
      OperationComponentFromValue_custom [OF assms(2,4)] by simp
  then show ?thesis
    using assms(3,4) TransformComponent_custom [OF assms(3,4)] TransformComponent_custom [OF assms(4,3)]
    by (intro Engine_Transform_keep)
      (simp_all add: Component_Validation_def supportsRootPathOperator_def)
qed

definition counter_op :: jnode where
  "counter_op = JObj [(''p'', JArr [JStr ''k'']), (''t'', JStr ''counter''), (''o'', JNum 1)]"

lemma read_custom_operations_never_transform_witness:
  "\<exists>new base. OperationComponentFromValue ref_env [''counter'' \<mapsto> UserSubType 0] 0 counter_op = Inr (new, 1)
     \<and> OperationComponentFromValue ref_env [''counter'' \<mapsto> UserSubType 0] 1 counter_op = Inr (base, 2)
     \<and> Engine_Transform ref_env (NewOperation [new]) (NewOperation [base])
       = Inr (NewOperation [new], NewOperation [base])"
proof -
  let ?h = "[''counter'' \<mapsto> UserSubType 0]"
  let ?c = "\<lambda>i. \<lparr>Operator = SubTypeOperator (Custom i ''counter'') (JNum 1) (UserSubType 0),
                 Path = [\<lparr>Key = ''k'', Index = 0\<rparr>]\<rparr>"
  have "OperationComponentFromValue ref_env ?h 0 counter_op = Inr (?c 0, 1)"
    "OperationComponentFromValue ref_env ?h 1 counter_op = Inr (?c 1, 2)"
    by code_simp+
  then show ?thesis using read_custom_operations_never_transform by fastforce
qed

section \<open>Reading operations\<close>

primrec arr_depth :: "'n jdoc \<Rightarrow> nat" where
  "arr_depth (Atom a) = 0"
| "arr_depth (Arr xs) = Suc (foldr max (map arr_depth xs) 0)"
| "arr_depth (Obj m) = 0"

lemma foldr_max_bound: "x \<in> set xs \<Longrightarrow> f x \<le> foldr max (map f xs) (0::nat)"
  by (induction xs) auto

context value_contract
begin

lemma parse_fuel_array:
  "(\<And>w. w \<in> set vs \<Longrightarrow> \<forall>fresh. OperationComponentsFromValue fuel V holder fresh w \<noteq> None) \<Longrightarrow>
   OperationComponentsFromArray fuel V holder fresh vs \<noteq> None"
proof (induction vs arbitrary: fresh)
  case Nil
  then show ?case by simp
next
  case (Cons w vs)
  obtain r where "OperationComponentsFromValue fuel V holder fresh w = Some r"
    using Cons.prems [of w] by fastforce
  moreover have "\<And>f. OperationComponentsFromArray fuel V holder f vs \<noteq> None"
    using Cons by (metis list.set_intros(2))
  ultimately show ?case by (cases r) (auto split: sum.splits option.splits)
qed

lemma parse_fuel:
  "arr_depth (view v) < fuel \<Longrightarrow> OperationComponentsFromValue fuel V holder fresh v \<noteq> None"
proof (induction fuel arbitrary: v fresh)
  case 0
  then show ?case by simp
next
  case (Suc fuel)
  show ?case
  proof (cases "IsArray V v")
    case True
    then obtain vs where vs: "GetArray V v = Inr vs" "view v = Arr (map view vs)"
      using GetArray_Arr by (metis IsArray_iff)
    have "arr_depth (view w) < fuel" if "w \<in> set vs" for w
      using Suc.prems vs(2) foldr_max_bound [of "view w" "map view vs" arr_depth] that by fastforce
    then have "OperationComponentsFromArray fuel V holder fresh vs \<noteq> None"
      using Suc.IH by (intro parse_fuel_array) blast
    then show ?thesis using True vs by simp
  qed simp
qed

end

text \<open>More fuel does not change a result.\<close>

lemma parse_more_fuel_array:
  assumes "\<And>k v r. OperationComponentsFromValue fuel V holder k v = Some r \<Longrightarrow>
      OperationComponentsFromValue fuel' V holder k v = Some r"
  shows "OperationComponentsFromArray fuel V holder fresh vs = Some r \<Longrightarrow>
    OperationComponentsFromArray fuel' V holder fresh vs = Some r"
proof (induction vs arbitrary: fresh r)
  case (Cons item rest)
  obtain x where x: "OperationComponentsFromValue fuel V holder fresh item = Some x"
    using Cons.prems by (auto split: option.splits)
  note x' = assms [OF x]
  show ?case
  proof (cases x)
    case (Inl e)
    then show ?thesis using Cons.prems x x' by auto
  next
    case (Inr y)
    obtain cs k where y: "y = (cs, k)" by fastforce
    then obtain z where z: "OperationComponentsFromArray fuel V holder k rest = Some z"
      using Cons.prems x Inr by (auto split: option.splits)
    show ?thesis using Cons.prems x x' Inr y z Cons.IH [OF z] by simp
  qed
qed simp

lemma parse_more_fuel:
  "OperationComponentsFromValue fuel V holder fresh v = Some r \<Longrightarrow> fuel \<le> fuel' \<Longrightarrow>
   OperationComponentsFromValue fuel' V holder fresh v = Some r"
proof (induction fuel arbitrary: fresh v r fuel')
  case (Suc fuel)
  obtain m where m: "fuel' = Suc m" "fuel \<le> m" using Suc.prems(2) by (cases fuel') auto
  have step: "OperationComponentsFromArray fuel V holder k vs = Some x \<Longrightarrow>
      OperationComponentsFromArray m V holder k vs = Some x" for k vs x
    using Suc.IH [OF _ m(2)] by (rule parse_more_fuel_array)
  show ?case
  proof (cases "IsArray V v")
    case True
    then show ?thesis using Suc.prems(1) m(1) step by (cases "GetArray V v") simp_all
  next
    case False
    then show ?thesis using Suc.prems(1) m(1) by simp
  qed
qed simp

text \<open>C40: Reading the components of a value always ends: whatever the fuel, once there is more of it than
  the arrays of the value are nested, \<open>OperationComponentsFromValue\<close> has one and the same result:
  components, an error, or a panic (a component whose path is not an array panics, see
  \<open>component_path_panics\<close>).\<close>

theorem parse_fuel_enough:
  assumes "value_contract V view"
  shows "\<exists>r. \<forall>fuel > arr_depth (view v). OperationComponentsFromValue fuel V holder fresh v = Some r"
proof -
  obtain r where "OperationComponentsFromValue (Suc (arr_depth (view v))) V holder fresh v = Some r"
    using value_contract.parse_fuel [OF assms, of v "Suc (arr_depth (view v))"] by auto
  then show ?thesis using parse_more_fuel by (metis Suc_leI)
qed

lemma parse_fuel_enough_witness:
  "\<exists>r. \<forall>fuel > 1. OperationComponentsFromValue fuel ref_env NewSubTypeFunctionsHolder 0 (JArr []) = Some r"
  using parse_fuel_enough [OF ref_env.value_contract_axioms, of "JArr []"] by simp

text \<open>\<open>Path.FromValue\<close> takes the array of the path without looking whether it is one: the component
  \<open>{"p":5,"na":1}\<close> panics.\<close>

lemma component_path_panics:
  "OperationComponentsFromValue 1 ref_env NewSubTypeFunctionsHolder 0 (JObj [(''p'', JNum 5), (''na'', JNum 1)])
     = Some (Inl Panic)"
  by code_simp

text \<open>
  \<open>Transform\<close> edits the base it is given.  Turning the deletion of \<open>{"x":1}\<close> at \<open>a\<close> over an insertion
  inside it puts the inserted member into the value the deletion carries; a clone of the deletion, such
  as the one a rebase takes from the server's cache, shares that value with the original.
\<close>

lemma rebase_edits_base_value:
  "let deletion = (\<lambda>v. \<lparr>Operator = ObjectDelete v, Path = [PathElementFromKey ''a'']\<rparr>);
       insertion = \<lparr>Operator = ObjectInsert (JNum 2), Path = [PathElementFromKey ''a'', PathElementFromKey ''y'']\<rparr>;
       edited = deletion (JObj [(''x'', JNum 1), (''y'', JNum 2)])
   in TransformComponent ref_env (deletion (JObj [(''x'', JNum 1)])) insertion TransformSideRight
        = Inr (Inr [edited], edited)"
  by code_simp

section \<open>Paths and the registry\<close>

text \<open>\<open>MaxCommonPath\<close> and \<open>CommonPathPrefix\<close> both compute the longest common prefix of two paths.\<close>

theorem common_path_is_longest_prefix:
  "MaxCommonPath p q = longest_common_prefix p q \<and> CommonPathPrefix p q = longest_common_prefix p q"
  by (simp add: MaxCommonPath_lcp CommonPathPrefix_eq)

text \<open>On well formed paths \<open>IsPrefixOf\<close> is the prefix order, and \<open>SplitAt\<close> of a prefix cuts the
  path into that prefix and the rest.\<close>

theorem prefix_and_split:
  assumes "canonical p" and "canonical q"
  shows "IsPrefixOf p q \<longleftrightarrow> (\<exists>r. SplitAt q (Path_Len p) = Inr (p, r))"
proof -
  have "prefix p q \<longleftrightarrow> (\<exists>r. SplitAt q (int (length p)) = Inr (p, r))"
    by (metis SplitAt_append SplitAt_Inr prefix_def)
  then show ?thesis by (simp add: IsPrefixOf_iff_prefix [OF assms] Path_Len_def)
qed

lemma prefix_and_split_witness:
  "\<exists>r. SplitAt [PathElementFromKey ''a'', PathElementFromIndex 1] (Path_Len [PathElementFromKey ''a''])
       = Inr ([PathElementFromKey ''a''], r)"
  using prefix_and_split [of "[PathElementFromKey ''a'']" "[PathElementFromKey ''a'', PathElementFromIndex 1]"]
  by (simp add: canonical_element_def is_int64_def)

text \<open>\<open>DecreaseIndex\<close> undoes \<open>IncreaseIndex\<close> at every position of a path that holds an index, except
  at the largest integer, where \<open>IncreaseIndex\<close> wraps around to a negative index that
  \<open>DecreaseIndex\<close> leaves alone.\<close>

theorem increase_then_decrease:
  assumes "0 \<le> i" and "i < int (length p)" and "0 \<le> Index (p ! nat i)" and "is_int64 (Index (p ! nat i))"
  shows "andThen (IncreaseIndex p i) (\<lambda>p'. DecreaseIndex p' i) = Inr p
         \<longleftrightarrow> Index (p ! nat i) \<noteq> 2 ^ 63 - 1"
proof -
  let ?x = "Index (p ! nat i)"
  have n: "nat i < length p" using assms(1,2) by simp
  have inc: "IncreaseIndex p i = Inr (p[nat i := (p ! nat i)\<lparr>Index := i64 (?x + 1)\<rparr>])"
    using assms by (simp add: IncreaseIndex_def slice_get_def)
  show ?thesis
  proof (cases "?x = 2 ^ 63 - 1")
    case True
    then have "i64 (?x + 1) = - (2 ^ 63)" by (simp add: i64_def)
    moreover have "(p ! nat i)\<lparr>Index := - (2 ^ 63)\<rparr> \<noteq> p ! nat i"
    proof
      assume "(p ! nat i)\<lparr>Index := - (2 ^ 63)\<rparr> = p ! nat i"
      then have "Index ((p ! nat i)\<lparr>Index := - (2 ^ 63)\<rparr>) = ?x" by (rule arg_cong)
      then show False using assms(3) by simp
    qed
    ultimately show ?thesis using inc n assms(1,2) True
      by (simp add: DecreaseIndex_def slice_get_def list_update_same_conv)
  next
    case False
    then have "is_int64 (?x + 1)" using assms(3,4) by (simp add: is_int64_def)
    then show ?thesis using inc n assms False
      by (simp add: DecreaseIndex_def slice_get_def list_update_same_conv)
  qed
qed

lemma increase_then_decrease_witness:
  "andThen (IncreaseIndex [PathElementFromIndex 4] 0) (\<lambda>p'. DecreaseIndex p' 0) = Inr [PathElementFromIndex 4]"
  using increase_then_decrease [of 0 "[PathElementFromIndex 4]"] by (simp add: is_int64_def)

text \<open>The built-in subtypes cannot be replaced or removed: after any sequence of registrations and
  removals, \<open>na\<close> and \<open>text\<close> still lead to the package's own functions.\<close>

theorem builtin_subtypes_survive:
  "Holder_Get (foldl holder_step NewSubTypeFunctionsHolder ops) ''na'' = Some NumberAddSubType
   \<and> Holder_Get (foldl holder_step NewSubTypeFunctionsHolder ops) ''text'' = Some TextSubType"
  using foldl_holder_builtins [OF new_holder_builtins, of ops] by (simp add: builtins_intact_def)

end
