(* ===== verification/Storage.thy ===== *)
theory Storage
  imports Engine
begin

text \<open>
  \<open>sharedb/backend.go\<close> and the backend of \<open>sharedb/memory.go\<close>: the records a backend stores, the
  \<open>Backend\<close> interface as a record of operations on a state \<open>'s\<close>, what the interface promises as
  the locales \<open>backend_contract\<close> and \<open>reliable_backend\<close>, and \<open>MemoryBackend\<close>, which keeps
  the promise.  \<open>json.RawMessage\<close> is \<open>string\<close>; \<open>nil\<close> and an empty message are not told apart by
  any code.  An operation returns its result and the state it leaves; a \<open>context\<close> is never
  cancelled.
\<close>

section \<open>Records\<close>

record OpID =
  id_Source :: string
  id_Sequence :: int

record DocRecord =
  doc_DocumentID :: string
  doc_Version :: int
  doc_Doc :: string

record OpRecord =
  op_DocumentID :: string
  op_Version :: int
  op_BaseVersion :: int
  op_ID :: OpID
  op_Source :: string
  op_Sequence :: int
  op_SubmittedOp :: string
  op_Op :: string

definition noOpID :: OpID where
  "noOpID = \<lparr>id_Source = '''', id_Sequence = 0\<rparr>"

definition isZero :: "OpID \<Rightarrow> bool" where
  "isZero i \<longleftrightarrow> id_Source i = '''' \<and> id_Sequence i = 0"

text \<open>The method \<open>opID\<close> of \<open>OpRecord\<close>: the deprecated fields fill the gaps of the identifier.\<close>

definition OpRecord_opID :: "OpRecord \<Rightarrow> OpID" where
  "OpRecord_opID r =
     (let i = op_ID r;
          i = (if id_Source i = '''' then i\<lparr>id_Source := op_Source r\<rparr> else i)
      in if id_Sequence i = 0 then i\<lparr>id_Sequence := op_Sequence r\<rparr> else i)"

definition cloneOpRecord :: "OpRecord \<Rightarrow> OpRecord" where
  "cloneOpRecord r =
     \<lparr>op_DocumentID = op_DocumentID r, op_Version = op_Version r,
      op_BaseVersion = op_BaseVersion r, op_ID = op_ID r, op_Source = op_Source r,
      op_Sequence = op_Sequence r, op_SubmittedOp = op_SubmittedOp r, op_Op = op_Op r\<rparr>"

lemma cloneOpRecord_id [simp]: "cloneOpRecord r = r"
  by (simp add: cloneOpRecord_def)

section \<open>The interface\<close>

record 's Backend =
  CreateDoc :: "'s \<Rightarrow> string \<Rightarrow> string \<Rightarrow> unit res \<times> 's"
  GetDoc :: "'s \<Rightarrow> string \<Rightarrow> DocRecord res"
  DeleteDoc :: "'s \<Rightarrow> string \<Rightarrow> unit res \<times> 's"
  SaveDoc :: "'s \<Rightarrow> DocRecord \<Rightarrow> unit res \<times> 's"
  AppendOp :: "'s \<Rightarrow> OpRecord \<Rightarrow> unit res \<times> 's"
  CommitOp :: "'s \<Rightarrow> DocRecord \<Rightarrow> OpRecord \<Rightarrow> unit res \<times> 's"
  GetOps :: "'s \<Rightarrow> string \<Rightarrow> int \<Rightarrow> int \<Rightarrow> OpRecord list res"

text \<open>What is stored for a document.\<close>

record memDoc =
  md_version :: int
  md_doc :: string
  md_ops :: "OpRecord list"

definition doc_record :: "string \<Rightarrow> memDoc \<Rightarrow> DocRecord" where
  "doc_record docID d = \<lparr>doc_DocumentID = docID, doc_Version = md_version d, doc_Doc = md_doc d\<rparr>"

definition committed :: "memDoc \<Rightarrow> DocRecord \<Rightarrow> OpRecord \<Rightarrow> memDoc" where
  "committed d r op =
     \<lparr>md_version = doc_Version r, md_doc = doc_Doc r, md_ops = md_ops d @ [op]\<rparr>"

text \<open>
  The promises of the interface: sentinels for missing and existing documents, a commit that
  stores both records or none, and the log by ascending version.  \<open>stored\<close> is what a state holds.
\<close>

locale backend_contract =
  fixes B :: "'s Backend" and stored :: "'s \<Rightarrow> string \<Rightarrow> memDoc option"
  assumes GetDoc_stored: "stored s docID = Some d \<Longrightarrow> GetDoc B s docID = Inr (doc_record docID d)"
    and GetDoc_missing: "stored s docID = None \<Longrightarrow> GetDoc B s docID = Inl (Sentinel ErrDocumentNotFound)"
    and CreateDoc_new: "stored s docID = None \<Longrightarrow> CreateDoc B s docID initial = (Inr (), s') \<Longrightarrow>
          stored s' = (stored s)(docID \<mapsto> \<lparr>md_version = 0, md_doc = initial, md_ops = []\<rparr>)"
    and CreateDoc_exists: "stored s docID = Some d \<Longrightarrow>
          CreateDoc B s docID initial = (Inl (Sentinel ErrDocumentExists), s)"
    and CreateDoc_error: "CreateDoc B s docID initial = (Inl e, s') \<Longrightarrow> stored s' = stored s"
    and DeleteDoc_stored: "DeleteDoc B s docID = (Inr (), s') \<Longrightarrow> stored s' = (stored s)(docID := None)"
    and DeleteDoc_error: "DeleteDoc B s docID = (Inl e, s') \<Longrightarrow> stored s' = stored s"
    and CommitOp_stored: "stored s (doc_DocumentID r) = Some d \<Longrightarrow> CommitOp B s r op = (Inr (), s') \<Longrightarrow>
          stored s' = (stored s)(doc_DocumentID r \<mapsto> committed d r op)"
    and CommitOp_error: "CommitOp B s r op = (Inl e, s') \<Longrightarrow> stored s' = stored s"
    and GetOps_stored: "stored s docID = Some d \<Longrightarrow> 0 \<le> from \<Longrightarrow> from \<le> to \<Longrightarrow>
          to \<le> int (length (md_ops d)) \<Longrightarrow>
          GetOps B s docID from to = Inr (take (nat (to - from)) (drop (nat from) (md_ops d)))"

locale reliable_backend = backend_contract +
  assumes CommitOp_succeeds: "stored s (doc_DocumentID r) = Some d \<Longrightarrow> \<exists>s'. CommitOp B s r op = (Inr (), s')"
    and CreateDoc_succeeds: "stored s docID = None \<Longrightarrow> \<exists>s'. CreateDoc B s docID initial = (Inr (), s')"
    and DeleteDoc_succeeds: "stored s docID = Some d \<Longrightarrow> \<exists>s'. DeleteDoc B s docID = (Inr (), s')"

section \<open>The memory backend\<close>

type_synonym MemoryBackend = "string \<Rightarrow> memDoc option"

definition NewMemoryBackend :: MemoryBackend where
  "NewMemoryBackend = (\<lambda>_. None)"

definition Memory_CreateDoc :: "MemoryBackend \<Rightarrow> string \<Rightarrow> string \<Rightarrow> unit res \<times> MemoryBackend" where
  "Memory_CreateDoc b docID initial =
     (case b docID of
        Some _ \<Rightarrow> (Inl (Sentinel ErrDocumentExists), b)
      | None \<Rightarrow> (Inr (), b(docID \<mapsto> \<lparr>md_version = 0, md_doc = initial, md_ops = []\<rparr>)))"

definition Memory_GetDoc :: "MemoryBackend \<Rightarrow> string \<Rightarrow> DocRecord res" where
  "Memory_GetDoc b docID =
     (case b docID of
        None \<Rightarrow> Inl (Sentinel ErrDocumentNotFound)
      | Some d \<Rightarrow> Inr \<lparr>doc_DocumentID = docID, doc_Version = md_version d, doc_Doc = md_doc d\<rparr>)"

definition Memory_DeleteDoc :: "MemoryBackend \<Rightarrow> string \<Rightarrow> unit res \<times> MemoryBackend" where
  "Memory_DeleteDoc b docID =
     (case b docID of
        None \<Rightarrow> (Inl (Sentinel ErrDocumentNotFound), b)
      | Some _ \<Rightarrow> (Inr (), b(docID := None)))"

definition Memory_SaveDoc :: "MemoryBackend \<Rightarrow> DocRecord \<Rightarrow> unit res \<times> MemoryBackend" where
  "Memory_SaveDoc b r =
     (case b (doc_DocumentID r) of
        None \<Rightarrow> (Inl (Sentinel ErrDocumentNotFound), b)
      | Some d \<Rightarrow>
          (Inr (), b(doc_DocumentID r \<mapsto> d\<lparr>md_version := doc_Version r, md_doc := doc_Doc r\<rparr>)))"

definition Memory_AppendOp :: "MemoryBackend \<Rightarrow> OpRecord \<Rightarrow> unit res \<times> MemoryBackend" where
  "Memory_AppendOp b r =
     (case b (op_DocumentID r) of
        None \<Rightarrow> (Inl (Sentinel ErrDocumentNotFound), b)
      | Some d \<Rightarrow> (Inr (), b(op_DocumentID r \<mapsto> d\<lparr>md_ops := md_ops d @ [cloneOpRecord r]\<rparr>)))"

definition Memory_CommitOp :: "MemoryBackend \<Rightarrow> DocRecord \<Rightarrow> OpRecord \<Rightarrow> unit res \<times> MemoryBackend" where
  "Memory_CommitOp b r op =
     (case b (doc_DocumentID r) of
        None \<Rightarrow> (Inl (Sentinel ErrDocumentNotFound), b)
      | Some d \<Rightarrow>
          (Inr (), b(doc_DocumentID r \<mapsto>
             d\<lparr>md_version := doc_Version r, md_doc := doc_Doc r,
               md_ops := md_ops d @ [cloneOpRecord op]\<rparr>)))"

text \<open>\<open>d.ops[fromVersion:toVersion]\<close> panics when the bounds are in the wrong order.\<close>

definition Memory_GetOps :: "MemoryBackend \<Rightarrow> string \<Rightarrow> int \<Rightarrow> int \<Rightarrow> OpRecord list res" where
  "Memory_GetOps b docID fromVersion toVersion =
     (case b docID of
        None \<Rightarrow> Inl (Sentinel ErrDocumentNotFound)
      | Some d \<Rightarrow>
          if fromVersion = toVersion then Inr []
          else if fromVersion < 0 \<or> toVersion > int (length (md_ops d)) then Inl FmtError
          else andThen (slice_range (md_ops d) fromVersion toVersion) (\<lambda>ops. Inr (map cloneOpRecord ops)))"

definition Memory_Backend :: "MemoryBackend Backend" where
  "Memory_Backend =
     \<lparr>CreateDoc = Memory_CreateDoc, GetDoc = Memory_GetDoc, DeleteDoc = Memory_DeleteDoc,
      SaveDoc = Memory_SaveDoc, AppendOp = Memory_AppendOp, CommitOp = Memory_CommitOp,
      GetOps = Memory_GetOps\<rparr>"

lemma Memory_Backend_simps [simp]:
  "CreateDoc Memory_Backend = Memory_CreateDoc" "GetDoc Memory_Backend = Memory_GetDoc"
  "DeleteDoc Memory_Backend = Memory_DeleteDoc" "SaveDoc Memory_Backend = Memory_SaveDoc"
  "AppendOp Memory_Backend = Memory_AppendOp" "CommitOp Memory_Backend = Memory_CommitOp"
  "GetOps Memory_Backend = Memory_GetOps"
  by (simp_all add: Memory_Backend_def)

lemma Memory_GetOps_range:
  assumes "b docID = Some d" and "0 \<le> from" and "from \<le> to" and "to \<le> int (length (md_ops d))"
  shows "Memory_GetOps b docID from to = Inr (take (nat (to - from)) (drop (nat from) (md_ops d)))"
  using assms by (auto simp: Memory_GetOps_def slice_range_def intro: map_idI)

interpretation memory: reliable_backend Memory_Backend "\<lambda>b. b"
  by unfold_locales
    (auto simp: Memory_GetDoc_def Memory_CreateDoc_def Memory_DeleteDoc_def Memory_CommitOp_def
       doc_record_def committed_def Memory_GetOps_range split: option.splits)

end
