(* ===== verification/Publishing.thy ===== *)
theory Publishing
  imports Storage "HOL-Library.Sublist"
begin

text \<open>
  Events and their delivery: the \<open>Event\<close> of \<open>sharedb/server.go\<close>, the \<open>Publisher\<close> interface of
  \<open>sharedb/backend.go\<close> with its promise as the locale \<open>publisher_contract\<close>, and
  \<open>MemoryPublisher\<close> of \<open>sharedb/memory.go\<close>.  A subscription is named by its number; a channel is
  its queue, its capacity and whether a receiver waits on it.
\<close>

section \<open>Events\<close>

definition EventTypeCreate :: string where "EventTypeCreate = ''create''"
definition EventTypeOp :: string where "EventTypeOp = ''op''"
definition EventTypeDelete :: string where "EventTypeDelete = ''delete''"

record Event =
  ev_Type :: string
  ev_DocumentID :: string
  ev_Version :: int
  ev_ID :: OpID
  ev_Source :: string
  ev_Sequence :: int
  ev_Operation :: string
  ev_Document :: string

definition cloneEvent :: "Event \<Rightarrow> Event" where
  "cloneEvent e = e\<lparr>ev_Operation := ev_Operation e, ev_Document := ev_Document e\<rparr>"

lemma cloneEvent_id [simp]: "cloneEvent e = e"
  by (simp add: cloneEvent_def)

section \<open>The interface\<close>

text \<open>
  \<open>Subscribe\<close> answers with the number of the new subscription, \<open>Unsubscribe\<close> is the cancel
  function it returns with it.
\<close>

record 'p Publisher =
  Publish :: "'p \<Rightarrow> Event \<Rightarrow> 'p"
  Subscribe :: "'p \<Rightarrow> string \<Rightarrow> int \<Rightarrow> int res \<times> 'p"
  Unsubscribe :: "'p \<Rightarrow> int \<Rightarrow> 'p"

fun publish_all :: "'p Publisher \<Rightarrow> 'p \<Rightarrow> Event list \<Rightarrow> 'p" where
  "publish_all P p [] = p"
| "publish_all P p (e # es) = publish_all P (Publish P p e) es"

definition events_of :: "string \<Rightarrow> Event list \<Rightarrow> Event list" where
  "events_of docID = filter (\<lambda>e. ev_DocumentID e = docID)"

text \<open>
  \<open>inbox p i\<close> is the document and the undelivered events of subscription \<open>i\<close>.  Events of other
  documents never arrive; an event of the document arrives once, at the end, or is dropped.
\<close>

locale publisher_contract =
  fixes P :: "'p Publisher" and inbox :: "'p \<Rightarrow> int \<Rightarrow> (string \<times> Event list) option"
  assumes Publish_absent: "inbox p i = None \<Longrightarrow> inbox (Publish P p e) i = None"
    and Publish_other: "inbox p i = Some (d, q) \<Longrightarrow> d \<noteq> ev_DocumentID e \<Longrightarrow>
          inbox (Publish P p e) i = Some (d, q)"
    and Publish_same: "inbox p i = Some (d, q) \<Longrightarrow> d = ev_DocumentID e \<Longrightarrow>
          inbox (Publish P p e) i = Some (d, q) \<or> inbox (Publish P p e) i = Some (d, q @ [e])"
begin

lemma Publish_queue:
  assumes "inbox p i = Some (d, q)"
  obtains q' where "inbox (Publish P p e) i = Some (d, q @ q')" and "subseq q' (events_of d [e])"
proof (cases "d = ev_DocumentID e")
  case True
  then show thesis using Publish_same [OF assms True] that [of "[]"] that [of "[e]"]
    by (auto simp: events_of_def)
next
  case False
  then show thesis using Publish_other [OF assms False] that [of "[]"] by (auto simp: events_of_def)
qed

lemma publish_all_queue:
  "inbox p i = Some (d, q) \<Longrightarrow>
   \<exists>q'. inbox (publish_all P p es) i = Some (d, q @ q') \<and> subseq q' (events_of d es)"
proof (induction es arbitrary: p q)
  case (Cons e es)
  obtain q1 where q1: "inbox (Publish P p e) i = Some (d, q @ q1)" "subseq q1 (events_of d [e])"
    using Publish_queue [OF Cons.prems] by metis
  obtain q2 where q2: "inbox (publish_all P (Publish P p e) es) i = Some (d, (q @ q1) @ q2)"
      "subseq q2 (events_of d es)"
    using Cons.IH [OF q1(1)] by metis
  have "subseq (q1 @ q2) (events_of d [e] @ events_of d es)"
    using list_emb_append_mono [OF q1(2) q2(2)] .
  then show ?case using q2(1) by (auto simp: events_of_def split: if_splits)
qed auto

end

section \<open>The memory publisher\<close>

record memSubscriber =
  sub_docID :: string
  sub_cap :: int
  sub_queue :: "Event list"
  sub_waiting :: bool

record MemoryPublisher =
  pub_subs :: "int \<Rightarrow> memSubscriber option"
  pub_next :: int

definition NewMemoryPublisher :: MemoryPublisher where
  "NewMemoryPublisher = \<lparr>pub_subs = (\<lambda>_. None), pub_next = 0\<rparr>"

text \<open>
  The \<open>select\<close> of \<open>Publish\<close>: the send succeeds when the buffer has room or a receiver waits, and
  the event is dropped otherwise.
\<close>

definition trySend :: "memSubscriber \<Rightarrow> Event \<Rightarrow> memSubscriber" where
  "trySend s e =
     (if sub_docID s \<noteq> ev_DocumentID e then s
      else if int (length (sub_queue s)) < sub_cap s \<or> sub_waiting s
      then s\<lparr>sub_queue := sub_queue s @ [cloneEvent e], sub_waiting := False\<rparr>
      else s)"

definition Memory_Publish :: "MemoryPublisher \<Rightarrow> Event \<Rightarrow> MemoryPublisher" where
  "Memory_Publish p e = p\<lparr>pub_subs := (\<lambda>i. map_option (\<lambda>s. trySend s e) (pub_subs p i))\<rparr>"

definition Memory_Subscribe :: "MemoryPublisher \<Rightarrow> string \<Rightarrow> int \<Rightarrow> int res \<times> MemoryPublisher" where
  "Memory_Subscribe p docID buffer =
     (let buffer = (if buffer < 0 then 0 else buffer);
          i = pub_next p;
          sub = \<lparr>sub_docID = docID, sub_cap = buffer, sub_queue = [], sub_waiting = False\<rparr>
      in (Inr i, p\<lparr>pub_next := i64 (i + 1), pub_subs := (pub_subs p)(i \<mapsto> sub)\<rparr>))"

definition Memory_Unsubscribe :: "MemoryPublisher \<Rightarrow> int \<Rightarrow> MemoryPublisher" where
  "Memory_Unsubscribe p i =
     (case pub_subs p i of
        Some s \<Rightarrow> p\<lparr>pub_subs := (pub_subs p)(i := None)\<rparr>
      | None \<Rightarrow> p)"

definition Memory_Publisher :: "MemoryPublisher Publisher" where
  "Memory_Publisher =
     \<lparr>Publish = Memory_Publish, Subscribe = Memory_Subscribe, Unsubscribe = Memory_Unsubscribe\<rparr>"

lemma Memory_Publisher_simps [simp]:
  "Publish Memory_Publisher = Memory_Publish" "Subscribe Memory_Publisher = Memory_Subscribe"
  "Unsubscribe Memory_Publisher = Memory_Unsubscribe"
  by (simp_all add: Memory_Publisher_def)

definition memory_inbox :: "MemoryPublisher \<Rightarrow> int \<Rightarrow> (string \<times> Event list) option" where
  "memory_inbox p i = map_option (\<lambda>s. (sub_docID s, sub_queue s)) (pub_subs p i)"

lemma memory_inbox_Publish:
  "memory_inbox (Memory_Publish p e) i =
     map_option (\<lambda>s. (sub_docID s, sub_queue (trySend s e))) (pub_subs p i)"
  by (cases "pub_subs p i") (simp_all add: memory_inbox_def Memory_Publish_def trySend_def)

lemma sub_queue_trySend:
  "sub_queue (trySend s e) = sub_queue s \<or>
     sub_docID s = ev_DocumentID e \<and> sub_queue (trySend s e) = sub_queue s @ [e]"
  by (simp add: trySend_def)

lemma memory_inbox_Some:
  "memory_inbox p i = Some (d, q) \<longleftrightarrow> (\<exists>s. pub_subs p i = Some s \<and> d = sub_docID s \<and> q = sub_queue s)"
  by (auto simp: memory_inbox_def)

interpretation memory_pub: publisher_contract Memory_Publisher memory_inbox
proof
  fix p i e d q
  show "memory_inbox p i = None \<Longrightarrow> memory_inbox (Publish Memory_Publisher p e) i = None"
    by (simp add: memory_inbox_Publish) (simp add: memory_inbox_def)
  assume "memory_inbox p i = Some (d, q)"
  then obtain s where s: "pub_subs p i = Some s" "d = sub_docID s" "q = sub_queue s"
    by (auto simp: memory_inbox_Some)
  show "d \<noteq> ev_DocumentID e \<Longrightarrow> memory_inbox (Publish Memory_Publisher p e) i = Some (d, q)"
    using s sub_queue_trySend [of s e] by (auto simp: memory_inbox_Publish)
  show "memory_inbox (Publish Memory_Publisher p e) i = Some (d, q) \<or>
        memory_inbox (Publish Memory_Publisher p e) i = Some (d, q @ [e])"
    using s sub_queue_trySend [of s e] by (auto simp: memory_inbox_Publish)
qed

text \<open>Subscriptions keep their numbers apart until the counter wraps around.\<close>

definition numbered :: "MemoryPublisher \<Rightarrow> bool" where
  "numbered p \<longleftrightarrow> 0 \<le> pub_next p \<and> (\<forall>i. pub_subs p i \<noteq> None \<longrightarrow> 0 \<le> i \<and> i < pub_next p)"

lemma numbered_Publish: "numbered p \<Longrightarrow> numbered (Memory_Publish p e)"
  by (auto simp: numbered_def Memory_Publish_def)

lemma numbered_Unsubscribe: "numbered p \<Longrightarrow> numbered (Memory_Unsubscribe p i)"
  by (auto simp: numbered_def Memory_Unsubscribe_def split: option.splits)

lemma numbered_Subscribe:
  assumes "numbered p" and "pub_next p < 2 ^ 63 - 1"
    and "Memory_Subscribe p docID buffer = (Inr i, p')"
  shows "numbered p'" and "pub_subs p i = None" and "memory_inbox p' i = Some (docID, [])"
    and "j \<noteq> i \<Longrightarrow> memory_inbox p' j = memory_inbox p j"
proof -
  have i: "i = pub_next p" and p': "pub_next p' = i64 (pub_next p + 1)"
    and subs: "pub_subs p' = (pub_subs p)(i \<mapsto>
        \<lparr>sub_docID = docID, sub_cap = (if buffer < 0 then 0 else buffer), sub_queue = [], sub_waiting = False\<rparr>)"
    using assms(3) by (auto simp: Memory_Subscribe_def Let_def)
  have next': "i64 (pub_next p + 1) = pub_next p + 1"
    using assms(1,2) by (intro i64_id) (simp add: is_int64_def numbered_def)
  show "numbered p'" using assms(1) by (auto simp: numbered_def p' next' subs i)
  show "pub_subs p i = None" using assms(1) by (auto simp: numbered_def i)
  show "memory_inbox p' i = Some (docID, [])" by (simp add: memory_inbox_def subs)
  show "memory_inbox p' j = memory_inbox p j" if "j \<noteq> i" using that by (simp add: memory_inbox_def subs)
qed

section \<open>A subscriber that receives\<close>

text \<open>
  One receive on the channel of subscription \<open>i\<close>: the oldest event, or the receiver waits.  A run
  interleaves publications with receives and collects what was received.
\<close>

definition Memory_Receive :: "MemoryPublisher \<Rightarrow> int \<Rightarrow> Event option \<times> MemoryPublisher" where
  "Memory_Receive p i =
     (case pub_subs p i of
        None \<Rightarrow> (None, p)
      | Some s \<Rightarrow>
          (case sub_queue s of
             [] \<Rightarrow> (None, p\<lparr>pub_subs := (pub_subs p)(i \<mapsto> s\<lparr>sub_waiting := True\<rparr>)\<rparr>)
           | e # q \<Rightarrow> (Some e, p\<lparr>pub_subs := (pub_subs p)(i \<mapsto> s\<lparr>sub_queue := q\<rparr>)\<rparr>)))"

datatype delivery = Published Event | Receives

fun delivery_run :: "int \<Rightarrow> delivery list \<Rightarrow> MemoryPublisher \<Rightarrow> Event list \<times> MemoryPublisher" where
  "delivery_run i [] p = ([], p)"
| "delivery_run i (Published e # ds) p = delivery_run i ds (Memory_Publish p e)"
| "delivery_run i (Receives # ds) p =
     (case Memory_Receive p i of
        (None, p) \<Rightarrow> delivery_run i ds p
      | (Some e, p) \<Rightarrow> (let (taken, p) = delivery_run i ds p in (e # taken, p)))"

fun published :: "delivery list \<Rightarrow> Event list" where
  "published [] = []"
| "published (Published e # ds) = e # published ds"
| "published (Receives # ds) = published ds"

lemma Memory_Receive_inbox:
  assumes "memory_inbox p i = Some (d, q)"
  shows "q = [] \<and> fst (Memory_Receive p i) = None \<and> memory_inbox (snd (Memory_Receive p i)) i = Some (d, [])
    \<or> (\<exists>e q'. q = e # q' \<and> fst (Memory_Receive p i) = Some e \<and>
         memory_inbox (snd (Memory_Receive p i)) i = Some (d, q'))"
  using assms by (cases q) (auto simp: memory_inbox_def Memory_Receive_def)

lemma delivery_run_subseq:
  "memory_inbox p i = Some (d, q) \<Longrightarrow> delivery_run i ds p = (taken, p') \<Longrightarrow>
   \<exists>q'. memory_inbox p' i = Some (d, q') \<and> (\<exists>new. taken @ q' = q @ new \<and> subseq new (events_of d (published ds)))"
proof (induction i ds p arbitrary: q taken rule: delivery_run.induct)
  case (2 i e ds p)
  obtain q1 where q1: "memory_inbox (Memory_Publish p e) i = Some (d, q @ q1)" "subseq q1 (events_of d [e])"
    using memory_pub.Publish_queue [OF 2(2), of e] by auto
  from 2(1) [OF q1(1)] 2(3) obtain q' new where
    "memory_inbox p' i = Some (d, q')" "taken @ q' = (q @ q1) @ new" "subseq new (events_of d (published ds))"
    by auto
  moreover have "events_of d (published (Published e # ds)) = events_of d [e] @ events_of d (published ds)"
    by (simp add: events_of_def)
  ultimately show ?case using list_emb_append_mono [OF q1(2)] by fastforce
next
  case (3 i ds p)
  obtain r p1 where r: "Memory_Receive p i = (r, p1)" by fastforce
  from Memory_Receive_inbox [OF 3(3)] consider "q = []" "r = None" "memory_inbox p1 i = Some (d, [])"
    | e q1 where "q = e # q1" "r = Some e" "memory_inbox p1 i = Some (d, q1)"
    unfolding r by auto
  then show ?case
  proof cases
    case 1
    with 3(4) r have "delivery_run i ds p1 = (taken, p')" by simp
    with 3(1) [OF r [symmetric] 1(2) 1(3)] 1(1) show ?thesis by simp
  next
    case 2
    with 3(4) r obtain rest where "delivery_run i ds p1 = (rest, p')" "taken = e # rest"
      by (auto split: prod.splits)
    with 3(2) [OF r [symmetric] 2(2) 2(3)] 2(1) show ?thesis by fastforce
  qed
qed auto

end
