(* ===== verification/Locking.thy ===== *)
theory Locking
  imports GoPrelude
begin

text \<open>
  The per-document lock: the \<open>Locker\<close> interface of \<open>sharedb/backend.go\<close> and \<open>MemoryLocker\<close> of
  \<open>sharedb/memory.go\<close>.  \<open>Lock\<close> has two steps that other threads can come between: finding or
  creating the mutex of the document (under the locker's own mutex), and locking it.  The step
  relation \<open>locker_step\<close> interleaves any number of threads; \<open>lk_next\<close> numbers the mutexes in
  the order they are allocated.
\<close>

section \<open>The interface\<close>

text \<open>\<open>Lock\<close> as the caller sees it: an error, or the state in which it returns with the lock.\<close>

record 'l Locker =
  Lock :: "'l \<Rightarrow> string \<Rightarrow> unit res \<times> 'l"
  Unlock :: "'l \<Rightarrow> string \<Rightarrow> 'l"

section \<open>The memory locker\<close>

record MemoryLocker =
  lk_locks :: "string \<Rightarrow> nat option"
  lk_held :: "nat \<Rightarrow> bool"
  lk_next :: nat

definition NewMemoryLocker :: MemoryLocker where
  "NewMemoryLocker = \<lparr>lk_locks = (\<lambda>_. None), lk_held = (\<lambda>_. False), lk_next = 0\<rparr>"

definition lock_entry :: "MemoryLocker \<Rightarrow> string \<Rightarrow> nat \<times> MemoryLocker" where
  "lock_entry l docID =
     (case lk_locks l docID of
        Some m \<Rightarrow> (m, l)
      | None \<Rightarrow>
          (let m = lk_next l
           in (m, l\<lparr>lk_locks := (lk_locks l)(docID \<mapsto> m), lk_next := Suc m\<rparr>)))"

text \<open>A call without other threads: the mutex found is free, or the call never returns.\<close>

definition Memory_Lock :: "MemoryLocker \<Rightarrow> string \<Rightarrow> unit res \<times> MemoryLocker" where
  "Memory_Lock l docID =
     (let (m, l) = lock_entry l docID in (Inr (), l\<lparr>lk_held := (lk_held l)(m := True)\<rparr>))"

definition Memory_Unlock :: "MemoryLocker \<Rightarrow> string \<Rightarrow> MemoryLocker" where
  "Memory_Unlock l docID =
     (case lk_locks l docID of
        Some m \<Rightarrow> l\<lparr>lk_held := (lk_held l)(m := False)\<rparr>
      | None \<Rightarrow> l)"

definition Memory_Locker :: "MemoryLocker Locker" where
  "Memory_Locker = \<lparr>Lock = Memory_Lock, Unlock = Memory_Unlock\<rparr>"

lemma Memory_Locker_simps [simp]:
  "Lock Memory_Locker = Memory_Lock" "Unlock Memory_Locker = Memory_Unlock"
  by (simp_all add: Memory_Locker_def)

section \<open>Interleaved threads\<close>

datatype lock_pc = Outside | Waiting nat string | Inside nat string

type_synonym lock_system = "MemoryLocker \<times> (nat \<Rightarrow> lock_pc)"

inductive locker_step :: "lock_system \<Rightarrow> lock_system \<Rightarrow> bool" where
  enter: "pcs t = Outside \<Longrightarrow> lock_entry l docID = (m, l') \<Longrightarrow>
    locker_step (l, pcs) (l', pcs(t := Waiting m docID))"
| acquire: "pcs t = Waiting m docID \<Longrightarrow> \<not> lk_held l m \<Longrightarrow>
    locker_step (l, pcs) (l\<lparr>lk_held := (lk_held l)(m := True)\<rparr>, pcs(t := Inside m docID))"
| release: "pcs t = Inside m docID \<Longrightarrow>
    locker_step (l, pcs) (l\<lparr>lk_held := (lk_held l)(m := False)\<rparr>, pcs(t := Outside))"

inductive_cases locker_stepE: "locker_step s s'"

inductive locker_reachable :: "lock_system \<Rightarrow> bool" where
  start: "locker_reachable (NewMemoryLocker, \<lambda>_. Outside)"
| step: "locker_reachable s \<Longrightarrow> locker_step s s' \<Longrightarrow> locker_reachable s'"

text \<open>
  The invariant: mutexes of different documents differ and are older than the counter, a thread
  in or before a mutex got it from the registry, and a mutex is held exactly while one thread
  is inside it.
\<close>

definition registry_ok :: "MemoryLocker \<Rightarrow> bool" where
  "registry_ok l \<longleftrightarrow> (\<forall>d m. lk_locks l d = Some m \<longrightarrow> m < lk_next l) \<and>
     (\<forall>d d' m. lk_locks l d = Some m \<longrightarrow> lk_locks l d' = Some m \<longrightarrow> d = d')"

definition registered :: "lock_system \<Rightarrow> bool" where
  "registered s \<longleftrightarrow>
     (\<forall>t m d. snd s t = Waiting m d \<or> snd s t = Inside m d \<longrightarrow> lk_locks (fst s) d = Some m)"

definition held_by_inside :: "lock_system \<Rightarrow> bool" where
  "held_by_inside s \<longleftrightarrow> (\<forall>m. lk_held (fst s) m \<longleftrightarrow> (\<exists>t d. snd s t = Inside m d))"

definition one_inside :: "lock_system \<Rightarrow> bool" where
  "one_inside s \<longleftrightarrow>
     (\<forall>t t' m d d'. snd s t = Inside m d \<longrightarrow> snd s t' = Inside m d' \<longrightarrow> t = t')"

definition locker_inv :: "lock_system \<Rightarrow> bool" where
  "locker_inv s \<longleftrightarrow> registry_ok (fst s) \<and> registered s \<and> held_by_inside s \<and> one_inside s"

lemmas locker_inv_defs = locker_inv_def registry_ok_def registered_def held_by_inside_def one_inside_def

lemma locker_inv_start: "locker_inv (NewMemoryLocker, \<lambda>_. Outside)"
  by (simp add: locker_inv_defs NewMemoryLocker_def)

lemma lock_entry_cases:
  assumes "lock_entry l docID = (m, l')"
  obtains (found) "lk_locks l docID = Some m" "l' = l"
  | (created) "lk_locks l docID = None" "m = lk_next l"
      "l' = l\<lparr>lk_locks := (lk_locks l)(docID \<mapsto> m), lk_next := Suc m\<rparr>"
  using assms by (auto simp: lock_entry_def Let_def split: option.splits)

lemma locker_inv_enter:
  assumes inv: "locker_inv (l, pcs)" and out: "pcs t = Outside" and e: "lock_entry l docID = (m, l')"
  shows "locker_inv (l', pcs(t := Waiting m docID))"
proof -
  have held: "lk_held l' = lk_held l" using e by (auto elim: lock_entry_cases)
  have grows: "lk_locks l' d = Some k" if "lk_locks l d = Some k" for d k
    using that by (rule_tac lock_entry_cases [OF e]) auto
  have "lk_locks l' docID = Some m" using e by (auto elim: lock_entry_cases)
  moreover have "registry_ok l" using inv by (simp add: locker_inv_def)
  then have "registry_ok l'"
    using e by (rule_tac lock_entry_cases [OF e]) (auto simp: registry_ok_def less_Suc_eq)
  moreover have "registered (l, pcs)" using inv by (simp add: locker_inv_def)
  moreover have "held_by_inside (l', pcs(t := Waiting m docID))"
    using inv out held by (auto simp: locker_inv_def held_by_inside_def) (metis lock_pc.distinct(3))
  moreover have "one_inside (l', pcs(t := Waiting m docID))"
    using inv by (auto simp: locker_inv_def one_inside_def)
  ultimately show ?thesis using grows by (auto simp: locker_inv_def registered_def)
qed

lemma locker_inv_acquire:
  assumes inv: "locker_inv (l, pcs)" and w: "pcs t = Waiting m d" and free: "\<not> lk_held l m"
  shows "locker_inv (l\<lparr>lk_held := (lk_held l)(m := True)\<rparr>, pcs(t := Inside m d))"
proof -
  let ?l = "l\<lparr>lk_held := (lk_held l)(m := True)\<rparr>" and ?pcs = "pcs(t := Inside m d)"
  have none: "pcs t' \<noteq> Inside m d'" for t' d' using inv free by (auto simp: locker_inv_def held_by_inside_def)
  have "registry_ok ?l" using inv by (simp add: locker_inv_def registry_ok_def)
  moreover have "registered (?l, ?pcs)" using inv w by (auto simp: locker_inv_def registered_def)
  moreover have "held_by_inside (?l, ?pcs)"
    using inv w by (auto simp: locker_inv_def held_by_inside_def) (metis lock_pc.distinct(5))
  moreover have "one_inside (?l, ?pcs)" using inv none by (auto simp: locker_inv_def one_inside_def)
  ultimately show ?thesis by (simp add: locker_inv_def)
qed

lemma locker_inv_release:
  assumes inv: "locker_inv (l, pcs)" and i: "pcs t = Inside m d"
  shows "locker_inv (l\<lparr>lk_held := (lk_held l)(m := False)\<rparr>, pcs(t := Outside))"
proof -
  let ?l = "l\<lparr>lk_held := (lk_held l)(m := False)\<rparr>" and ?pcs = "pcs(t := Outside)"
  have one: "?pcs t' \<noteq> Inside m d'" for t' d'
    using inv i by (auto simp: locker_inv_def one_inside_def)
  have others: "(\<exists>t' d'. ?pcs t' = Inside k d') \<longleftrightarrow> (\<exists>t' d'. pcs t' = Inside k d')" if "k \<noteq> m" for k
    using i that by (metis fun_upd_def lock_pc.distinct(3) lock_pc.inject(2))
  have "registry_ok ?l" using inv by (simp add: locker_inv_def registry_ok_def)
  moreover have "registered (?l, ?pcs)" using inv by (auto simp: locker_inv_def registered_def)
  moreover have "held_by_inside (?l, ?pcs)"
    using inv one others by (simp add: locker_inv_def held_by_inside_def)
  moreover have "one_inside (?l, ?pcs)" using inv by (auto simp: locker_inv_def one_inside_def)
  ultimately show ?thesis by (simp add: locker_inv_def)
qed

lemma locker_inv_step: "locker_step s s' \<Longrightarrow> locker_inv s \<Longrightarrow> locker_inv s'"
  by (elim locker_stepE) (auto intro: locker_inv_enter locker_inv_acquire locker_inv_release)

lemma locker_inv_reachable: "locker_reachable s \<Longrightarrow> locker_inv s"
  by (induction rule: locker_reachable.induct) (auto intro: locker_inv_start locker_inv_step)

lemma Inside_unique:
  assumes inv: "locker_inv s" and t: "snd s t = Inside m d" and t': "snd s t' = Inside m' d"
  shows "t = t'"
proof -
  have reg: "registered s" using inv by (simp add: locker_inv_def)
  have "lk_locks (fst s) d = Some m" using reg t by (simp add: registered_def)
  moreover have "lk_locks (fst s) d = Some m'" using reg t' by (simp only: registered_def) blast
  ultimately have "m' = m" by simp
  then show ?thesis using inv t t' by (auto simp: locker_inv_def one_inside_def)
qed

lemma Waiting_progress:
  assumes inv: "locker_inv (l, pcs)" and w: "pcs t = Waiting m d"
  shows "(\<exists>s'. locker_step (l, pcs) s' \<and> snd s' t = Inside m d) \<or>
         (\<exists>t'. t' \<noteq> t \<and> pcs t' = Inside m d)"
proof (cases "lk_held l m")
  case False
  then have "locker_step (l, pcs) (l\<lparr>lk_held := (lk_held l)(m := True)\<rparr>, pcs(t := Inside m d))"
    using w by (rule_tac acquire)
  then show ?thesis by (intro disjI1 exI conjI) auto
next
  case True
  then obtain t' d' where t': "pcs t' = Inside m d'"
    using inv by (auto simp: locker_inv_def held_by_inside_def)
  have "lk_locks l d = Some m" "lk_locks l d' = Some m"
    using inv w t' by (auto simp: locker_inv_def registered_def)
  then have "d' = d" using inv by (auto simp: locker_inv_def registry_ok_def)
  then show ?thesis using t' w by (intro disjI2 exI [of _ t']) auto
qed

end
