(* ===== verification/ServerOps.thy ===== *)
theory ServerOps
  imports Publishing Locking
begin

text \<open>
  \<open>sharedb/server.go\<close>: the coordinator.  \<open>server_config\<close> holds what a \<open>Server\<close> is built from
  (backend, locker, publisher, the engine with its environment and registry, the rebase window),
  \<open>server_state\<close> what changes: the states of the three services, the cache of parsed operations,
  and \<open>srv_fresh\<close>, which numbers the subtype objects the reader allocates.

  Every operation returns its result and the state it leaves, also when it fails.  \<open>cfg_json\<close> is
  \<open>json.Unmarshal\<close> into \<open>any\<close>, whose trees \<open>reflect.DeepEqual\<close> compares.  \<open>cfg_depth\<close> is the
  depth of nested arrays the reader's stack can hold; deeper input kills the process.

  A clone of an operation has components and paths of its own, but shares the pointers to the
  values with the operation it was cloned from, and so with the cache.  \<open>Transform\<close> and \<open>Apply\<close> edit
  values in place: \<open>Consume\<close> the old value of a base component, the application of a component a
  value that an earlier one put into the document.  After each of these calls (\<open>touch\<close>) every value
  in the cache, and every value of the operation in hand, is therefore what \<open>sharedEdit\<close> makes of it;
  \<open>srv_edits\<close> counts the calls.  The theorems hold for every \<open>sharedEdit\<close>.  Operations read from text
  share nothing with the cache, so reading an old version (\<open>GetSnapshotAt\<close>, \<open>RollbackToVersion\<close>) edits no
  cached value; the operation a rollback composes shares values with the inverses it applies.
\<close>

section \<open>Requests, results and snapshots\<close>

record Snapshot =
  snap_DocumentID :: string
  snap_Version :: int
  snap_Document :: string

record SubmitRequest =
  req_DocumentID :: string
  req_BaseVersion :: int
  req_Operation :: string
  req_ID :: OpID
  req_Source :: string
  req_Sequence :: int

record SubmitResult =
  res_Version :: int
  res_Rebased :: bool
  res_Duplicate :: bool
  res_Operation :: string
  res_Document :: string

definition SubmitRequest_opID :: "SubmitRequest \<Rightarrow> OpID" where
  "SubmitRequest_opID r =
     (let i = req_ID r;
          i = (if id_Source i = '''' then i\<lparr>id_Source := req_Source r\<rparr> else i)
      in if id_Sequence i = 0 then i\<lparr>id_Sequence := req_Sequence r\<rparr> else i)"

section \<open>Configuration and state\<close>

type_synonym 'v parsedOpCache = "string \<Rightarrow> (int \<Rightarrow> 'v Operation option) option"

record ('s, 'l, 'p, 'v, 'f, 'j) server_config =
  cfg_backend :: "'s Backend"
  cfg_locker :: "'l Locker"
  cfg_pub :: "'p Publisher"
  cfg_env :: "('v, 'f) env"
  cfg_ot :: JSONOperationTransformer
  cfg_json :: "string \<Rightarrow> 'j res"
  cfg_depth :: nat
  cfg_maxRebaseGap :: int

record ('s, 'l, 'p, 'v) server_state =
  srv_backend :: 's
  srv_locks :: 'l
  srv_pub :: 'p
  srv_parsedOps :: "'v parsedOpCache"
  srv_fresh :: nat
  srv_edits :: nat

definition NewServer :: "'s \<Rightarrow> 'l \<Rightarrow> 'p \<Rightarrow> ('s, 'l, 'p, 'v) server_state" where
  "NewServer backend locker pub =
     \<lparr>srv_backend = backend, srv_locks = locker, srv_pub = pub, srv_parsedOps = (\<lambda>_. None), srv_fresh = 0,
      srv_edits = 0\<rparr>"

text \<open>\<open>defer unlock()\<close> around a body.\<close>

definition withLock ::
    "('s, 'l, 'p, 'v, 'f, 'j) server_config \<Rightarrow> string \<Rightarrow>
     (('s, 'l, 'p, 'v) server_state \<Rightarrow> 'a res \<times> ('s, 'l, 'p, 'v) server_state) \<Rightarrow>
     ('s, 'l, 'p, 'v) server_state \<Rightarrow> 'a res \<times> ('s, 'l, 'p, 'v) server_state" where
  "withLock C docID body st =
     (case Lock (cfg_locker C) (srv_locks st) docID of
        (Inl e, l) \<Rightarrow> (Inl e, st\<lparr>srv_locks := l\<rparr>)
      | (Inr _, l) \<Rightarrow>
          (let (r, st') = body (st\<lparr>srv_locks := l\<rparr>)
           in (r, st'\<lparr>srv_locks := Unlock (cfg_locker C) (srv_locks st') docID\<rparr>)))"

text \<open>A backend call that changes the backend.\<close>

definition onBackend ::
    "'a res \<times> 's \<Rightarrow> ('s, 'l, 'p, 'v) server_state \<Rightarrow> 'a res \<times> ('s, 'l, 'p, 'v) server_state" where
  "onBackend r st = (fst r, st\<lparr>srv_backend := snd r\<rparr>)"

definition publish ::
    "('s, 'l, 'p, 'v, 'f, 'j) server_config \<Rightarrow> Event \<Rightarrow> ('s, 'l, 'p, 'v) server_state \<Rightarrow>
     ('s, 'l, 'p, 'v) server_state" where
  "publish C e st = st\<lparr>srv_pub := Publish (cfg_pub C) (srv_pub st) e\<rparr>"

section \<open>The cache of parsed operations\<close>

text \<open>
  A clone: its components are new objects with the same content; their values are the same objects
  (see \<open>touch\<close>).
\<close>

definition cloneOperation :: "'v Operation \<Rightarrow> 'v Operation res" where
  "cloneOperation op =
     andThen (Operation_Array op) (\<lambda>components. Inr (NewOperation (map Component_Clone components)))"

definition Cache_Get :: "'v parsedOpCache \<Rightarrow> string \<Rightarrow> int \<Rightarrow> 'v Operation option res" where
  "Cache_Get c documentID version =
     (case c documentID of
        None \<Rightarrow> Inr None
      | Some versions \<Rightarrow>
          (case versions version of
             None \<Rightarrow> Inr None
           | Some op \<Rightarrow> andThen (cloneOperation op) (\<lambda>op. Inr (Some op))))"

definition Cache_Store ::
    "'v parsedOpCache \<Rightarrow> string \<Rightarrow> int \<Rightarrow> 'v Operation \<Rightarrow> 'v parsedOpCache res" where
  "Cache_Store c documentID version op =
     (let versions = (case c documentID of None \<Rightarrow> (\<lambda>_. None) | Some versions \<Rightarrow> versions)
      in andThen (cloneOperation op) (\<lambda>op.
           Inr (c(documentID \<mapsto> versions(version \<mapsto> op)))))"

definition Cache_DeleteDocument :: "'v parsedOpCache \<Rightarrow> string \<Rightarrow> 'v parsedOpCache" where
  "Cache_DeleteDocument c documentID = c(documentID := None)"

definition cacheCommittedOperation ::
    "string \<Rightarrow> int \<Rightarrow> 'v Operation \<Rightarrow> ('s, 'l, 'p, 'v) server_state \<Rightarrow>
     unit res \<times> ('s, 'l, 'p, 'v) server_state" where
  "cacheCommittedOperation docID version op st =
     (if docID = '''' \<or> version \<le> 0 then (Inr (), st)
      else case Cache_Store (srv_parsedOps st) docID version op of
             Inl e \<Rightarrow> (Inl e, st)
           | Inr c \<Rightarrow> (Inr (), st\<lparr>srv_parsedOps := c\<rparr>))"

section \<open>Edits in place\<close>

text \<open>The values of an operator, the new ones (\<open>True\<close>) and the old ones, after an edit \<open>f\<close>.\<close>

fun editOperator :: "(bool \<Rightarrow> 'v \<Rightarrow> 'v) \<Rightarrow> 'v operator \<Rightarrow> 'v operator" where
  "editOperator f (ListInsert n) = ListInsert (f True n)"
| "editOperator f (ListDelete d) = ListDelete (f False d)"
| "editOperator f (ListReplace n d) = ListReplace (f True n) (f False d)"
| "editOperator f (ObjectInsert n) = ObjectInsert (f True n)"
| "editOperator f (ObjectDelete d) = ObjectDelete (f False d)"
| "editOperator f (ObjectReplace n d) = ObjectReplace (f True n) (f False d)"
| "editOperator f (SubTypeOperator st v fn) = SubTypeOperator st (f True v) fn"
| "editOperator f op = op"

fun editComponents ::
    "(nat \<Rightarrow> bool \<Rightarrow> 'v \<Rightarrow> 'v) \<Rightarrow> nat \<Rightarrow> 'v OperationComponent list \<Rightarrow> 'v OperationComponent list" where
  "editComponents f i [] = []"
| "editComponents f i (c # cs) = c\<lparr>Operator := editOperator (f i) (Operator c)\<rparr> # editComponents f (Suc i) cs"

text \<open>The operation of a document and version after the \<open>t\<close>-th call that edits values in place.\<close>

definition editOperation :: "('v, 'f) env \<Rightarrow> nat \<Rightarrow> string \<Rightarrow> int \<Rightarrow> 'v Operation \<Rightarrow> 'v Operation" where
  "editOperation E t documentID version op = map_option (editComponents (sharedEdit E t documentID version) 0) op"

definition touchCache :: "('v, 'f) env \<Rightarrow> nat \<Rightarrow> 'v parsedOpCache \<Rightarrow> 'v parsedOpCache" where
  "touchCache E t c =
     (\<lambda>documentID. map_option (\<lambda>versions version. map_option (editOperation E t documentID version) (versions version))
        (c documentID))"

definition touch ::
    "('s, 'l, 'p, 'v, 'f, 'j) server_config \<Rightarrow> ('s, 'l, 'p, 'v) server_state \<Rightarrow> ('s, 'l, 'p, 'v) server_state" where
  "touch C st = st\<lparr>srv_parsedOps := touchCache (cfg_env C) (srv_edits st) (srv_parsedOps st),
     srv_edits := srv_edits st + 1\<rparr>"

text \<open>
  The operation in hand; the versions up to 0, under which nothing is cached, stand for it.
\<close>

definition inHand ::
    "('s, 'l, 'p, 'v, 'f, 'j) server_config \<Rightarrow> string \<Rightarrow> int \<Rightarrow> ('s, 'l, 'p, 'v) server_state \<Rightarrow> 'v Operation \<Rightarrow>
     'v Operation" where
  "inHand C documentID k st op = editOperation (cfg_env C) (srv_edits st) documentID k op"

definition countEdits :: "('s, 'l, 'p, 'v) server_state \<Rightarrow> ('s, 'l, 'p, 'v) server_state" where
  "countEdits st = st\<lparr>srv_edits := srv_edits st + 1\<rparr>"

section \<open>Reading operations\<close>

definition parseOperation ::
    "('s, 'l, 'p, 'v, 'f, 'j) server_config \<Rightarrow> string \<Rightarrow> ('s, 'l, 'p, 'v) server_state \<Rightarrow>
     'v Operation res \<times> ('s, 'l, 'p, 'v) server_state" where
  "parseOperation C raw st =
     (let payload = (if raw = '''' then ''[]'' else raw) in
      case UnmarshalValue (cfg_env C) payload of
        Inl e \<Rightarrow> (Inl e, st)
      | Inr node \<Rightarrow>
          (case OperationComponentsFromValue (cfg_depth C) (cfg_env C) (ot_functions (cfg_ot C))
                  (srv_fresh st) node of
             None \<Rightarrow> (Inl Panic, st)
           | Some (Inl e) \<Rightarrow> (Inl e, st)
           | Some (Inr (components, fresh)) \<Rightarrow>
               (let op = NewOperation components; st = st\<lparr>srv_fresh := fresh\<rparr>
                in case Operation_Validation op of
                     Inl e \<Rightarrow> (Inl e, st)
                   | Inr _ \<Rightarrow> (Inr op, st))))"

definition getOrParseCommittedOperation ::
    "('s, 'l, 'p, 'v, 'f, 'j) server_config \<Rightarrow> OpRecord \<Rightarrow> ('s, 'l, 'p, 'v) server_state \<Rightarrow>
     'v Operation res \<times> ('s, 'l, 'p, 'v) server_state" where
  "getOrParseCommittedOperation C opRec st =
     (case Cache_Get (srv_parsedOps st) (op_DocumentID opRec) (op_Version opRec) of
        Inl e \<Rightarrow> (Inl e, st)
      | Inr (Some op) \<Rightarrow> (Inr op, st)
      | Inr None \<Rightarrow>
          bindS (parseOperation C (op_Op opRec) st) (\<lambda>op st.
          bindS (cacheCommittedOperation (op_DocumentID opRec) (op_Version opRec) op st) (\<lambda>_ st.
            (cloneOperation op, st))))"

text \<open>\<open>inverseOperation\<close>: the inverted components in reverse order, written out and read again.\<close>

fun invert_loop :: "('v, 'f) env \<Rightarrow> 'v Operation \<Rightarrow> 'v OperationComponent list \<Rightarrow> 'v Operation res" where
  "invert_loop E inverted [] = Inr inverted"
| "invert_loop E inverted (c # cs) =
     andThen (fst (Component_Invert E c)) (\<lambda>inverse.
     andThen (Operation_Append E inverted inverse) (\<lambda>inverted. invert_loop E inverted cs))"

definition inverseOperation ::
    "('s, 'l, 'p, 'v, 'f, 'j) server_config \<Rightarrow> OpRecord \<Rightarrow> ('s, 'l, 'p, 'v) server_state \<Rightarrow>
     'v Operation res \<times> ('s, 'l, 'p, 'v) server_state" where
  "inverseOperation C opRec st =
     bindS (getOrParseCommittedOperation C opRec st) (\<lambda>op st.
       case andThen (Operation_Array op) (\<lambda>components.
              invert_loop (cfg_env C) (NewOperation []) (rev components)) of
         Inl e \<Rightarrow> (Inl e, st)
       | Inr inverted \<Rightarrow>
           parseOperation C (RawMessage (cfg_env C) (Operation_ToValue (cfg_env C) inverted)) st)"

section \<open>Documents and history\<close>

definition CreateDocument ::
    "('s, 'l, 'p, 'v, 'f, 'j) server_config \<Rightarrow> string \<Rightarrow> string \<Rightarrow> ('s, 'l, 'p, 'v) server_state \<Rightarrow>
     Snapshot res \<times> ('s, 'l, 'p, 'v) server_state" where
  "CreateDocument C documentID initial =
     withLock C documentID (\<lambda>st.
       let payload = (if initial = '''' then ''{}'' else initial) in
       bindS (onBackend (CreateDoc (cfg_backend C) (srv_backend st) documentID payload) st) (\<lambda>_ st.
         (Inr \<lparr>snap_DocumentID = documentID, snap_Version = 0, snap_Document = payload\<rparr>, st)))"

definition GetSnapshot ::
    "('s, 'l, 'p, 'v, 'f, 'j) server_config \<Rightarrow> string \<Rightarrow> ('s, 'l, 'p, 'v) server_state \<Rightarrow> Snapshot res" where
  "GetSnapshot C documentID st =
     andThen (GetDoc (cfg_backend C) (srv_backend st) documentID) (\<lambda>r.
       Inr \<lparr>snap_DocumentID = documentID, snap_Version = doc_Version r, snap_Document = doc_Doc r\<rparr>)"

definition GetOperations ::
    "('s, 'l, 'p, 'v, 'f, 'j) server_config \<Rightarrow> string \<Rightarrow> int \<Rightarrow> int \<Rightarrow> ('s, 'l, 'p, 'v) server_state \<Rightarrow>
     OpRecord list res" where
  "GetOperations C documentID fromVersion toVersion st =
     andThen (GetDoc (cfg_backend C) (srv_backend st) documentID) (\<lambda>r.
       if fromVersion < 0 \<or> toVersion < fromVersion \<or> toVersion > doc_Version r
       then Inl (WrapError (Sentinel ErrInvalidVersion))
       else
         andThen (GetOps (cfg_backend C) (srv_backend st) documentID fromVersion toVersion) (\<lambda>ops.
           if int (length ops) \<noteq> i64 (toVersion - fromVersion) then Inl FmtError else Inr ops))"

text \<open>The loop of \<open>documentAtVersion\<close>, over the records from the newest to the oldest.\<close>

fun undo_loop ::
    "('s, 'l, 'p, 'v, 'f, 'j) server_config \<Rightarrow> 'v \<Rightarrow> OpRecord list \<Rightarrow> ('s, 'l, 'p, 'v) server_state \<Rightarrow>
     'v res \<times> ('s, 'l, 'p, 'v) server_state" where
  "undo_loop C docValue [] st = (Inr docValue, st)"
| "undo_loop C docValue (opRec # rest) st =
     bindS (inverseOperation C opRec st) (\<lambda>inverse st.
       case Engine_Apply (cfg_env C) docValue inverse of
         Inl e \<Rightarrow> (Inl e, st)
       | Inr docValue \<Rightarrow> undo_loop C docValue rest st)"

definition documentAtVersion ::
    "('s, 'l, 'p, 'v, 'f, 'j) server_config \<Rightarrow> DocRecord \<Rightarrow> int \<Rightarrow> ('s, 'l, 'p, 'v) server_state \<Rightarrow>
     string res \<times> ('s, 'l, 'p, 'v) server_state" where
  "documentAtVersion C r targetVersion st =
     (case andThen (GetOperations C (doc_DocumentID r) targetVersion (doc_Version r) st) (\<lambda>ops.
            andThen (UnmarshalValue (cfg_env C) (doc_Doc r)) (\<lambda>docValue. Inr (ops, docValue))) of
        Inl e \<Rightarrow> (Inl e, st)
      | Inr (ops, docValue) \<Rightarrow>
          bindS (undo_loop C docValue (rev ops) st) (\<lambda>docValue st.
            (Inr (RawMessage (cfg_env C) docValue), st)))"

definition GetSnapshotAt ::
    "('s, 'l, 'p, 'v, 'f, 'j) server_config \<Rightarrow> string \<Rightarrow> int \<Rightarrow> ('s, 'l, 'p, 'v) server_state \<Rightarrow>
     Snapshot res \<times> ('s, 'l, 'p, 'v) server_state" where
  "GetSnapshotAt C documentID version st =
     (case GetDoc (cfg_backend C) (srv_backend st) documentID of
        Inl e \<Rightarrow> (Inl e, st)
      | Inr r \<Rightarrow>
          if version < 0 \<or> version > doc_Version r
          then (Inl (WrapError (Sentinel ErrInvalidVersion)), st)
          else if version = doc_Version r then
            (Inr \<lparr>snap_DocumentID = documentID, snap_Version = doc_Version r, snap_Document = doc_Doc r\<rparr>, st)
          else
            bindS (documentAtVersion C r version st) (\<lambda>document st.
              (Inr \<lparr>snap_DocumentID = documentID, snap_Version = version, snap_Document = document\<rparr>, st)))"

section \<open>Submitting\<close>

definition jsonRawEqual :: "(string \<Rightarrow> 'j res) \<Rightarrow> string \<Rightarrow> string \<Rightarrow> bool" where
  "jsonRawEqual U a b =
     (case U a of
        Inl _ \<Rightarrow> False
      | Inr av \<Rightarrow> (case U b of Inl _ \<Rightarrow> False | Inr bv \<Rightarrow> av = bv))"

text \<open>
  The search for an earlier submission with the same source and sequence number.  The first match
  decides: a conflict when its operation differs, else the result of the retry.
\<close>

fun findSequence :: "OpID \<Rightarrow> OpRecord list \<Rightarrow> OpRecord option" where
  "findSequence opID [] = None"
| "findSequence opID (opRec # ops) =
     (if id_Source (OpRecord_opID opRec) = id_Source opID
         \<and> id_Sequence (OpRecord_opID opRec) = id_Sequence opID
      then Some opRec else findSequence opID ops)"

definition duplicateResult ::
    "('s, 'l, 'p, 'v, 'f, 'j) server_config \<Rightarrow> DocRecord \<Rightarrow> SubmitRequest \<Rightarrow>
     ('s, 'l, 'p, 'v) server_state \<Rightarrow> SubmitResult option res" where
  "duplicateResult C r req st =
     (let opID = SubmitRequest_opID req in
      if id_Source opID \<noteq> '''' \<and> id_Sequence opID > 0 \<and> doc_Version r > 0 then
        andThen (GetOps (cfg_backend C) (srv_backend st) (req_DocumentID req) 0 (doc_Version r)) (\<lambda>ops.
          case findSequence opID ops of
            None \<Rightarrow> Inr None
          | Some opRec \<Rightarrow>
              if op_SubmittedOp opRec \<noteq> '''' \<and>
                 \<not> jsonRawEqual (cfg_json C) (req_Operation req) (op_SubmittedOp opRec)
              then Inl (Sentinel ErrDuplicateSequenceConflict)
              else Inr (Some \<lparr>res_Version = doc_Version r, res_Rebased = False, res_Duplicate = True,
                              res_Operation = op_Op opRec, res_Document = doc_Doc r\<rparr>))
      else Inr None)"

text \<open>Step 3: the transformation against the operations committed since the base version.\<close>

fun rebase_loop ::
    "('s, 'l, 'p, 'v, 'f, 'j) server_config \<Rightarrow> 'v Operation \<Rightarrow> OpRecord list \<Rightarrow>
     ('s, 'l, 'p, 'v) server_state \<Rightarrow> 'v Operation res \<times> ('s, 'l, 'p, 'v) server_state" where
  "rebase_loop C transformed [] st = (Inr transformed, st)"
| "rebase_loop C transformed (opRec # rest) st =
     (let (concurrent, st) = getOrParseCommittedOperation C opRec st in
      bindS (wrapError concurrent, st) (\<lambda>concurrent st.
        case Engine_Transform (cfg_env C) transformed concurrent of
          Inl e \<Rightarrow> (Inl e, touch C st)
        | Inr (transformed, _) \<Rightarrow>
            rebase_loop C (inHand C (op_DocumentID opRec) 0 st transformed) rest (touch C st)))"

definition rebase ::
    "('s, 'l, 'p, 'v, 'f, 'j) server_config \<Rightarrow> DocRecord \<Rightarrow> SubmitRequest \<Rightarrow> 'v Operation \<Rightarrow>
     ('s, 'l, 'p, 'v) server_state \<Rightarrow> 'v Operation res \<times> ('s, 'l, 'p, 'v) server_state" where
  "rebase C r req op st =
     (if req_BaseVersion req < doc_Version r then
        (let gap = i64 (doc_Version r - req_BaseVersion req); maxGap = cfg_maxRebaseGap C in
         if maxGap > 0 \<and> gap > maxGap then
           (Inl (StaleError (StaleSubmitError StaleReasonVersionBehindWindow (req_DocumentID req)
              (req_BaseVersion req) (doc_Version r) (i64 (doc_Version r - maxGap)) maxGap)), st)
         else
           (case GetOps (cfg_backend C) (srv_backend st) (req_DocumentID req)
                   (req_BaseVersion req) (doc_Version r) of
              Inl e \<Rightarrow> (Inl e, st)
            | Inr concurrentOps \<Rightarrow> rebase_loop C op concurrentOps st))
      else (Inr op, st))"

text \<open>Steps 5 and 6: commit, cache and publish what step 4 applied.\<close>

definition storeCommitted ::
    "('s, 'l, 'p, 'v, 'f, 'j) server_config \<Rightarrow> DocRecord \<Rightarrow> SubmitRequest \<Rightarrow> 'v Operation \<Rightarrow> bool \<Rightarrow> 'v \<Rightarrow>
     ('s, 'l, 'p, 'v) server_state \<Rightarrow> SubmitResult res \<times> ('s, 'l, 'p, 'v) server_state" where
  "storeCommitted C r req transformed rebased applied st =
     (let E = cfg_env C; docID = req_DocumentID req; opID = SubmitRequest_opID req;
          newDoc = RawMessage E applied;
          newVersion = i64 (doc_Version r + 1);
          serializedOp = RawMessage E (Operation_ToValue E transformed)
      in
      bindS (onBackend (CommitOp (cfg_backend C) (srv_backend st)
               \<lparr>doc_DocumentID = docID, doc_Version = newVersion, doc_Doc = newDoc\<rparr>
               \<lparr>op_DocumentID = docID, op_Version = newVersion,
                op_BaseVersion = req_BaseVersion req, op_ID = opID,
                op_Source = id_Source opID, op_Sequence = id_Sequence opID,
                op_SubmittedOp = req_Operation req, op_Op = serializedOp\<rparr>) st) (\<lambda>_ st.
      bindS (cacheCommittedOperation docID newVersion transformed st) (\<lambda>_ st.
        (Inr \<lparr>res_Version = newVersion, res_Rebased = rebased, res_Duplicate = False,
              res_Operation = serializedOp, res_Document = newDoc\<rparr>,
         publish C
           \<lparr>ev_Type = EventTypeOp, ev_DocumentID = docID, ev_Version = newVersion, ev_ID = opID,
            ev_Source = id_Source opID, ev_Sequence = id_Sequence opID,
            ev_Operation = serializedOp, ev_Document = newDoc\<rparr> st))))"

text \<open>Steps 4 to 6; the operation is written out after it has been applied.\<close>

definition commitOperation ::
    "('s, 'l, 'p, 'v, 'f, 'j) server_config \<Rightarrow> DocRecord \<Rightarrow> SubmitRequest \<Rightarrow> 'v Operation \<Rightarrow> bool \<Rightarrow>
     ('s, 'l, 'p, 'v) server_state \<Rightarrow> SubmitResult res \<times> ('s, 'l, 'p, 'v) server_state" where
  "commitOperation C r req transformed rebased st =
     (case UnmarshalValue (cfg_env C) (doc_Doc r) of
        Inl e \<Rightarrow> (Inl e, st)
      | Inr docValue \<Rightarrow>
          (case Engine_Apply (cfg_env C) docValue transformed of
             Inl e \<Rightarrow> (Inl e, touch C st)
           | Inr applied \<Rightarrow>
               storeCommitted C r req (inHand C (req_DocumentID req) 0 st transformed) rebased applied
                 (touch C st)))"

definition submitLocked ::
    "('s, 'l, 'p, 'v, 'f, 'j) server_config \<Rightarrow> SubmitRequest \<Rightarrow> ('s, 'l, 'p, 'v) server_state \<Rightarrow>
     SubmitResult res \<times> ('s, 'l, 'p, 'v) server_state" where
  "submitLocked C req st =
     (case GetDoc (cfg_backend C) (srv_backend st) (req_DocumentID req) of
        Inl e \<Rightarrow> (Inl e, st)
      | Inr r \<Rightarrow>
          if req_BaseVersion req < 0 \<or> req_BaseVersion req > doc_Version r
          then (Inl (WrapError (Sentinel ErrInvalidVersion)), st)
          else case duplicateResult C r req st of
            Inl e \<Rightarrow> (Inl e, st)
          | Inr (Some result) \<Rightarrow> (Inr result, st)
          | Inr None \<Rightarrow>
              bindS (parseOperation C (req_Operation req) st) (\<lambda>op st.
              bindS (rebase C r req op st) (\<lambda>transformed st.
                let rebased = (req_BaseVersion req < doc_Version r) in
                case Operation_IsEmpty transformed of
                  Inl e \<Rightarrow> (Inl e, st)
                | Inr True \<Rightarrow>
                    (Inr \<lparr>res_Version = doc_Version r, res_Rebased = rebased, res_Duplicate = False,
                          res_Operation = ''[]'', res_Document = doc_Doc r\<rparr>, st)
                | Inr False \<Rightarrow> commitOperation C r req transformed rebased st)))"

definition submitCore ::
    "('s, 'l, 'p, 'v, 'f, 'j) server_config \<Rightarrow> SubmitRequest \<Rightarrow> ('s, 'l, 'p, 'v) server_state \<Rightarrow>
     SubmitResult res \<times> ('s, 'l, 'p, 'v) server_state" where
  "submitCore C req = withLock C (req_DocumentID req) (submitLocked C req)"

text \<open>
  Middleware: each takes a handler and returns one, or nil (\<open>None\<close>), on which the constructor
  panics.  The first is the outermost.
\<close>

fun buildSubmitHandler :: "'h \<Rightarrow> ('h \<Rightarrow> 'h option) list \<Rightarrow> 'h res" where
  "buildSubmitHandler core [] = Inr core"
| "buildSubmitHandler core (mw # rest) =
     andThen (buildSubmitHandler core rest) (\<lambda>handler. MustSome (mw handler))"

definition SubmitWithRequest ::
    "('s, 'l, 'p, 'v, 'f, 'j) server_config \<Rightarrow>
     ((SubmitRequest \<Rightarrow> ('s, 'l, 'p, 'v) server_state \<Rightarrow> SubmitResult res \<times> ('s, 'l, 'p, 'v) server_state) \<Rightarrow>
      (SubmitRequest \<Rightarrow> ('s, 'l, 'p, 'v) server_state \<Rightarrow> SubmitResult res \<times> ('s, 'l, 'p, 'v) server_state) option) list \<Rightarrow>
     SubmitRequest \<Rightarrow> ('s, 'l, 'p, 'v) server_state \<Rightarrow> SubmitResult res \<times> ('s, 'l, 'p, 'v) server_state" where
  "SubmitWithRequest C middleware req st =
     (case buildSubmitHandler (submitCore C) middleware of
        Inl e \<Rightarrow> (Inl e, st)
      | Inr submitHandler \<Rightarrow> submitHandler req st)"

text \<open>\<open>Submit\<close> builds a request that has a source but no sequence number.\<close>

definition SubmitRequest_of :: "string \<Rightarrow> int \<Rightarrow> string \<Rightarrow> string \<Rightarrow> SubmitRequest" where
  "SubmitRequest_of documentID baseVersion rawOperation source =
     \<lparr>req_DocumentID = documentID, req_BaseVersion = baseVersion, req_Operation = rawOperation,
      req_ID = noOpID, req_Source = source, req_Sequence = 0\<rparr>"

section \<open>Options\<close>

text \<open>
  What the options of \<open>NewServer\<close> set on the server: the publisher (\<open>None\<close> is nil, for which
  \<open>NewServer\<close> makes a memory publisher), the middleware and the rebase window.  A nil
  middleware is left out.
\<close>

datatype ('p, 'h) ServerOption = WithPublisher "'p option" | WithSubmitMiddleware "'h option list"
  | WithMaxRebaseGap int

record ('p, 'h) server_options =
  so_pub :: "'p option"
  so_submitMiddleware :: "'h list"
  so_maxRebaseGap :: int

fun applyOption :: "('p, 'h) ServerOption \<Rightarrow> ('p, 'h) server_options \<Rightarrow> ('p, 'h) server_options" where
  "applyOption (WithPublisher pub) s = s\<lparr>so_pub := pub\<rparr>"
| "applyOption (WithSubmitMiddleware middleware) s =
     s\<lparr>so_submitMiddleware := so_submitMiddleware s @ concat (map (\<lambda>mw. case mw of None \<Rightarrow> [] | Some mw \<Rightarrow> [mw]) middleware)\<rparr>"
| "applyOption (WithMaxRebaseGap maxGap) s = s\<lparr>so_maxRebaseGap := maxGap\<rparr>"

definition NewServer_options :: "'p \<Rightarrow> ('p, 'h) ServerOption list \<Rightarrow> 'p \<times> 'h list \<times> int" where
  "NewServer_options memoryPublisher opts =
     (let s = fold applyOption opts \<lparr>so_pub = None, so_submitMiddleware = [], so_maxRebaseGap = 0\<rparr>
      in (case so_pub s of None \<Rightarrow> memoryPublisher | Some pub \<Rightarrow> pub, so_submitMiddleware s, so_maxRebaseGap s))"

fun option_middleware :: "('p, 'h) ServerOption \<Rightarrow> 'h list" where
  "option_middleware (WithSubmitMiddleware middleware) = map the (filter (\<lambda>mw. mw \<noteq> None) middleware)"
| "option_middleware _ = []"

lemma applyOption_middleware: "so_submitMiddleware (applyOption opt s) = so_submitMiddleware s @ option_middleware opt"
proof (cases opt)
  case (WithSubmitMiddleware ms)
  have "concat (map (\<lambda>mw. case mw of None \<Rightarrow> [] | Some mw \<Rightarrow> [mw]) ms) = map the (filter (\<lambda>mw. mw \<noteq> None) ms)"
    by (induction ms) (auto split: option.splits)
  then show ?thesis using WithSubmitMiddleware by simp
qed simp_all

text \<open>The middleware wraps in the order in which the options name it, whatever options stand between.\<close>

lemma options_middleware: "fst (snd (NewServer_options memoryPublisher opts)) = concat (map option_middleware opts)"
proof -
  have "so_submitMiddleware (fold applyOption opts s) = so_submitMiddleware s @ concat (map option_middleware opts)" for s
    by (induction opts arbitrary: s) (simp_all add: applyOption_middleware)
  then show ?thesis by (simp add: NewServer_options_def Let_def)
qed

section \<open>Deleting, rolling back, subscribing\<close>

definition DeleteDocument ::
    "('s, 'l, 'p, 'v, 'f, 'j) server_config \<Rightarrow> string \<Rightarrow> int \<Rightarrow> string \<Rightarrow>
     ('s, 'l, 'p, 'v) server_state \<Rightarrow> unit res \<times> ('s, 'l, 'p, 'v) server_state" where
  "DeleteDocument C documentID baseVersion source =
     withLock C documentID (\<lambda>st.
       case GetDoc (cfg_backend C) (srv_backend st) documentID of
         Inl e \<Rightarrow> (Inl e, st)
       | Inr r \<Rightarrow>
           if baseVersion \<noteq> doc_Version r then (Inl (WrapError (Sentinel ErrInvalidVersion)), st)
           else
             bindS (onBackend (DeleteDoc (cfg_backend C) (srv_backend st) documentID) st) (\<lambda>_ st.
               (Inr (), publish C
                 \<lparr>ev_Type = EventTypeDelete, ev_DocumentID = documentID, ev_Version = doc_Version r,
                  ev_ID = noOpID, ev_Source = source, ev_Sequence = 0, ev_Operation = '''',
                  ev_Document = doc_Doc r\<rparr>
                 (st\<lparr>srv_parsedOps := Cache_DeleteDocument (srv_parsedOps st) documentID\<rparr>))))"

text \<open>
  The loop of \<open>rollbackToVersionOperation\<close> composes the inverses while it applies them; applying one can edit
  the values of the composed operation.
\<close>

fun rollback_loop ::
    "('s, 'l, 'p, 'v, 'f, 'j) server_config \<Rightarrow> 'v Operation \<Rightarrow> 'v \<Rightarrow> OpRecord list \<Rightarrow>
     ('s, 'l, 'p, 'v) server_state \<Rightarrow> ('v Operation \<times> 'v) res \<times> ('s, 'l, 'p, 'v) server_state" where
  "rollback_loop C rollback docValue [] st = (Inr (rollback, docValue), st)"
| "rollback_loop C rollback docValue (opRec # rest) st =
     bindS (inverseOperation C opRec st) (\<lambda>inverse st.
       case andThen (Operation_Compose (cfg_env C) rollback inverse) (\<lambda>rollback.
              andThen (Engine_Apply (cfg_env C) docValue inverse) (\<lambda>docValue. Inr (rollback, docValue))) of
         Inl e \<Rightarrow> (Inl e, st)
       | Inr (rollback, docValue) \<Rightarrow>
           rollback_loop C (inHand C (op_DocumentID opRec) (- op_Version opRec) st rollback) docValue rest st)"

definition rollbackToVersionOperation ::
    "('s, 'l, 'p, 'v, 'f, 'j) server_config \<Rightarrow> DocRecord \<Rightarrow> int \<Rightarrow> ('s, 'l, 'p, 'v) server_state \<Rightarrow>
     ('v Operation \<times> string) res \<times> ('s, 'l, 'p, 'v) server_state" where
  "rollbackToVersionOperation C r targetVersion st =
     (case andThen (GetOperations C (doc_DocumentID r) targetVersion (doc_Version r) st) (\<lambda>ops.
            andThen (UnmarshalValue (cfg_env C) (doc_Doc r)) (\<lambda>docValue. Inr (ops, docValue))) of
        Inl e \<Rightarrow> (Inl e, st)
      | Inr (ops, docValue) \<Rightarrow>
          bindS (rollback_loop C (NewOperation []) docValue (rev ops) st) (\<lambda>(rollback, docValue) st.
            (andThen (Operation_Validation rollback) (\<lambda>_.
               Inr (rollback, RawMessage (cfg_env C) docValue)), st)))"

definition rollbackLocked ::
    "('s, 'l, 'p, 'v, 'f, 'j) server_config \<Rightarrow> string \<Rightarrow> int \<Rightarrow> string \<Rightarrow>
     ('s, 'l, 'p, 'v) server_state \<Rightarrow> SubmitResult res \<times> ('s, 'l, 'p, 'v) server_state" where
  "rollbackLocked C documentID targetVersion source st =
     (case GetDoc (cfg_backend C) (srv_backend st) documentID of
        Inl e \<Rightarrow> (Inl e, st)
      | Inr r \<Rightarrow>
          if targetVersion < 0 \<or> targetVersion > doc_Version r
          then (Inl (WrapError (Sentinel ErrInvalidVersion)), st)
          else if targetVersion = doc_Version r then
            (Inr \<lparr>res_Version = doc_Version r, res_Rebased = False, res_Duplicate = False,
                  res_Operation = ''[]'', res_Document = doc_Doc r\<rparr>, st)
          else
            bindS (rollbackToVersionOperation C r targetVersion st) (\<lambda>(rollbackOp, rollbackDoc) st.
              let st = countEdits st;
                  serializedOp = RawMessage (cfg_env C) (Operation_ToValue (cfg_env C) rollbackOp);
                  newVersion = i64 (doc_Version r + 1)
              in
              bindS (onBackend (CommitOp (cfg_backend C) (srv_backend st)
                       \<lparr>doc_DocumentID = documentID, doc_Version = newVersion, doc_Doc = rollbackDoc\<rparr>
                       \<lparr>op_DocumentID = documentID, op_Version = newVersion,
                        op_BaseVersion = doc_Version r, op_ID = noOpID, op_Source = source,
                        op_Sequence = 0, op_SubmittedOp = serializedOp, op_Op = serializedOp\<rparr>) st) (\<lambda>_ st.
              bindS (cacheCommittedOperation documentID newVersion rollbackOp st) (\<lambda>_ st.
                (Inr \<lparr>res_Version = newVersion, res_Rebased = False, res_Duplicate = False,
                      res_Operation = serializedOp, res_Document = rollbackDoc\<rparr>,
                 publish C
                   \<lparr>ev_Type = EventTypeOp, ev_DocumentID = documentID, ev_Version = newVersion,
                    ev_ID = noOpID, ev_Source = source, ev_Sequence = 0,
                    ev_Operation = serializedOp, ev_Document = rollbackDoc\<rparr> st)))))"

definition RollbackToVersion ::
    "('s, 'l, 'p, 'v, 'f, 'j) server_config \<Rightarrow> string \<Rightarrow> int \<Rightarrow> string \<Rightarrow>
     ('s, 'l, 'p, 'v) server_state \<Rightarrow> SubmitResult res \<times> ('s, 'l, 'p, 'v) server_state" where
  "RollbackToVersion C documentID targetVersion source =
     withLock C documentID (rollbackLocked C documentID targetVersion source)"

definition Server_Subscribe ::
    "('s, 'l, 'p, 'v, 'f, 'j) server_config \<Rightarrow> string \<Rightarrow> int \<Rightarrow> ('s, 'l, 'p, 'v) server_state \<Rightarrow>
     int res \<times> ('s, 'l, 'p, 'v) server_state" where
  "Server_Subscribe C documentID buffer st =
     (case GetDoc (cfg_backend C) (srv_backend st) documentID of
        Inl e \<Rightarrow> (Inl e, st)
      | Inr _ \<Rightarrow>
          (let (r, p) = Subscribe (cfg_pub C) (srv_pub st) documentID buffer
           in (r, st\<lparr>srv_pub := p\<rparr>)))"

end
