(* ===== verification/Mailbox.thy ===== *)
theory Mailbox
  imports Publishing
begin

text \<open>
  Session mailboxes: \<open>sharedb/mailbox.go\<close> (envelopes, their validation, the \<open>MailboxStore\<close>
  interface with its promise as the locale \<open>mailbox_contract\<close>), \<open>sharedb/memory_mailbox.go\<close>,
  \<open>sharedb/mailbox_dispatch.go\<close> and \<open>sharedb/reconnect.go\<close>.  \<open>EnvelopeKind\<close> is a string, as in
  the code, so that unknown kinds can be refused.
\<close>

section \<open>Envelopes\<close>

type_synonym EnvelopeKind = string

definition EnvelopeKindEvent :: EnvelopeKind where "EnvelopeKindEvent = ''event''"
definition EnvelopeKindAck :: EnvelopeKind where "EnvelopeKindAck = ''ack''"
definition EnvelopeKindResync :: EnvelopeKind where "EnvelopeKindResync = ''resync''"
definition EnvelopeKindError :: EnvelopeKind where "EnvelopeKindError = ''error''"

lemmas EnvelopeKind_defs = EnvelopeKindEvent_def EnvelopeKindAck_def EnvelopeKindResync_def EnvelopeKindError_def

record Envelope =
  env_ID :: string
  env_SessionID :: string
  env_DocumentID :: string
  env_Kind :: EnvelopeKind
  env_Version :: int
  env_Event :: "Event option"

definition cloneEnvelope :: "Envelope \<Rightarrow> Envelope" where
  "cloneEnvelope env =
     (case env_Event env of None \<Rightarrow> env | Some e \<Rightarrow> env\<lparr>env_Event := Some (cloneEvent e)\<rparr>)"

lemma cloneEnvelope_id [simp]: "cloneEnvelope env = env"
  by (simp add: cloneEnvelope_def split: option.split)

lemma map_cloneEnvelope [simp]: "map cloneEnvelope envs = envs"
  by (simp add: map_idI)

definition validateEnvelope :: "Envelope \<Rightarrow> unit res" where
  "validateEnvelope env =
     (if env_ID env = '''' \<or> env_SessionID env = '''' \<or> env_DocumentID env = ''''
      then Inl (Sentinel ErrInvalidEnvelope)
      else if env_Kind env = EnvelopeKindEvent
      then (if env_Event env = None then Inl (Sentinel ErrInvalidEnvelope) else Inr ())
      else if env_Kind env \<in> {EnvelopeKindAck, EnvelopeKindResync, EnvelopeKindError}
      then (if env_Event env \<noteq> None then Inl (Sentinel ErrInvalidEnvelope) else Inr ())
      else Inl (Sentinel ErrInvalidEnvelope))"

definition validateDispatchEvent :: "Event \<Rightarrow> unit res" where
  "validateDispatchEvent e =
     (if ev_Type e = '''' \<or> ev_DocumentID e = '''' \<or> ev_Version e < 0
      then Inl (Sentinel ErrInvalidEvent) else Inr ())"

section \<open>The interface\<close>

record 'm MailboxStore =
  Append :: "'m \<Rightarrow> Envelope \<Rightarrow> unit res \<times> 'm"
  ReplayAfter :: "'m \<Rightarrow> string \<Rightarrow> string \<Rightarrow> int \<Rightarrow> Envelope list res"
  AckThrough :: "'m \<Rightarrow> string \<Rightarrow> string \<Rightarrow> unit res \<times> 'm"
  LastAcked :: "'m \<Rightarrow> string \<Rightarrow> string res"

text \<open>The first position of an identifier in a mailbox: the loops of \<open>ReplayAfter\<close> and \<open>AckThrough\<close>.\<close>

fun envelopeIndex :: "Envelope list \<Rightarrow> string \<Rightarrow> nat option" where
  "envelopeIndex [] i = None"
| "envelopeIndex (env # envs) i = (if env_ID env = i then Some 0 else map_option Suc (envelopeIndex envs i))"

lemma envelopeIndex_None: "envelopeIndex envs i = None \<longleftrightarrow> i \<notin> env_ID ` set envs"
  by (induction envs) auto

lemma envelopeIndex_Some:
  "envelopeIndex envs i = Some n \<longleftrightarrow> n < length envs \<and> env_ID (envs ! n) = i \<and> i \<notin> env_ID ` set (take n envs)"
proof (induction envs arbitrary: n)
  case (Cons env envs)
  then show ?case by (cases n) auto
qed simp

lemma envelopeIndex_append:
  "envelopeIndex (xs @ ys) i =
     (case envelopeIndex xs i of Some n \<Rightarrow> Some n | None \<Rightarrow> map_option ((+) (length xs)) (envelopeIndex ys i))"
proof (induction xs)
  case Nil
  show ?case by (cases "envelopeIndex ys i") auto
next
  case (Cons env xs)
  then show ?case by (cases "envelopeIndex ys i") (auto split: option.splits)
qed

definition replayed :: "int \<Rightarrow> 'a list \<Rightarrow> 'a list" where
  "replayed limit xs = (if 0 < limit then take (nat limit) xs else xs)"

text \<open>How many envelopes of a mailbox the cursor \<open>c\<close> acknowledges.\<close>

definition ackedCount :: "Envelope list \<Rightarrow> string \<Rightarrow> nat" where
  "ackedCount envs c =
     (if c = '''' then 0 else case envelopeIndex envs c of None \<Rightarrow> 0 | Some n \<Rightarrow> Suc n)"

text \<open>
  \<open>box m sid\<close> are the envelopes of a session, oldest first, \<open>cursor m sid\<close> its acknowledged one
  (empty for none).  The promises: an accepted envelope is valid, new in its session and appended;
  a replay returns what follows the cursor, cut at the limit, and reports an unknown cursor; an
  acknowledgement moves the cursor forward or leaves it.
\<close>

locale mailbox_contract =
  fixes M :: "'m MailboxStore" and box :: "'m \<Rightarrow> string \<Rightarrow> Envelope list" and cursor :: "'m \<Rightarrow> string \<Rightarrow> string"
  assumes Append_ok: "Append M m env = (Inr (), m') \<Longrightarrow> validateEnvelope env = Inr () \<and>
        env_ID env \<notin> env_ID ` set (box m (env_SessionID env)) \<and>
        box m' = (box m)(env_SessionID env := box m (env_SessionID env) @ [env]) \<and> cursor m' = cursor m"
    and Append_error: "Append M m env = (Inl e, m') \<Longrightarrow> box m' = box m \<and> cursor m' = cursor m"
    and ReplayAfter_start: "limit < 2 ^ 63 \<Longrightarrow>
        ReplayAfter M m sid '''' limit = Inr (replayed limit (box m sid))"
    and ReplayAfter_found: "after \<noteq> '''' \<Longrightarrow> envelopeIndex (box m sid) after = Some n \<Longrightarrow>
        int (Suc n) + limit < 2 ^ 63 \<Longrightarrow>
        ReplayAfter M m sid after limit = Inr (replayed limit (drop (Suc n) (box m sid)))"
    and ReplayAfter_unknown: "after \<noteq> '''' \<Longrightarrow> after \<notin> env_ID ` set (box m sid) \<Longrightarrow>
        ReplayAfter M m sid after limit = Inl (Sentinel ErrEnvelopeNotFound)"
    and AckThrough_ok: "AckThrough M m sid i = (Inr (), m') \<Longrightarrow> box m' = box m \<and>
        (m' = m \<or> i \<in> env_ID ` set (box m sid) \<and> cursor m' = (cursor m)(sid := i) \<and>
           ackedCount (box m sid) (cursor m sid) \<le> ackedCount (box m sid) i)"
    and AckThrough_error: "AckThrough M m sid i = (Inl e, m') \<Longrightarrow> box m' = box m \<and> cursor m' = cursor m"
    and LastAcked_cursor: "LastAcked M m sid = Inr (cursor m sid)"

section \<open>Replaying a mailbox\<close>

record ReplayResult =
  rr_SessionID :: string
  rr_Envelopes :: "Envelope list"
  rr_LastAcked :: string
  rr_RequiresResync :: bool
  rr_Reason :: StaleReason
  rr_CurrentVersion :: int
  rr_MinSupportedVersion :: int
  rr_MaxRebaseGap :: int

definition ReplaySessionMailbox ::
    "'m MailboxStore \<Rightarrow> 'm \<Rightarrow> string \<Rightarrow> string \<Rightarrow> int \<Rightarrow> ReplayResult res" where
  "ReplaySessionMailbox store m sessionID afterEnvelopeID limit =
     andThen (LastAcked store m sessionID) (\<lambda>lastAcked.
       case ReplayAfter store m sessionID afterEnvelopeID limit of
         Inl e \<Rightarrow>
           (if afterEnvelopeID \<noteq> '''' \<and> errors_Is e ErrEnvelopeNotFound
            then Inr \<lparr>rr_SessionID = sessionID, rr_Envelopes = [], rr_LastAcked = lastAcked,
                      rr_RequiresResync = True, rr_Reason = StaleReasonReplayCursorNotFound,
                      rr_CurrentVersion = 0, rr_MinSupportedVersion = 0, rr_MaxRebaseGap = 0\<rparr>
            else Inl e)
       | Inr envelopes \<Rightarrow>
           Inr \<lparr>rr_SessionID = sessionID, rr_Envelopes = envelopes, rr_LastAcked = lastAcked,
                rr_RequiresResync = False, rr_Reason = NoStaleReason,
                rr_CurrentVersion = 0, rr_MinSupportedVersion = 0, rr_MaxRebaseGap = 0\<rparr>)"

text \<open>The calls that change a mailbox.\<close>

datatype mailbox_call = MailAppend Envelope | MailAck string string

fun run_mail :: "'m MailboxStore \<Rightarrow> mailbox_call \<Rightarrow> 'm \<Rightarrow> 'm" where
  "run_mail M (MailAppend env) m = snd (Append M m env)"
| "run_mail M (MailAck sid i) m = snd (AckThrough M m sid i)"

fun run_mails :: "'m MailboxStore \<Rightarrow> mailbox_call list \<Rightarrow> 'm \<Rightarrow> 'm" where
  "run_mails M [] m = m"
| "run_mails M (c # cs) m = run_mails M cs (run_mail M c m)"

definition box_ok :: "string \<Rightarrow> Envelope list \<Rightarrow> bool" where
  "box_ok sid envs \<longleftrightarrow> distinct (map env_ID envs) \<and>
     (\<forall>env \<in> set envs. env_SessionID env = sid \<and> validateEnvelope env = Inr ())"

definition cursor_ok :: "Envelope list \<Rightarrow> string \<Rightarrow> bool" where
  "cursor_ok envs c \<longleftrightarrow> c = '''' \<or> c \<in> env_ID ` set envs"

text \<open>What a session's mailbox can become: it only grows, and its cursor only moves forward.\<close>

definition mailbox_grows :: "Envelope list \<times> string \<Rightarrow> Envelope list \<times> string \<Rightarrow> bool" where
  "mailbox_grows old new \<longleftrightarrow> prefix (fst old) (fst new) \<and>
     ackedCount (fst old) (snd old) \<le> ackedCount (fst new) (snd new)"

lemma ackedCount_append:
  "ackedCount xs c \<le> ackedCount (xs @ ys) c"
  by (auto simp: ackedCount_def envelopeIndex_append split: option.splits)

lemma mailbox_grows_refl: "mailbox_grows b b"
  by (simp add: mailbox_grows_def)

lemma mailbox_grows_trans: "mailbox_grows a b \<Longrightarrow> mailbox_grows b c \<Longrightarrow> mailbox_grows a c"
  by (auto simp: mailbox_grows_def)

context mailbox_contract
begin

lemma AppendE:
  assumes "Append M m env = (r, m')"
  obtains (refused) e where "r = Inl e" "box m' = box m" "cursor m' = cursor m"
  | (stored) "r = Inr ()" "validateEnvelope env = Inr ()" "env_ID env \<notin> env_ID ` set (box m (env_SessionID env))"
      "box m' = (box m)(env_SessionID env := box m (env_SessionID env) @ [env])" "cursor m' = cursor m"
  using assms Append_ok Append_error by (cases r) auto

lemma AckE:
  assumes "AckThrough M m sid i = (r, m')"
  obtains (same) "box m' = box m" "cursor m' = cursor m"
  | (moved) "r = Inr ()" "box m' = box m" "i \<in> env_ID ` set (box m sid)" "cursor m' = (cursor m)(sid := i)"
      "ackedCount (box m sid) (cursor m sid) \<le> ackedCount (box m sid) i"
  using assms AckThrough_ok [of m sid i m'] AckThrough_error [of m sid i _ m'] by (cases r) auto

lemma run_mail_ok:
  assumes "\<forall>sid. box_ok sid (box m sid) \<and> cursor_ok (box m sid) (cursor m sid)"
  shows "box_ok sid (box (run_mail M c m) sid) \<and> cursor_ok (box (run_mail M c m) sid) (cursor (run_mail M c m) sid)"
proof (cases c)
  case (MailAppend env)
  obtain r m' where a: "Append M m env = (r, m')" by fastforce
  then have "run_mail M c m = m'" using MailAppend by simp
  with a show ?thesis using assms
    by (elim AppendE) (auto simp: box_ok_def cursor_ok_def)
next
  case (MailAck s i)
  obtain r m' where a: "AckThrough M m s i = (r, m')" by fastforce
  then have "run_mail M c m = m'" using MailAck by simp
  with a show ?thesis using assms
    by (elim AckE) (auto simp: cursor_ok_def)
qed

lemma run_mails_ok:
  "\<forall>sid. box_ok sid (box m sid) \<and> cursor_ok (box m sid) (cursor m sid) \<Longrightarrow>
   box_ok sid (box (run_mails M cs m) sid) \<and> cursor_ok (box (run_mails M cs m) sid) (cursor (run_mails M cs m) sid)"
  by (induction cs arbitrary: m) (simp_all add: run_mail_ok)

lemma run_mail_grows:
  "mailbox_grows (box m sid, cursor m sid) (box (run_mail M c m) sid, cursor (run_mail M c m) sid)"
proof (cases c)
  case (MailAppend env)
  obtain r m' where a: "Append M m env = (r, m')" by fastforce
  then have "run_mail M c m = m'" using MailAppend by simp
  with a show ?thesis by (elim AppendE) (auto simp: mailbox_grows_def intro: ackedCount_append)
next
  case (MailAck s i)
  obtain r m' where a: "AckThrough M m s i = (r, m')" by fastforce
  then have "run_mail M c m = m'" using MailAck by simp
  with a show ?thesis by (elim AckE) (auto simp: mailbox_grows_def)
qed

lemma run_mails_grows:
  "mailbox_grows (box m sid, cursor m sid) (box (run_mails M cs m) sid, cursor (run_mails M cs m) sid)"
proof (induction cs arbitrary: m)
  case (Cons c cs)
  show ?case using mailbox_grows_trans [OF run_mail_grows [of m sid c] Cons.IH [of "run_mail M c m"]] by simp
qed (simp add: mailbox_grows_refl)

lemma replay_start:
  "limit < 2 ^ 63 \<Longrightarrow> \<exists>rr. ReplaySessionMailbox M m sid '''' limit = Inr rr \<and> \<not> rr_RequiresResync rr \<and>
     rr_LastAcked rr = cursor m sid \<and> rr_Envelopes rr = replayed limit (box m sid)"
  by (simp add: ReplaySessionMailbox_def LastAcked_cursor ReplayAfter_start)

lemma replay_found:
  "after \<noteq> '''' \<Longrightarrow> envelopeIndex (box m sid) after = Some n \<Longrightarrow> int (Suc n) + limit < 2 ^ 63 \<Longrightarrow>
   \<exists>rr. ReplaySessionMailbox M m sid after limit = Inr rr \<and> \<not> rr_RequiresResync rr \<and>
     rr_LastAcked rr = cursor m sid \<and> rr_Envelopes rr = replayed limit (drop (Suc n) (box m sid))"
  by (simp add: ReplaySessionMailbox_def LastAcked_cursor ReplayAfter_found)

lemma replay_unknown:
  "after \<noteq> '''' \<Longrightarrow> after \<notin> env_ID ` set (box m sid) \<Longrightarrow>
   \<exists>rr. ReplaySessionMailbox M m sid after limit = Inr rr \<and> rr_RequiresResync rr \<and>
     rr_Reason rr = StaleReasonReplayCursorNotFound \<and> rr_LastAcked rr = cursor m sid \<and> rr_Envelopes rr = []"
  by (simp add: ReplaySessionMailbox_def LastAcked_cursor ReplayAfter_unknown)

text \<open>A client that has the whole mailbox and comes back later is sent what was appended since.\<close>

lemma replay_after_reconnect:
  assumes "box m sid \<noteq> []" and "\<forall>s. box_ok s (box m s) \<and> cursor_ok (box m s) (cursor m s)"
    and "int (length (box m sid)) + limit < 2 ^ 63" and m': "m' = run_mails M cs m"
  shows "\<exists>rr new. ReplaySessionMailbox M m' sid (env_ID (last (box m sid))) limit = Inr rr \<and>
    \<not> rr_RequiresResync rr \<and> box m' sid = box m sid @ new \<and> rr_Envelopes rr = replayed limit new"
proof -
  let ?id = "env_ID (last (box m sid))"
  obtain new where new: "box m' sid = box m sid @ new"
    using run_mails_grows [of m sid cs] m' by (auto simp: mailbox_grows_def prefix_def)
  have bo: "box_ok sid (box m sid)" using assms(2) by blast
  have valid: "?id \<noteq> ''''" using bo last_in_set [OF assms(1)] by (auto simp: box_ok_def validateEnvelope_def)
  have split: "box m sid = butlast (box m sid) @ [last (box m sid)]" using assms(1) by simp
  have "?id \<notin> env_ID ` set (butlast (box m sid))"
  proof -
    have "distinct (map env_ID (butlast (box m sid) @ [last (box m sid)]))"
      using bo split by (simp add: box_ok_def)
    then show ?thesis by simp
  qed
  then have "envelopeIndex (butlast (box m sid) @ [last (box m sid)]) ?id = Some (length (box m sid) - 1)"
    by (simp add: envelopeIndex_append envelopeIndex_None split: option.splits) (metis envelopeIndex_None option.distinct(1))
  then have "envelopeIndex (box m' sid) ?id = Some (length (box m sid) - 1)"
    unfolding new using split by (simp add: envelopeIndex_append)
  moreover have "Suc (length (box m sid) - 1) = length (box m sid)" using assms(1) by (cases "box m sid") auto
  ultimately show ?thesis
    using replay_found [OF valid, of m' sid "length (box m sid) - 1" limit] assms(3) new by auto
qed

end

section \<open>The memory mailbox\<close>

text \<open>Reading a key a Go map does not hold gives the zero value.\<close>

definition map_at :: "('k \<Rightarrow> 'v option) \<Rightarrow> 'v \<Rightarrow> 'k \<Rightarrow> 'v" where
  "map_at m z k = (case m k of None \<Rightarrow> z | Some v \<Rightarrow> v)"

lemma map_at_upd [simp]: "map_at (m(k \<mapsto> v)) z = (map_at m z)(k := v)"
  by (auto simp: map_at_def)

record MemoryMailboxStore =
  mb_bySession :: "string \<Rightarrow> Envelope list option"
  mb_acked :: "string \<Rightarrow> string option"

definition NewMemoryMailboxStore :: MemoryMailboxStore where
  "NewMemoryMailboxStore = \<lparr>mb_bySession = (\<lambda>_. None), mb_acked = (\<lambda>_. None)\<rparr>"

definition memory_box :: "MemoryMailboxStore \<Rightarrow> string \<Rightarrow> Envelope list" where
  "memory_box s = map_at (mb_bySession s) []"

definition memory_cursor :: "MemoryMailboxStore \<Rightarrow> string \<Rightarrow> string" where
  "memory_cursor s = map_at (mb_acked s) ''''"

definition MemoryMailbox_Append :: "MemoryMailboxStore \<Rightarrow> Envelope \<Rightarrow> unit res \<times> MemoryMailboxStore" where
  "MemoryMailbox_Append s env =
     (case validateEnvelope env of
        Inl e \<Rightarrow> (Inl e, s)
      | Inr _ \<Rightarrow>
          if list_ex (\<lambda>existing. env_ID existing = env_ID env) (map_at (mb_bySession s) [] (env_SessionID env))
          then (Inl (Sentinel ErrDuplicateEnvelopeID), s)
          else (Inr (), s\<lparr>mb_bySession := (mb_bySession s)(env_SessionID env \<mapsto>
                  map_at (mb_bySession s) [] (env_SessionID env) @ [cloneEnvelope env])\<rparr>))"

text \<open>
  \<open>start+limit\<close> wraps around; with a negative \<open>end\<close> the allocation of the result panics, as
  slicing would.
\<close>

definition MemoryMailbox_ReplayAfter ::
    "MemoryMailboxStore \<Rightarrow> string \<Rightarrow> string \<Rightarrow> int \<Rightarrow> Envelope list res" where
  "MemoryMailbox_ReplayAfter s sessionID afterEnvelopeID limit =
     (let envelopes = map_at (mb_bySession s) [] sessionID;
          start = (if afterEnvelopeID \<noteq> '''' then map_option Suc (envelopeIndex envelopes afterEnvelopeID)
                   else Some 0)
      in case start of
           None \<Rightarrow> Inl (Sentinel ErrEnvelopeNotFound)
         | Some start \<Rightarrow>
             if length envelopes \<le> start then Inr []
             else let end = int (length envelopes);
                      end = (if 0 < limit \<and> i64 (int start + limit) < end then i64 (int start + limit) else end)
                  in andThen (slice_range envelopes (int start) end) (\<lambda>out. Inr (map cloneEnvelope out)))"

definition MemoryMailbox_AckThrough ::
    "MemoryMailboxStore \<Rightarrow> string \<Rightarrow> string \<Rightarrow> unit res \<times> MemoryMailboxStore" where
  "MemoryMailbox_AckThrough s sessionID envelopeID =
     (if envelopeID = '''' then (Inr (), s)
      else let envelopes = map_at (mb_bySession s) [] sessionID
           in case envelopeIndex envelopes envelopeID of
                None \<Rightarrow> (Inl (Sentinel ErrEnvelopeNotFound), s)
              | Some candidateIndex \<Rightarrow>
                  let current = map_at (mb_acked s) '''' sessionID;
                      moved = s\<lparr>mb_acked := (mb_acked s)(sessionID \<mapsto> envelopeID)\<rparr>
                  in if current = '''' then (Inr (), moved)
                     else case envelopeIndex envelopes current of
                            None \<Rightarrow> (Inr (), moved)
                          | Some currentIndex \<Rightarrow>
                              if candidateIndex > currentIndex then (Inr (), moved) else (Inr (), s))"

definition MemoryMailbox_LastAcked :: "MemoryMailboxStore \<Rightarrow> string \<Rightarrow> string res" where
  "MemoryMailbox_LastAcked s sessionID = Inr (map_at (mb_acked s) '''' sessionID)"

definition Memory_Mailbox :: "MemoryMailboxStore MailboxStore" where
  "Memory_Mailbox =
     \<lparr>Append = MemoryMailbox_Append, ReplayAfter = MemoryMailbox_ReplayAfter,
      AckThrough = MemoryMailbox_AckThrough, LastAcked = MemoryMailbox_LastAcked\<rparr>"

lemma Memory_Mailbox_simps [simp]:
  "Append Memory_Mailbox = MemoryMailbox_Append" "ReplayAfter Memory_Mailbox = MemoryMailbox_ReplayAfter"
  "AckThrough Memory_Mailbox = MemoryMailbox_AckThrough" "LastAcked Memory_Mailbox = MemoryMailbox_LastAcked"
  by (simp_all add: Memory_Mailbox_def)

lemma replay_slice:
  assumes "start < length envs" and "int start + limit < 2 ^ 63"
  shows "slice_range envs (int start)
      (if 0 < limit \<and> i64 (int start + limit) < int (length envs) then i64 (int start + limit)
       else int (length envs)) = Inr (replayed limit (drop start envs))"
proof (cases "0 < limit")
  case True
  then have "i64 (int start + limit) = int start + limit"
    using assms(2) by (intro i64_id) (simp add: is_int64_def)
  moreover have "take (length envs - start) (drop start envs) = drop start envs" by simp
  ultimately show ?thesis using True assms(1)
    by (auto simp: slice_range_def replayed_def nat_add_distrib nat_diff_distrib)
next
  case False
  then show ?thesis using assms(1) by (simp add: slice_range_def replayed_def flip: of_nat_diff)
qed

lemma MemoryMailbox_ack_cases:
  assumes "MemoryMailbox_AckThrough s sid i = (r, s')"
  obtains (unknown) "r = Inl (Sentinel ErrEnvelopeNotFound)" "s' = s"
  | (same) "r = Inr ()" "s' = s"
  | (moved) "r = Inr ()" "i \<in> env_ID ` set (memory_box s sid)" "memory_box s' = memory_box s"
      "memory_cursor s' = (memory_cursor s)(sid := i)"
      "ackedCount (memory_box s sid) (memory_cursor s sid) \<le> ackedCount (memory_box s sid) i"
proof (cases "i = '''' \<or> envelopeIndex (memory_box s sid) i = None")
  case True
  then show thesis using assms that(1,2)
    by (auto simp: MemoryMailbox_AckThrough_def memory_box_def Let_def split: if_splits)
next
  case False
  then obtain n where n: "i \<noteq> ''''" "envelopeIndex (memory_box s sid) i = Some n" by auto
  then have "i \<in> env_ID ` set (memory_box s sid)" by (metis envelopeIndex_None option.distinct(1))
  then show thesis using assms n that(2,3)
    by (auto simp: MemoryMailbox_AckThrough_def memory_box_def memory_cursor_def Let_def ackedCount_def
        split: if_splits option.splits)
qed

interpretation memory_mail: mailbox_contract Memory_Mailbox memory_box memory_cursor
proof
  fix m :: MemoryMailboxStore and m' env e sid after i and limit :: int and n
  show "Append Memory_Mailbox m env = (Inr (), m') \<Longrightarrow> validateEnvelope env = Inr () \<and>
        env_ID env \<notin> env_ID ` set (memory_box m (env_SessionID env)) \<and>
        memory_box m' = (memory_box m)(env_SessionID env := memory_box m (env_SessionID env) @ [env]) \<and>
        memory_cursor m' = memory_cursor m"
    by (auto simp: MemoryMailbox_Append_def memory_box_def memory_cursor_def list_ex_iff
        split: sum.splits if_splits)
  show "Append Memory_Mailbox m env = (Inl e, m') \<Longrightarrow>
        memory_box m' = memory_box m \<and> memory_cursor m' = memory_cursor m"
    by (auto simp: MemoryMailbox_Append_def split: sum.splits if_splits)
  show "limit < 2 ^ 63 \<Longrightarrow> ReplayAfter Memory_Mailbox m sid '''' limit = Inr (replayed limit (memory_box m sid))"
    using replay_slice [of 0 "memory_box m sid" limit]
    by (auto simp: MemoryMailbox_ReplayAfter_def memory_box_def Let_def replayed_def)
  show "after \<noteq> '''' \<Longrightarrow> envelopeIndex (memory_box m sid) after = Some n \<Longrightarrow> int (Suc n) + limit < 2 ^ 63 \<Longrightarrow>
        ReplayAfter Memory_Mailbox m sid after limit = Inr (replayed limit (drop (Suc n) (memory_box m sid)))"
    using replay_slice [of "Suc n" "memory_box m sid" limit]
    by (auto simp: MemoryMailbox_ReplayAfter_def memory_box_def Let_def replayed_def)
  show "after \<noteq> '''' \<Longrightarrow> after \<notin> env_ID ` set (memory_box m sid) \<Longrightarrow>
        ReplayAfter Memory_Mailbox m sid after limit = Inl (Sentinel ErrEnvelopeNotFound)"
    by (simp add: MemoryMailbox_ReplayAfter_def memory_box_def Let_def flip: envelopeIndex_None)
  show "AckThrough Memory_Mailbox m sid i = (Inr (), m') \<Longrightarrow> memory_box m' = memory_box m \<and>
        (m' = m \<or> i \<in> env_ID ` set (memory_box m sid) \<and> memory_cursor m' = (memory_cursor m)(sid := i) \<and>
           ackedCount (memory_box m sid) (memory_cursor m sid) \<le> ackedCount (memory_box m sid) i)"
    by (auto elim!: MemoryMailbox_ack_cases)
  show "AckThrough Memory_Mailbox m sid i = (Inl e, m') \<Longrightarrow>
        memory_box m' = memory_box m \<and> memory_cursor m' = memory_cursor m"
    by (auto elim!: MemoryMailbox_ack_cases)
  show "LastAcked Memory_Mailbox m sid = Inr (memory_cursor m sid)"
    by (simp add: MemoryMailbox_LastAcked_def memory_cursor_def)
qed

section \<open>Dispatching events\<close>

text \<open>
  \<open>StaticSessionResolver\<close> is a Go map; an envelope identifier generator is a function with a
  state \<open>'g\<close>, \<open>None\<close> being the nil function.
\<close>

type_synonym StaticSessionResolver = "string \<Rightarrow> string list option"

definition SessionsForDocument :: "StaticSessionResolver \<Rightarrow> string \<Rightarrow> string list res" where
  "SessionsForDocument r documentID = (let sessions = map_at r [] documentID in Inr sessions)"

type_synonym 'g EnvelopeIDGenerator = "('g \<Rightarrow> string \<times> 'g) option"

definition EnvelopeForSession ::
    "string \<Rightarrow> Event \<Rightarrow> 'g EnvelopeIDGenerator \<Rightarrow> 'g \<Rightarrow> Envelope res \<times> 'g" where
  "EnvelopeForSession sessionID event gen g =
     (case gen of
        None \<Rightarrow> (Inl (Sentinel ErrInvalidEnvelope), g)
      | Some f \<Rightarrow>
          (case validateDispatchEvent event of
             Inl _ \<Rightarrow> (Inl (Sentinel ErrInvalidEnvelope), g)
           | Inr _ \<Rightarrow>
               (let (i, g) = f g;
                    env = \<lparr>env_ID = i, env_SessionID = sessionID, env_DocumentID = ev_DocumentID event,
                           env_Kind = EnvelopeKindEvent, env_Version = ev_Version event, env_Event = Some event\<rparr>
                in case validateEnvelope env of
                     Inl e \<Rightarrow> (Inl e, g)
                   | Inr _ \<Rightarrow> (Inr (cloneEnvelope env), g))))"

lemma EnvelopeForSession_Inr:
  assumes "EnvelopeForSession sid event gen g = (Inr env, g')"
  shows "validateEnvelope env = Inr ()" and "env_SessionID env = sid" and "env_Event env = Some event"
    and "env_DocumentID env = ev_DocumentID event" and "env_Version env = ev_Version event"
    and "0 \<le> ev_Version event" and "env_Kind env = EnvelopeKindEvent"
  using assms
  by (auto simp: EnvelopeForSession_def validateDispatchEvent_def Let_def split: option.splits sum.splits
      prod.splits if_splits)

end
