(* ===== verification/Sessions.thy ===== *)
theory Sessions
  imports GoPrelude "HOL-Library.Sublist"
begin

text \<open>
  \<open>sharedb/ws_transport.go\<close>: managed client connections and the session manager.  A \<open>*ClientConn\<close>
  is a number into \<open>tr_conns\<close> (\<open>None\<close> is nil), so that two pointers to one connection share its
  state; a close hook is the session whose registration it removes, as \<open>Register\<close> creates them.
  \<open>cc_queue\<close> is what was queued for the write loop and not yet written, \<open>cc_written\<close> what the
  socket took.  A call of \<open>Enqueue\<close> that waits for room in the channel is one that returns when the
  write loop has made room; a wait that a close interrupts is the cancelled case.

  The first part runs each method as one step, the last part splits \<open>Register\<close> and \<open>Close\<close> into
  their critical sections and interleaves them.
\<close>

section \<open>Connections\<close>

record 'w ClientConn =
  cc_queue :: "'w list"
  cc_sendBuffer :: int
  cc_written :: "'w list"
  cc_done :: bool
  cc_closeOnce :: bool
  cc_closed :: bool
  cc_closeHooks :: "string list"
  cc_liveKeys :: "string set"

record 'w transport =
  tr_conns :: "nat \<Rightarrow> 'w ClientConn"
  tr_next :: nat
  tr_sessions :: "string \<Rightarrow> nat option"

definition freshConn :: "int \<Rightarrow> 'w ClientConn" where
  "freshConn sendBuffer =
     \<lparr>cc_queue = [], cc_sendBuffer = (if sendBuffer \<le> 0 then 1 else sendBuffer), cc_written = [],
      cc_done = False, cc_closeOnce = False, cc_closed = False, cc_closeHooks = [], cc_liveKeys = {}\<rparr>"

definition NewTransport :: "'w transport" where
  "NewTransport = \<lparr>tr_conns = (\<lambda>_. freshConn 1), tr_next = 0, tr_sessions = (\<lambda>_. None)\<rparr>"

definition NewClientConn :: "int \<Rightarrow> 'w transport \<Rightarrow> nat \<times> 'w transport" where
  "NewClientConn sendBuffer t =
     (tr_next t, t\<lparr>tr_conns := (tr_conns t)(tr_next t := freshConn sendBuffer), tr_next := Suc (tr_next t)\<rparr>)"

definition onConn :: "nat \<Rightarrow> ('w ClientConn \<Rightarrow> 'w ClientConn) \<Rightarrow> 'w transport \<Rightarrow> 'w transport" where
  "onConn c f t = t\<lparr>tr_conns := (tr_conns t)(c := f (tr_conns t c))\<rparr>"

lemma onConn_simps [simp]:
  "tr_conns (onConn c f t) = (tr_conns t)(c := f (tr_conns t c))"
  "tr_next (onConn c f t) = tr_next t" "tr_sessions (onConn c f t) = tr_sessions t"
  by (simp_all add: onConn_def)

definition Canceled :: go_error where "Canceled = LibError ''context canceled''"

definition Enqueue :: "nat \<Rightarrow> 'w \<Rightarrow> 'w transport \<Rightarrow> unit res \<times> 'w transport" where
  "Enqueue c data t =
     (if cc_done (tr_conns t c) then (Inl Canceled, t)
      else (Inr (), onConn c (\<lambda>cc. cc\<lparr>cc_queue := cc_queue cc @ [data]\<rparr>) t))"

definition Active :: "string \<Rightarrow> 'w transport \<Rightarrow> nat option" where
  "Active sessionID t = tr_sessions t sessionID"

definition Unregister :: "string \<Rightarrow> nat \<Rightarrow> 'w transport \<Rightarrow> 'w transport" where
  "Unregister sessionID c t =
     (case tr_sessions t sessionID of
        Some current \<Rightarrow> if current = c then t\<lparr>tr_sessions := (tr_sessions t)(sessionID := None)\<rparr> else t
      | None \<Rightarrow> t)"

definition AddCloseHook :: "nat \<Rightarrow> string \<Rightarrow> 'w transport \<Rightarrow> 'w transport" where
  "AddCloseHook c sessionID t =
     (if cc_closed (tr_conns t c) then Unregister sessionID c t
      else onConn c (\<lambda>cc. cc\<lparr>cc_closeHooks := cc_closeHooks cc @ [sessionID]\<rparr>) t)"

fun runHooks :: "nat \<Rightarrow> string list \<Rightarrow> 'w transport \<Rightarrow> 'w transport" where
  "runHooks c [] t = t"
| "runHooks c (h # hs) t = runHooks c hs (Unregister h c t)"

definition Close :: "nat \<Rightarrow> 'w transport \<Rightarrow> 'w transport" where
  "Close c t =
     (if cc_closeOnce (tr_conns t c) then t
      else let hooks = cc_closeHooks (tr_conns t c)
           in runHooks c hooks (onConn c (\<lambda>cc. cc\<lparr>cc_closeOnce := True, cc_done := True, cc_closed := True,
                cc_closeHooks := []\<rparr>) t))"

definition Register :: "string \<Rightarrow> nat option \<Rightarrow> 'w transport \<Rightarrow> unit res \<times> 'w transport" where
  "Register sessionID conn t =
     (case conn of
        None \<Rightarrow> (Inl (Sentinel ErrInvalidSession), t)
      | Some c \<Rightarrow>
          if sessionID = '''' \<or> cc_done (tr_conns t c) then (Inl (Sentinel ErrInvalidSession), t)
          else let t = AddCloseHook c sessionID t;
                   old = tr_sessions t sessionID;
                   t = t\<lparr>tr_sessions := (tr_sessions t)(sessionID \<mapsto> c)\<rparr>
               in (Inr (), case old of None \<Rightarrow> t | Some o' \<Rightarrow> if o' \<noteq> c then Close o' t else t))"

definition liveKey :: "string \<Rightarrow> string \<Rightarrow> string" where
  "liveKey sessionID documentID = sessionID @ [CHR 0x00] @ documentID"

definition claimLiveAttachment :: "nat \<Rightarrow> string \<Rightarrow> string \<Rightarrow> 'w transport \<Rightarrow> bool \<times> 'w transport" where
  "claimLiveAttachment c sessionID documentID t =
     (let key = liveKey sessionID documentID
      in if key \<in> cc_liveKeys (tr_conns t c) then (False, t)
         else (True, onConn c (\<lambda>cc. cc\<lparr>cc_liveKeys := insert key (cc_liveKeys cc)\<rparr>) t))"

definition hasLiveAttachment :: "nat \<Rightarrow> string \<Rightarrow> string \<Rightarrow> 'w transport \<Rightarrow> bool" where
  "hasLiveAttachment c sessionID documentID t =
     (liveKey sessionID documentID \<in> cc_liveKeys (tr_conns t c))"

text \<open>One round of the write loop; \<open>ok\<close> is the outcome of the socket write.\<close>

definition writeLoop_step :: "nat \<Rightarrow> bool \<Rightarrow> 'w transport \<Rightarrow> 'w transport" where
  "writeLoop_step c ok t =
     (if cc_done (tr_conns t c) then t
      else case cc_queue (tr_conns t c) of
             [] \<Rightarrow> t
           | payload # rest \<Rightarrow>
               let t = onConn c (\<lambda>cc. cc\<lparr>cc_queue := rest\<rparr>) t
               in if ok then onConn c (\<lambda>cc. cc\<lparr>cc_written := cc_written cc @ [payload]\<rparr>) t else Close c t)"

section \<open>The registry of sessions\<close>

text \<open>
  The invariant: the active connection of a session was allocated, is open and will remove the
  session when it closes; a connection is cancelled, closed and past its close at the same time.
\<close>

definition session_inv :: "'w transport \<Rightarrow> bool" where
  "session_inv t \<longleftrightarrow>
     (\<forall>sid c. tr_sessions t sid = Some c \<longrightarrow>
        c < tr_next t \<and> \<not> cc_done (tr_conns t c) \<and> sid \<in> set (cc_closeHooks (tr_conns t c))) \<and>
     (\<forall>c. cc_done (tr_conns t c) = cc_closed (tr_conns t c) \<and> cc_closeOnce (tr_conns t c) = cc_done (tr_conns t c))"

lemma session_inv_New: "session_inv NewTransport"
  by (simp add: session_inv_def NewTransport_def freshConn_def)

lemma session_inv_NewClientConn: "session_inv t \<Longrightarrow> session_inv (snd (NewClientConn b t))"
  by (fastforce simp: session_inv_def NewClientConn_def freshConn_def)

lemma Unregister_simps [simp]:
  "tr_conns (Unregister sid c t) = tr_conns t" "tr_next (Unregister sid c t) = tr_next t"
  by (simp_all add: Unregister_def split: option.split)

lemma Unregister_sessions:
  "tr_sessions (Unregister sid c t) s = (if s = sid \<and> tr_sessions t s = Some c then None else tr_sessions t s)"
  by (simp add: Unregister_def split: option.split)

lemma runHooks_simps [simp]:
  "tr_conns (runHooks c hs t) = tr_conns t" "tr_next (runHooks c hs t) = tr_next t"
  by (induction hs arbitrary: t) simp_all

lemma runHooks_sessions:
  "tr_sessions (runHooks c hs t) s = (if s \<in> set hs \<and> tr_sessions t s = Some c then None else tr_sessions t s)"
  by (induction hs arbitrary: t) (auto simp: Unregister_sessions)

lemma Close_next [simp]: "tr_next (Close c t) = tr_next t"
  by (simp add: Close_def Let_def)

lemma Close_sessions:
  assumes "session_inv t"
  shows "tr_sessions (Close c t) s = (if tr_sessions t s = Some c then None else tr_sessions t s)"
  using assms by (fastforce simp: Close_def Let_def runHooks_sessions session_inv_def)

lemma Close_conns:
  "c' \<noteq> c \<Longrightarrow> tr_conns (Close c t) c' = tr_conns t c'"
  "session_inv t \<Longrightarrow> cc_done (tr_conns (Close c t) c)"
  "cc_queue (tr_conns (Close c t) c') = cc_queue (tr_conns t c')"
  "cc_written (tr_conns (Close c t) c') = cc_written (tr_conns t c')"
  "cc_liveKeys (tr_conns (Close c t) c') = cc_liveKeys (tr_conns t c')"
  by (auto simp: Close_def Let_def session_inv_def)

lemma session_inv_Close:
  assumes "session_inv t"
  shows "session_inv (Close c t)"
proof -
  have "tr_sessions (Close c t) s = Some c' \<Longrightarrow> c' \<noteq> c \<and> tr_sessions t s = Some c'" for s c'
    by (auto simp: Close_sessions [OF assms] split: if_splits)
  moreover have "cc_done (tr_conns (Close c t) c') = cc_closed (tr_conns (Close c t) c') \<and>
      cc_closeOnce (tr_conns (Close c t) c') = cc_done (tr_conns (Close c t) c')" for c'
    using assms by (auto simp: Close_def Let_def session_inv_def)
  moreover have "tr_sessions t s = Some c' \<Longrightarrow> c' < tr_next t \<and> \<not> cc_done (tr_conns t c') \<and>
      s \<in> set (cc_closeHooks (tr_conns t c'))" for s c'
    using assms by (simp only: session_inv_def) blast
  ultimately show ?thesis
    unfolding session_inv_def Close_next by (metis Close_conns(1))
qed

text \<open>What a connection's own state changes outside the registry leave alone.\<close>

lemma session_inv_onConn:
  assumes "session_inv t" and "\<And>cc. cc_done (f cc) = cc_done cc" and "\<And>cc. cc_closed (f cc) = cc_closed cc"
    and "\<And>cc. cc_closeOnce (f cc) = cc_closeOnce cc"
    and "\<And>cc. set (cc_closeHooks cc) \<subseteq> set (cc_closeHooks (f cc))"
  shows "session_inv (onConn c f t)"
  using assms unfolding session_inv_def by (auto; fastforce)

lemma session_inv_Enqueue: "session_inv t \<Longrightarrow> session_inv (snd (Enqueue c data t))"
  by (auto simp: Enqueue_def intro: session_inv_onConn)

lemma session_inv_claim: "session_inv t \<Longrightarrow> session_inv (snd (claimLiveAttachment c sid doc t))"
  by (auto simp: claimLiveAttachment_def Let_def intro: session_inv_onConn)

lemma session_inv_writeLoop: "session_inv t \<Longrightarrow> session_inv (writeLoop_step c ok t)"
  by (auto simp: writeLoop_step_def Let_def intro!: session_inv_onConn session_inv_Close split: list.split)

lemma RegisterE:
  assumes "Register sid conn t = (r, t')"
  obtains (refused) "r = Inl (Sentinel ErrInvalidSession)" "t' = t"
  | (registered) c where "conn = Some c" "sid \<noteq> ''''" "\<not> cc_done (tr_conns t c)" "r = Inr ()"
  using assms by (auto simp: Register_def Let_def split: option.splits if_splits)

lemma session_inv_install:
  assumes "session_inv t" and "c < tr_next t" and "\<not> cc_done (tr_conns t c)"
  shows "session_inv ((AddCloseHook c sid t)\<lparr>tr_sessions := (tr_sessions (AddCloseHook c sid t))(sid \<mapsto> c)\<rparr>)"
  using assms by (auto simp: session_inv_def AddCloseHook_def)

lemma AddCloseHook_sessions:
  "session_inv t \<Longrightarrow> \<not> cc_done (tr_conns t c) \<Longrightarrow> tr_sessions (AddCloseHook c sid t) = tr_sessions t"
  by (simp add: AddCloseHook_def session_inv_def)

lemma Register_takes_over:
  assumes inv: "session_inv t" and c: "c < tr_next t" and r: "Register sid (Some c) t = (Inr (), t')"
  shows "session_inv t'" and "Active sid t' = Some c"
    and "tr_sessions t sid = Some old \<Longrightarrow> old \<noteq> c \<Longrightarrow>
      cc_done (tr_conns t' old) \<and> (\<forall>s. Active s t' \<noteq> Some old)"
    and "tr_sessions t' s = (if s = sid then Some c
      else if tr_sessions t sid \<noteq> Some c \<and> tr_sessions t sid \<noteq> None \<and> tr_sessions t s = tr_sessions t sid
      then None else tr_sessions t s)"
proof -
  have open': "\<not> cc_done (tr_conns t c)" using r by (auto elim: RegisterE)
  let ?t1 = "(AddCloseHook c sid t)\<lparr>tr_sessions := (tr_sessions t)(sid \<mapsto> c)\<rparr>"
  have inv1: "session_inv ?t1"
    using session_inv_install [OF inv c open', of sid] by (simp add: AddCloseHook_sessions [OF inv open'])
  have t': "t' = (case tr_sessions t sid of None \<Rightarrow> ?t1 | Some o' \<Rightarrow> if o' \<noteq> c then Close o' ?t1 else ?t1)"
    using r open' AddCloseHook_sessions [OF inv open', of sid]
    by (auto simp: Register_def Let_def split: option.splits if_splits)
  show "session_inv t'" using inv1 by (auto simp: t' intro: session_inv_Close split: option.split)
  show "Active sid t' = Some c"
    by (auto simp: t' Active_def Close_sessions [OF inv1] split: option.split)
  show "tr_sessions t' s = (if s = sid then Some c
      else if tr_sessions t sid \<noteq> Some c \<and> tr_sessions t sid \<noteq> None \<and> tr_sessions t s = tr_sessions t sid
      then None else tr_sessions t s)"
    by (auto simp: t' Close_sessions [OF inv1] AddCloseHook_sessions [OF inv open'] split: option.split)
  show "tr_sessions t sid = Some old \<Longrightarrow> old \<noteq> c \<Longrightarrow>
      cc_done (tr_conns t' old) \<and> (\<forall>s. Active s t' \<noteq> Some old)"
    by (auto simp: t' Active_def Close_sessions [OF inv1] Close_conns(2) [OF inv1])
qed

section \<open>Register and Close, interleaved\<close>

text \<open>
  A goroutine that calls \<open>Register\<close> has checked the connection (\<open>Checked\<close>), then added the close
  hook (\<open>Hooked\<close>), then installed the connection, and closes the one it replaced (\<open>Superseding\<close>).
  One that calls \<open>Close\<close> cancels the context (\<open>Cancelled\<close>), takes the hooks and runs them
  (\<open>RunningHooks\<close>).  Each step is one critical section of the code.
\<close>

datatype session_pc = Idle | Checked string nat | Hooked string nat | Superseding nat
  | Cancelled nat | RunningHooks nat "string list"

type_synonym 'w session_system = "'w transport \<times> (nat \<Rightarrow> session_pc)"

definition install :: "string \<Rightarrow> nat \<Rightarrow> 'w transport \<Rightarrow> 'w transport \<times> session_pc" where
  "install sid c t =
     (t\<lparr>tr_sessions := (tr_sessions t)(sid \<mapsto> c)\<rparr>,
      case tr_sessions t sid of None \<Rightarrow> Idle | Some old \<Rightarrow> if old \<noteq> c then Superseding old else Idle)"

definition cancelConn :: "nat \<Rightarrow> 'w transport \<Rightarrow> 'w transport" where
  "cancelConn c = onConn c (\<lambda>cc. cc\<lparr>cc_closeOnce := True, cc_done := True\<rparr>)"

definition takeHooks :: "nat \<Rightarrow> 'w transport \<Rightarrow> 'w transport" where
  "takeHooks c = onConn c (\<lambda>cc. cc\<lparr>cc_closed := True, cc_closeHooks := []\<rparr>)"

definition closeFinished :: "nat \<Rightarrow> 'w session_system \<Rightarrow> bool" where
  "closeFinished c s \<longleftrightarrow> cc_closeOnce (tr_conns (fst s) c) \<and>
     (\<forall>g. snd s g \<noteq> Cancelled c \<and> (\<forall>hs. snd s g \<noteq> RunningHooks c hs))"

inductive session_step :: "'w session_system \<Rightarrow> 'w session_system \<Rightarrow> bool" where
  accept: "session_step (t, pcs) (snd (NewClientConn b t), pcs)"
| register_check: "pcs g = Idle \<Longrightarrow> sid \<noteq> '''' \<Longrightarrow> c < tr_next t \<Longrightarrow> \<not> cc_done (tr_conns t c) \<Longrightarrow>
    session_step (t, pcs) (t, pcs(g := Checked sid c))"
| register_hook: "pcs g = Checked sid c \<Longrightarrow>
    session_step (t, pcs) (AddCloseHook c sid t, pcs(g := Hooked sid c))"
| register_install: "pcs g = Hooked sid c \<Longrightarrow> install sid c t = (t', pc) \<Longrightarrow>
    session_step (t, pcs) (t', pcs(g := pc))"
| close_cancel: "pcs g = Idle \<or> pcs g = Superseding c \<Longrightarrow> c < tr_next t \<Longrightarrow>
    \<not> cc_closeOnce (tr_conns t c) \<Longrightarrow> session_step (t, pcs) (cancelConn c t, pcs(g := Cancelled c))"
| close_again: "pcs g = Superseding c \<Longrightarrow> closeFinished c (t, pcs) \<Longrightarrow>
    session_step (t, pcs) (t, pcs(g := Idle))"
| close_take: "pcs g = Cancelled c \<Longrightarrow>
    session_step (t, pcs) (takeHooks c t, pcs(g := RunningHooks c (cc_closeHooks (tr_conns t c))))"
| close_hook: "pcs g = RunningHooks c (h # hs) \<Longrightarrow>
    session_step (t, pcs) (Unregister h c t, pcs(g := RunningHooks c hs))"
| close_end: "pcs g = RunningHooks c [] \<Longrightarrow> session_step (t, pcs) (t, pcs(g := Idle))"

inductive_cases session_stepE: "session_step s s'"

inductive session_reachable :: "'w session_system \<Rightarrow> bool" where
  session_start: "session_reachable (NewTransport, \<lambda>_. Idle)"
| session_next: "session_reachable s \<Longrightarrow> session_step s s' \<Longrightarrow> session_reachable s'"

text \<open>
  The invariant: a connection that is active, or about to be, and has not handed out its close
  hooks, has the hook that will unregister it; only allocated connections take part, and only a
  cancelled one hands out its hooks.
\<close>

definition hook_inv :: "'w session_system \<Rightarrow> bool" where
  "hook_inv s \<longleftrightarrow>
     (\<forall>sid c. tr_sessions (fst s) sid = Some c \<or> (\<exists>g. snd s g = Hooked sid c) \<longrightarrow>
        c < tr_next (fst s) \<and>
        (cc_closed (tr_conns (fst s) c) \<or> sid \<in> set (cc_closeHooks (tr_conns (fst s) c)))) \<and>
     (\<forall>g sid c. snd s g = Checked sid c \<or> snd s g = Superseding c \<or> snd s g = Cancelled c \<longrightarrow> c < tr_next (fst s))"

lemma hook_invD:
  "hook_inv s \<Longrightarrow> tr_sessions (fst s) sid = Some c \<Longrightarrow> c < tr_next (fst s) \<and>
     (cc_closed (tr_conns (fst s) c) \<or> sid \<in> set (cc_closeHooks (tr_conns (fst s) c)))"
  "hook_inv s \<Longrightarrow> snd s g = Hooked sid c \<Longrightarrow> c < tr_next (fst s) \<and>
     (cc_closed (tr_conns (fst s) c) \<or> sid \<in> set (cc_closeHooks (tr_conns (fst s) c)))"
  "hook_inv s \<Longrightarrow> snd s g = Checked sid c \<Longrightarrow> c < tr_next (fst s)"
  "hook_inv s \<Longrightarrow> snd s g = Superseding c \<Longrightarrow> c < tr_next (fst s)"
  "hook_inv s \<Longrightarrow> snd s g = Cancelled c \<Longrightarrow> c < tr_next (fst s)"
  by (auto simp: hook_inv_def)

lemma hook_invI:
  assumes "\<And>sid c. tr_sessions t sid = Some c \<Longrightarrow> c < tr_next t \<and>
      (cc_closed (tr_conns t c) \<or> sid \<in> set (cc_closeHooks (tr_conns t c)))"
    and "\<And>g sid c. pcs g = Hooked sid c \<Longrightarrow> c < tr_next t \<and>
      (cc_closed (tr_conns t c) \<or> sid \<in> set (cc_closeHooks (tr_conns t c)))"
    and "\<And>g sid c. pcs g = Checked sid c \<or> pcs g = Superseding c \<or> pcs g = Cancelled c \<Longrightarrow> c < tr_next t"
  shows "hook_inv (t, pcs)"
  using assms unfolding hook_inv_def fst_conv snd_conv by blast

lemma AddCloseHook_effects:
  "tr_next (AddCloseHook c sid t) = tr_next t"
  "cc_closed (tr_conns (AddCloseHook c sid t) c') = cc_closed (tr_conns t c')"
  "s \<in> set (cc_closeHooks (tr_conns t c')) \<Longrightarrow> s \<in> set (cc_closeHooks (tr_conns (AddCloseHook c sid t) c'))"
  "cc_closed (tr_conns t c) \<or> sid \<in> set (cc_closeHooks (tr_conns (AddCloseHook c sid t) c))"
  "tr_sessions (AddCloseHook c sid t) s = Some c' \<Longrightarrow> tr_sessions t s = Some c'"
  by (auto simp: AddCloseHook_def Unregister_sessions split: if_splits)

lemma hook_inv_step:
  assumes "session_step s s'" and inv: "hook_inv s"
  shows "hook_inv s'"
  using assms(1)
proof (cases rule: session_step.cases)
  case (accept t pcs b)
  show ?thesis unfolding accept
    using hook_invD [OF inv] by (intro hook_invI) (fastforce simp: accept NewClientConn_def)+
next
  case (register_hook pcs g sid c t)
  show ?thesis unfolding register_hook
    using hook_invD [OF inv] register_hook AddCloseHook_effects(3,4)
    by (intro hook_invI) (fastforce simp: AddCloseHook_effects(1,2) dest: AddCloseHook_effects(5) split: if_splits)+
next
  case (register_install pcs g sid c t t' pc)
  show ?thesis unfolding register_install(2)
    using hook_invD [OF inv] register_install
    by (intro hook_invI) (fastforce simp: install_def split: if_splits option.splits)+
next
  case (close_cancel pcs g c t)
  show ?thesis unfolding close_cancel
    using hook_invD [OF inv] close_cancel
    by (intro hook_invI) (fastforce simp: cancelConn_def split: if_splits)+
next
  case (close_take pcs g c t)
  show ?thesis unfolding close_take
    using hook_invD [OF inv] close_take
    by (intro hook_invI) (fastforce simp: takeHooks_def split: if_splits)+
next
  case (close_hook pcs g c h hs t)
  show ?thesis unfolding close_hook
    using hook_invD [OF inv] close_hook
    by (intro hook_invI) (fastforce simp: Unregister_sessions split: if_splits)+
next
  case (register_check pcs g sid c t)
  show ?thesis unfolding register_check
    using hook_invD [OF inv] register_check by (intro hook_invI) (fastforce split: if_splits)+
next
  case (close_again pcs g c t)
  show ?thesis unfolding close_again
    using hook_invD [OF inv] close_again by (intro hook_invI) (fastforce split: if_splits)+
next
  case (close_end pcs g c t)
  show ?thesis unfolding close_end
    using hook_invD [OF inv] close_end by (intro hook_invI) (fastforce split: if_splits)+
qed

lemma hook_inv_reachable: "session_reachable s \<Longrightarrow> hook_inv s"
proof (induction rule: session_reachable.induct)
  case session_start
  show ?case by (simp add: hook_inv_def NewTransport_def)
qed (rule hook_inv_step)

end
