(* ===== verification/Protocol.thy ===== *)
theory Protocol
  imports ServerOps Mailbox Sessions
begin

text \<open>
  \<open>sharedb/ws_protocol.go\<close>: the messages of the websocket protocol, their validation, and the
  handlers that connect a session, submit for it, acknowledge its envelopes and relay live events
  to it.  A handler maps the state of the whole transport (server, mailbox, connections, relays)
  to its result and the state it leaves.

  \<open>ws_config\<close> holds what a handler is given: a \<open>None\<close> server, mailbox or generator and a \<open>False\<close>
  session manager are the nil values the code tests for.  The decoders (\<open>json.Unmarshal\<close> into the
  request types) and \<open>json.Valid\<close>, which decides whether \<open>json.Marshal\<close> accepts a
  \<open>json.RawMessage\<close>, are parameters; a queued payload is the message it encodes.
\<close>

section \<open>Messages\<close>

definition MessageTypeConnect :: string where "MessageTypeConnect = ''connect''"
definition MessageTypeAckEnvelope :: string where "MessageTypeAckEnvelope = ''ack_envelope''"
definition MessageTypeSubmit :: string where "MessageTypeSubmit = ''submit''"

definition defaultReplayLimit :: int where "defaultReplayLimit = 256"
definition liveSubscribeBuffer :: int where "liveSubscribeBuffer = 128"

record ConnectRequest =
  cr_Type :: string
  cr_SessionID :: string
  cr_DocumentID :: string
  cr_LastEnvelopeID :: string

record AckEnvelopeRequest =
  ar_Type :: string
  ar_SessionID :: string
  ar_EnvelopeID :: string

record SubmitMessage =
  sm_Type :: string
  sm_SessionID :: string
  sm_DocumentID :: string
  sm_Request :: SubmitRequest

datatype SubmitErrorCode = SubmitErrorCodeStaleResyncRequired | SubmitErrorCodeInvalidVersion
  | SubmitErrorCodeDuplicateSequenceConflict | SubmitErrorCodeInvalidClientMessage | SubmitErrorCodeUnknown

record ConnectedMessage =
  cm_SessionID :: string
  cm_DocumentID :: string
  cm_LastAckedEnvelopeID :: string

record ReplayMessage =
  rm_SessionID :: string
  rm_DocumentID :: string
  rm_Envelopes :: "Envelope list"

record ResyncRequiredMessage =
  rs_SessionID :: string
  rs_DocumentID :: string
  rs_LastAckedEnvelopeID :: string
  rs_Reason :: StaleReason
  rs_CurrentVersion :: int
  rs_MinSupportedVersion :: int
  rs_MaxRebaseGap :: int

record EventMessage =
  em_SessionID :: string
  em_DocumentID :: string
  em_Envelope :: Envelope

record SubmitAckMessage =
  sa_SessionID :: string
  sa_DocumentID :: string
  sa_Result :: SubmitResult
  sa_Envelope :: "Envelope option"

record SubmitErrorMessage =
  se_SessionID :: string
  se_DocumentID :: string
  se_Code :: SubmitErrorCode
  se_Reason :: StaleReason
  se_CurrentVersion :: int
  se_MinSupportedVersion :: int
  se_MaxRebaseGap :: int

text \<open>The message types are the constructors, their fixed \<open>Type\<close> fields are left out.\<close>

datatype ServerMessage = Connected ConnectedMessage | Replay ReplayMessage
  | ResyncRequired ResyncRequiredMessage | EventMsg EventMessage
  | SubmitAck SubmitAckMessage | SubmitError SubmitErrorMessage

section \<open>Configuration and state\<close>

type_synonym ('s, 'l, 'p, 'v) submit_handler =
  "SubmitRequest \<Rightarrow> ('s, 'l, 'p, 'v) server_state \<Rightarrow> SubmitResult res \<times> ('s, 'l, 'p, 'v) server_state"

record ('s, 'l, 'p, 'v, 'f, 'j, 'm, 'g) ws_config =
  wc_server :: "('s, 'l, 'p, 'v, 'f, 'j) server_config option"
  wc_middleware :: "(('s, 'l, 'p, 'v) submit_handler \<Rightarrow> ('s, 'l, 'p, 'v) submit_handler option) list"
  wc_mailbox :: "'m MailboxStore option"
  wc_sessions :: bool
  wc_gen :: "'g EnvelopeIDGenerator"
  wc_valid :: "string \<Rightarrow> bool"
  wc_type :: "string \<Rightarrow> string res"
  wc_connect :: "string \<Rightarrow> ConnectRequest res"
  wc_submit :: "string \<Rightarrow> SubmitMessage res"
  wc_ack :: "string \<Rightarrow> AckEnvelopeRequest res"

text \<open>A live relay: the goroutine \<open>startLiveRelay\<close> starts, reading subscription \<open>rl_events\<close>.\<close>

record relay =
  rl_conn :: nat
  rl_sessionID :: string
  rl_documentID :: string
  rl_events :: int
  rl_skipThroughVersion :: int

record ('s, 'l, 'p, 'v, 'm, 'g) ws_state =
  ws_server :: "('s, 'l, 'p, 'v) server_state"
  ws_mail :: 'm
  ws_transport :: "ServerMessage transport"
  ws_gen :: 'g
  ws_relays :: "relay list"

definition onTransport ::
    "(ServerMessage transport \<Rightarrow> 'a \<times> ServerMessage transport) \<Rightarrow> ('s, 'l, 'p, 'v, 'm, 'g) ws_state \<Rightarrow>
     'a \<times> ('s, 'l, 'p, 'v, 'm, 'g) ws_state" where
  "onTransport f ws = (let (r, t) = f (ws_transport ws) in (r, ws\<lparr>ws_transport := t\<rparr>))"

definition onMail ::
    "('m \<Rightarrow> 'a \<times> 'm) \<Rightarrow> ('s, 'l, 'p, 'v, 'm, 'g) ws_state \<Rightarrow> 'a \<times> ('s, 'l, 'p, 'v, 'm, 'g) ws_state" where
  "onMail f ws = (let (r, m) = f (ws_mail ws) in (r, ws\<lparr>ws_mail := m\<rparr>))"

definition onServer ::
    "(('s, 'l, 'p, 'v) server_state \<Rightarrow> 'a \<times> ('s, 'l, 'p, 'v) server_state) \<Rightarrow>
     ('s, 'l, 'p, 'v, 'm, 'g) ws_state \<Rightarrow> 'a \<times> ('s, 'l, 'p, 'v, 'm, 'g) ws_state" where
  "onServer f ws = (let (r, st) = f (ws_server ws) in (r, ws\<lparr>ws_server := st\<rparr>))"

definition onGen ::
    "('g \<Rightarrow> 'a \<times> 'g) \<Rightarrow> ('s, 'l, 'p, 'v, 'm, 'g) ws_state \<Rightarrow> 'a \<times> ('s, 'l, 'p, 'v, 'm, 'g) ws_state" where
  "onGen f ws = (let (r, g) = f (ws_gen ws) in (r, ws\<lparr>ws_gen := g\<rparr>))"

lemma on_simps:
  "f (ws_transport ws) = (a, t) \<Longrightarrow> onTransport f ws = (a, ws\<lparr>ws_transport := t\<rparr>)"
  "f' (ws_mail ws) = (b, m) \<Longrightarrow> onMail f' ws = (b, ws\<lparr>ws_mail := m\<rparr>)"
  "f'' (ws_server ws) = (d, st) \<Longrightarrow> onServer f'' ws = (d, ws\<lparr>ws_server := st\<rparr>)"
  "f''' (ws_gen ws) = (e, g) \<Longrightarrow> onGen f''' ws = (e, ws\<lparr>ws_gen := g\<rparr>)"
  by (simp_all add: onTransport_def onMail_def onServer_def onGen_def)

section \<open>Sending\<close>

text \<open>\<open>json.Marshal\<close> refuses a message with a \<open>json.RawMessage\<close> that is not JSON; an empty one is null.\<close>

definition rawMarshals :: "(string \<Rightarrow> bool) \<Rightarrow> string \<Rightarrow> bool" where
  "rawMarshals valid s \<longleftrightarrow> s = '''' \<or> valid s"

definition envelopeMarshals :: "(string \<Rightarrow> bool) \<Rightarrow> Envelope \<Rightarrow> bool" where
  "envelopeMarshals valid env =
     (case env_Event env of
        None \<Rightarrow> True
      | Some e \<Rightarrow> rawMarshals valid (ev_Operation e) \<and> rawMarshals valid (ev_Document e))"

fun messageMarshals :: "(string \<Rightarrow> bool) \<Rightarrow> ServerMessage \<Rightarrow> bool" where
  "messageMarshals valid (Replay m) \<longleftrightarrow> list_all (envelopeMarshals valid) (rm_Envelopes m)"
| "messageMarshals valid (EventMsg m) \<longleftrightarrow> envelopeMarshals valid (em_Envelope m)"
| "messageMarshals valid (SubmitAck m) \<longleftrightarrow> rawMarshals valid (res_Operation (sa_Result m)) \<and>
     rawMarshals valid (res_Document (sa_Result m)) \<and>
     (case sa_Envelope m of None \<Rightarrow> True | Some env \<Rightarrow> envelopeMarshals valid env)"
| "messageMarshals valid (Connected m) \<longleftrightarrow> True"
| "messageMarshals valid (ResyncRequired m) \<longleftrightarrow> True"
| "messageMarshals valid (SubmitError m) \<longleftrightarrow> True"

definition sendJSON ::
    "('s, 'l, 'p, 'v, 'f, 'j, 'm, 'g) ws_config \<Rightarrow> nat \<Rightarrow> ServerMessage \<Rightarrow>
     ('s, 'l, 'p, 'v, 'm, 'g) ws_state \<Rightarrow> unit res \<times> ('s, 'l, 'p, 'v, 'm, 'g) ws_state" where
  "sendJSON W c msg ws =
     (if messageMarshals (wc_valid W) msg then onTransport (Enqueue c msg) ws
      else (Inl (LibError ''json''), ws))"

section \<open>Requests\<close>

definition validateConnectRequest :: "ConnectRequest \<Rightarrow> unit res" where
  "validateConnectRequest req =
     (if cr_Type req \<noteq> MessageTypeConnect \<or> cr_SessionID req = '''' \<or> cr_DocumentID req = ''''
      then Inl (Sentinel ErrInvalidClientMessage) else Inr ())"

definition validateAckEnvelopeRequest :: "AckEnvelopeRequest \<Rightarrow> unit res" where
  "validateAckEnvelopeRequest req =
     (if ar_Type req \<noteq> MessageTypeAckEnvelope \<or> ar_SessionID req = '''' \<or> ar_EnvelopeID req = ''''
      then Inl (Sentinel ErrInvalidClientMessage) else Inr ())"

definition validateSubmitMessage :: "SubmitMessage \<Rightarrow> unit res" where
  "validateSubmitMessage msg =
     (if sm_Type msg \<noteq> MessageTypeSubmit \<or> sm_SessionID msg = '''' \<or> sm_DocumentID msg = ''''
      then Inl (Sentinel ErrInvalidClientMessage)
      else let requestDocument = (if req_DocumentID (sm_Request msg) = '''' then sm_DocumentID msg
                                  else req_DocumentID (sm_Request msg))
           in if requestDocument \<noteq> sm_DocumentID msg then Inl (Sentinel ErrInvalidClientMessage) else Inr ())"

definition canonicalizeSubmitRequest :: "SubmitMessage \<Rightarrow> SubmitRequest" where
  "canonicalizeSubmitRequest msg =
     (let req = (sm_Request msg)\<lparr>req_DocumentID := sm_DocumentID msg, req_Source := sm_SessionID msg\<rparr>
      in if id_Source (req_ID req) \<noteq> '''' \<or> id_Sequence (req_ID req) > 0
         then req\<lparr>req_ID := (req_ID req)\<lparr>id_Source := sm_SessionID msg\<rparr>\<rparr> else req)"

text \<open>Whatever source the client puts in its request, the committed identifier names its session.\<close>

lemma canonical_source [simp]: "id_Source (SubmitRequest_opID (canonicalizeSubmitRequest msg)) = sm_SessionID msg"
  by (auto simp: canonicalizeSubmitRequest_def SubmitRequest_opID_def Let_def)

lemma canonical_document [simp]: "req_DocumentID (canonicalizeSubmitRequest msg) = sm_DocumentID msg"
  by (simp add: canonicalizeSubmitRequest_def Let_def)

definition submitAckEnvelope ::
    "string \<Rightarrow> string \<Rightarrow> int \<Rightarrow> 'g EnvelopeIDGenerator \<Rightarrow> 'g \<Rightarrow> Envelope res \<times> 'g" where
  "submitAckEnvelope sessionID documentID version gen g =
     (case gen of
        None \<Rightarrow> (Inl (Sentinel ErrInvalidClientMessage), g)
      | Some f \<Rightarrow>
          (let (i, g) = f g
           in if i = '''' then (Inl (Sentinel ErrInvalidEnvelope), g)
              else (Inr \<lparr>env_ID = i, env_SessionID = sessionID, env_DocumentID = documentID,
                         env_Kind = EnvelopeKindAck, env_Version = version, env_Event = None\<rparr>, g)))"

text \<open>\<open>errors.As\<close> for a \<open>*StaleSubmitError\<close>.\<close>

fun asStaleError :: "go_error \<Rightarrow> StaleSubmitError option" where
  "asStaleError (StaleError e) = Some e"
| "asStaleError (WrapError e) = asStaleError e"
| "asStaleError _ = None"

definition submitErrorMessage :: "string \<Rightarrow> string \<Rightarrow> go_error \<Rightarrow> SubmitErrorMessage" where
  "submitErrorMessage sessionID documentID err =
     (let msg = \<lparr>se_SessionID = sessionID, se_DocumentID = documentID, se_Code = SubmitErrorCodeUnknown,
                 se_Reason = NoStaleReason, se_CurrentVersion = 0, se_MinSupportedVersion = 0,
                 se_MaxRebaseGap = 0\<rparr>
      in case asStaleError err of
           Some (StaleSubmitError reason _ _ current minSupported gap) \<Rightarrow>
             msg\<lparr>se_Code := SubmitErrorCodeStaleResyncRequired, se_Reason := reason,
                 se_CurrentVersion := current, se_MinSupportedVersion := minSupported, se_MaxRebaseGap := gap\<rparr>
         | None \<Rightarrow>
             if errors_Is err ErrInvalidVersion then msg\<lparr>se_Code := SubmitErrorCodeInvalidVersion\<rparr>
             else if errors_Is err ErrDuplicateSequenceConflict
             then msg\<lparr>se_Code := SubmitErrorCodeDuplicateSequenceConflict\<rparr>
             else if errors_Is err ErrInvalidClientMessage
             then msg\<lparr>se_Code := SubmitErrorCodeInvalidClientMessage\<rparr>
             else msg)"

section \<open>Acknowledging and submitting\<close>

type_synonym ('s, 'l, 'p, 'v, 'm, 'g, 'a) ws_action =
  "('s, 'l, 'p, 'v, 'm, 'g) ws_state \<Rightarrow> 'a res \<times> ('s, 'l, 'p, 'v, 'm, 'g) ws_state"

definition refuseMessage :: "('s, 'l, 'p, 'v, 'm, 'g, 'a) ws_action" where
  "refuseMessage ws = (Inl (Sentinel ErrInvalidClientMessage), ws)"

definition HandleAckEnvelope ::
    "('s, 'l, 'p, 'v, 'f, 'j, 'm, 'g) ws_config \<Rightarrow> AckEnvelopeRequest \<Rightarrow>
     ('s, 'l, 'p, 'v, 'm, 'g, unit) ws_action" where
  "HandleAckEnvelope W req ws =
     bindS (validateAckEnvelopeRequest req, ws) (\<lambda>_ ws.
       case wc_mailbox W of
         None \<Rightarrow> refuseMessage ws
       | Some mailbox \<Rightarrow> onMail (\<lambda>m. AckThrough mailbox m (ar_SessionID req) (ar_EnvelopeID req)) ws)"

text \<open>The part of \<open>HandleSubmit\<close> after its guards; a panic of the server is not an error to report.\<close>

definition submitForSession ::
    "('s, 'l, 'p, 'v, 'f, 'j, 'm, 'g) ws_config \<Rightarrow> ('s, 'l, 'p, 'v, 'f, 'j) server_config \<Rightarrow>
     'm MailboxStore \<Rightarrow> nat \<Rightarrow> SubmitMessage \<Rightarrow> ('s, 'l, 'p, 'v, 'm, 'g, unit) ws_action" where
  "submitForSession W server mailbox c msg ws =
     (case onServer (SubmitWithRequest server (wc_middleware W) (canonicalizeSubmitRequest msg)) ws of
        (Inl err, ws) \<Rightarrow>
          (if err = Panic then (Inl Panic, ws)
           else sendJSON W c (SubmitError (submitErrorMessage (sm_SessionID msg) (sm_DocumentID msg) err)) ws)
      | (Inr result, ws) \<Rightarrow>
          (let ack = \<lparr>sa_SessionID = sm_SessionID msg, sa_DocumentID = sm_DocumentID msg,
                      sa_Result = result, sa_Envelope = None\<rparr>
           in if res_Duplicate result then sendJSON W c (SubmitAck ack) ws
              else bindS (onGen (submitAckEnvelope (sm_SessionID msg) (sm_DocumentID msg) (res_Version result)
                     (wc_gen W)) ws) (\<lambda>env ws.
                   bindS (onMail (\<lambda>m. Append mailbox m env) ws) (\<lambda>_ ws.
                   sendJSON W c (SubmitAck (ack\<lparr>sa_Envelope := Some env\<rparr>)) ws))))"

definition HandleSubmit ::
    "('s, 'l, 'p, 'v, 'f, 'j, 'm, 'g) ws_config \<Rightarrow> nat option \<Rightarrow> SubmitMessage \<Rightarrow>
     ('s, 'l, 'p, 'v, 'm, 'g, unit) ws_action" where
  "HandleSubmit W conn msg ws =
     bindS (validateSubmitMessage msg, ws) (\<lambda>_ ws.
       case (conn, wc_server W, wc_mailbox W, wc_gen W) of
         (Some c, Some server, Some mailbox, Some _) \<Rightarrow> submitForSession W server mailbox c msg ws
       | _ \<Rightarrow> refuseMessage ws)"

section \<open>Connecting\<close>

definition sendConnectHandshake ::
    "('s, 'l, 'p, 'v, 'f, 'j, 'm, 'g) ws_config \<Rightarrow> nat option \<Rightarrow> ConnectRequest \<Rightarrow>
     ('s, 'l, 'p, 'v, 'm, 'g, unit) ws_action" where
  "sendConnectHandshake W conn req ws =
     bindS (validateConnectRequest req, ws) (\<lambda>_ ws.
       case (conn, wc_mailbox W) of
         (Some c, Some mailbox) \<Rightarrow>
           bindS (ReplaySessionMailbox mailbox (ws_mail ws) (cr_SessionID req) (cr_LastEnvelopeID req)
                    defaultReplayLimit, ws) (\<lambda>replay ws.
           bindS (sendJSON W c (Connected \<lparr>cm_SessionID = cr_SessionID req, cm_DocumentID = cr_DocumentID req,
                    cm_LastAckedEnvelopeID = rr_LastAcked replay\<rparr>) ws) (\<lambda>_ ws.
           if rr_RequiresResync replay
           then sendJSON W c (ResyncRequired
                  \<lparr>rs_SessionID = cr_SessionID req, rs_DocumentID = cr_DocumentID req,
                   rs_LastAckedEnvelopeID = rr_LastAcked replay, rs_Reason = rr_Reason replay,
                   rs_CurrentVersion = rr_CurrentVersion replay,
                   rs_MinSupportedVersion = rr_MinSupportedVersion replay,
                   rs_MaxRebaseGap = rr_MaxRebaseGap replay\<rparr>) ws
           else if rr_Envelopes replay = [] then (Inr (), ws)
           else sendJSON W c (Replay \<lparr>rm_SessionID = cr_SessionID req, rm_DocumentID = cr_DocumentID req,
                  rm_Envelopes = rr_Envelopes replay\<rparr>) ws))
       | _ \<Rightarrow> refuseMessage ws)"

definition HandleConnect ::
    "('s, 'l, 'p, 'v, 'f, 'j, 'm, 'g) ws_config \<Rightarrow> nat option \<Rightarrow> ConnectRequest \<Rightarrow>
     ('s, 'l, 'p, 'v, 'm, 'g, unit) ws_action" where
  "HandleConnect W conn req ws =
     bindS (sendConnectHandshake W conn req ws) (\<lambda>_ ws.
       if \<not> wc_sessions W then refuseMessage ws
       else onTransport (Register (cr_SessionID req) conn) ws)"

definition maxVersion :: "Envelope list \<Rightarrow> int" where
  "maxVersion envelopes = foldl (\<lambda>m env. if env_Version env > m then env_Version env else m) 0 envelopes"

definition maxReplayEnvelopeVersion ::
    "'m MailboxStore \<Rightarrow> 'm \<Rightarrow> string \<Rightarrow> string \<Rightarrow> int \<Rightarrow> int res" where
  "maxReplayEnvelopeVersion mailbox m sessionID afterEnvelopeID limit =
     andThen (ReplaySessionMailbox mailbox m sessionID afterEnvelopeID limit) (\<lambda>replay.
       Inr (maxVersion (rr_Envelopes replay)))"

text \<open>\<open>startTask\<close> does not start the relay of a closed connection.\<close>

definition startLiveRelay :: "relay \<Rightarrow> ('s, 'l, 'p, 'v, 'm, 'g) ws_state \<Rightarrow> ('s, 'l, 'p, 'v, 'm, 'g) ws_state" where
  "startLiveRelay r ws =
     (if cc_done (tr_conns (ws_transport ws) (rl_conn r)) then ws
      else ws\<lparr>ws_relays := ws_relays ws @ [r]\<rparr>)"

definition cancelSubscription ::
    "('s, 'l, 'p, 'v, 'f, 'j) server_config \<Rightarrow> int \<Rightarrow> ('s, 'l, 'p, 'v, 'm, 'g) ws_state \<Rightarrow>
     ('s, 'l, 'p, 'v, 'm, 'g) ws_state" where
  "cancelSubscription server i ws =
     ws\<lparr>ws_server := (ws_server ws)\<lparr>srv_pub := Unsubscribe (cfg_pub server) (srv_pub (ws_server ws)) i\<rparr>\<rparr>"

text \<open>
  The part of \<open>HandleConnectAndAttachLive\<close> between the subscription and the start of the relay:
  its errors cancel the subscription.
\<close>

definition connectSubscribed ::
    "('s, 'l, 'p, 'v, 'f, 'j, 'm, 'g) ws_config \<Rightarrow> 'm MailboxStore \<Rightarrow> nat \<Rightarrow> ConnectRequest \<Rightarrow>
     ('s, 'l, 'p, 'v, 'm, 'g, int) ws_action" where
  "connectSubscribed W mailbox c req ws =
     bindS (sendConnectHandshake W (Some c) req ws) (\<lambda>_ ws.
     bindS (maxReplayEnvelopeVersion mailbox (ws_mail ws) (cr_SessionID req) (cr_LastEnvelopeID req)
              defaultReplayLimit, ws) (\<lambda>maxReplayVersion ws.
     bindS (onTransport (Register (cr_SessionID req) (Some c)) ws) (\<lambda>_ ws.
     (Inr maxReplayVersion, ws))))"

definition HandleConnectAndAttachLive ::
    "('s, 'l, 'p, 'v, 'f, 'j, 'm, 'g) ws_config \<Rightarrow> nat option \<Rightarrow> ConnectRequest \<Rightarrow>
     ('s, 'l, 'p, 'v, 'm, 'g, unit) ws_action" where
  "HandleConnectAndAttachLive W conn req ws =
     bindS (validateConnectRequest req, ws) (\<lambda>_ ws.
       case (conn, wc_server W, wc_mailbox W, wc_gen W) of
         (Some c, Some server, Some mailbox, Some _) \<Rightarrow>
           (if \<not> wc_sessions W \<or> cc_done (tr_conns (ws_transport ws) c) then refuseMessage ws
            else let (claimed, ws) =
                   onTransport (claimLiveAttachment c (cr_SessionID req) (cr_DocumentID req)) ws
                 in if \<not> claimed then refuseMessage ws
                    else bindS (onServer (Server_Subscribe server (cr_DocumentID req) liveSubscribeBuffer) ws)
                      (\<lambda>events ws.
                        case connectSubscribed W mailbox c req ws of
                          (Inl e, ws) \<Rightarrow> (Inl e, cancelSubscription server events ws)
                        | (Inr maxReplayVersion, ws) \<Rightarrow>
                            (Inr (), startLiveRelay
                               \<lparr>rl_conn = c, rl_sessionID = cr_SessionID req, rl_documentID = cr_DocumentID req,
                                rl_events = events, rl_skipThroughVersion = maxReplayVersion\<rparr> ws)))
       | _ \<Rightarrow> refuseMessage ws)"

definition AttachLiveSession ::
    "('s, 'l, 'p, 'v, 'f, 'j, 'm, 'g) ws_config \<Rightarrow> nat option \<Rightarrow> string \<Rightarrow> string \<Rightarrow>
     ('s, 'l, 'p, 'v, 'm, 'g, unit) ws_action" where
  "AttachLiveSession W conn sessionID documentID ws =
     (case (conn, wc_server W, wc_mailbox W, wc_gen W) of
        (Some c, Some server, Some mailbox, Some _) \<Rightarrow>
          (if sessionID = '''' \<or> documentID = '''' \<or> cc_done (tr_conns (ws_transport ws) c) then refuseMessage ws
           else let (claimed, ws) = onTransport (claimLiveAttachment c sessionID documentID) ws
                in if \<not> claimed then refuseMessage ws
                   else bindS (onServer (Server_Subscribe server documentID liveSubscribeBuffer) ws)
                     (\<lambda>events ws.
                       (Inr (), startLiveRelay
                          \<lparr>rl_conn = c, rl_sessionID = sessionID, rl_documentID = documentID,
                           rl_events = events, rl_skipThroughVersion = 0\<rparr> ws)))
      | _ \<Rightarrow> refuseMessage ws)"

section \<open>Relaying live events\<close>

definition closeConn :: "nat \<Rightarrow> ('s, 'l, 'p, 'v, 'm, 'g) ws_state \<Rightarrow> ('s, 'l, 'p, 'v, 'm, 'g) ws_state" where
  "closeConn c ws = ws\<lparr>ws_transport := Close c (ws_transport ws)\<rparr>"

text \<open>One event taken from the subscription; the result says whether the relay goes on.\<close>

definition relayEvent ::
    "('s, 'l, 'p, 'v, 'f, 'j, 'm, 'g) ws_config \<Rightarrow> 'm MailboxStore \<Rightarrow> relay \<Rightarrow> Event \<Rightarrow>
     ('s, 'l, 'p, 'v, 'm, 'g) ws_state \<Rightarrow> bool \<times> ('s, 'l, 'p, 'v, 'm, 'g) ws_state" where
  "relayEvent W mailbox r event ws =
     (if ev_Version event \<le> rl_skipThroughVersion r then (True, ws)
      else if ev_Source event = rl_sessionID r then (True, ws)
      else case bindS (onGen (EnvelopeForSession (rl_sessionID r) event (wc_gen W)) ws) (\<lambda>env ws.
                bindS (onMail (\<lambda>m. Append mailbox m env) ws) (\<lambda>_ ws.
                sendJSON W (rl_conn r) (EventMsg
                  \<lparr>em_SessionID = rl_sessionID r, em_DocumentID = rl_documentID r, em_Envelope = env\<rparr>) ws)) of
             (Inl _, ws) \<Rightarrow> (False, closeConn (rl_conn r) ws)
           | (Inr _, ws) \<Rightarrow> (True, ws))"

text \<open>The loop of the relay over the events its \<open>select\<close> takes, until it stops.\<close>

fun relayLoop ::
    "('s, 'l, 'p, 'v, 'f, 'j, 'm, 'g) ws_config \<Rightarrow> 'm MailboxStore \<Rightarrow> relay \<Rightarrow> Event list \<Rightarrow>
     ('s, 'l, 'p, 'v, 'm, 'g) ws_state \<Rightarrow> bool \<times> ('s, 'l, 'p, 'v, 'm, 'g) ws_state" where
  "relayLoop W mailbox r [] ws = (True, ws)"
| "relayLoop W mailbox r (event # events) ws =
     (case relayEvent W mailbox r event ws of
        (False, ws) \<Rightarrow> (False, ws)
      | (True, ws) \<Rightarrow> relayLoop W mailbox r events ws)"

section \<open>Inbound messages\<close>

definition NewSessionInboundHandler ::
    "('s, 'l, 'p, 'v, 'f, 'j, 'm, 'g) ws_config \<Rightarrow> nat \<Rightarrow> string \<Rightarrow>
     ('s, 'l, 'p, 'v, 'm, 'g, unit) ws_action" where
  "NewSessionInboundHandler W c payload ws =
     (case wc_type W payload of
        Inl _ \<Rightarrow> refuseMessage ws
      | Inr ty \<Rightarrow>
          if ty = MessageTypeConnect then
            (case wc_connect W payload of
               Inl _ \<Rightarrow> refuseMessage ws
             | Inr req \<Rightarrow> HandleConnectAndAttachLive W (Some c) req ws)
          else if ty = MessageTypeSubmit then
            (case wc_submit W payload of
               Inl _ \<Rightarrow> refuseMessage ws
             | Inr msg \<Rightarrow>
                 if \<not> wc_sessions W then refuseMessage ws
                 else if Active (sm_SessionID msg) (ws_transport ws) \<noteq> Some c then refuseMessage ws
                 else if \<not> hasLiveAttachment c (sm_SessionID msg) (sm_DocumentID msg) (ws_transport ws)
                 then refuseMessage ws
                 else HandleSubmit W (Some c) msg ws)
          else if ty = MessageTypeAckEnvelope then
            (case wc_ack W payload of
               Inl _ \<Rightarrow> refuseMessage ws
             | Inr req \<Rightarrow>
                 if \<not> wc_sessions W then refuseMessage ws
                 else if Active (ar_SessionID req) (ws_transport ws) \<noteq> Some c then refuseMessage ws
                 else HandleAckEnvelope W req ws)
          else refuseMessage ws)"

text \<open>One round of the read loop: an error of the handler closes the connection.\<close>

definition readLoop_step ::
    "('s, 'l, 'p, 'v, 'f, 'j, 'm, 'g) ws_config \<Rightarrow> nat \<Rightarrow> string \<Rightarrow>
     ('s, 'l, 'p, 'v, 'm, 'g) ws_state \<Rightarrow> ('s, 'l, 'p, 'v, 'm, 'g) ws_state" where
  "readLoop_step W c payload ws =
     (case NewSessionInboundHandler W c payload ws of
        (Inl _, ws) \<Rightarrow> closeConn c ws
      | (Inr _, ws) \<Rightarrow> ws)"

end
