(* ===== verification/ServerInvariants.thy ===== *)
theory ServerInvariants
  imports ServerOps
begin

text \<open>
  Invariants of the server's state, for every backend that keeps the promises of
  \<open>backend_contract\<close>: the log of a document numbers its records 1 to the version (\<open>log_inv\<close>), and
  a cached operation stands for the log record it is cached under (\<open>cache_inv\<close>).  \<open>quiet\<close> collects
  what every operation that only reads keeps.
\<close>

section \<open>Invariants\<close>

definition log_ok :: "string \<Rightarrow> memDoc \<Rightarrow> bool" where
  "log_ok docID d \<longleftrightarrow> md_version d = int (length (md_ops d)) \<and>
     (\<forall>i < length (md_ops d). op_DocumentID (md_ops d ! i) = docID \<and> op_Version (md_ops d ! i) = int i + 1)"

definition log_inv :: "('s \<Rightarrow> string \<Rightarrow> memDoc option) \<Rightarrow> ('s, 'l, 'p, 'v) server_state \<Rightarrow> bool" where
  "log_inv stored st \<longleftrightarrow> (\<forall>docID d. stored (srv_backend st) docID = Some d \<longrightarrow> log_ok docID d)"

definition log_size :: "('s \<Rightarrow> string \<Rightarrow> memDoc option) \<Rightarrow> nat \<Rightarrow> ('s, 'l, 'p, 'v) server_state \<Rightarrow> bool" where
  "log_size stored n st \<longleftrightarrow>
     (\<forall>docID d. stored (srv_backend st) docID = Some d \<longrightarrow> length (md_ops d) \<le> n)"

text \<open>
  An operation stands for a text when it is a clone of one that the text was written from, or that was
  read from it.
\<close>

definition stands_for ::
    "('s, 'l, 'p, 'v, 'f, 'j) server_config \<Rightarrow> string \<Rightarrow> 'v Operation \<Rightarrow> bool" where
  "stands_for C raw op \<longleftrightarrow>
     (\<exists>op'. cloneOperation op' = Inr op \<and>
        (raw = RawMessage (cfg_env C) (Operation_ToValue (cfg_env C) op') \<or>
         (\<exists>(st :: ('s, 'l, 'p, 'v) server_state) st'. parseOperation C raw st = (Inr op', st'))))"

text \<open>
  The paths and the operators of an operation without the values; edits in place keep them.  An
  operation represents a record when it is what a series of edits has made of one that stands for
  the text of the record.
\<close>

definition op_shape :: "'v Operation \<Rightarrow> (Path \<times> unit operator) list option" where
  "op_shape op = map_option (map (\<lambda>c. (Path c, map_operator (\<lambda>_. ()) (Operator c)))) op"

definition represents ::
    "('s, 'l, 'p, 'v, 'f, 'j) server_config \<Rightarrow> OpRecord \<Rightarrow> 'v Operation \<Rightarrow> bool" where
  "represents C r op \<longleftrightarrow>
     (\<exists>op' ts. stands_for C (op_Op r) op' \<and>
        op = fold (\<lambda>t. editOperation (cfg_env C) t (op_DocumentID r) (op_Version r)) ts op')"

lemma op_shape_edit [simp]: "op_shape (editOperation E t docID v op) = op_shape op"
proof -
  have o: "map_operator (\<lambda>_. ()) (editOperator f x) = map_operator (\<lambda>_. ()) x" for f :: "bool \<Rightarrow> 'a \<Rightarrow> 'a" and x
    by (cases x) simp_all
  have "map (\<lambda>c. (Path c, map_operator (\<lambda>_. ()) (Operator c))) (editComponents f i cs) =
      map (\<lambda>c. (Path c, map_operator (\<lambda>_. ()) (Operator c))) cs" for f :: "nat \<Rightarrow> bool \<Rightarrow> 'a \<Rightarrow> 'a" and i cs
    by (induction cs arbitrary: i) (simp_all add: o)
  then show ?thesis by (cases op) (simp_all add: op_shape_def editOperation_def)
qed

lemma op_shape_edits: "op_shape (fold (\<lambda>t. editOperation E t docID v) ts op) = op_shape op"
  by (induction ts arbitrary: op) simp_all

lemma editOperation_id:
  assumes "\<And>i new x. sharedEdit E t docID v i new x = x"
  shows "editOperation E t docID v op = op"
proof -
  have o: "editOperator (sharedEdit E t docID v i) x = x" for i x
    by (cases x) (simp_all add: assms)
  have "editComponents (sharedEdit E t docID v) i cs = cs" for i cs
    by (induction cs arbitrary: i) (simp_all add: o)
  then show ?thesis by (cases op) (simp_all add: editOperation_def)
qed

lemma represents_shape:
  assumes "represents C r op"
  obtains op' where "stands_for C (op_Op r) op'" "op_shape op = op_shape op'"
    "(\<And>t docID v i new x. sharedEdit (cfg_env C) t docID v i new x = x) \<Longrightarrow> op = op'"
proof -
  obtain op' ts where op': "stands_for C (op_Op r) op'"
      "op = fold (\<lambda>t. editOperation (cfg_env C) t (op_DocumentID r) (op_Version r)) ts op'"
    using assms by (auto simp: represents_def)
  have "op = op'" if "\<And>t docID v i new x. sharedEdit (cfg_env C) t docID v i new x = x"
  proof -
    have "fold (\<lambda>t. editOperation (cfg_env C) t (op_DocumentID r) (op_Version r)) ts op' = op'" for ts
      by (induction ts) (simp_all add: editOperation_id that)
    then show ?thesis using op'(2) by simp
  qed
  then show thesis using op' by (intro that [of op']) (simp_all add: op_shape_edits)
qed

lemma represents_new: "stands_for C (op_Op r) op \<Longrightarrow> represents C r op"
  unfolding represents_def by (intro exI [of _ op] exI [of _ "[]"]) simp

lemma represents_edited:
  "represents C r op \<Longrightarrow> represents C r (editOperation (cfg_env C) t (op_DocumentID r) (op_Version r) op)"
  unfolding represents_def
proof (elim exE conjE)
  fix op' ts
  assume "stands_for C (op_Op r) op'"
    and "op = fold (\<lambda>t. editOperation (cfg_env C) t (op_DocumentID r) (op_Version r)) ts op'"
  then show "\<exists>op' ts. stands_for C (op_Op r) op' \<and>
      editOperation (cfg_env C) t (op_DocumentID r) (op_Version r) op =
        fold (\<lambda>t. editOperation (cfg_env C) t (op_DocumentID r) (op_Version r)) ts op'"
    by (intro exI [of _ op'] exI [of _ "ts @ [t]"]) simp
qed

lemma inHand_simps [simp]:
  "inHand C docID k st None = None"
  "inHand C docID k st (Some []) = Some []"
  by (simp_all add: inHand_def editOperation_def)

lemma inHand_Some: "\<exists>cs'. inHand C docID k st (Some cs) = Some cs' \<and> length cs' = length cs"
proof -
  have "length (editComponents f i cs) = length cs" for f :: "nat \<Rightarrow> bool \<Rightarrow> 'a \<Rightarrow> 'a" and i cs
    by (induction cs arbitrary: i) simp_all
  then show ?thesis by (simp add: inHand_def editOperation_def)
qed

definition in_log :: "('s \<Rightarrow> string \<Rightarrow> memDoc option) \<Rightarrow> 's \<Rightarrow> OpRecord \<Rightarrow> bool" where
  "in_log stored s r \<longleftrightarrow>
     (\<exists>d i. stored s (op_DocumentID r) = Some d \<and> i < length (md_ops d) \<and> md_ops d ! i = r \<and>
            op_Version r = int i + 1)"

definition cache_inv ::
    "('s, 'l, 'p, 'v, 'f, 'j) server_config \<Rightarrow> ('s \<Rightarrow> string \<Rightarrow> memDoc option) \<Rightarrow>
     ('s, 'l, 'p, 'v) server_state \<Rightarrow> bool" where
  "cache_inv C stored st \<longleftrightarrow>
     (\<forall>docID versions v op. srv_parsedOps st docID = Some versions \<longrightarrow> versions v = Some op \<longrightarrow>
        (\<exists>r. in_log stored (srv_backend st) r \<and> op_DocumentID r = docID \<and> op_Version r = v \<and>
             represents C r op))"

definition quiet ::
    "('s, 'l, 'p, 'v, 'f, 'j) server_config \<Rightarrow> ('s \<Rightarrow> string \<Rightarrow> memDoc option) \<Rightarrow>
     ('s, 'l, 'p, 'v) server_state \<Rightarrow> ('s, 'l, 'p, 'v) server_state \<Rightarrow> bool" where
  "quiet C stored st st' \<longleftrightarrow>
     srv_backend st' = srv_backend st \<and> srv_pub st' = srv_pub st \<and> srv_locks st' = srv_locks st \<and>
     (cache_inv C stored st \<longrightarrow> cache_inv C stored st')"

named_theorems quiet_intros \<open>operations that leave the services as they are\<close>

lemma quiet_refl [quiet_intros, simp]: "quiet C stored st st"
  by (simp add: quiet_def)

lemma quiet_trans: "quiet C stored st st' \<Longrightarrow> quiet C stored st' st'' \<Longrightarrow> quiet C stored st st''"
  by (simp add: quiet_def)

lemma quietD:
  assumes "quiet C stored st st'"
  shows "srv_backend st' = srv_backend st" "srv_pub st' = srv_pub st" "srv_locks st' = srv_locks st"
    "cache_inv C stored st \<Longrightarrow> cache_inv C stored st'"
  using assms by (simp_all add: quiet_def)

lemma inv_frame [simp]:
  "log_inv stored (st\<lparr>srv_locks := l\<rparr>) = log_inv stored st"
  "log_inv stored (st\<lparr>srv_pub := p\<rparr>) = log_inv stored st"
  "log_size stored n (st\<lparr>srv_locks := l\<rparr>) = log_size stored n st"
  "log_size stored n (st\<lparr>srv_pub := p\<rparr>) = log_size stored n st"
  "cache_inv C stored (st\<lparr>srv_locks := l\<rparr>) = cache_inv C stored st"
  "cache_inv C stored (st\<lparr>srv_pub := p\<rparr>) = cache_inv C stored st"
  "cache_inv C stored (st\<lparr>srv_fresh := k\<rparr>) = cache_inv C stored st"
  by (simp_all add: log_inv_def log_size_def cache_inv_def)

text \<open>Edits in place keep a cached operation a representative of its record.\<close>

lemma touch_simps [simp]:
  "srv_backend (touch C st) = srv_backend st" "srv_pub (touch C st) = srv_pub st"
  "srv_locks (touch C st) = srv_locks st" "srv_fresh (touch C st) = srv_fresh st"
  by (simp_all add: touch_def)

lemma countEdits_simps [simp]:
  "srv_backend (countEdits st) = srv_backend st" "srv_pub (countEdits st) = srv_pub st"
  "srv_locks (countEdits st) = srv_locks st" "srv_parsedOps (countEdits st) = srv_parsedOps st"
  "srv_fresh (countEdits st) = srv_fresh st"
  by (simp_all add: countEdits_def)

lemma countEdits_quiet [quiet_intros]: "quiet C stored st (countEdits st)"
  by (simp add: quiet_def cache_inv_def)

lemma touch_cache_inv:
  assumes "cache_inv C stored st"
  shows "cache_inv C stored (touch C st)"
  unfolding cache_inv_def
proof (intro allI impI)
  fix docID versions v op
  assume "srv_parsedOps (touch C st) docID = Some versions" and "versions v = Some op"
  then obtain vs op0 where old: "srv_parsedOps st docID = Some vs" "vs v = Some op0"
      and op: "op = editOperation (cfg_env C) (srv_edits st) docID v op0"
    by (auto simp: touch_def touchCache_def)
  obtain r where "in_log stored (srv_backend st) r" "op_DocumentID r = docID" "op_Version r = v" "represents C r op0"
    using assms old unfolding cache_inv_def by blast
  then show "\<exists>r. in_log stored (srv_backend (touch C st)) r \<and> op_DocumentID r = docID \<and> op_Version r = v \<and>
      represents C r op"
    using op represents_edited by fastforce
qed

lemma touch_quiet [quiet_intros]: "quiet C stored st (touch C st)"
  by (simp add: quiet_def touch_cache_inv)

section \<open>Locks\<close>

lemma withLock_cases:
  assumes "withLock C docID body st = (r, st')"
  obtains (refused) e l where "r = Inl e" "st' = st\<lparr>srv_locks := l\<rparr>"
  | (ran) l st1 l' where "body (st\<lparr>srv_locks := l\<rparr>) = (r, st1)" "st' = st1\<lparr>srv_locks := l'\<rparr>"
proof (cases "Lock (cfg_locker C) (srv_locks st) docID")
  case (Pair x l)
  show thesis
  proof (cases x)
    case (Inl e)
    then have "r = Inl e" "st' = st\<lparr>srv_locks := l\<rparr>" using assms Pair by (simp_all add: withLock_def)
    then show thesis by (rule refused)
  next
    case (Inr u)
    obtain r1 st1 where "body (st\<lparr>srv_locks := l\<rparr>) = (r1, st1)" by fastforce
    then have "r1 = r" "st1\<lparr>srv_locks := Unlock (cfg_locker C) (srv_locks st1) docID\<rparr> = st'"
      using assms Pair Inr by (simp_all add: withLock_def)
    then show thesis using ran [OF \<open>body _ = (r1, st1)\<close> [unfolded \<open>r1 = r\<close>]] by metis
  qed
qed

section \<open>Reading\<close>

lemma parseOperation_frame:
  "parseOperation C raw st = (r, st') \<Longrightarrow> st' = st\<lparr>srv_fresh := srv_fresh st'\<rparr>"
  unfolding parseOperation_def Let_def
  by (auto split: sum.splits option.splits prod.splits)

lemma parseOperation_quiet [quiet_intros]:
  assumes "parseOperation C raw st = (r, st')"
  shows "quiet C stored st st'"
proof -
  obtain k where "st' = st\<lparr>srv_fresh := k\<rparr>" using parseOperation_frame [OF assms] by metis
  then show ?thesis by (simp add: quiet_def)
qed

lemma Cache_Store_Inr:
  assumes "Cache_Store c docID v op = Inr c'" and "c' docID' = Some versions" and "versions v' = Some op'"
  shows "docID' = docID \<and> v' = v \<and> cloneOperation op = Inr op' \<or>
         (\<exists>old. c docID' = Some old \<and> old v' = Some op')"
  using assms by (auto simp: Cache_Store_def Let_def andThen_Inr_iff split: option.splits if_splits)

lemma cacheCommittedOperation_frame:
  assumes "cacheCommittedOperation docID v op st = (r, st')"
  shows "srv_backend st' = srv_backend st \<and> srv_pub st' = srv_pub st \<and> srv_locks st' = srv_locks st"
  using assms by (auto simp: cacheCommittedOperation_def split: if_splits sum.splits)

lemma cacheCommittedOperation_cache_inv:
  assumes c: "cacheCommittedOperation docID v op st = (r, st')"
    and inv: "cache_inv C stored st"
    and log: "in_log stored (srv_backend st) rcd" "op_DocumentID rcd = docID" "op_Version rcd = v"
    and op: "\<And>op'. cloneOperation op = Inr op' \<Longrightarrow> represents C rcd op'"
  shows "cache_inv C stored st'"
proof (cases "st' = st")
  case True
  then show ?thesis using inv by simp
next
  case False
  then obtain c where store: "Cache_Store (srv_parsedOps st) docID v op = Inr c"
      and st': "st' = st\<lparr>srv_parsedOps := c\<rparr>"
    using c by (auto simp: cacheCommittedOperation_def split: if_splits sum.splits)
  show ?thesis unfolding cache_inv_def
  proof (intro allI impI)
    fix docID' versions v' op'
    assume "srv_parsedOps st' docID' = Some versions" and v: "versions v' = Some op'"
    then have "c docID' = Some versions" by (simp add: st')
    from Cache_Store_Inr [OF store this v]
    consider "docID' = docID" "v' = v" "cloneOperation op = Inr op'"
      | old where "srv_parsedOps st docID' = Some old" "old v' = Some op'" by blast
    then show "\<exists>r. in_log stored (srv_backend st') r \<and> op_DocumentID r = docID' \<and> op_Version r = v' \<and>
               represents C r op'"
    proof cases
      case 1
      then show ?thesis using log op st' by auto
    next
      case 2
      then show ?thesis using inv st' by (auto simp: cache_inv_def)
    qed
  qed
qed

lemma getOrParse_quiet [quiet_intros]:
  assumes g: "getOrParseCommittedOperation C opRec st = (r, st')"
    and log: "in_log stored (srv_backend st) opRec"
  shows "quiet C stored st st'"
proof (cases "Cache_Get (srv_parsedOps st) (op_DocumentID opRec) (op_Version opRec) = Inr None")
  case False
  then have "st' = st" using g
    by (auto simp: getOrParseCommittedOperation_def split: sum.splits option.splits)
  then show ?thesis by simp
next
  case True
  obtain r1 st1 where p: "parseOperation C (op_Op opRec) st = (r1, st1)" by fastforce
  then have q1: "quiet C stored st st1" by (rule parseOperation_quiet)
  show ?thesis
  proof (cases r1)
    case (Inl e)
    then have "st' = st1" using g p True by (simp add: getOrParseCommittedOperation_def)
    then show ?thesis using q1 by simp
  next
    case (Inr op)
    obtain r2 st2 where c: "cacheCommittedOperation (op_DocumentID opRec) (op_Version opRec) op st1 = (r2, st2)"
      by fastforce
    have st2: "st' = st2" using g p True Inr c by (cases r2) (simp_all add: getOrParseCommittedOperation_def)
    have log1: "in_log stored (srv_backend st1) opRec" using log q1 by (simp add: quiet_def)
    have rep: "represents C opRec op'" if "cloneOperation op = Inr op'" for op'
      using p Inr that unfolding stands_for_def by (intro represents_new [unfolded stands_for_def]) blast
    have "cache_inv C stored st1 \<Longrightarrow> cache_inv C stored st2"
      using cacheCommittedOperation_cache_inv [OF c _ log1 refl refl rep] by blast
    then have "quiet C stored st1 st2"
      using cacheCommittedOperation_frame [OF c] by (simp add: quiet_def)
    then show ?thesis using q1 st2 by (auto intro: quiet_trans)
  qed
qed

lemma inverseOperation_quiet [quiet_intros]:
  assumes i: "inverseOperation C opRec st = (r, st')" and log: "in_log stored (srv_backend st) opRec"
  shows "quiet C stored st st'"
proof -
  obtain r1 st1 where g: "getOrParseCommittedOperation C opRec st = (r1, st1)" by fastforce
  have q: "quiet C stored st st1" by (rule getOrParse_quiet [OF g log])
  show ?thesis
  proof (cases r1)
    case (Inl e)
    then show ?thesis using i g q by (simp add: inverseOperation_def)
  next
    case (Inr op)
    then have "st' = st1 \<or> (\<exists>raw r'. parseOperation C raw st1 = (r', st'))"
      using i g by (auto simp: inverseOperation_def split: sum.splits)
    then show ?thesis using q by (auto intro: quiet_trans parseOperation_quiet)
  qed
qed

lemma undo_loop_quiet [quiet_intros]:
  "undo_loop C v recs st = (r, st') \<Longrightarrow> \<forall>x \<in> set recs. in_log stored (srv_backend st) x \<Longrightarrow>
   quiet C stored st st'"
proof (induction recs arbitrary: v st)
  case (Cons x recs)
  obtain r1 st1 where i: "inverseOperation C x st = (r1, st1)" by fastforce
  have q: "quiet C stored st st1" using inverseOperation_quiet [OF i] Cons.prems(2) by simp
  then have log: "\<forall>x \<in> set recs. in_log stored (srv_backend st1) x"
    using Cons.prems(2) by (simp add: quiet_def)
  show ?case using Cons.prems(1) i q log Cons.IH
    by (cases r1) (auto split: sum.splits intro: quiet_trans)
qed simp

lemma rollback_loop_quiet [quiet_intros]:
  "rollback_loop C op v recs st = (r, st') \<Longrightarrow> \<forall>x \<in> set recs. in_log stored (srv_backend st) x \<Longrightarrow>
   quiet C stored st st'"
proof (induction recs arbitrary: op v st)
  case (Cons x recs)
  obtain r1 st1 where i: "inverseOperation C x st = (r1, st1)" by fastforce
  have q: "quiet C stored st st1" using inverseOperation_quiet [OF i] Cons.prems(2) by simp
  then have log: "\<forall>x \<in> set recs. in_log stored (srv_backend st1) x"
    using Cons.prems(2) by (simp add: quiet_def)
  show ?case using Cons.prems(1) i q log Cons.IH
    by (cases r1) (auto split: sum.splits prod.splits intro: quiet_trans)
qed simp

lemma rebase_loop_quiet [quiet_intros]:
  "rebase_loop C op recs st = (r, st') \<Longrightarrow> \<forall>x \<in> set recs. in_log stored (srv_backend st) x \<Longrightarrow>
   quiet C stored st st'"
proof (induction recs arbitrary: op st)
  case (Cons x recs)
  obtain r1 st1 where i: "getOrParseCommittedOperation C x st = (r1, st1)" by fastforce
  have q: "quiet C stored st st1" using getOrParse_quiet [OF i] Cons.prems(2) by simp
  then have log: "\<forall>x \<in> set recs. in_log stored (srv_backend st1) x"
    using Cons.prems(2) by (simp add: quiet_def)
  show ?case
  proof (cases "wrapError r1")
    case (Inl e)
    then show ?thesis using Cons.prems(1) i q by simp
  next
    case (Inr y)
    have t: "quiet C stored st (touch C st1)" using q touch_quiet by (rule quiet_trans)
    have log1: "\<forall>x \<in> set recs. in_log stored (srv_backend (touch C st1)) x" using log by simp
    show ?thesis
    proof (cases "Engine_Transform (cfg_env C) op y")
      case (Inl e)
      then show ?thesis using Cons.prems(1) i Inr t by simp
    next
      case (Inr lr)
      then show ?thesis
        using Cons.prems(1) i \<open>wrapError r1 = Inr y\<close> quiet_trans [OF t Cons.IH [OF _ log1]]
        by (auto split: prod.splits)
    qed
  qed
qed simp

section \<open>Operations that write\<close>

definition sound_step ::
    "('s, 'l, 'p, 'v, 'f, 'j) server_config \<Rightarrow> ('s \<Rightarrow> string \<Rightarrow> memDoc option) \<Rightarrow>
     ('s, 'l, 'p, 'v) server_state \<Rightarrow> ('s, 'l, 'p, 'v) server_state \<Rightarrow> bool" where
  "sound_step C stored st st' \<longleftrightarrow>
     (\<forall>n. log_inv stored st \<and> log_size stored n st \<and> int n + 1 < 2 ^ 63 \<longrightarrow>
          log_inv stored st' \<and> log_size stored (Suc n) st' \<and> (cache_inv C stored st \<longrightarrow> cache_inv C stored st'))"

lemma log_size_Suc: "log_size stored n st \<Longrightarrow> log_size stored (Suc n) st"
  unfolding log_size_def by (auto intro: le_SucI)

lemma inv_same_backend:
  assumes "srv_backend st' = srv_backend st"
  shows "log_inv stored st' = log_inv stored st" "log_size stored n st' = log_size stored n st"
  using assms by (simp_all add: log_inv_def log_size_def)

lemma quiet_sound: "quiet C stored st st' \<Longrightarrow> sound_step C stored st st'"
  by (auto simp: sound_step_def dest: quietD inv_same_backend [OF quietD(1)] log_size_Suc)

lemma quiet_sound_trans:
  assumes q: "quiet C stored st st1" and s: "sound_step C stored st1 st2"
  shows "sound_step C stored st st2"
  using s quietD(4) [OF q] inv_same_backend [OF quietD(1) [OF q]] by (auto simp: sound_step_def)

text \<open>To show that a step is sound one may assume the invariant of the log.\<close>

lemma sound_stepI:
  "(log_inv stored st \<Longrightarrow> sound_step C stored st st') \<Longrightarrow> sound_step C stored st st'"
  by (auto simp: sound_step_def)

lemma sound_frame [simp]:
  "sound_step C stored (st\<lparr>srv_locks := l\<rparr>) st' = sound_step C stored st st'"
  "sound_step C stored st (st'\<lparr>srv_locks := l\<rparr>) = sound_step C stored st st'"
  "sound_step C stored st (st'\<lparr>srv_pub := p\<rparr>) = sound_step C stored st st'"
  by (simp_all add: sound_step_def)

lemma sound_refl [simp]: "sound_step C stored st st"
  by (simp add: quiet_sound)

lemma withLock_sound:
  assumes w: "withLock C docID body st = (r, st')"
    and body: "\<And>l r st1. body (st\<lparr>srv_locks := l\<rparr>) = (r, st1) \<Longrightarrow>
      sound_step C stored (st\<lparr>srv_locks := l\<rparr>) st1"
  shows "sound_step C stored st st'"
  using w by (cases rule: withLock_cases) (auto dest: body)

locale server_history = backend_contract "cfg_backend C" stored
  for C :: "('s, 'l, 'p, 'v, 'f, 'j) server_config" and stored
begin

lemma GetDoc_Inr:
  assumes "GetDoc (cfg_backend C) s docID = Inr r"
  obtains d where "stored s docID = Some d" and "r = doc_record docID d"
  using assms GetDoc_stored GetDoc_missing by (cases "stored s docID") fastforce+

lemma log_okD:
  assumes "log_inv stored st" and "stored (srv_backend st) docID = Some d"
  shows "md_version d = int (length (md_ops d))"
    and "x \<in> set (md_ops d) \<Longrightarrow> in_log stored (srv_backend st) x"
proof -
  have ok: "log_ok docID d" using assms by (simp add: log_inv_def)
  then show "md_version d = int (length (md_ops d))" by (simp add: log_ok_def)
  show "in_log stored (srv_backend st) x" if x: "x \<in> set (md_ops d)"
  proof -
    obtain i where i: "i < length (md_ops d)" "md_ops d ! i = x" using x by (metis in_set_conv_nth)
    then have "op_DocumentID x = docID" "op_Version x = int i + 1" using ok by (auto simp: log_ok_def)
    then show ?thesis using i assms(2) by (auto simp: in_log_def)
  qed
qed

lemma GetOps_in_log:
  assumes inv: "log_inv stored st" and d: "stored (srv_backend st) docID = Some d"
    and range: "0 \<le> from" "from \<le> md_version d"
  obtains ops where "GetOps (cfg_backend C) (srv_backend st) docID from (md_version d) = Inr ops"
    and "\<forall>x \<in> set ops. in_log stored (srv_backend st) x" and "ops = drop (nat from) (md_ops d)"
proof -
  have v: "md_version d = int (length (md_ops d))" using log_okD(1) [OF inv d] .
  have "GetOps (cfg_backend C) (srv_backend st) docID from (md_version d) =
        Inr (take (nat (md_version d - from)) (drop (nat from) (md_ops d)))"
    using range v by (intro GetOps_stored [OF d]) auto
  also have "take (nat (md_version d - from)) (drop (nat from) (md_ops d)) = drop (nat from) (md_ops d)"
    using range v by simp
  finally show thesis using log_okD(2) [OF inv d] by (intro that) (auto dest: in_set_dropD)
qed

lemma in_log_commit:
  assumes d: "stored s docID = Some d" and s': "stored s' = (stored s)(docID \<mapsto> committed d r op)"
  shows "in_log stored s x \<Longrightarrow> in_log stored s' x"
  unfolding in_log_def using d s' by (force simp: committed_def nth_append)

lemma commit_sound:
  assumes d: "stored (srv_backend st) docID = Some d"
    and c: "CommitOp (cfg_backend C) (srv_backend st)
        \<lparr>doc_DocumentID = docID, doc_Version = v, doc_Doc = doc\<rparr> op = (Inr u, s')"
    and v: "v = i64 (md_version d + 1)" and op: "op_DocumentID op = docID" "op_Version op = v"
    and inv: "log_inv stored st" "log_size stored n st" and n: "int n + 1 < 2 ^ 63"
  shows "log_inv stored (st\<lparr>srv_backend := s'\<rparr>)"
    "cache_inv C stored st \<Longrightarrow> cache_inv C stored (st\<lparr>srv_backend := s'\<rparr>)"
    "log_size stored (Suc n) (st\<lparr>srv_backend := s'\<rparr>)" "in_log stored s' op"
proof -
  let ?r = "\<lparr>doc_DocumentID = docID, doc_Version = v, doc_Doc = doc\<rparr>"
  have s': "stored s' = (stored (srv_backend st))(docID \<mapsto> committed d ?r op)"
    using CommitOp_stored [of "srv_backend st" ?r d op s'] c d by simp
  have len: "md_version d = int (length (md_ops d))" "length (md_ops d) \<le> n"
    using log_okD(1) [OF inv(1) d] inv(2) d by (auto simp: log_size_def)
  then have v': "v = int (length (md_ops d)) + 1" using v n by (simp add: is_int64_def)
  have ok: "log_ok docID d" using inv(1) d by (simp add: log_inv_def)
  have "log_ok docID (committed d ?r op)"
    using ok op v' by (auto simp: log_ok_def committed_def nth_append less_Suc_eq)
  then show "log_inv stored (st\<lparr>srv_backend := s'\<rparr>)" using inv(1) by (simp add: log_inv_def s')
  show "log_size stored (Suc n) (st\<lparr>srv_backend := s'\<rparr>)"
    using inv(2) len(2) by (auto simp: log_size_def s' committed_def intro: le_SucI)
  show "in_log stored s' op" unfolding in_log_def
    using op v' s' by (intro exI [of _ "committed d ?r op"] exI [of _ "length (md_ops d)"])
      (simp add: committed_def)
  show "cache_inv C stored st \<Longrightarrow> cache_inv C stored (st\<lparr>srv_backend := s'\<rparr>)"
    using in_log_commit [OF d s'] by (fastforce simp: cache_inv_def)
qed

lemma commit_cache_sound:
  assumes d: "stored (srv_backend st) docID = Some d"
    and c: "CommitOp (cfg_backend C) (srv_backend st)
        \<lparr>doc_DocumentID = docID, doc_Version = v, doc_Doc = doc\<rparr> op = (r1, s')"
    and v: "v = i64 (md_version d + 1)" and op: "op_DocumentID op = docID" "op_Version op = v"
    and raw: "op_Op op = RawMessage (cfg_env C) (Operation_ToValue (cfg_env C) parsed)"
    and k: "r1 = Inr () \<Longrightarrow> cacheCommittedOperation docID v parsed (st\<lparr>srv_backend := s'\<rparr>) = (r2, st')"
    and e: "r1 \<noteq> Inr () \<Longrightarrow> st' = st\<lparr>srv_backend := s'\<rparr>"
  shows "sound_step C stored st st'"
proof (cases r1)
  case (Inl x)
  have "stored s' = stored (srv_backend st)" using CommitOp_error c Inl by blast
  then show ?thesis using e Inl
    by (auto simp: sound_step_def log_inv_def log_size_def cache_inv_def in_log_def intro: le_SucI)
next
  case (Inr x)
  have k': "cacheCommittedOperation docID v parsed (st\<lparr>srv_backend := s'\<rparr>) = (r2, st')"
    using k Inr by simp
  have rep: "represents C op op'" if "cloneOperation parsed = Inr op'" for op'
    using that raw by (intro represents_new) (auto simp: stands_for_def)
  have bk: "srv_backend st' = s'" using cacheCommittedOperation_frame [OF k'] by simp
  show ?thesis unfolding sound_step_def
  proof (intro allI impI, elim conjE)
    fix n
    assume inv: "log_inv stored st" "log_size stored n st" and n: "int n + 1 < 2 ^ 63"
    note cs = commit_sound [OF d c [unfolded Inr] v op inv n]
    have "cache_inv C stored st \<longrightarrow> cache_inv C stored st'"
      using cacheCommittedOperation_cache_inv [OF k' cs(2) _ op rep] cs(4) by simp
    then show "log_inv stored st' \<and> log_size stored (Suc n) st' \<and> (cache_inv C stored st \<longrightarrow> cache_inv C stored st')"
      using cs(1,3) bk by (simp add: log_inv_def log_size_def)
  qed
qed

end

section \<open>Every call keeps the invariants\<close>

context server_history
begin

lemma CreateDocument_sound:
  assumes "CreateDocument C docID initial st = (r, st')"
  shows "sound_step C stored st st'"
  using assms unfolding CreateDocument_def
proof (rule withLock_sound)
  fix l r st1
  let ?st = "st\<lparr>srv_locks := l\<rparr>" and ?initial = "if initial = '''' then ''{}'' else initial"
  assume body: "(let payload = ?initial in
      bindS (onBackend (CreateDoc (cfg_backend C) (srv_backend ?st) docID payload) ?st) (\<lambda>_ st.
         (Inr \<lparr>snap_DocumentID = docID, snap_Version = 0, snap_Document = payload\<rparr>, st))) = (r, st1)"
  obtain c s' where c: "CreateDoc (cfg_backend C) (srv_backend st) docID ?initial = (c, s')" by fastforce
  have st1: "st1 = ?st\<lparr>srv_backend := s'\<rparr>" using body c by (cases c) (simp_all add: onBackend_def)
  show "sound_step C stored ?st st1"
  proof (cases c)
    case (Inl e)
    then have "stored s' = stored (srv_backend st)" using CreateDoc_error c by blast
    then show ?thesis using st1
      by (auto simp: sound_step_def log_inv_def log_size_def cache_inv_def in_log_def intro: le_SucI)
  next
    case (Inr u)
    show ?thesis
    proof (cases "stored (srv_backend st) docID")
      case None
      then have s': "stored s' = (stored (srv_backend st))
          (docID \<mapsto> \<lparr>md_version = 0, md_doc = ?initial, md_ops = []\<rparr>)"
        using CreateDoc_new c Inr by simp
      have keep: "in_log stored (srv_backend st) x \<Longrightarrow> in_log stored s' x" for x
        using None s' by (force simp: in_log_def)
      have "cache_inv C stored st \<Longrightarrow> cache_inv C stored st1"
        using keep st1 by (fastforce simp: cache_inv_def)
      then show ?thesis using s' st1
        by (auto simp: sound_step_def log_inv_def log_size_def log_ok_def intro: le_SucI)
    next
      case (Some d)
      then show ?thesis using CreateDoc_exists [OF Some] c Inr by simp
    qed
  qed
qed

lemma DeleteDocument_sound:
  assumes "DeleteDocument C docID baseVersion source st = (r, st')"
  shows "sound_step C stored st st'"
  using assms unfolding DeleteDocument_def
proof (rule withLock_sound, goal_cases)
  case (1 l r st1)
  let ?st = "st\<lparr>srv_locks := l\<rparr>"
  obtain c s' where c: "DeleteDoc (cfg_backend C) (srv_backend st) docID = (c, s')" by fastforce
  have "st1 = ?st \<or> (\<exists>e. c = Inl e) \<and> st1 = ?st\<lparr>srv_backend := s'\<rparr> \<or>
    (\<exists>p. c = Inr () \<and> st1 = ?st\<lparr>srv_backend := s',
       srv_parsedOps := Cache_DeleteDocument (srv_parsedOps st) docID, srv_pub := p\<rparr>)"
    using 1 c by (cases c) (auto simp: onBackend_def publish_def split: sum.splits if_splits)
  then consider "st1 = ?st" | e where "c = Inl e" "st1 = ?st\<lparr>srv_backend := s'\<rparr>"
    | p where "c = Inr ()" "st1 = ?st\<lparr>srv_backend := s',
       srv_parsedOps := Cache_DeleteDocument (srv_parsedOps st) docID, srv_pub := p\<rparr>" by blast
  then show ?case
  proof cases
    case 2
    then have "stored s' = stored (srv_backend st)" using DeleteDoc_error c by blast
    then show ?thesis using 2
      by (auto simp: sound_step_def log_inv_def log_size_def cache_inv_def in_log_def intro: le_SucI)
  next
    case 3
    then have s': "stored s' = (stored (srv_backend st))(docID := None)" using DeleteDoc_stored c by simp
    have keep: "in_log stored (srv_backend st) x \<Longrightarrow> op_DocumentID x \<noteq> docID \<Longrightarrow> in_log stored s' x" for x
      using s' by (force simp: in_log_def)
    have "cache_inv C stored st \<Longrightarrow> cache_inv C stored st1"
      using keep 3(2) unfolding cache_inv_def
      by (simp add: Cache_DeleteDocument_def split: if_splits) blast
    then show ?thesis using s' 3(2)
      by (auto simp: sound_step_def log_inv_def log_size_def intro: le_SucI)
  qed simp
qed

lemma storeCommitted_sound:
  assumes c: "storeCommitted C (doc_record docID d) req op rebased applied st = (r, st')"
    and d: "stored (srv_backend st) docID = Some d" and docID: "docID = req_DocumentID req"
  shows "sound_step C stored st st'"
proof -
  let ?opID = "SubmitRequest_opID req"
  define v where "v = i64 (md_version d + 1)"
  define raw where "raw = RawMessage (cfg_env C) (Operation_ToValue (cfg_env C) op)"
  define entry where "entry = \<lparr>op_DocumentID = docID, op_Version = v, op_BaseVersion = req_BaseVersion req,
    op_ID = ?opID, op_Source = id_Source ?opID, op_Sequence = id_Sequence ?opID,
    op_SubmittedOp = req_Operation req, op_Op = raw\<rparr>"
  obtain r1 s' where k: "CommitOp (cfg_backend C) (srv_backend st)
      \<lparr>doc_DocumentID = docID, doc_Version = v, doc_Doc = RawMessage (cfg_env C) applied\<rparr> entry = (r1, s')"
    by fastforce
  obtain r2 st2 where kk: "cacheCommittedOperation docID v op (st\<lparr>srv_backend := s'\<rparr>) = (r2, st2)" by fastforce
  have *: "if r1 = Inr () then \<exists>p. st' = st2\<lparr>srv_pub := p\<rparr> else st' = st\<lparr>srv_backend := s'\<rparr>"
    using c k [unfolded entry_def v_def raw_def docID] kk [unfolded v_def docID]
    by (cases r1; cases r2)
      (auto simp: storeCommitted_def doc_record_def Let_def onBackend_def publish_def v_def docID
        intro: exI [of _ "srv_pub st2"])
  have "sound_step C stored st (if r1 = Inr () then st2 else st\<lparr>srv_backend := s'\<rparr>)"
    using commit_cache_sound [OF d k v_def, of op r2] kk by (simp add: entry_def raw_def)
  then show ?thesis using * by (auto split: if_splits)
qed

lemma commitOperation_cases:
  assumes "commitOperation C r req op rebased st = (res, st')"
  obtains (unread) e where "res = Inl e" "st' = st"
  | (unapplied) e where "res = Inl e" "st' = touch C st"
  | (applied) v applied where "UnmarshalValue (cfg_env C) (doc_Doc r) = Inr v"
      "Engine_Apply (cfg_env C) v op = Inr applied"
      "storeCommitted C r req (inHand C (req_DocumentID req) 0 st op) rebased applied (touch C st) = (res, st')"
  using assms by (auto simp: commitOperation_def split: sum.splits)

lemma commitOperation_sound:
  assumes c: "commitOperation C (doc_record docID d) req op rebased st = (r, st')"
    and d: "stored (srv_backend st) docID = Some d" and docID: "docID = req_DocumentID req"
  shows "sound_step C stored st st'"
  using c
proof (cases rule: commitOperation_cases)
  case (unapplied e)
  then show ?thesis by (simp add: quiet_sound touch_quiet)
next
  case (applied v x)
  then show ?thesis using d docID
    by (intro quiet_sound_trans [OF touch_quiet storeCommitted_sound [OF applied(3)]]) simp_all
qed simp

lemma rebase_quiet:
  assumes r: "rebase C (doc_record docID d) req op st = (res, st')"
    and inv: "log_inv stored st" and d: "stored (srv_backend st) docID = Some d"
    and docID: "docID = req_DocumentID req" and base: "0 \<le> req_BaseVersion req"
  shows "quiet C stored st st'"
proof (cases "req_BaseVersion req < md_version d")
  case True
  then obtain ops where "GetOps (cfg_backend C) (srv_backend st) docID (req_BaseVersion req) (md_version d) = Inr ops"
      and "\<forall>x \<in> set ops. in_log stored (srv_backend st) x"
    using GetOps_in_log [OF inv d base] by (metis less_imp_le)
  then show ?thesis using r docID
    by (auto simp: rebase_def doc_record_def Let_def split: if_splits intro: rebase_loop_quiet)
next
  case False
  then show ?thesis using r by (simp add: rebase_def doc_record_def)
qed

end

context server_history
begin

text \<open>
  The three ways a submission ends: an error, an answer from the current state (a retry, or an
  operation with nothing left to do), or a commit.
\<close>

lemma submit_tail_cases:
  assumes run: "bindS (rebase C (doc_record docID d) req op st) (\<lambda>transformed st.
      case Operation_IsEmpty transformed of
        Inl e \<Rightarrow> (Inl e, st)
      | Inr True \<Rightarrow> (Inr res0, st)
      | Inr False \<Rightarrow> commitOperation C (doc_record docID d) req transformed rebased st) = (r, st')"
    and q: "\<forall>r1 st1. rebase C (doc_record docID d) req op st = (r1, st1) \<longrightarrow> quiet C stored st st1"
  obtains (stopped) e where "r = Inl e" "quiet C stored st st'"
  | (answered) "r = Inr res0" "quiet C stored st st'"
  | (committing) cs st1 where "quiet C stored st st1"
      "commitOperation C (doc_record docID d) req (Some cs) rebased st1 = (r, st')"
proof -
  obtain r1 st1 where b: "rebase C (doc_record docID d) req op st = (r1, st1)" by fastforce
  have q1: "quiet C stored st st1" using q b by blast
  consider e where "r1 = Inl e" | "r1 = Inr None" | "r1 = Inr (Some [])" | c cs where "r1 = Inr (Some (c # cs))"
    by (metis list.exhaust option.exhaust sum.exhaust_sel)
  then show thesis
  proof cases
    case 1
    then show thesis using run b q1 stopped by auto
  next
    case 2
    then show thesis using run b q1 stopped by (auto simp: Operation_IsEmpty_def)
  next
    case 3
    then show thesis using run b q1 answered by (auto simp: Operation_IsEmpty_def)
  next
    case 4
    then show thesis using run b q1 committing by (simp add: Operation_IsEmpty_def)
  qed
qed

lemma duplicateResult_Some:
  assumes "duplicateResult C r req st = Inr (Some res)"
  shows "res_Version res = doc_Version r" "res_Document res = doc_Doc r" "res_Duplicate res"
  using assms by (auto simp: duplicateResult_def Let_def andThen_Inr_iff split: if_splits option.splits)

lemma submitLocked_cases:
  assumes s: "submitLocked C req st = (r, st')" and inv: "log_inv stored st"
  obtains (stopped) e where "r = Inl e" "quiet C stored st st'"
  | (answered) res d where "r = Inr res" "quiet C stored st st'"
      "stored (srv_backend st) (req_DocumentID req) = Some d"
      "res_Version res = md_version d" "res_Document res = md_doc d"
  | (committing) d cs rebased st1 where "quiet C stored st st1"
      "stored (srv_backend st) (req_DocumentID req) = Some d"
      "commitOperation C (doc_record (req_DocumentID req) d) req (Some cs) rebased st1 = (r, st')"
      "duplicateResult C (doc_record (req_DocumentID req) d) req st = Inr None"
proof (cases "GetDoc (cfg_backend C) (srv_backend st) (req_DocumentID req)")
  case (Inl e)
  then show thesis using s stopped by (auto simp: submitLocked_def)
next
  case g: (Inr rcd)
  then obtain d where d: "stored (srv_backend st) (req_DocumentID req) = Some d"
      and rcd: "rcd = doc_record (req_DocumentID req) d" by (rule GetDoc_Inr)
  have id: "doc_Version rcd = md_version d" "doc_Doc rcd = md_doc d" by (simp_all add: rcd doc_record_def)
  consider (range) "req_BaseVersion req < 0 \<or> req_BaseVersion req > md_version d"
    | (conflict) e where "\<not> (req_BaseVersion req < 0 \<or> req_BaseVersion req > md_version d)"
        "duplicateResult C rcd req st = Inl e"
    | (retry) res where "\<not> (req_BaseVersion req < 0 \<or> req_BaseVersion req > md_version d)"
        "duplicateResult C rcd req st = Inr (Some res)"
    | (fresh) "\<not> (req_BaseVersion req < 0 \<or> req_BaseVersion req > md_version d)"
        "duplicateResult C rcd req st = Inr None"
    by (metis option.exhaust sum.exhaust_sel)
  then show thesis
  proof cases
    case range
    then show thesis using s g id stopped by (auto simp: submitLocked_def)
  next
    case conflict
    then show thesis using s g id stopped by (auto simp: submitLocked_def)
  next
    case retry
    then have "r = Inr res" "st' = st" using s g id by (simp_all add: submitLocked_def)
    then show thesis using duplicateResult_Some [OF retry(2)] id d by (intro answered) simp_all
  next
    case fresh
    obtain p1 st1 where p: "parseOperation C (req_Operation req) st = (p1, st1)" by fastforce
    have q1: "quiet C stored st st1" by (rule parseOperation_quiet [OF p])
    show thesis
    proof (cases p1)
      case (Inl e)
      then show thesis using s g id fresh p q1 stopped by (auto simp: submitLocked_def)
    next
      case (Inr op)
      have d1: "log_inv stored st1" "stored (srv_backend st1) (req_DocumentID req) = Some d"
        using d inv quietD(1) [OF q1] by (simp_all add: inv_same_backend [OF quietD(1) [OF q1]])
      have q2: "\<forall>r2 st2. rebase C (doc_record (req_DocumentID req) d) req op st1 = (r2, st2) \<longrightarrow>
          quiet C stored st1 st2"
        using rebase_quiet [OF _ d1 refl] fresh(1) by simp
      let ?r = "doc_record (req_DocumentID req) d"
      let ?res = "\<lparr>res_Version = doc_Version ?r, res_Rebased = req_BaseVersion req < md_version d,
        res_Duplicate = False, res_Operation = ''[]'', res_Document = doc_Doc ?r\<rparr>"
      have "bindS (rebase C (doc_record (req_DocumentID req) d) req op st1) (\<lambda>transformed st.
        case Operation_IsEmpty transformed of
          Inl e \<Rightarrow> (Inl e, st)
        | Inr True \<Rightarrow> (Inr ?res, st)
        | Inr False \<Rightarrow> commitOperation C (doc_record (req_DocumentID req) d) req transformed
            (req_BaseVersion req < md_version d) st) = (r, st')"
        using s g id fresh p Inr rcd by (simp add: submitLocked_def Let_def)
      from this q2 show thesis
      proof (cases rule: submit_tail_cases)
        case (stopped e)
        then show thesis using that(1) quiet_trans [OF q1] by blast
      next
        case answered
        show thesis
          by (rule that(2) [OF answered(1) quiet_trans [OF q1 answered(2)] d]) (simp_all add: doc_record_def)
      next
        case (committing cs st2)
        show thesis
          by (rule that(3) [OF quiet_trans [OF q1 committing(1)] d committing(2) fresh(2) [unfolded rcd]])
      qed
    qed
  qed
qed

lemma submitLocked_sound:
  assumes s: "submitLocked C req st = (res, st')"
  shows "sound_step C stored st st'"
proof (rule sound_stepI)
  assume inv: "log_inv stored st"
  from s inv show ?thesis
  proof (cases rule: submitLocked_cases)
    case (committing d cs rebased st1)
    then have "stored (srv_backend st1) (req_DocumentID req) = Some d" by (simp add: quiet_def)
    then show ?thesis using commitOperation_sound [OF committing(3)] committing(1)
      by (auto intro: quiet_sound_trans)
  qed (simp_all add: quiet_sound)
qed

lemma submitCore_sound:
  "submitCore C req st = (res, st') \<Longrightarrow> sound_step C stored st st'"
  unfolding submitCore_def by (rule withLock_sound) (auto dest: submitLocked_sound)

lemma GetOperations_in_log:
  assumes "GetOperations C docID from (md_version d) st = Inr ops" and "log_inv stored st"
    and "stored (srv_backend st) docID = Some d"
  shows "\<forall>x \<in> set ops. in_log stored (srv_backend st) x" "ops = drop (nat from) (md_ops d)" "0 \<le> from"
proof -
  have range: "0 \<le> from" "from \<le> md_version d"
    and g: "GetOps (cfg_backend C) (srv_backend st) docID from (md_version d) = Inr ops"
    using assms(1) by (auto simp: GetOperations_def andThen_Inr_iff split: if_splits)
  show "\<forall>x \<in> set ops. in_log stored (srv_backend st) x" "ops = drop (nat from) (md_ops d)"
    using g by (auto intro: GetOps_in_log [OF assms(2,3) range])
  show "0 \<le> from" by (fact range)
qed

lemma GetSnapshotAt_quiet:
  assumes s: "GetSnapshotAt C docID v st = (res, st')" and inv: "log_inv stored st"
  shows "quiet C stored st st'"
proof (cases "st' = st")
  case False
  then obtain r where g: "GetDoc (cfg_backend C) (srv_backend st) docID = Inr r"
    using s by (auto simp: GetSnapshotAt_def split: sum.splits)
  obtain d where d: "stored (srv_backend st) docID = Some d" and r: "r = doc_record docID d"
    using GetDoc_Inr [OF g] by blast
  obtain x st1 where x: "documentAtVersion C r v st = (x, st1)" by fastforce
  have st1: "st' = st1" using s g False x by (cases x) (auto simp: GetSnapshotAt_def split: if_splits)
  have id: "doc_DocumentID r = docID" "doc_Version r = md_version d" by (simp_all add: r doc_record_def)
  obtain ops w y where o: "GetOperations C docID v (md_version d) st = Inr ops"
      and u: "undo_loop C w (rev ops) st = (y, st1)"
  proof -
    obtain ops w where ow: "GetOperations C docID v (md_version d) st = Inr ops"
        "UnmarshalValue (cfg_env C) (doc_Doc r) = Inr w"
      using x False st1 by (auto simp: documentAtVersion_def id andThen_Inr_iff split: sum.splits)
    obtain y st2 where "undo_loop C w (rev ops) st = (y, st2)" by fastforce
    then show thesis using x that [OF ow(1)] by (cases y) (auto simp: documentAtVersion_def id ow)
  qed
  show ?thesis using undo_loop_quiet [OF u] GetOperations_in_log(1) [OF o inv d] st1 by simp
qed simp

lemma GetSnapshotAt_sound:
  "GetSnapshotAt C docID v st = (res, st') \<Longrightarrow> sound_step C stored st st'"
  by (blast intro: sound_stepI quiet_sound GetSnapshotAt_quiet)

text \<open>The last part of a rollback: commit the composed inverses.\<close>

lemma rollback_commit_cases:
  assumes run: "bindS (onBackend (CommitOp (cfg_backend C) (srv_backend st)
        \<lparr>doc_DocumentID = docID, doc_Version = v, doc_Doc = doc\<rparr> entry) st) (\<lambda>_ st.
      bindS (cacheCommittedOperation docID v op st) (\<lambda>_ st. (Inr res0, publish C e0 st))) = (res, st')"
    and d: "stored (srv_backend st) docID = Some d"
    and v: "v = i64 (md_version d + 1)" and entry: "op_DocumentID entry = docID" "op_Version entry = v"
      "op_Op entry = RawMessage (cfg_env C) (Operation_ToValue (cfg_env C) op)"
  shows "sound_step C stored st st'"
    and "stored (srv_backend st') = stored (srv_backend st) \<or>
         (\<exists>r. stored (srv_backend st') = (stored (srv_backend st))(docID \<mapsto> committed d r entry))"
proof -
  let ?doc = "\<lparr>doc_DocumentID = docID, doc_Version = v, doc_Doc = doc\<rparr>"
  obtain r1 s' where k: "CommitOp (cfg_backend C) (srv_backend st) ?doc entry = (r1, s')" by fastforce
  obtain r2 st2 where kk: "cacheCommittedOperation docID v op (st\<lparr>srv_backend := s'\<rparr>) = (r2, st2)"
    by fastforce
  have *: "if r1 = Inr () then \<exists>p. st' = st2\<lparr>srv_pub := p\<rparr> else st' = st\<lparr>srv_backend := s'\<rparr>"
    using run k kk
    by (cases r1; cases r2) (auto simp: onBackend_def publish_def intro: exI [of _ "srv_pub st2"])
  have "sound_step C stored st (if r1 = Inr () then st2 else st\<lparr>srv_backend := s'\<rparr>)"
    using commit_cache_sound [OF d k v entry, of r2] kk by simp
  then show "sound_step C stored st st'" using * by (auto split: if_splits)
  have "srv_backend st' = s'" using * cacheCommittedOperation_frame [OF kk] by (auto split: if_splits)
  moreover have "r1 = Inr () \<Longrightarrow> stored s' = (stored (srv_backend st))(docID \<mapsto> committed d ?doc entry)"
    using CommitOp_stored [of "srv_backend st" ?doc d entry s'] k d by simp
  moreover have "r1 \<noteq> Inr () \<Longrightarrow> stored s' = stored (srv_backend st)"
    using k CommitOp_error by (cases r1) auto
  ultimately show "stored (srv_backend st') = stored (srv_backend st) \<or>
      (\<exists>r. stored (srv_backend st') = (stored (srv_backend st))(docID \<mapsto> committed d r entry))"
    by blast
qed

lemma rollbackToVersionOperation_quiet:
  assumes x: "rollbackToVersionOperation C (doc_record docID d) target st = (x, st')"
    and d: "stored (srv_backend st) docID = Some d" and inv: "log_inv stored st"
  shows "quiet C stored st st'"
proof (cases "st' = st")
  case False
  have id: "doc_DocumentID (doc_record docID d) = docID" "doc_Version (doc_record docID d) = md_version d"
    by (simp_all add: doc_record_def)
  obtain ops w where ow: "GetOperations C docID target (md_version d) st = Inr ops"
      "UnmarshalValue (cfg_env C) (doc_Doc (doc_record docID d)) = Inr w"
    using x False by (auto simp: rollbackToVersionOperation_def id andThen_Inr_iff split: sum.splits)
  obtain y st2 where y: "rollback_loop C (NewOperation []) w (rev ops) st = (y, st2)" by fastforce
  then have "st2 = st'" using x by (cases y) (auto simp: rollbackToVersionOperation_def id ow)
  then show ?thesis using rollback_loop_quiet [OF y] GetOperations_in_log(1) [OF ow(1) inv d] by simp
qed simp

text \<open>A rollback is quiet, or commits one record without a sequence number.\<close>

lemma rollbackLocked_cases:
  assumes s: "rollbackLocked C docID target source st = (res, st')" and inv: "log_inv stored st"
  obtains (stopped) "quiet C stored st st'"
  | (committing) d st1 entry where "quiet C stored st st1" "stored (srv_backend st) docID = Some d"
      "sound_step C stored st1 st'" "op_Sequence entry = 0" "op_ID entry = noOpID"
      "stored (srv_backend st') = stored (srv_backend st) \<or>
       (\<exists>r. stored (srv_backend st') = (stored (srv_backend st))(docID \<mapsto> committed d r entry))"
proof (cases "st' = st")
  case False
  then obtain r where g: "GetDoc (cfg_backend C) (srv_backend st) docID = Inr r"
    using s by (auto simp: rollbackLocked_def split: sum.splits)
  obtain d where d: "stored (srv_backend st) docID = Some d" and r: "r = doc_record docID d"
    using GetDoc_Inr [OF g] by blast
  have id: "doc_Version r = md_version d" by (simp add: r doc_record_def)
  obtain x st1 where x: "rollbackToVersionOperation C r target st = (x, st1)" by fastforce
  have q: "quiet C stored st st1" by (rule rollbackToVersionOperation_quiet [OF x [unfolded r] d inv])
  show thesis
  proof (cases x)
    case (Inl e)
    then have "st' = st1" using s g x False by (auto simp: rollbackLocked_def split: if_splits)
    then show thesis using q stopped by simp
  next
    case (Inr y)
    obtain op doc where y: "y = (op, doc)" by (cases y)
    let ?raw = "RawMessage (cfg_env C) (Operation_ToValue (cfg_env C) op)" and ?st1 = "countEdits st1"
    let ?entry = "\<lparr>op_DocumentID = docID, op_Version = i64 (md_version d + 1),
      op_BaseVersion = md_version d, op_ID = noOpID, op_Source = source, op_Sequence = 0,
      op_SubmittedOp = ?raw, op_Op = ?raw\<rparr>"
    obtain res0 e0 where run: "bindS (onBackend (CommitOp (cfg_backend C) (srv_backend ?st1)
        \<lparr>doc_DocumentID = docID, doc_Version = i64 (md_version d + 1), doc_Doc = doc\<rparr> ?entry) ?st1) (\<lambda>_ st.
      bindS (cacheCommittedOperation docID (i64 (md_version d + 1)) op st) (\<lambda>_ st.
        (Inr res0, publish C e0 st))) = (res, st')"
      using s g x False Inr y id by (auto simp: rollbackLocked_def Let_def split: if_splits)
    have q1: "quiet C stored st ?st1" using q countEdits_quiet by (rule quiet_trans)
    have d1: "stored (srv_backend ?st1) docID = Some d" using d q by (simp add: quiet_def)
    note c = rollback_commit_cases [OF run d1 refl]
    show thesis using c q1 d by (intro committing [of ?st1 d ?entry]) (simp_all add: quiet_def)
  qed
qed (use stopped in simp)

lemma rollbackLocked_sound:
  assumes "rollbackLocked C docID target source st = (res, st')"
  shows "sound_step C stored st st'"
proof (rule sound_stepI)
  assume "log_inv stored st"
  with assms show ?thesis
    by (cases rule: rollbackLocked_cases) (auto intro: quiet_sound quiet_sound_trans)
qed

lemma RollbackToVersion_sound:
  "RollbackToVersion C docID target source st = (res, st') \<Longrightarrow> sound_step C stored st st'"
  unfolding RollbackToVersion_def by (rule withLock_sound) (auto dest: rollbackLocked_sound)

lemma Server_Subscribe_sound:
  "Server_Subscribe C docID buffer st = (res, st') \<Longrightarrow> sound_step C stored st st'"
  by (auto simp: Server_Subscribe_def split: sum.splits prod.splits)

end

end
