(* ===== verification/ServerBehaviour.thy ===== *)
theory ServerBehaviour
  imports ServerInvariants
begin

text \<open>
  What a submission does, for every backend that keeps its contract: it commits exactly one record
  and publishes exactly one event, or leaves the documents as they were; retries are found; the
  memory server is the instance \<open>NewMemoryServer\<close> builds.
\<close>

section \<open>The outcome of a submission\<close>

definition commit_event :: "SubmitRequest \<Rightarrow> SubmitResult \<Rightarrow> Event" where
  "commit_event req res =
     \<lparr>ev_Type = EventTypeOp, ev_DocumentID = req_DocumentID req, ev_Version = res_Version res,
      ev_ID = SubmitRequest_opID req, ev_Source = id_Source (SubmitRequest_opID req),
      ev_Sequence = id_Sequence (SubmitRequest_opID req), ev_Operation = res_Operation res,
      ev_Document = res_Document res\<rparr>"

definition commit_entry :: "SubmitRequest \<Rightarrow> SubmitResult \<Rightarrow> OpRecord" where
  "commit_entry req res =
     \<lparr>op_DocumentID = req_DocumentID req, op_Version = res_Version res,
      op_BaseVersion = req_BaseVersion req, op_ID = SubmitRequest_opID req,
      op_Source = id_Source (SubmitRequest_opID req),
      op_Sequence = id_Sequence (SubmitRequest_opID req),
      op_SubmittedOp = req_Operation req, op_Op = res_Operation res\<rparr>"

lemma commit_entry_simps [simp]:
  "op_SubmittedOp (commit_entry req res) = req_Operation req" "op_Op (commit_entry req res) = res_Operation res"
  "op_Version (commit_entry req res) = res_Version res"
  "op_BaseVersion (commit_entry req res) = req_BaseVersion req"
  by (simp_all add: commit_entry_def)

text \<open>Nothing happened to the documents and nobody was told anything.\<close>

definition untouched ::
    "('s \<Rightarrow> string \<Rightarrow> memDoc option) \<Rightarrow> ('s, 'l, 'p, 'v) server_state \<Rightarrow> ('s, 'l, 'p, 'v) server_state \<Rightarrow> bool" where
  "untouched stored st st' \<longleftrightarrow>
     stored (srv_backend st') = stored (srv_backend st) \<and> srv_pub st' = srv_pub st"

text \<open>The document advanced by one version: log, snapshot and event agree with the result.\<close>

definition advanced ::
    "('s, 'l, 'p, 'v, 'f, 'j) server_config \<Rightarrow> ('s \<Rightarrow> string \<Rightarrow> memDoc option) \<Rightarrow> SubmitRequest \<Rightarrow>
     SubmitResult \<Rightarrow> ('s, 'l, 'p, 'v) server_state \<Rightarrow> ('s, 'l, 'p, 'v) server_state \<Rightarrow> bool" where
  "advanced C stored req res st st' \<longleftrightarrow>
     (\<exists>d. stored (srv_backend st) (req_DocumentID req) = Some d \<and>
        res_Version res = i64 (md_version d + 1) \<and> \<not> res_Duplicate res \<and>
        stored (srv_backend st') = (stored (srv_backend st))(req_DocumentID req \<mapsto>
          \<lparr>md_version = res_Version res, md_doc = res_Document res,
           md_ops = md_ops d @ [commit_entry req res]\<rparr>) \<and>
        srv_pub st' = Publish (cfg_pub C) (srv_pub st) (commit_event req res))"

lemma untouched_locks [simp]:
  "untouched stored (st\<lparr>srv_locks := l\<rparr>) st' = untouched stored st st'"
  "untouched stored st (st'\<lparr>srv_locks := l\<rparr>) = untouched stored st st'"
  by (simp_all add: untouched_def)

lemma advanced_locks [simp]:
  "advanced C stored req res (st\<lparr>srv_locks := l\<rparr>) st' = advanced C stored req res st st'"
  "advanced C stored req res st (st'\<lparr>srv_locks := l\<rparr>) = advanced C stored req res st st'"
  by (simp_all add: advanced_def)

lemma quiet_untouched: "quiet C stored st st' \<Longrightarrow> untouched stored st st'"
  by (simp add: quiet_def untouched_def)

lemma advanced_from:
  assumes "quiet C stored st st1" and "advanced C stored req res st1 st'"
  shows "advanced C stored req res st st'"
  using assms by (simp add: advanced_def quiet_def)

lemma untouched_from:
  assumes "quiet C stored st st1" and "untouched stored st1 st'"
  shows "untouched stored st st'"
  using assms by (simp add: untouched_def quiet_def)

lemma cacheCommittedOperation_Some:
  "cacheCommittedOperation docID v (Some cs) st = (r, st') \<Longrightarrow> r = Inr ()"
  by (auto simp: cacheCommittedOperation_def Cache_Store_def cloneOperation_def Let_def
      split: if_splits option.splits)

context server_history
begin

lemma storeCommitted_outcome:
  assumes c: "storeCommitted C (doc_record (req_DocumentID req) d) req (Some cs) rebased applied st = (r, st')"
    and d: "stored (srv_backend st) (req_DocumentID req) = Some d"
  shows "(\<exists>e. r = Inl e) \<and> untouched stored st st' \<or>
         (\<exists>res. r = Inr res \<and> res_Rebased res = rebased \<and> advanced C stored req res st st')"
proof -
  define res where "res = \<lparr>res_Version = i64 (md_version d + 1), res_Rebased = rebased, res_Duplicate = False,
    res_Operation = RawMessage (cfg_env C) (Operation_ToValue (cfg_env C) (Some cs)),
    res_Document = RawMessage (cfg_env C) applied\<rparr>"
  let ?doc = "\<lparr>doc_DocumentID = req_DocumentID req, doc_Version = res_Version res, doc_Doc = res_Document res\<rparr>"
  obtain r1 s' where k: "CommitOp (cfg_backend C) (srv_backend st) ?doc (commit_entry req res) = (r1, s')"
    by fastforce
  obtain r2 st2 where kk: "cacheCommittedOperation (req_DocumentID req) (res_Version res) (Some cs)
      (st\<lparr>srv_backend := s'\<rparr>) = (r2, st2)" by fastforce
  have r2: "r2 = Inr ()" by (rule cacheCommittedOperation_Some [OF kk])
  have run: "(r, st') = (case r1 of Inl e \<Rightarrow> (Inl e, st\<lparr>srv_backend := s'\<rparr>)
      | Inr _ \<Rightarrow> (Inr res, publish C (commit_event req res) st2))"
    using c k kk r2
    by (cases r1)
      (simp_all add: storeCommitted_def doc_record_def Let_def onBackend_def res_def commit_event_def
        commit_entry_def)
  show ?thesis
  proof (cases r1)
    case (Inl e)
    then show ?thesis using run CommitOp_error k by (auto simp: untouched_def)
  next
    case (Inr u)
    have s': "stored s' = (stored (srv_backend st))
        (req_DocumentID req \<mapsto> committed d ?doc (commit_entry req res))"
      using CommitOp_stored [of "srv_backend st" ?doc d "commit_entry req res" s'] k Inr d by simp
    have "advanced C stored req res st st'" using run Inr s' d cacheCommittedOperation_frame [OF kk]
      by (simp add: advanced_def committed_def publish_def) (simp add: res_def)
    then show ?thesis using run Inr by (simp add: res_def)
  qed
qed

lemma commitOperation_outcome:
  assumes c: "commitOperation C (doc_record (req_DocumentID req) d) req (Some cs) rebased st = (r, st')"
    and d: "stored (srv_backend st) (req_DocumentID req) = Some d"
  shows "(\<exists>e. r = Inl e) \<and> untouched stored st st' \<or>
         (\<exists>res. r = Inr res \<and> res_Rebased res = rebased \<and> advanced C stored req res st st')"
  using c
proof (cases rule: commitOperation_cases)
  case (applied v x)
  obtain cs' where cs': "inHand C (req_DocumentID req) 0 st (Some cs) = Some cs'" using inHand_Some by blast
  have d1: "stored (srv_backend (touch C st)) (req_DocumentID req) = Some d" using d by simp
  from storeCommitted_outcome [OF applied(3) [unfolded cs'] d1] show ?thesis
    using untouched_from [OF touch_quiet] advanced_from [OF touch_quiet] by blast
qed (simp_all add: untouched_def)

text \<open>A result that changes nothing carries the current version and document.\<close>

lemma submitLocked_outcome:
  assumes s: "submitLocked C req st = (r, st')" and inv: "log_inv stored st"
  shows "(\<exists>e. r = Inl e) \<and> untouched stored st st' \<or>
    (\<exists>res. r = Inr res \<and> advanced C stored req res st st') \<or>
    (\<exists>res d. r = Inr res \<and> untouched stored st st' \<and>
       stored (srv_backend st) (req_DocumentID req) = Some d \<and>
       res_Version res = md_version d \<and> res_Document res = md_doc d)"
  using s inv
proof (cases rule: submitLocked_cases)
  case (committing d cs rebased st1)
  then have "stored (srv_backend st1) (req_DocumentID req) = Some d" by (simp add: quiet_def)
  from commitOperation_outcome [OF committing(3) this] show ?thesis
    using untouched_from [OF committing(1)] advanced_from [OF committing(1)] by blast
qed (auto dest: quiet_untouched)

lemma submitCore_outcome:
  assumes s: "submitCore C req st = (r, st')" and inv: "log_inv stored st"
  shows "(\<exists>e. r = Inl e) \<and> untouched stored st st' \<or>
    (\<exists>res. r = Inr res \<and> advanced C stored req res st st') \<or>
    (\<exists>res d. r = Inr res \<and> untouched stored st st' \<and>
       stored (srv_backend st) (req_DocumentID req) = Some d \<and>
       res_Version res = md_version d \<and> res_Document res = md_doc d)"
  using s unfolding submitCore_def
proof (cases rule: withLock_cases)
  case (refused e l)
  then show ?thesis by (auto simp: untouched_def)
next
  case (ran l st1 l')
  then show ?thesis using submitLocked_outcome [OF ran(1)] inv by simp
qed

end

section \<open>Calls and the abstract document store\<close>

datatype server_call =
    CallCreate string string
  | CallSubmit SubmitRequest
  | CallDelete string int string
  | CallRollback string int string
  | CallSnapshotAt string int
  | CallSubscribe string int

fun run_call ::
    "('s, 'l, 'p, 'v, 'f, 'j) server_config \<Rightarrow> server_call \<Rightarrow> ('s, 'l, 'p, 'v) server_state \<Rightarrow>
     ('s, 'l, 'p, 'v) server_state" where
  "run_call C (CallCreate docID initial) st = snd (CreateDocument C docID initial st)"
| "run_call C (CallSubmit req) st = snd (submitCore C req st)"
| "run_call C (CallDelete docID baseVersion source) st = snd (DeleteDocument C docID baseVersion source st)"
| "run_call C (CallRollback docID target source) st = snd (RollbackToVersion C docID target source st)"
| "run_call C (CallSnapshotAt docID version) st = snd (GetSnapshotAt C docID version st)"
| "run_call C (CallSubscribe docID buffer) st = snd (Server_Subscribe C docID buffer st)"

fun run_calls ::
    "('s, 'l, 'p, 'v, 'f, 'j) server_config \<Rightarrow> server_call list \<Rightarrow> ('s, 'l, 'p, 'v) server_state \<Rightarrow>
     ('s, 'l, 'p, 'v) server_state" where
  "run_calls C [] st = st"
| "run_calls C (c # cs) st = run_calls C cs (run_call C c st)"

definition has_sequence :: "OpID \<Rightarrow> bool" where
  "has_sequence i \<longleftrightarrow> id_Source i \<noteq> '''' \<and> id_Sequence i > 0"

text \<open>
  The abstract specification: documents are created empty, grow by one record at a time, never
  by a record whose source and sequence number are in the log already, and disappear only when
  asked at their current version.
\<close>

inductive doc_step :: "server_call \<Rightarrow> (string \<Rightarrow> memDoc option) \<Rightarrow> (string \<Rightarrow> memDoc option) \<Rightarrow> bool" where
  nothing: "doc_step c m m"
| created: "m docID = None \<Longrightarrow>
    doc_step (CallCreate docID initial) m
      (m(docID \<mapsto> \<lparr>md_version = 0, md_doc = (if initial = '''' then ''{}'' else initial), md_ops = []\<rparr>))"
| submitted: "m (req_DocumentID req) = Some d \<Longrightarrow>
    \<not> has_sequence (SubmitRequest_opID req) \<or> SubmitRequest_opID req \<notin> OpRecord_opID ` set (md_ops d) \<Longrightarrow>
    res_Version res = i64 (md_version d + 1) \<Longrightarrow>
    doc_step (CallSubmit req) m (m(req_DocumentID req \<mapsto>
      \<lparr>md_version = res_Version res, md_doc = res_Document res, md_ops = md_ops d @ [commit_entry req res]\<rparr>))"
| rolled_back: "m docID = Some d \<Longrightarrow> op_Sequence e = 0 \<Longrightarrow> op_ID e = noOpID \<Longrightarrow>
    doc_step (CallRollback docID target source) m (m(docID \<mapsto> committed d r e))"
| deleted: "m docID = Some d \<Longrightarrow> md_version d = baseVersion \<Longrightarrow>
    doc_step (CallDelete docID baseVersion source) m (m(docID := None))"

inductive_cases doc_stepE: "doc_step c m m'"

lemma doc_step_same: "m' = m \<Longrightarrow> doc_step c m m'"
  by (erule ssubst) (rule nothing)

lemma OpRecord_opID_commit_entry [simp]: "OpRecord_opID (commit_entry req res) = SubmitRequest_opID req"
  by (simp add: OpRecord_opID_def commit_entry_def Let_def)

lemma findSequence_None_iff: "findSequence i ops = None \<longleftrightarrow> i \<notin> OpRecord_opID ` set ops"
  by (induction ops) auto

lemma findSequence_Some: "findSequence i ops = Some e \<Longrightarrow> e \<in> set ops \<and> OpRecord_opID e = i"
  by (induction ops) (auto split: if_splits)

definition unique_sequences :: "OpRecord list \<Rightarrow> bool" where
  "unique_sequences ops \<longleftrightarrow> distinct (filter has_sequence (map OpRecord_opID ops))"

lemma findSequence_unique:
  assumes "unique_sequences ops" and "e \<in> set ops" and "has_sequence (OpRecord_opID e)"
  shows "findSequence (OpRecord_opID e) ops = Some e"
  using assms
proof (induction ops)
  case (Cons x ops)
  have rest: "unique_sequences ops" using Cons.prems(1) by (auto simp: unique_sequences_def split: if_splits)
  show ?case
  proof (cases "OpRecord_opID x = OpRecord_opID e")
    case True
    then have "has_sequence (OpRecord_opID x)" using Cons.prems(3) by simp
    then have "OpRecord_opID x \<notin> OpRecord_opID ` set ops"
      using Cons.prems(1) by (auto simp: unique_sequences_def)
    then have "x = e" using Cons.prems(2) True by auto
    then show ?thesis by simp
  next
    case False
    then have "e \<in> set ops" using Cons.prems(2) by auto
    then have "findSequence (OpRecord_opID e) ops = Some e" using Cons.IH rest Cons.prems(3) by simp
    moreover have "\<not> (id_Source (OpRecord_opID x) = id_Source (OpRecord_opID e) \<and>
        id_Sequence (OpRecord_opID x) = id_Sequence (OpRecord_opID e))"
      using False by auto
    ultimately show ?thesis by auto
  qed
qed simp

context server_history
begin

lemma duplicate_None_fresh:
  assumes "duplicateResult C (doc_record (req_DocumentID req) d) req st = Inr None"
    and d: "stored (srv_backend st) (req_DocumentID req) = Some d" and inv: "log_inv stored st"
  shows "\<not> has_sequence (SubmitRequest_opID req) \<or> SubmitRequest_opID req \<notin> OpRecord_opID ` set (md_ops d)"
proof (cases "has_sequence (SubmitRequest_opID req) \<and> 0 < md_version d")
  case True
  obtain ops where "GetOps (cfg_backend C) (srv_backend st) (req_DocumentID req) 0 (md_version d) = Inr ops"
      and "ops = drop (nat 0) (md_ops d)"
    using GetOps_in_log [OF inv d] True by (metis order_refl less_imp_le)
  then have "findSequence (SubmitRequest_opID req) (md_ops d) = None"
    using assms(1) True
    by (auto simp: duplicateResult_def doc_record_def Let_def has_sequence_def split: option.splits if_splits)
  then show ?thesis by (simp add: findSequence_None_iff)
next
  case False
  then show ?thesis using log_okD(1) [OF inv d] by auto
qed

text \<open>Conversely, a request whose source and sequence number are not in the log is no duplicate.\<close>

lemma fresh_duplicate_None:
  assumes "\<not> has_sequence (SubmitRequest_opID req) \<or> SubmitRequest_opID req \<notin> OpRecord_opID ` set (md_ops d)"
    and d: "stored (srv_backend st) (req_DocumentID req) = Some d" and "md_version d = int (length (md_ops d))"
  shows "duplicateResult C (doc_record (req_DocumentID req) d) req st = Inr None"
proof (cases "has_sequence (SubmitRequest_opID req)")
  case True
  then have "findSequence (SubmitRequest_opID req) (md_ops d) = None" using assms(1) by (simp add: findSequence_None_iff)
  moreover have "GetOps (cfg_backend C) (srv_backend st) (req_DocumentID req) 0 (md_version d) = Inr (md_ops d)"
    using GetOps_stored [OF d, of 0 "md_version d"] assms(3) by simp
  ultimately show ?thesis by (simp add: duplicateResult_def Let_def doc_record_def)
next
  case False
  then show ?thesis by (auto simp: duplicateResult_def Let_def has_sequence_def)
qed

lemma submitLocked_doc_step:
  assumes s: "submitLocked C req st = (r, st')" and inv: "log_inv stored st"
  shows "doc_step (CallSubmit req) (stored (srv_backend st)) (stored (srv_backend st'))"
  using s inv
proof (cases rule: submitLocked_cases)
  case (committing d cs rebased st1)
  have d1: "stored (srv_backend st1) (req_DocumentID req) = Some d"
    using committing(1,2) by (simp add: quiet_def)
  have fresh: "\<not> has_sequence (SubmitRequest_opID req) \<or>
      SubmitRequest_opID req \<notin> OpRecord_opID ` set (md_ops d)"
    by (rule duplicate_None_fresh [OF committing(4,2) inv])
  from commitOperation_outcome [OF committing(3) d1]
  consider "untouched stored st1 st'" | res where "advanced C stored req res st1 st'" by blast
  then show ?thesis
  proof cases
    case 1
    then show ?thesis using committing(1) by (simp add: untouched_def quiet_def doc_step_same)
  next
    case 2
    then have "res_Version res = i64 (md_version d + 1)" and
      "stored (srv_backend st') = (stored (srv_backend st))(req_DocumentID req \<mapsto>
        \<lparr>md_version = res_Version res, md_doc = res_Document res, md_ops = md_ops d @ [commit_entry req res]\<rparr>)"
      using d1 committing(1) by (auto simp: advanced_def quiet_def)
    then show ?thesis using submitted [of "stored (srv_backend st)" req d res] committing(2) fresh by simp
  qed
qed (auto simp: quiet_def intro: doc_step_same)

lemma withLock_doc_step:
  assumes w: "withLock C docID body st = (r, st')"
    and body: "\<And>l r st1. body (st\<lparr>srv_locks := l\<rparr>) = (r, st1) \<Longrightarrow>
      doc_step c (stored (srv_backend st)) (stored (srv_backend st1))"
  shows "doc_step c (stored (srv_backend st)) (stored (srv_backend st'))"
  using w by (cases rule: withLock_cases) (auto dest: body intro: doc_step_same)

lemma CreateDocument_doc_step:
  assumes "CreateDocument C docID initial st = (r, st')"
  shows "doc_step (CallCreate docID initial) (stored (srv_backend st)) (stored (srv_backend st'))"
  using assms unfolding CreateDocument_def
proof (rule withLock_doc_step, goal_cases)
  case (1 l r st1)
  let ?initial = "if initial = '''' then ''{}'' else initial"
  obtain c s' where c: "CreateDoc (cfg_backend C) (srv_backend st) docID ?initial = (c, s')" by fastforce
  have st1: "srv_backend st1 = s'" using 1 c by (cases c) (auto simp: onBackend_def)
  show ?case
  proof (cases c)
    case (Inl e)
    then show ?thesis using CreateDoc_error c st1 by (auto intro: doc_step_same)
  next
    case (Inr u)
    then show ?thesis
    proof (cases "stored (srv_backend st) docID")
      case None
      then show ?thesis using CreateDoc_new [OF None] c Inr st1 created [of _ docID initial] by simp
    next
      case (Some d)
      then show ?thesis using CreateDoc_exists [OF Some] c Inr by simp
    qed
  qed
qed

lemma DeleteDocument_doc_step:
  assumes "DeleteDocument C docID baseVersion source st = (r, st')"
  shows "doc_step (CallDelete docID baseVersion source) (stored (srv_backend st)) (stored (srv_backend st'))"
  using assms unfolding DeleteDocument_def
proof (rule withLock_doc_step, goal_cases)
  case (1 l r st1)
  obtain c s' where c: "DeleteDoc (cfg_backend C) (srv_backend st) docID = (c, s')" by fastforce
  have "srv_backend st1 = srv_backend st \<or> srv_backend st1 = s' \<and>
      (\<exists>r. GetDoc (cfg_backend C) (srv_backend st) docID = Inr r \<and> doc_Version r = baseVersion)"
    using 1 c by (cases c) (auto simp: onBackend_def publish_def split: sum.splits if_splits)
  then show ?case
  proof (elim disjE conjE exE)
    fix r0 assume r0: "GetDoc (cfg_backend C) (srv_backend st) docID = Inr r0" "doc_Version r0 = baseVersion"
      and s': "srv_backend st1 = s'"
    obtain d where d: "stored (srv_backend st) docID = Some d" "r0 = doc_record docID d"
      using GetDoc_Inr [OF r0(1)] by blast
    then have v: "md_version d = baseVersion" using r0(2) by (simp add: doc_record_def)
    show ?case
    proof (cases c)
      case (Inl e)
      then show ?thesis using DeleteDoc_error c s' by (auto intro: doc_step_same)
    next
      case (Inr u)
      then show ?thesis
        using DeleteDoc_stored c s' deleted [of "stored (srv_backend st)" docID d baseVersion] d(1) v by simp
    qed
  qed (simp add: doc_step_same)
qed

lemma rollbackLocked_doc_step:
  assumes "rollbackLocked C docID target source st = (r, st')" and "log_inv stored st"
  shows "doc_step (CallRollback docID target source) (stored (srv_backend st)) (stored (srv_backend st'))"
  using assms by (cases rule: rollbackLocked_cases) (auto simp: quiet_def intro: doc_step_same rolled_back)

theorem run_call_doc_step:
  assumes inv: "log_inv stored st"
  shows "doc_step c (stored (srv_backend st)) (stored (srv_backend (run_call C c st)))"
proof (cases c)
  case (CallCreate docID initial)
  then show ?thesis using CreateDocument_doc_step [of docID initial st] by (metis prod.collapse run_call.simps(1))
next
  case (CallSubmit req)
  have "doc_step (CallSubmit req) (stored (srv_backend st)) (stored (srv_backend (snd (submitCore C req st))))"
    unfolding submitCore_def
    by (rule withLock_doc_step [OF prod.collapse [symmetric]])
      (use inv in \<open>auto dest: submitLocked_doc_step\<close>)
  then show ?thesis using CallSubmit by simp
next
  case (CallDelete docID v source)
  then show ?thesis using DeleteDocument_doc_step [of docID v source st] by (metis prod.collapse run_call.simps(3))
next
  case (CallRollback docID target source)
  have "doc_step (CallRollback docID target source) (stored (srv_backend st))
      (stored (srv_backend (snd (RollbackToVersion C docID target source st))))"
    unfolding RollbackToVersion_def
    by (rule withLock_doc_step [OF prod.collapse [symmetric]])
      (use inv in \<open>auto dest: rollbackLocked_doc_step\<close>)
  then show ?thesis using CallRollback by simp
next
  case (CallSnapshotAt docID v)
  have "srv_backend (snd (GetSnapshotAt C docID v st)) = srv_backend st"
    using quietD(1) [OF GetSnapshotAt_quiet [OF prod.collapse [symmetric] inv]] .
  then show ?thesis using CallSnapshotAt by (simp add: doc_step_same)
next
  case (CallSubscribe docID buffer)
  have "srv_backend (snd (Server_Subscribe C docID buffer st)) = srv_backend st"
    by (auto simp: Server_Subscribe_def split: sum.splits prod.splits)
  then show ?thesis using CallSubscribe by (simp add: doc_step_same)
qed

end

section \<open>Histories of calls\<close>

lemma doc_step_unique:
  assumes "doc_step c m m'" and "\<And>docID d. m docID = Some d \<Longrightarrow> unique_sequences (md_ops d)"
    and "m' docID = Some d"
  shows "unique_sequences (md_ops d)"
  using assms
proof (cases rule: doc_step.cases)
  case (submitted req d0 res)
  then have "unique_sequences (md_ops d0)" using assms(2) by blast
  then have "unique_sequences (md_ops d0 @ [commit_entry req res])"
    using submitted by (auto simp: unique_sequences_def)
  then show ?thesis using submitted assms(2,3) by (auto split: if_splits)
next
  case (rolled_back docID0 d0 e target source r)
  then have "unique_sequences (md_ops d0)" using assms(2) by blast
  moreover have "\<not> has_sequence (OpRecord_opID e)"
    using rolled_back by (simp add: has_sequence_def OpRecord_opID_def noOpID_def Let_def)
  ultimately have "unique_sequences (md_ops d0 @ [e])" by (simp add: unique_sequences_def)
  then show ?thesis using rolled_back assms(2,3) by (auto simp: committed_def split: if_splits)
qed (auto simp: unique_sequences_def split: if_splits)

definition deletes :: "string \<Rightarrow> server_call \<Rightarrow> bool" where
  "deletes docID c \<longleftrightarrow> (\<exists>v s. c = CallDelete docID v s)"

lemma deletes_simps [simp]:
  "\<not> deletes docID (CallCreate x y)" "\<not> deletes docID (CallSubmit req)"
  "deletes docID (CallDelete x v s) \<longleftrightarrow> x = docID" "\<not> deletes docID (CallRollback x v s)"
  "\<not> deletes docID (CallSnapshotAt x v)" "\<not> deletes docID (CallSubscribe x v)"
  by (auto simp: deletes_def)

lemma doc_step_grows:
  assumes "doc_step c m m'" and "m docID = Some d" and "\<not> deletes docID c"
  shows "\<exists>d'. m' docID = Some d' \<and> prefix (md_ops d) (md_ops d')"
  using assms by (cases rule: doc_stepE) (auto simp: committed_def)

definition server_inv ::
    "('s, 'l, 'p, 'v, 'f, 'j) server_config \<Rightarrow> ('s \<Rightarrow> string \<Rightarrow> memDoc option) \<Rightarrow> nat \<Rightarrow>
     ('s, 'l, 'p, 'v) server_state \<Rightarrow> bool" where
  "server_inv C stored n st \<longleftrightarrow>
     log_inv stored st \<and> cache_inv C stored st \<and> log_size stored n st \<and>
     (\<forall>docID d. stored (srv_backend st) docID = Some d \<longrightarrow> unique_sequences (md_ops d))"

lemma server_inv_locks [simp]:
  "server_inv C stored n (st\<lparr>srv_locks := l\<rparr>) = server_inv C stored n st"
  by (simp add: server_inv_def)

lemma server_inv_mono: "server_inv C stored n st \<Longrightarrow> n \<le> m \<Longrightarrow> server_inv C stored m st"
  by (fastforce simp: server_inv_def log_size_def)

context server_history
begin

lemma run_call_sound: "sound_step C stored st (run_call C c st)"
  using CreateDocument_sound submitCore_sound DeleteDocument_sound RollbackToVersion_sound
    GetSnapshotAt_sound Server_Subscribe_sound
  by (cases c) (simp_all, (metis prod.collapse)+)

lemma server_inv_call:
  assumes inv: "server_inv C stored n st" and n: "int n + 1 < 2 ^ 63"
  shows "server_inv C stored (Suc n) (run_call C c st)"
proof -
  have log: "log_inv stored st" using inv by (simp add: server_inv_def)
  have "unique_sequences (md_ops d)" if "stored (srv_backend (run_call C c st)) docID = Some d" for docID d
    using doc_step_unique [OF run_call_doc_step [OF log] _ that] inv by (auto simp: server_inv_def)
  then show ?thesis using run_call_sound [of st c] inv n by (auto simp: server_inv_def sound_step_def)
qed

lemma server_inv_calls:
  assumes "server_inv C stored n st" and "int n + int (length cs) < 2 ^ 63"
  shows "server_inv C stored (n + length cs) (run_calls C cs st)"
  using assms
proof (induction cs arbitrary: n st)
  case (Cons c cs)
  then show ?case using server_inv_call [OF Cons.prems(1)] Cons.IH [of "Suc n" "run_call C c st"] by simp
qed simp

lemma run_calls_grows:
  assumes "server_inv C stored n st" and "int n + int (length cs) < 2 ^ 63"
    and "stored (srv_backend st) docID = Some d" and "\<forall>c \<in> set cs. \<not> deletes docID c"
  shows "\<exists>d'. stored (srv_backend (run_calls C cs st)) docID = Some d' \<and> prefix (md_ops d) (md_ops d')"
  using assms
proof (induction cs arbitrary: n st d)
  case (Cons c cs)
  have log: "log_inv stored st" using Cons.prems(1) by (simp add: server_inv_def)
  obtain d1 where d1: "stored (srv_backend (run_call C c st)) docID = Some d1" "prefix (md_ops d) (md_ops d1)"
    using doc_step_grows [OF run_call_doc_step [OF log] Cons.prems(3)] Cons.prems(4) by auto
  have "server_inv C stored (Suc n) (run_call C c st)"
    using server_inv_call [OF Cons.prems(1)] Cons.prems(2) by simp
  from Cons.IH [OF this _ d1(1)] Cons.prems(2,4) obtain d2 where
      "stored (srv_backend (run_calls C cs (run_call C c st))) docID = Some d2" "prefix (md_ops d1) (md_ops d2)"
    by auto
  then show ?case using d1(2) prefix_order.order_trans by auto
qed auto

text \<open>A request whose record is in the log is answered from the log and changes nothing.\<close>

lemma retry_answered:
  assumes inv: "server_inv C stored n st" and d: "stored (srv_backend st) (req_DocumentID req) = Some d"
    and e: "e \<in> set (md_ops d)" "OpRecord_opID e = SubmitRequest_opID req"
      "op_SubmittedOp e = req_Operation req"
    and seq: "has_sequence (SubmitRequest_opID req)" and json: "cfg_json C (req_Operation req) = Inr j"
    and base: "0 \<le> req_BaseVersion req" "req_BaseVersion req \<le> md_version d"
  shows "submitLocked C req st =
    (Inr \<lparr>res_Version = md_version d, res_Rebased = False, res_Duplicate = True,
          res_Operation = op_Op e, res_Document = md_doc d\<rparr>, st)"
proof -
  have log: "log_inv stored st" and uniq: "unique_sequences (md_ops d)"
    using inv d by (auto simp: server_inv_def)
  have v: "md_version d > 0" using log_okD(1) [OF log d] e(1) by (auto simp: length_pos_if_in_set)
  obtain ops where ops: "GetOps (cfg_backend C) (srv_backend st) (req_DocumentID req) 0 (md_version d) = Inr ops"
      "ops = drop (nat 0) (md_ops d)"
    using GetOps_in_log [OF log d, of 0] v by (metis order_refl less_imp_le)
  have "findSequence (SubmitRequest_opID req) (md_ops d) = Some e"
    using findSequence_unique [OF uniq e(1)] e(2) seq by simp
  then have "duplicateResult C (doc_record (req_DocumentID req) d) req st =
      Inr (Some \<lparr>res_Version = md_version d, res_Rebased = False, res_Duplicate = True,
          res_Operation = op_Op e, res_Document = md_doc d\<rparr>)"
    using seq v ops e(3) json
    by (simp add: duplicateResult_def doc_record_def Let_def has_sequence_def jsonRawEqual_def)
  moreover have "doc_Version (doc_record (req_DocumentID req) d) = md_version d" by (simp add: doc_record_def)
  ultimately show ?thesis using GetDoc_stored [OF d] base by (simp add: submitLocked_def)
qed

end

section \<open>The memory server\<close>

definition memory_config ::
    "('v, 'f) env \<Rightarrow> JSONOperationTransformer \<Rightarrow> (string \<Rightarrow> 'j res) \<Rightarrow> nat \<Rightarrow> int \<Rightarrow>
     (MemoryBackend, MemoryLocker, MemoryPublisher, 'v, 'f, 'j) server_config" where
  "memory_config E ot U depth maxGap =
     \<lparr>cfg_backend = Memory_Backend, cfg_locker = Memory_Locker, cfg_pub = Memory_Publisher,
      cfg_env = E, cfg_ot = ot, cfg_json = U, cfg_depth = depth, cfg_maxRebaseGap = maxGap\<rparr>"

definition NewMemoryServer :: "(MemoryBackend, MemoryLocker, MemoryPublisher, 'v) server_state" where
  "NewMemoryServer = NewServer NewMemoryBackend NewMemoryLocker NewMemoryPublisher"

lemma memory_config_simps [simp]:
  "cfg_backend (memory_config E ot U depth maxGap) = Memory_Backend"
  "cfg_locker (memory_config E ot U depth maxGap) = Memory_Locker"
  "cfg_pub (memory_config E ot U depth maxGap) = Memory_Publisher"
  "cfg_env (memory_config E ot U depth maxGap) = E"
  "cfg_ot (memory_config E ot U depth maxGap) = ot"
  "cfg_json (memory_config E ot U depth maxGap) = U"
  "cfg_depth (memory_config E ot U depth maxGap) = depth"
  "cfg_maxRebaseGap (memory_config E ot U depth maxGap) = maxGap"
  by (simp_all add: memory_config_def)

interpretation memory_server:
  server_history "memory_config E ot U depth maxGap" "\<lambda>b. b" for E ot U depth maxGap
  unfolding server_history_def memory_config_simps by (rule memory.backend_contract_axioms)

lemma memory_server_start: "server_inv (memory_config E ot U depth maxGap) (\<lambda>b. b) 0 NewMemoryServer"
  by (simp add: server_inv_def log_inv_def cache_inv_def log_size_def NewMemoryServer_def NewServer_def
      NewMemoryBackend_def)

lemma memory_server_inv:
  "int (length cs) < 2 ^ 63 \<Longrightarrow>
   server_inv (memory_config E ot U depth maxGap) (\<lambda>b. b) (length cs)
     (run_calls (memory_config E ot U depth maxGap) cs NewMemoryServer)"
  using memory_server.server_inv_calls [OF memory_server_start, of cs] by simp

lemma Memory_Lock_Inr [simp]: "Memory_Lock l docID = (r, l') \<Longrightarrow> r = Inr ()"
  by (auto simp: Memory_Lock_def split: prod.splits)

text \<open>The lock of the memory server is always granted, so a call runs its body.\<close>

lemma memory_withLock:
  "\<exists>l l'. withLock (memory_config E ot U depth maxGap) docID body st =
     (fst (body (st\<lparr>srv_locks := l\<rparr>)), (snd (body (st\<lparr>srv_locks := l\<rparr>)))\<lparr>srv_locks := l'\<rparr>)"
proof -
  obtain l where "Memory_Lock (srv_locks st) docID = (Inr (), l)"
    using Memory_Lock_Inr by (metis prod.collapse)
  then have "withLock (memory_config E ot U depth maxGap) docID body st =
      (fst (body (st\<lparr>srv_locks := l\<rparr>)), (snd (body (st\<lparr>srv_locks := l\<rparr>)))
        \<lparr>srv_locks := Memory_Unlock (srv_locks (snd (body (st\<lparr>srv_locks := l\<rparr>)))) docID\<rparr>)"
    by (simp add: withLock_def split: prod.split)
  then show ?thesis by blast
qed

text \<open>Reading does not look at the locks.\<close>

lemma parseOperation_locks:
  "parseOperation C raw (st\<lparr>srv_locks := l\<rparr>) =
     (fst (parseOperation C raw st), (snd (parseOperation C raw st))\<lparr>srv_locks := l\<rparr>)"
  by (simp add: parseOperation_def Let_def split: sum.splits option.splits prod.splits)

end
