(* ===== verification/ProtocolBehaviour.thy ===== *)
theory ProtocolBehaviour
  imports Protocol ServerBehaviour
begin

text \<open>
  What the handlers of the websocket protocol do to the state, over the memory server and the
  memory mailbox: which parts each leaves alone (\<open>ws_quiet\<close>), what it sends, and the invariant of
  every run of the transport.
\<close>

section \<open>Handlers that leave the documents alone\<close>

definition memory_setup ::
    "(MemoryBackend, MemoryLocker, MemoryPublisher, 'v, 'f, 'j, MemoryMailboxStore, 'g) ws_config \<Rightarrow>
     (MemoryBackend, MemoryLocker, MemoryPublisher, 'v, 'f, 'j) server_config \<Rightarrow> bool" where
  "memory_setup W C \<longleftrightarrow> wc_server W = Some C \<and> wc_mailbox W = Some Memory_Mailbox \<and> wc_middleware W = [] \<and>
     cfg_pub C = Memory_Publisher"

text \<open>
  Documents, cache and counters are kept, the mailbox has seen mailbox calls only, no connection
  was allocated and the registry invariant is kept.
\<close>

definition ws_quiet ::
    "('s, 'l, 'p, 'v, MemoryMailboxStore, 'g) ws_state \<Rightarrow>
     ('s, 'l, 'p, 'v, MemoryMailboxStore, 'g) ws_state \<Rightarrow> bool" where
  "ws_quiet ws ws' \<longleftrightarrow>
     (\<exists>p. ws_server ws' = (ws_server ws)\<lparr>srv_pub := p\<rparr>) \<and>
     (\<exists>calls. ws_mail ws' = run_mails Memory_Mailbox calls (ws_mail ws)) \<and>
     tr_next (ws_transport ws') = tr_next (ws_transport ws) \<and>
     (session_inv (ws_transport ws) \<longrightarrow> session_inv (ws_transport ws'))"

named_theorems quiet_ws \<open>steps that leave the documents alone\<close>

lemma run_mails_append: "run_mails M (cs @ ds) m = run_mails M ds (run_mails M cs m)"
  by (induction cs arbitrary: m) simp_all

lemma ws_quiet_refl [simp]: "ws_quiet ws ws"
proof -
  have "ws_server ws = (ws_server ws)\<lparr>srv_pub := srv_pub (ws_server ws)\<rparr>" by simp
  moreover have "ws_mail ws = run_mails Memory_Mailbox [] (ws_mail ws)" by simp
  ultimately show ?thesis unfolding ws_quiet_def by blast
qed

lemma ws_quiet_trans: "ws_quiet a b \<Longrightarrow> ws_quiet b c \<Longrightarrow> ws_quiet a c"
  unfolding ws_quiet_def by (auto simp flip: run_mails_append)

lemma ws_quiet_bindS:
  assumes "ws_quiet ws (snd a)" and "\<And>x ws'. ws_quiet ws ws' \<Longrightarrow> ws_quiet ws (snd (f x ws'))"
  shows "ws_quiet ws (snd (bindS a f))"
  using assms by (cases "(a, f)" rule: bindS.cases) auto

lemma ws_quiet_transport:
  assumes "ws_quiet ws ws1" and "tr_next t = tr_next (ws_transport ws1)"
    and "session_inv (ws_transport ws1) \<Longrightarrow> session_inv t"
  shows "ws_quiet ws (ws1\<lparr>ws_transport := t\<rparr>)"
  using assms by (auto simp: ws_quiet_def)

lemma ws_quiet_other [quiet_ws]:
  "ws_quiet ws ws1 \<Longrightarrow> ws_quiet ws (ws1\<lparr>ws_gen := g\<rparr>)"
  "ws_quiet ws ws1 \<Longrightarrow> ws_quiet ws (ws1\<lparr>ws_relays := rs\<rparr>)"
  "ws_quiet ws ws1 \<Longrightarrow> ws_quiet ws (ws1\<lparr>ws_server := (ws_server ws1)\<lparr>srv_pub := p\<rparr>\<rparr>)"
  "ws_quiet ws ws1 \<Longrightarrow> ws_quiet ws (snd (onGen h ws1))"
  by (auto simp: ws_quiet_def onGen_def split: prod.splits)

lemma ws_quiet_mail:
  assumes "ws_quiet ws ws1"
  shows "ws_quiet ws (ws1\<lparr>ws_mail := run_mail Memory_Mailbox c (ws_mail ws1)\<rparr>)"
proof -
  obtain calls where "ws_mail ws1 = run_mails Memory_Mailbox calls (ws_mail ws)"
    using assms by (auto simp: ws_quiet_def)
  then have "run_mail Memory_Mailbox c (ws_mail ws1) = run_mails Memory_Mailbox (calls @ [c]) (ws_mail ws)"
    by (simp add: run_mails_append)
  then show ?thesis using assms by (auto simp: ws_quiet_def)
qed

lemma ws_quiet_Append [quiet_ws]:
  "ws_quiet ws ws1 \<Longrightarrow> ws_quiet ws (snd (onMail (\<lambda>m. Append Memory_Mailbox m env) ws1))"
  using ws_quiet_mail [of ws ws1 "MailAppend env"] by (simp add: onMail_def split_beta)

lemma ws_quiet_Ack [quiet_ws]:
  "ws_quiet ws ws1 \<Longrightarrow> ws_quiet ws (snd (onMail (\<lambda>m. AckThrough Memory_Mailbox m sid i) ws1))"
  using ws_quiet_mail [of ws ws1 "MailAck sid i"] by (simp add: onMail_def split_beta)

lemma Enqueue_next [simp]: "tr_next (snd (Enqueue c data t)) = tr_next t"
  by (simp add: Enqueue_def)

lemma ws_quiet_sendJSON [quiet_ws]: "ws_quiet ws ws1 \<Longrightarrow> ws_quiet ws (snd (sendJSON W c msg ws1))"
  by (auto simp: sendJSON_def onTransport_def split_beta intro!: ws_quiet_transport session_inv_Enqueue)

lemma ws_quiet_refuse [quiet_ws]: "ws_quiet ws ws1 \<Longrightarrow> ws_quiet ws (snd (refuseMessage ws1))"
  by (simp add: refuseMessage_def)

lemma ws_quiet_claim [quiet_ws]:
  "ws_quiet ws ws1 \<Longrightarrow> ws_quiet ws (snd (onTransport (claimLiveAttachment c sid doc) ws1))"
  by (auto simp: onTransport_def split_beta claimLiveAttachment_def Let_def
      intro!: ws_quiet_transport session_inv_onConn)

lemma Register_next [simp]: "tr_next (snd (Register sid conn t)) = tr_next t"
  by (auto simp: Register_def Let_def AddCloseHook_def split: option.splits)

lemma ws_quiet_Register [quiet_ws]:
  assumes "ws_quiet ws ws1" and "c < tr_next (ws_transport ws)"
  shows "ws_quiet ws (snd (onTransport (Register sid (Some c)) ws1))"
proof -
  obtain r t' where r: "Register sid (Some c) (ws_transport ws1) = (r, t')" by fastforce
  have "c < tr_next (ws_transport ws1)" using assms by (simp add: ws_quiet_def)
  then have "session_inv (ws_transport ws1) \<Longrightarrow> session_inv t'"
    using RegisterE [OF r] Register_takes_over(1) [of "ws_transport ws1" c sid t'] r by metis
  then show ?thesis
    using assms(1) r Register_next [of sid "Some c" "ws_transport ws1"]
    by (simp add: onTransport_def ws_quiet_transport)
qed

lemma ws_quiet_closeConn [quiet_ws]: "ws_quiet ws ws1 \<Longrightarrow> ws_quiet ws (closeConn c ws1)"
  by (auto simp: closeConn_def intro: ws_quiet_transport session_inv_Close)

lemma Server_Subscribe_quiet: "\<exists>p. snd (Server_Subscribe C doc n st) = st\<lparr>srv_pub := p\<rparr>"
proof (cases "GetDoc (cfg_backend C) (srv_backend st) doc")
  case (Inl e)
  then have "snd (Server_Subscribe C doc n st) = st\<lparr>srv_pub := srv_pub st\<rparr>" by (simp add: Server_Subscribe_def)
  then show ?thesis by blast
qed (auto simp: Server_Subscribe_def split: prod.split)

lemma ws_quiet_Subscribe [quiet_ws]:
  assumes "ws_quiet ws ws1"
  shows "ws_quiet ws (snd (onServer (Server_Subscribe C doc n) ws1))"
proof -
  obtain p where "snd (Server_Subscribe C doc n (ws_server ws1)) = (ws_server ws1)\<lparr>srv_pub := p\<rparr>"
    using Server_Subscribe_quiet [of C doc n "ws_server ws1"] by blast
  then show ?thesis using ws_quiet_other(3) [OF assms, of p] by (simp add: onServer_def split_beta)
qed

lemma ws_quiet_cancel [quiet_ws]: "ws_quiet ws ws1 \<Longrightarrow> ws_quiet ws (cancelSubscription C i ws1)"
  by (simp add: cancelSubscription_def quiet_ws)

lemma ws_quiet_startLiveRelay [quiet_ws]: "ws_quiet ws ws1 \<Longrightarrow> ws_quiet ws (startLiveRelay r ws1)"
  by (simp add: startLiveRelay_def quiet_ws)

lemma ws_quiet_handshake [quiet_ws]:
  "ws_quiet ws ws1 \<Longrightarrow> ws_quiet ws (snd (sendConnectHandshake W conn req ws1))"
  unfolding sendConnectHandshake_def
  by (rule ws_quiet_bindS)
    (auto simp: quiet_ws split: option.split intro!: ws_quiet_bindS)

lemma ws_quiet_connectSubscribed [quiet_ws]:
  "ws_quiet ws ws1 \<Longrightarrow> c < tr_next (ws_transport ws) \<Longrightarrow>
   ws_quiet ws (snd (connectSubscribed W mailbox c req ws1))"
  unfolding connectSubscribed_def by (intro ws_quiet_bindS) (simp_all add: quiet_ws)

lemma ws_quiet_connect:
  assumes "c < tr_next (ws_transport ws)"
  shows "ws_quiet ws (snd (HandleConnectAndAttachLive W (Some c) req ws))"
proof -
  have *: "ws_quiet ws (snd (case connectSubscribed W mailbox c req ws1 of
      (Inl e, ws) \<Rightarrow> (Inl e, cancelSubscription server events ws)
    | (Inr v, ws) \<Rightarrow> (Inr (), startLiveRelay (r v) ws)))" if "ws_quiet ws ws1" for mailbox ws1 server events r
    using ws_quiet_connectSubscribed [OF that assms, of W mailbox req]
    by (auto simp: quiet_ws split: prod.split sum.split)
  have claim: "ws_quiet ws ws2"
    if "onTransport (claimLiveAttachment c sid doc) ws1 = (b, ws2)" and "ws_quiet ws ws1" for sid doc ws1 b ws2
    using ws_quiet_claim [OF that(2), of c sid doc] that(1) by simp
  show ?thesis
    unfolding HandleConnectAndAttachLive_def
    by (rule ws_quiet_bindS)
      (auto simp: quiet_ws split: option.split prod.split intro!: ws_quiet_bindS * dest: claim)
qed

lemma ws_quiet_relayEvent:
  assumes "ws_quiet ws ws1"
  shows "ws_quiet ws (snd (relayEvent W Memory_Mailbox r event ws1))"
proof -
  have "ws_quiet ws (snd (bindS (onGen (EnvelopeForSession (rl_sessionID r) event (wc_gen W)) ws1) (\<lambda>env ws.
      bindS (onMail (\<lambda>m. Append Memory_Mailbox m env) ws) (\<lambda>_ ws. sendJSON W (rl_conn r) (EventMsg
        \<lparr>em_SessionID = rl_sessionID r, em_DocumentID = rl_documentID r, em_Envelope = env\<rparr>) ws))))"
    using assms by (intro ws_quiet_bindS) (simp_all add: quiet_ws del: Memory_Mailbox_simps)
  then show ?thesis
    using assms by (auto simp: relayEvent_def quiet_ws split: prod.split sum.split)
qed

lemma ws_quiet_HandleAck:
  "memory_setup W C \<Longrightarrow> ws_quiet ws (snd (HandleAckEnvelope W req ws))"
  unfolding HandleAckEnvelope_def
  by (rule ws_quiet_bindS) (simp_all add: memory_setup_def quiet_ws del: Memory_Mailbox_simps)

section \<open>Submissions\<close>

text \<open>After the server has answered, the rest of \<open>HandleSubmit\<close> leaves the documents alone.\<close>

lemma HandleSubmit_server:
  assumes W: "memory_setup W C"
  shows "ws_quiet ws (snd (HandleSubmit W (Some c) msg ws)) \<or>
    (\<exists>r st. submitCore C (canonicalizeSubmitRequest msg) (ws_server ws) = (r, st) \<and>
       ws_quiet (ws\<lparr>ws_server := st\<rparr>) (snd (HandleSubmit W (Some c) msg ws)))"
proof (cases "validateSubmitMessage msg")
  case (Inl e)
  then show ?thesis by (simp add: HandleSubmit_def)
next
  case (Inr u)
  obtain r st where s: "submitCore C (canonicalizeSubmitRequest msg) (ws_server ws) = (r, st)" by fastforce
  let ?ws = "ws\<lparr>ws_server := st\<rparr>"
  have "onServer (SubmitWithRequest C (wc_middleware W) (canonicalizeSubmitRequest msg)) ws = (r, ?ws)"
    using W s by (simp add: memory_setup_def onServer_def SubmitWithRequest_def)
  then have "ws_quiet ?ws (snd (submitForSession W C Memory_Mailbox c msg ws))"
    unfolding submitForSession_def
    by (cases r) (auto simp: quiet_ws Let_def simp del: Memory_Mailbox_simps intro!: ws_quiet_bindS)
  moreover have "ws_quiet ws (snd (refuseMessage ws))" by (simp add: quiet_ws)
  ultimately show ?thesis using Inr W s
    by (cases "wc_gen W") (auto simp: HandleSubmit_def memory_setup_def)
qed

section \<open>Runs of the transport\<close>

text \<open>
  What can happen: a call of the server by somebody else, a new connection, a payload read from a
  connection, a round of a write loop, a broken socket, an event taken by a relay, the end of the
  relay of a closed connection.
\<close>

datatype ws_event = ServerCall server_call | Accepted int | Received nat string | Written nat bool
  | Broken nat | Relayed nat | RelayStopped nat

fun remove_nth :: "nat \<Rightarrow> 'a list \<Rightarrow> 'a list" where
  "remove_nth i xs = take i xs @ drop (Suc i) xs"

definition relay_round ::
    "(MemoryBackend, MemoryLocker, MemoryPublisher, 'v, 'f, 'j, MemoryMailboxStore, 'g) ws_config \<Rightarrow>
     (MemoryBackend, MemoryLocker, MemoryPublisher, 'v, 'f, 'j) server_config \<Rightarrow> nat \<Rightarrow>
     (MemoryBackend, MemoryLocker, MemoryPublisher, 'v, MemoryMailboxStore, 'g) ws_state \<Rightarrow>
     (MemoryBackend, MemoryLocker, MemoryPublisher, 'v, MemoryMailboxStore, 'g) ws_state" where
  "relay_round W C i ws =
     (let r = ws_relays ws ! i;
          (received, p) = Memory_Receive (srv_pub (ws_server ws)) (rl_events r);
          ws = ws\<lparr>ws_server := (ws_server ws)\<lparr>srv_pub := p\<rparr>\<rparr>
      in case received of
           None \<Rightarrow> ws
         | Some event \<Rightarrow>
             (let (running, ws) = relayEvent W Memory_Mailbox r event ws
              in if running then ws
                 else cancelSubscription C (rl_events r) (ws\<lparr>ws_relays := remove_nth i (ws_relays ws)\<rparr>)))"

fun ws_act ::
    "(MemoryBackend, MemoryLocker, MemoryPublisher, 'v, 'f, 'j, MemoryMailboxStore, 'g) ws_config \<Rightarrow>
     (MemoryBackend, MemoryLocker, MemoryPublisher, 'v, 'f, 'j) server_config \<Rightarrow> ws_event \<Rightarrow>
     (MemoryBackend, MemoryLocker, MemoryPublisher, 'v, MemoryMailboxStore, 'g) ws_state \<Rightarrow>
     (MemoryBackend, MemoryLocker, MemoryPublisher, 'v, MemoryMailboxStore, 'g) ws_state" where
  "ws_act W C (ServerCall call) ws = ws\<lparr>ws_server := run_call C call (ws_server ws)\<rparr>"
| "ws_act W C (Accepted b) ws = ws\<lparr>ws_transport := snd (NewClientConn b (ws_transport ws))\<rparr>"
| "ws_act W C (Received c payload) ws =
     (if c < tr_next (ws_transport ws) then readLoop_step W c payload ws else ws)"
| "ws_act W C (Written c ok) ws = ws\<lparr>ws_transport := writeLoop_step c ok (ws_transport ws)\<rparr>"
| "ws_act W C (Broken c) ws = closeConn c ws"
| "ws_act W C (Relayed i) ws = (if i < length (ws_relays ws) then relay_round W C i ws else ws)"
| "ws_act W C (RelayStopped i) ws =
     (if i < length (ws_relays ws) \<and> cc_done (tr_conns (ws_transport ws) (rl_conn (ws_relays ws ! i)))
      then cancelSubscription C (rl_events (ws_relays ws ! i)) (ws\<lparr>ws_relays := remove_nth i (ws_relays ws)\<rparr>)
      else ws)"

fun ws_run ::
    "(MemoryBackend, MemoryLocker, MemoryPublisher, 'v, 'f, 'j, MemoryMailboxStore, 'g) ws_config \<Rightarrow>
     (MemoryBackend, MemoryLocker, MemoryPublisher, 'v, 'f, 'j) server_config \<Rightarrow> ws_event list \<Rightarrow>
     (MemoryBackend, MemoryLocker, MemoryPublisher, 'v, MemoryMailboxStore, 'g) ws_state \<Rightarrow>
     (MemoryBackend, MemoryLocker, MemoryPublisher, 'v, MemoryMailboxStore, 'g) ws_state" where
  "ws_run W C [] ws = ws"
| "ws_run W C (e # es) ws = ws_run W C es (ws_act W C e ws)"

definition NewWs :: "'g \<Rightarrow> (MemoryBackend, MemoryLocker, MemoryPublisher, 'v, MemoryMailboxStore, 'g) ws_state" where
  "NewWs g = \<lparr>ws_server = NewMemoryServer, ws_mail = NewMemoryMailboxStore, ws_transport = NewTransport,
     ws_gen = g, ws_relays = []\<rparr>"

section \<open>The invariant of every run\<close>

definition ws_inv ::
    "(MemoryBackend, MemoryLocker, MemoryPublisher, 'v, 'f, 'j) server_config \<Rightarrow> nat \<Rightarrow>
     (MemoryBackend, MemoryLocker, MemoryPublisher, 'v, MemoryMailboxStore, 'g) ws_state \<Rightarrow> bool" where
  "ws_inv C n ws \<longleftrightarrow>
     server_inv C (\<lambda>b. b) n (ws_server ws) \<and> session_inv (ws_transport ws) \<and>
     (\<forall>sid. box_ok sid (memory_box (ws_mail ws) sid) \<and>
            cursor_ok (memory_box (ws_mail ws) sid) (memory_cursor (ws_mail ws) sid))"

lemma server_inv_pub [simp]: "server_inv C stored n (st\<lparr>srv_pub := p\<rparr>) = server_inv C stored n st"
  by (simp add: server_inv_def)

lemma ws_inv_quiet: "ws_quiet ws ws' \<Longrightarrow> ws_inv C n ws \<Longrightarrow> ws_inv C n ws'"
  using memory_mail.run_mails_ok by (fastforce simp: ws_quiet_def ws_inv_def)

lemma ws_inv_mono: "ws_inv C n ws \<Longrightarrow> n \<le> m \<Longrightarrow> ws_inv C m ws"
  by (auto simp: ws_inv_def intro: server_inv_mono)

lemma ws_inv_New: "ws_inv (memory_config E ot U depth maxGap) 0 (NewWs g)"
  using memory_server_start
  by (auto simp: ws_inv_def NewWs_def session_inv_New box_ok_def cursor_ok_def memory_box_def
      memory_cursor_def NewMemoryMailboxStore_def map_at_def)

lemma inbound_cases:
  assumes W: "memory_setup W C" and c: "c < tr_next (ws_transport ws)"
  shows "ws_quiet ws (snd (NewSessionInboundHandler W c payload ws)) \<or>
    (\<exists>msg. Active (sm_SessionID msg) (ws_transport ws) = Some c \<and>
       hasLiveAttachment c (sm_SessionID msg) (sm_DocumentID msg) (ws_transport ws) \<and>
       NewSessionInboundHandler W c payload ws = HandleSubmit W (Some c) msg ws)"
proof (cases "wc_type W payload")
  case (Inr ty)
  consider "ty = MessageTypeConnect" | "ty = MessageTypeSubmit" "ty \<noteq> MessageTypeConnect"
    | "ty = MessageTypeAckEnvelope" "ty \<noteq> MessageTypeConnect" "ty \<noteq> MessageTypeSubmit"
    | "ty \<notin> {MessageTypeConnect, MessageTypeSubmit, MessageTypeAckEnvelope}"
    by blast
  then show ?thesis
  proof cases
    case 1
    then show ?thesis using Inr ws_quiet_connect [OF c, of W]
      by (auto simp: NewSessionInboundHandler_def quiet_ws split: sum.split)
  next
    case 2
    then show ?thesis using Inr
      by (cases "wc_submit W payload") (auto simp: NewSessionInboundHandler_def quiet_ws)
  next
    case 3
    then show ?thesis using Inr ws_quiet_HandleAck [OF W, of ws]
      by (auto simp: NewSessionInboundHandler_def quiet_ws split: sum.split)
  qed (use Inr in \<open>simp add: NewSessionInboundHandler_def quiet_ws\<close>)
qed (simp add: NewSessionInboundHandler_def quiet_ws)

text \<open>What reading a payload can do: nothing to the documents, or one submission of an active session.\<close>

lemma readLoop_cases:
  assumes W: "memory_setup W C" and c: "c < tr_next (ws_transport ws)"
  obtains (quiet) "ws_quiet ws (readLoop_step W c payload ws)"
  | (submit) msg r st where "Active (sm_SessionID msg) (ws_transport ws) = Some c"
      "hasLiveAttachment c (sm_SessionID msg) (sm_DocumentID msg) (ws_transport ws)"
      "submitCore C (canonicalizeSubmitRequest msg) (ws_server ws) = (r, st)"
      "ws_quiet (ws\<lparr>ws_server := st\<rparr>) (readLoop_step W c payload ws)"
proof -
  obtain r ws1 where h: "NewSessionInboundHandler W c payload ws = (r, ws1)" by fastforce
  have close: "ws_quiet a ws1 \<Longrightarrow> ws_quiet a (readLoop_step W c payload ws)" for a
    using h by (cases r) (auto simp: readLoop_step_def quiet_ws)
  from inbound_cases [OF W c, of payload] show thesis
  proof (elim disjE exE conjE)
    assume "ws_quiet ws (snd (NewSessionInboundHandler W c payload ws))"
    then show thesis using close h that(1) by simp
  next
    fix msg
    assume a: "Active (sm_SessionID msg) (ws_transport ws) = Some c"
      "hasLiveAttachment c (sm_SessionID msg) (sm_DocumentID msg) (ws_transport ws)"
      "NewSessionInboundHandler W c payload ws = HandleSubmit W (Some c) msg ws"
    then have "ws1 = snd (HandleSubmit W (Some c) msg ws)" using h by (metis snd_conv)
    with HandleSubmit_server [OF W, of ws c msg] show thesis
      using close that(1) that(2) [OF a(1,2)] by blast
  qed
qed

lemma ws_inv_submit:
  assumes "ws_inv (memory_config E ot U depth maxGap) n ws" and "int n + 1 < 2 ^ 63"
    and "submitCore (memory_config E ot U depth maxGap) req (ws_server ws) = (r, st)"
  shows "ws_inv (memory_config E ot U depth maxGap) (Suc n) (ws\<lparr>ws_server := st\<rparr>)"
  using assms memory_server.server_inv_call [of E ot U depth maxGap n "ws_server ws" "CallSubmit req"]
  by (simp add: ws_inv_def)

lemma relay_round_quiet: "ws_quiet ws (relay_round W C i ws)"
proof -
  obtain received p where rec': "Memory_Receive (srv_pub (ws_server ws)) (rl_events (ws_relays ws ! i)) = (received, p)"
    by fastforce
  let ?ws = "ws\<lparr>ws_server := (ws_server ws)\<lparr>srv_pub := p\<rparr>\<rparr>"
  have q: "ws_quiet ws ?ws" by (simp add: quiet_ws)
  have "ws_quiet ws ws2" if "relayEvent W Memory_Mailbox (ws_relays ws ! i) event ?ws = (b, ws2)" for event b ws2
    using ws_quiet_relayEvent [OF q, of W "ws_relays ws ! i" event] that by simp
  then show ?thesis
    using q rec' unfolding relay_round_def
    by (cases received) (auto simp: Let_def quiet_ws split: prod.split)
qed

lemma ws_inv_act:
  assumes W: "memory_setup W (memory_config E ot U depth maxGap)"
    and inv: "ws_inv (memory_config E ot U depth maxGap) n ws" and n: "int n + 1 < 2 ^ 63"
  shows "ws_inv (memory_config E ot U depth maxGap) (Suc n) (ws_act W (memory_config E ot U depth maxGap) e ws)"
proof -
  have quiet: "ws_quiet ws ws' \<Longrightarrow> ws_inv (memory_config E ot U depth maxGap) (Suc n) ws'" for ws'
    using ws_inv_quiet inv ws_inv_mono by (metis le_SucI order_refl)
  show ?thesis
  proof (cases e)
    case (ServerCall call)
    then show ?thesis
      using inv memory_server.server_inv_call [of E ot U depth maxGap n "ws_server ws" call] n
      by (simp add: ws_inv_def)
  next
    case (Accepted b)
    then show ?thesis
      using ws_inv_mono [OF inv, of "Suc n"] session_inv_NewClientConn by (auto simp: ws_inv_def)
  next
    case (Received c payload)
    show ?thesis
    proof (cases "c < tr_next (ws_transport ws)")
      case True
      from readLoop_cases [OF W True, of payload] show ?thesis
      proof cases
        case 1
        then show ?thesis using True Received quiet by simp
      next
        case (2 msg r st)
        then show ?thesis using True Received ws_inv_submit [OF inv n 2(3)] ws_inv_quiet by auto
      qed
    qed (use Received quiet in simp)
  next
    case (Written c ok)
    have "tr_next (writeLoop_step c ok (ws_transport ws)) = tr_next (ws_transport ws)"
      by (simp add: writeLoop_step_def Let_def split: list.split)
    then have "ws_quiet ws (ws\<lparr>ws_transport := writeLoop_step c ok (ws_transport ws)\<rparr>)"
      by (intro ws_quiet_transport session_inv_writeLoop) simp_all
    then show ?thesis using Written quiet by simp
  next
    case (Relayed i)
    then show ?thesis using quiet [OF relay_round_quiet, of W] quiet [OF ws_quiet_refl] by simp
  qed (use quiet in \<open>auto simp: quiet_ws\<close>)
qed

lemma ws_inv_run_from:
  assumes W: "memory_setup W (memory_config E ot U depth maxGap)"
  shows "ws_inv (memory_config E ot U depth maxGap) n ws \<Longrightarrow> int n + int (length es) < 2 ^ 63 \<Longrightarrow>
    ws_inv (memory_config E ot U depth maxGap) (n + length es) (ws_run W (memory_config E ot U depth maxGap) es ws)"
proof (induction es arbitrary: n ws)
  case (Cons e es)
  then show ?case using ws_inv_act [OF W Cons.prems(1), of e] Cons.IH [of "Suc n"] by simp
qed simp

lemma ws_inv_run:
  assumes "memory_setup W (memory_config E ot U depth maxGap)" and "int (length es) < 2 ^ 63"
  shows "ws_inv (memory_config E ot U depth maxGap) (length es)
    (ws_run W (memory_config E ot U depth maxGap) es (NewWs g))"
  using ws_inv_run_from [OF assms(1) ws_inv_New] assms(2) by simp

text \<open>The documents after one action of the transport that is not a call by somebody else.\<close>

lemma act_author:
  assumes W: "memory_setup W (memory_config E ot U depth maxGap)"
    and inv: "ws_inv (memory_config E ot U depth maxGap) n ws" and e: "\<forall>call. e \<noteq> ServerCall call"
  obtains (same) "srv_backend (ws_server (ws_act W (memory_config E ot U depth maxGap) e ws)) = srv_backend (ws_server ws)"
  | (committed) c payload msg res d where "e = Received c payload"
      "Active (sm_SessionID msg) (ws_transport ws) = Some c"
      "hasLiveAttachment c (sm_SessionID msg) (sm_DocumentID msg) (ws_transport ws)"
      "srv_backend (ws_server ws) (sm_DocumentID msg) = Some d"
      "srv_backend (ws_server (ws_act W (memory_config E ot U depth maxGap) e ws)) =
         (srv_backend (ws_server ws))(sm_DocumentID msg \<mapsto>
           \<lparr>md_version = res_Version res, md_doc = res_Document res,
            md_ops = md_ops d @ [commit_entry (canonicalizeSubmitRequest msg) res]\<rparr>)"
proof -
  let ?C = "memory_config E ot U depth maxGap"
  have quiet: "ws_quiet a ws' \<Longrightarrow> srv_backend (ws_server ws') = srv_backend (ws_server a)"
    for a ws' :: "(MemoryBackend, MemoryLocker, MemoryPublisher, 'a, MemoryMailboxStore, 'd) ws_state"
    by (auto simp: ws_quiet_def)
  show thesis
  proof (cases "\<exists>c payload. e = Received c payload \<and> c < tr_next (ws_transport ws)")
    case True
    then obtain c payload where e: "e = Received c payload" "c < tr_next (ws_transport ws)" by blast
    from readLoop_cases [OF W e(2), of payload] show thesis
    proof cases
      case 1
      then show thesis using quiet that(1) e by simp
    next
      case (2 msg r st)
      have "log_inv (\<lambda>b. b) (ws_server ws)" using inv by (simp add: ws_inv_def server_inv_def)
      from memory_server.submitCore_outcome [OF 2(3) this] quiet [OF 2(4)] show thesis
        using that(1) that(2) [OF e(1) 2(1,2)] e by (auto simp: untouched_def advanced_def)
    qed
  next
    case False
    then have "ws_quiet ws (ws_act W ?C e ws) \<or> srv_backend (ws_server (ws_act W ?C e ws)) = srv_backend (ws_server ws)"
      using e relay_round_quiet by (cases e) (auto simp: quiet_ws)
    then show thesis using quiet that(1) by blast
  qed
qed

section \<open>What a relay sends\<close>

definition wanted :: "relay \<Rightarrow> Event \<Rightarrow> bool" where
  "wanted r e \<longleftrightarrow> rl_skipThroughVersion r < ev_Version e \<and> ev_Source e \<noteq> rl_sessionID r"

definition live_message :: "relay \<Rightarrow> Envelope \<Rightarrow> ServerMessage" where
  "live_message r env =
     EventMsg \<lparr>em_SessionID = rl_sessionID r, em_DocumentID = rl_documentID r, em_Envelope = env\<rparr>"

definition outbox :: "('s, 'l, 'p, 'v, 'm, 'g) ws_state \<Rightarrow> nat \<Rightarrow> ServerMessage list" where
  "outbox ws c = cc_queue (tr_conns (ws_transport ws) c)"

lemma sendJSON_cases:
  assumes "sendJSON W c msg ws = (r, ws')"
  obtains (sent) "r = Inr ()" "\<not> cc_done (tr_conns (ws_transport ws) c)"
      "ws' = ws\<lparr>ws_transport := onConn c (\<lambda>cc. cc\<lparr>cc_queue := cc_queue cc @ [msg]\<rparr>) (ws_transport ws)\<rparr>"
  | (failed) e where "r = Inl e" "ws' = ws"
proof (cases "messageMarshals (wc_valid W) msg \<and> \<not> cc_done (tr_conns (ws_transport ws) c)")
  case True
  then show thesis using assms by (intro sent) (simp_all add: sendJSON_def onTransport_def Enqueue_def)
next
  case False
  then have "\<exists>e. sendJSON W c msg ws = (Inl e, ws)"
    by (auto simp: sendJSON_def onTransport_def Enqueue_def)
  then show thesis using assms failed by auto
qed

lemma relayEvent_unwanted: "\<not> wanted r e \<Longrightarrow> relayEvent W M r e ws = (True, ws)"
  by (auto simp: relayEvent_def wanted_def)

lemma relayEvent_delivered:
  assumes "relayEvent W Memory_Mailbox r e ws = (True, ws')" and "wanted r e"
  shows "\<exists>env. env_Event env = Some e \<and> env_SessionID env = rl_sessionID r \<and> env_Version env = ev_Version e \<and>
    outbox ws' (rl_conn r) = outbox ws (rl_conn r) @ [live_message r env] \<and>
    memory_box (ws_mail ws') = (memory_box (ws_mail ws))
      (rl_sessionID r := memory_box (ws_mail ws) (rl_sessionID r) @ [env]) \<and>
    ws_server ws' = ws_server ws"
proof -
  have "bindS (onGen (EnvelopeForSession (rl_sessionID r) e (wc_gen W)) ws) (\<lambda>env ws.
        bindS (onMail (\<lambda>m. Append Memory_Mailbox m env) ws) (\<lambda>_ ws. sendJSON W (rl_conn r)
          (live_message r env) ws)) = (Inr (), ws')"
    using assms unfolding relayEvent_def live_message_def wanted_def
    by (auto split: prod.splits sum.splits if_splits)
  then obtain env ws1 ws2 where w: "onGen (EnvelopeForSession (rl_sessionID r) e (wc_gen W)) ws = (Inr env, ws1)"
      "onMail (\<lambda>m. Append Memory_Mailbox m env) ws1 = (Inr (), ws2)"
      "sendJSON W (rl_conn r) (live_message r env) ws2 = (Inr (), ws')"
    unfolding bindS_Inr_iff by auto
  obtain g where g: "EnvelopeForSession (rl_sessionID r) e (wc_gen W) (ws_gen ws) = (Inr env, g)"
      "ws1 = ws\<lparr>ws_gen := g\<rparr>"
    using w(1) by (auto simp: onGen_def split: prod.splits)
  obtain m where m: "Append Memory_Mailbox (ws_mail ws) env = (Inr (), m)"
      "sendJSON W (rl_conn r) (live_message r env) (ws\<lparr>ws_gen := g, ws_mail := m\<rparr>) = (Inr (), ws')"
    using w(2,3) g(2) by (auto simp: onMail_def simp del: Memory_Mailbox_simps split: prod.splits)
  have "ws' = ws\<lparr>ws_gen := g, ws_mail := m, ws_transport :=
      onConn (rl_conn r) (\<lambda>cc. cc\<lparr>cc_queue := cc_queue cc @ [live_message r env]\<rparr>) (ws_transport ws)\<rparr>"
    using m(2) by (cases rule: sendJSON_cases) auto
  then show ?thesis
    using memory_mail.Append_ok [OF m(1)] EnvelopeForSession_Inr [OF g(1)]
    by (intro exI [of _ env]) (simp add: outbox_def)
qed

lemma relayEvent_stopped:
  assumes "relayEvent W Memory_Mailbox r e ws = (False, ws')" and "session_inv (ws_transport ws)"
  shows "outbox ws' (rl_conn r) = outbox ws (rl_conn r)" and "cc_done (tr_conns (ws_transport ws') (rl_conn r))"
proof -
  obtain er ws1 where b: "bindS (onGen (EnvelopeForSession (rl_sessionID r) e (wc_gen W)) ws) (\<lambda>env ws.
        bindS (onMail (\<lambda>m. Append Memory_Mailbox m env) ws) (\<lambda>_ ws. sendJSON W (rl_conn r)
          (live_message r env) ws)) = (Inl er, ws1)" and ws': "ws' = closeConn (rl_conn r) ws1"
    using assms(1) unfolding relayEvent_def live_message_def
    by (auto split: prod.splits sum.splits if_splits)
  obtain res g where g: "EnvelopeForSession (rl_sessionID r) e (wc_gen W) (ws_gen ws) = (res, g)" by fastforce
  have "ws_transport ws1 = ws_transport ws"
  proof (cases res)
    case (Inr env)
    obtain res2 m where m: "Append Memory_Mailbox (ws_mail ws) env = (res2, m)" by fastforce
    show ?thesis
    proof (cases res2)
      case Inr
      then have "sendJSON W (rl_conn r) (live_message r env) (ws\<lparr>ws_gen := g, ws_mail := m\<rparr>) = (Inl er, ws1)"
        using b g m \<open>res = Inr env\<close> by (simp add: onGen_def onMail_def)
      then show ?thesis by (cases rule: sendJSON_cases) auto
    qed (use b g m Inr in \<open>auto simp: onGen_def onMail_def\<close>)
  qed (use b g in \<open>auto simp: onGen_def\<close>)
  then show "outbox ws' (rl_conn r) = outbox ws (rl_conn r)" "cc_done (tr_conns (ws_transport ws') (rl_conn r))"
    using assms(2) by (simp_all add: ws' closeConn_def outbox_def Close_conns)
qed

lemma relayLoop_sends:
  "relayLoop W Memory_Mailbox r events ws = (running, ws') \<Longrightarrow> session_inv (ws_transport ws) \<Longrightarrow>
   \<exists>envs. outbox ws' (rl_conn r) = outbox ws (rl_conn r) @ map (live_message r) envs \<and>
     prefix (map env_Event envs) (map Some (filter (wanted r) events)) \<and>
     (running \<and> map env_Event envs = map Some (filter (wanted r) events) \<and>
        memory_box (ws_mail ws') (rl_sessionID r) = memory_box (ws_mail ws) (rl_sessionID r) @ envs \<or>
      \<not> running \<and> cc_done (tr_conns (ws_transport ws') (rl_conn r)))"
proof (induction events arbitrary: ws)
  case Nil
  then show ?case by (intro exI [of _ "[]"]) simp
next
  case (Cons e events)
  obtain b ws1 where s: "relayEvent W Memory_Mailbox r e ws = (b, ws1)" by fastforce
  show ?case
  proof (cases b)
    case False
    then show ?thesis
      using Cons.prems relayEvent_stopped [where W = W and r = r and e = e and ws = ws and ws' = ws1] s by (intro exI [of _ "[]"]) auto
  next
    case True
    have loop: "relayLoop W Memory_Mailbox r events ws1 = (running, ws')" using Cons.prems(1) s True by simp
    have inv: "session_inv (ws_transport ws1)"
      using ws_quiet_relayEvent [OF ws_quiet_refl, where W = W and r = r and event = e and ws = ws] s Cons.prems(2) by (simp add: ws_quiet_def)
    show ?thesis
    proof (cases "wanted r e")
      case False
      then show ?thesis using Cons.IH [OF loop inv] relayEvent_unwanted [OF False, where W = W and M = Memory_Mailbox and ws = ws] s by simp
    next
      case wanted: True
      obtain envs where envs:
          "outbox ws' (rl_conn r) = outbox ws1 (rl_conn r) @ map (live_message r) envs"
          "prefix (map env_Event envs) (map Some (filter (wanted r) events))"
          "running \<and> map env_Event envs = map Some (filter (wanted r) events) \<and>
             memory_box (ws_mail ws') (rl_sessionID r) = memory_box (ws_mail ws1) (rl_sessionID r) @ envs \<or>
           \<not> running \<and> cc_done (tr_conns (ws_transport ws') (rl_conn r))"
        using Cons.IH [OF loop inv] by blast
      obtain env where "env_Event env = Some e"
          "outbox ws1 (rl_conn r) = outbox ws (rl_conn r) @ [live_message r env]"
          "memory_box (ws_mail ws1) (rl_sessionID r) = memory_box (ws_mail ws) (rl_sessionID r) @ [env]"
        using relayEvent_delivered [OF _ wanted, where W = W and ws = ws and ws' = ws1] s True by auto
      then show ?thesis using envs wanted by (intro exI [of _ "env # envs"]) auto
    qed
  qed
qed

end
