(* ===== verification/ServerProperties.thy ===== *)
theory ServerProperties
  imports ServerBehaviour SonicEnv
begin

text \<open>
  The properties of the document server, stated for the memory server (every environment, registry
  and rebase window), and of its lock and its publisher.  The witnesses run the server on the
  reference JSON tree.
\<close>

section \<open>A server to compute with\<close>

definition ref_json :: "string \<Rightarrow> jnode res" where
  "ref_json s = (case parse_text s of None \<Rightarrow> Inl FmtError | Some j \<Rightarrow> Inr j)"

definition ref_server :: "(MemoryBackend, MemoryLocker, MemoryPublisher, jnode, int, jnode) server_config" where
  "ref_server = memory_config ref_env NewJSONOperationTransformer ref_json 3 2"

definition set_a :: string where \<open>set_a = ''[{"p":["a"],"oi":1}]''\<close>
definition set_b :: string where \<open>set_b = ''[{"p":["b"],"oi":2}]''\<close>

definition ref_request :: "int \<Rightarrow> string \<Rightarrow> int \<Rightarrow> SubmitRequest" where
  "ref_request base operation sequence =
     \<lparr>req_DocumentID = ''d'', req_BaseVersion = base, req_Operation = operation,
      req_ID = \<lparr>id_Source = ''s'', id_Sequence = sequence\<rparr>, req_Source = '''', req_Sequence = 0\<rparr>"

definition ref_history :: "server_call list" where
  "ref_history = [CallCreate ''d'' '''', CallSubmit (ref_request 0 set_a 1)]"

definition ref_state :: "(MemoryBackend, MemoryLocker, MemoryPublisher, jnode) server_state" where
  "ref_state = run_calls ref_server ref_history NewMemoryServer"

text \<open>What the server holds after creating \<open>d\<close> and setting its member \<open>a\<close>.\<close>

definition ref_doc :: memDoc where
  \<open>ref_doc = \<lparr>md_version = 1, md_doc = ''{"a":1}'',
     md_ops = [\<lparr>op_DocumentID = ''d'', op_Version = 1, op_BaseVersion = 0,
       op_ID = \<lparr>id_Source = ''s'', id_Sequence = 1\<rparr>, op_Source = ''s'', op_Sequence = 1,
       op_SubmittedOp = set_a, op_Op = ''[{"p":["a"],"oi":1}]''\<rparr>]\<rparr>\<close>

lemma ref_state_doc: "srv_backend ref_state ''d'' = Some ref_doc"
  by code_simp

lemma ref_state_memory:
  "ref_state = run_calls (memory_config ref_env NewJSONOperationTransformer ref_json 3 2) ref_history NewMemoryServer"
  by (simp add: ref_state_def ref_server_def)

section \<open>Invariants\<close>

text \<open>C4: After any sequence of fewer than \<open>2 ^ 63\<close> calls of the server, the version of every document
  is the number of records in its log, the records are numbered 1 to that version and name the
  document, and no two of them carry the same source and positive sequence number: a submission
  is committed at most once.\<close>

theorem server_log_consistent:
  assumes "int (length calls) < 2 ^ 63"
    and "srv_backend (run_calls (memory_config E ot U depth maxGap) calls NewMemoryServer) docID = Some d"
  shows "md_version d = int (length (md_ops d)) \<and>
    (\<forall>i < length (md_ops d). op_DocumentID (md_ops d ! i) = docID \<and> op_Version (md_ops d ! i) = int i + 1) \<and>
    distinct (filter has_sequence (map OpRecord_opID (md_ops d)))"
  using memory_server_inv [OF assms(1), of E ot U depth maxGap] assms(2)
  by (auto simp: server_inv_def log_inv_def log_ok_def unique_sequences_def)

lemma server_log_consistent_witness:
  "srv_backend ref_state ''d'' = Some ref_doc \<and> md_version ref_doc = int (length (md_ops ref_doc))"
  using server_log_consistent [of ref_history ref_env NewJSONOperationTransformer ref_json 3 2 "''d''" ref_doc]
    ref_state_doc
  by (simp add: ref_history_def ref_state_memory)

text \<open>C3: Every call of the server is one step of the abstract document store: it creates an absent
  document, appends one record (for a submission the one with the request's identifier, which was
  not in the log), removes a document at the version the caller named, or changes nothing.\<close>

theorem server_refines_document_store:
  assumes "int (length calls) < 2 ^ 63"
    and "st = run_calls (memory_config E ot U depth maxGap) calls NewMemoryServer"
  shows "doc_step c (srv_backend st) (srv_backend (run_call (memory_config E ot U depth maxGap) c st))"
  using memory_server.run_call_doc_step memory_server_inv [OF assms(1), of E ot U depth maxGap] assms(2)
  by (auto simp: server_inv_def)

lemma server_refines_document_store_witness:
  "doc_step (CallSubmit (ref_request 1 set_b 2)) (srv_backend ref_state)
     (srv_backend (run_call ref_server (CallSubmit (ref_request 1 set_b 2)) ref_state))"
  unfolding ref_server_def
  by (rule server_refines_document_store [OF _ ref_state_memory]) (simp add: ref_history_def)

text \<open>C11: As long as calls run as wholes, an operation in the cache of parsed operations belongs to the log
  record of its document and version: that record is in the log now, and the operation has, component
  by component, the paths and the operators of an operation \<open>op'\<close> that stands for the record's text, being
  a clone of the one the text was written from or read to.  Its values, which it shares with the
  operations that are rebased over it, may have been edited in place since; where no such edit reaches
  the node library's values, the cached operation is \<open>op'\<close> itself.\<close>

theorem cache_stands_for_log:
  assumes "int (length calls) < 2 ^ 63"
    and "st = run_calls (memory_config E ot U depth maxGap) calls NewMemoryServer"
    and "srv_parsedOps st docID = Some versions" and "versions v = Some op"
  shows "\<exists>r d op'. srv_backend st docID = Some d \<and> r \<in> set (md_ops d) \<and> op_Version r = v \<and>
    stands_for (memory_config E ot U depth maxGap) (op_Op r) op' \<and> op_shape op = op_shape op' \<and>
    ((\<forall>t n w i b x. sharedEdit E t n w i b x = x) \<longrightarrow> op = op')"
proof -
  have "cache_inv (memory_config E ot U depth maxGap) (\<lambda>b. b) st"
    using memory_server_inv [OF assms(1), of E ot U depth maxGap] assms(2) by (simp add: server_inv_def)
  then obtain r where r: "in_log (\<lambda>b. b) (srv_backend st) r" "op_DocumentID r = docID" "op_Version r = v"
      "represents (memory_config E ot U depth maxGap) r op"
    using assms(3,4) unfolding cache_inv_def by blast
  from r(4) obtain op' where "stands_for (memory_config E ot U depth maxGap) (op_Op r) op'"
      "op_shape op = op_shape op'" "(\<forall>t n w i b x. sharedEdit E t n w i b x = x) \<longrightarrow> op = op'"
    by (rule represents_shape) auto
  then show ?thesis using r(1-3) by (auto simp: in_log_def intro!: exI [of _ r])
qed

lemma ref_sharedEdit [simp]: "sharedEdit ref_env t n w i b x = x"
  by (simp add: ref_env_def)

lemma cache_stands_for_log_witness:
  "\<exists>r. r \<in> set (md_ops ref_doc) \<and> op_Version r = 1 \<and>
     stands_for ref_server (op_Op r)
       (NewOperation [\<lparr>Operator = ObjectInsert (JNum 1), Path = [PathElementFromKey ''a'']\<rparr>])"
proof -
  let ?op = "NewOperation [\<lparr>Operator = ObjectInsert (JNum 1), Path = [PathElementFromKey ''a'']\<rparr>]"
  have "(case srv_parsedOps ref_state ''d'' of None \<Rightarrow> None | Some vs \<Rightarrow> vs 1) = Some ?op"
    by code_simp
  then obtain versions where "srv_parsedOps ref_state ''d'' = Some versions" "versions 1 = Some ?op"
    by (auto split: option.splits)
  from cache_stands_for_log [OF _ ref_state_memory this] ref_state_doc show ?thesis
    by (auto simp: ref_history_def ref_server_def)
qed

section \<open>Submitting\<close>

text \<open>C9: A submission either fails and leaves documents and subscribers alone, or answers from the
  current state without changing it, or commits: then the version grows by one, the log by one
  record holding the submitted and the committed operation, the stored document is the one in
  the result, and exactly one event, with that version and document, is published.\<close>

theorem submit_commits_or_leaves_untouched:
  assumes "int (length calls) < 2 ^ 63"
    and "st = run_calls (memory_config E ot U depth maxGap) calls NewMemoryServer"
    and "submitCore (memory_config E ot U depth maxGap) req st = (r, st')"
  shows "(\<exists>e. r = Inl e) \<and> untouched (\<lambda>b. b) st st' \<or>
    (\<exists>res. r = Inr res \<and> advanced (memory_config E ot U depth maxGap) (\<lambda>b. b) req res st st') \<or>
    (\<exists>res d. r = Inr res \<and> untouched (\<lambda>b. b) st st' \<and> srv_backend st (req_DocumentID req) = Some d \<and>
       res_Version res = md_version d \<and> res_Document res = md_doc d)"
  using memory_server.submitCore_outcome [OF assms(3)] memory_server_inv [OF assms(1), of E ot U depth maxGap]
    assms(2)
  by (simp add: server_inv_def)

lemma submit_commits_or_leaves_untouched_witness:
  "\<exists>res st'. submitCore ref_server (ref_request 1 set_b 2) ref_state = (Inr res, st') \<and>
     advanced ref_server (\<lambda>b. b) (ref_request 1 set_b 2) res ref_state st'"
proof -
  obtain r st' where s: "submitCore ref_server (ref_request 1 set_b 2) ref_state = (r, st')" by fastforce
  have "map_option md_version (srv_backend (snd (submitCore ref_server (ref_request 1 set_b 2) ref_state)) ''d'') = Some 2"
    by code_simp
  then have "srv_backend st' ''d'' \<noteq> srv_backend ref_state ''d''"
    using s ref_state_doc by (auto simp: ref_doc_def)
  then have "\<not> untouched (\<lambda>b. b) ref_state st'" by (auto simp: untouched_def)
  then show ?thesis
    using submit_commits_or_leaves_untouched [OF _ ref_state_memory s [unfolded ref_server_def]] s
    by (auto simp: ref_history_def ref_server_def)
qed

text \<open>C10: A retry is answered, not committed: when a submission with a source and a positive
  sequence number was committed, and \<open>encoding/json\<close> can read its operation (the server compares
  operations as decoded by \<open>json.Unmarshal\<close>), the same request sent again, after any further calls that do
  not delete the document, is reported as a duplicate with the operation committed the first time, and
  the documents and subscribers are left as they are.\<close>

theorem retry_is_answered:
  assumes "int (length calls) + int (length later) + 1 < 2 ^ 63"
    and "st = run_calls (memory_config E ot U depth maxGap) calls NewMemoryServer"
    and "submitCore (memory_config E ot U depth maxGap) req st = (Inr res, st1)"
    and "advanced (memory_config E ot U depth maxGap) (\<lambda>b. b) req res st st1"
    and "has_sequence (SubmitRequest_opID req)" and "U (req_Operation req) = Inr j"
    and "0 \<le> req_BaseVersion req \<and> req_BaseVersion req < res_Version res"
    and "\<forall>c \<in> set later. \<not> deletes (req_DocumentID req) c"
    and "st2 = run_calls (memory_config E ot U depth maxGap) later st1"
  shows "\<exists>res' st3. submitCore (memory_config E ot U depth maxGap) req st2 = (Inr res', st3) \<and>
    res_Duplicate res' \<and> res_Operation res' = res_Operation res \<and> untouched (\<lambda>b. b) st2 st3"
proof -
  let ?C = "memory_config E ot U depth maxGap"
  have "server_inv ?C (\<lambda>b. b) (length calls) st"
    using memory_server_inv [of calls E ot U depth maxGap] assms(1,2) by simp
  then have inv1: "server_inv ?C (\<lambda>b. b) (Suc (length calls)) st1"
    using memory_server.server_inv_call [of E ot U depth maxGap "length calls" st "CallSubmit req"]
      assms(1,3) by simp
  obtain d1 where d1: "srv_backend st1 (req_DocumentID req) = Some d1" "md_version d1 = res_Version res"
      "commit_entry req res \<in> set (md_ops d1)"
    using assms(4) by (auto simp: advanced_def)
  then obtain d2 where d2: "srv_backend st2 (req_DocumentID req) = Some d2" "prefix (md_ops d1) (md_ops d2)"
    using memory_server.run_calls_grows [OF inv1 _ d1(1) assms(8)] assms(1,9) by auto
  have inv2: "server_inv ?C (\<lambda>b. b) (Suc (length calls) + length later) st2"
    using memory_server.server_inv_calls [OF inv1] assms(1,9) by simp
  have "md_version d1 \<le> md_version d2"
    using inv1 inv2 d1(1) d2 by (auto simp: server_inv_def log_inv_def log_ok_def dest!: prefix_length_le)
  moreover have "commit_entry req res \<in> set (md_ops d2)" using d1(3) d2(2) by (auto simp: prefix_def)
  ultimately have "submitLocked ?C req (st2\<lparr>srv_locks := l\<rparr>) =
    (Inr \<lparr>res_Version = md_version d2, res_Rebased = False, res_Duplicate = True,
          res_Operation = res_Operation res, res_Document = md_doc d2\<rparr>, st2\<lparr>srv_locks := l\<rparr>)" for l
    using memory_server.retry_answered [of E ot U depth maxGap _ "st2\<lparr>srv_locks := l\<rparr>" req d2
        "commit_entry req res" j] inv2 d1(2) d2(1) assms(5-7)
    by simp
  then show ?thesis using memory_withLock [of E ot U depth maxGap "req_DocumentID req" "submitLocked ?C req" st2]
    by (auto simp: submitCore_def untouched_def)
qed

lemma retry_is_answered_witness:
  "\<exists>res' st3. submitCore ref_server (ref_request 0 set_a 1)
       (run_calls ref_server [CallSubmit (ref_request 1 set_b 2)] ref_state) = (Inr res', st3) \<and>
     res_Duplicate res' \<and> untouched (\<lambda>b. b) (run_calls ref_server [CallSubmit (ref_request 1 set_b 2)] ref_state) st3"
proof -
  let ?st = "run_calls ref_server [CallCreate ''d'' ''''] NewMemoryServer" and ?req = "ref_request 0 set_a 1"
  have "(case fst (submitCore ref_server ?req ?st) of Inl e \<Rightarrow> None | Inr res \<Rightarrow> Some (res_Version res)) = Some 1"
    by code_simp
  then obtain res where r: "fst (submitCore ref_server ?req ?st) = Inr res" and v: "res_Version res = 1"
    by (auto split: sum.splits)
  then have s: "submitCore ref_server ?req ?st = (Inr res, ref_state)"
    by (simp add: ref_state_def ref_history_def prod_eq_iff)
  have old: "map_option md_version (srv_backend ?st ''d'') = Some 0" by code_simp
  have adv: "advanced ref_server (\<lambda>b. b) ?req res ?st ref_state"
    using memory_server.submitCore_outcome [OF s [unfolded ref_server_def]]
      memory_server_inv [of "[CallCreate ''d'' '''']" ref_env NewJSONOperationTransformer ref_json 3 2] old v
    by (auto simp: ref_server_def ref_request_def server_inv_def)
  have "isOk (ref_json set_a)" by code_simp
  then obtain j where j: "ref_json (req_Operation ?req) = Inr j"
    by (cases "ref_json set_a") (auto simp: ref_request_def)
  note retry_is_answered [where E = ref_env and ot = NewJSONOperationTransformer and depth = 3 and maxGap = 2 and U = ref_json
      and calls = "[CallCreate ''d'' '''']" and later = "[CallSubmit (ref_request 1 set_b 2)]",
      folded ref_server_def, OF _ refl s adv _ j _ _ refl]
  then show ?thesis
    by (fastforce simp: ref_request_def has_sequence_def SubmitRequest_opID_def v)
qed

text \<open>C37: A submission that is not a retry (it carries no source and sequence number, or they are not
  those of a record in the log) and whose base version is further behind than the rebase
  window is refused with the error that names the window, after its operation has been read, and
  the documents and subscribers are left as they are.\<close>

theorem stale_submit_refused:
  assumes "srv_backend st (req_DocumentID req) = Some d" and "md_version d = int (length (md_ops d))"
    and "\<not> has_sequence (SubmitRequest_opID req) \<or> SubmitRequest_opID req \<notin> OpRecord_opID ` set (md_ops d)"
    and "0 \<le> req_BaseVersion req" and "0 < maxGap" and "req_BaseVersion req < md_version d - maxGap"
    and "is_int64 (md_version d)"
    and "parseOperation (memory_config E ot U depth maxGap) (req_Operation req) st = (Inr op, st1)"
  shows "\<exists>st'. submitCore (memory_config E ot U depth maxGap) req st =
      (Inl (StaleError (StaleSubmitError StaleReasonVersionBehindWindow (req_DocumentID req)
         (req_BaseVersion req) (md_version d) (md_version d - maxGap) maxGap)), st') \<and>
    untouched (\<lambda>b. b) st st'"
proof -
  let ?C = "memory_config E ot U depth maxGap"
  let ?e = "StaleError (StaleSubmitError StaleReasonVersionBehindWindow (req_DocumentID req)
         (req_BaseVersion req) (md_version d) (md_version d - maxGap) maxGap)"
  have i64s: "i64 (md_version d - req_BaseVersion req) = md_version d - req_BaseVersion req"
    "i64 (md_version d - maxGap) = md_version d - maxGap"
    using assms(4-7) by (auto intro!: i64_id simp: is_int64_def)
  have g: "Memory_GetDoc (srv_backend st) (req_DocumentID req) = Inr (doc_record (req_DocumentID req) d)"
    using assms(1) by (simp add: Memory_GetDoc_def doc_record_def)
  have v: "doc_Version (doc_record (req_DocumentID req) d) = md_version d" by (simp add: doc_record_def)
  have dup: "duplicateResult ?C (doc_record (req_DocumentID req) d) req (st\<lparr>srv_locks := l\<rparr>) = Inr None" for l
    using assms(1) by (intro memory_server.fresh_duplicate_None assms(2,3)) simp
  have reb: "rebase ?C (doc_record (req_DocumentID req) d) req op s = (Inl ?e, s)" for s
    using assms(5,6) i64s v by (simp add: rebase_def)
  have "submitLocked ?C req (st\<lparr>srv_locks := l\<rparr>) = (Inl ?e, st1\<lparr>srv_locks := l\<rparr>)" for l
    using assms(4-6,8) v by (simp add: submitLocked_def g dup reb parseOperation_locks)
  moreover have "untouched (\<lambda>b. b) st st1"
    using quiet_untouched [OF parseOperation_quiet [OF assms(8)]] by blast
  ultimately show ?thesis
    using memory_withLock [of E ot U depth maxGap "req_DocumentID req" "submitLocked ?C req" st]
    by (auto simp: submitCore_def)
qed

text \<open>A client that numbers its submissions sends its second one, based on version 0 of a document at version 5.\<close>

definition five_ops :: memDoc where
  "five_ops = \<lparr>md_version = 5, md_doc = ''{}'', md_ops = replicate 5 (hd (md_ops ref_doc))\<rparr>"

lemma stale_submit_refused_witness:
  "\<exists>st'. submitCore (memory_config ref_env NewJSONOperationTransformer ref_json 3 2) (ref_request 0 set_b 2)
      (NewMemoryServer\<lparr>srv_backend := [''d'' \<mapsto> five_ops]\<rparr>) =
    (Inl (StaleError (StaleSubmitError StaleReasonVersionBehindWindow ''d'' 0 5 3 2)), st')"
proof -
  let ?st = "NewMemoryServer\<lparr>srv_backend := [''d'' \<mapsto> five_ops]\<rparr>
    :: (MemoryBackend, MemoryLocker, MemoryPublisher, jnode) server_state"
  have "isOk (fst (parseOperation ref_server set_b ?st))" by code_simp
  then obtain op st1 where "parseOperation ref_server set_b ?st = (Inr op, st1)"
    by (cases "parseOperation ref_server set_b ?st"; cases "fst (parseOperation ref_server set_b ?st)") auto
  then show ?thesis
    using stale_submit_refused [of ?st "ref_request 0 set_b 2" five_ops 2 ref_env NewJSONOperationTransformer ref_json 3
        op st1]
    by (auto simp: ref_server_def ref_request_def five_ops_def ref_doc_def SubmitRequest_opID_def OpRecord_opID_def
        is_int64_def Let_def)
qed

end
