(* ===== verification/HistoryProperties.thy ===== *)
theory HistoryProperties
  imports ServerProperties
begin

text \<open>
  Properties of the server's history (snapshots of old versions, rollback), of submissions that
  must succeed, of the document lock and of the delivery of events.
\<close>

section \<open>Reading does not depend on the locks\<close>

lemma cacheCommittedOperation_locks:
  "cacheCommittedOperation docID v op (st\<lparr>srv_locks := l\<rparr>) =
     (fst (cacheCommittedOperation docID v op st),
      (snd (cacheCommittedOperation docID v op st))\<lparr>srv_locks := l\<rparr>)"
  by (simp add: cacheCommittedOperation_def split: sum.splits)

lemma bindS_locks:
  assumes "r' = (fst r, (snd r)\<lparr>srv_locks := l\<rparr>)"
    and "\<And>x st. r = (Inr x, st) \<Longrightarrow> f x (st\<lparr>srv_locks := l\<rparr>) = (fst (f x st), (snd (f x st))\<lparr>srv_locks := l\<rparr>)"
  shows "bindS r' f = (fst (bindS r f), (snd (bindS r f))\<lparr>srv_locks := l\<rparr>)"
  using assms by (cases r; cases "fst r") auto

lemma getOrParse_locks:
  "getOrParseCommittedOperation C opRec (st\<lparr>srv_locks := l\<rparr>) =
     (fst (getOrParseCommittedOperation C opRec st),
      (snd (getOrParseCommittedOperation C opRec st))\<lparr>srv_locks := l\<rparr>)"
  unfolding getOrParseCommittedOperation_def
  by (auto intro!: bindS_locks simp: parseOperation_locks cacheCommittedOperation_locks
      split: sum.splits option.splits)

lemma inverseOperation_locks:
  "inverseOperation C opRec (st\<lparr>srv_locks := l\<rparr>) =
     (fst (inverseOperation C opRec st), (snd (inverseOperation C opRec st))\<lparr>srv_locks := l\<rparr>)"
  unfolding inverseOperation_def
  by (rule bindS_locks) (simp_all add: getOrParse_locks parseOperation_locks split: sum.splits)

lemma undo_loop_locks:
  "undo_loop C v recs (st\<lparr>srv_locks := l\<rparr>) =
     (fst (undo_loop C v recs st), (snd (undo_loop C v recs st))\<lparr>srv_locks := l\<rparr>)"
proof (induction recs arbitrary: v st)
  case (Cons r recs)
  show ?case unfolding undo_loop.simps
    by (rule bindS_locks) (simp_all add: inverseOperation_locks Cons.IH split: sum.splits)
qed simp

text \<open>The loop of the rollback walks through the documents of the loop that only undoes.\<close>

lemma rollback_loop_undo:
  "rollback_loop C op v recs st = (Inr (op', w), st') \<Longrightarrow> undo_loop C v recs st = (Inr w, st')"
proof (induction recs arbitrary: op v st)
  case (Cons r recs)
  obtain x st1 where x: "inverseOperation C r st = (Inr x, st1)"
    using Cons.prems by (auto simp: bindS_Inr_iff)
  then obtain a b where "andThen (Operation_Compose (cfg_env C) op x) (\<lambda>rollback.
      andThen (Engine_Apply (cfg_env C) v x) (\<lambda>docValue. Inr (rollback, docValue))) = Inr (a, b)"
      and "rollback_loop C (inHand C (op_DocumentID r) (- op_Version r) st1 a) b recs st1 = (Inr (op', w), st')"
    using Cons.prems by (auto split: sum.splits)
  then show ?case using Cons.IH x by (auto simp: andThen_Inr_iff)
qed simp

lemma rollback_operation_document:
  assumes "rollbackToVersionOperation C r target st = (Inr (op, doc), st')"
  shows "documentAtVersion C r target st = (Inr doc, st')"
proof -
  obtain ops w where ow: "GetOperations C (doc_DocumentID r) target (doc_Version r) st = Inr ops"
      "UnmarshalValue (cfg_env C) (doc_Doc r) = Inr w"
    using assms by (auto simp: rollbackToVersionOperation_def andThen_Inr_iff split: sum.splits)
  then obtain x where "rollback_loop C (NewOperation []) w (rev ops) st = (Inr (op, x), st')"
      "doc = RawMessage (cfg_env C) x"
    using assms by (auto simp: rollbackToVersionOperation_def bindS_Inr_iff andThen_Inr_iff split: prod.splits)
  moreover from this(1) have "undo_loop C w (rev ops) st = (Inr x, st')" by (rule rollback_loop_undo)
  ultimately show ?thesis using ow by (simp add: documentAtVersion_def)
qed

lemma GetOperations_locks: "GetOperations C docID a b (st\<lparr>srv_locks := l\<rparr>) = GetOperations C docID a b st"
  by (simp add: GetOperations_def cong: if_cong)

lemma documentAtVersion_locks:
  "documentAtVersion C r target (st\<lparr>srv_locks := l\<rparr>) =
     (fst (documentAtVersion C r target st), (snd (documentAtVersion C r target st))\<lparr>srv_locks := l\<rparr>)"
  unfolding documentAtVersion_def GetOperations_locks
  by (auto simp: undo_loop_locks intro!: bindS_locks split: sum.splits)

section \<open>Rollback and old snapshots\<close>

text \<open>Reading the history leaves the services as they are, whatever the log holds.\<close>

definition same_services ::
    "('s, 'l, 'p, 'v) server_state \<Rightarrow> ('s, 'l, 'p, 'v) server_state \<Rightarrow> bool" where
  "same_services st st' \<longleftrightarrow> srv_backend st' = srv_backend st \<and> srv_pub st' = srv_pub st"

lemma inverseOperation_services: "inverseOperation C rcd st = (r, st') \<Longrightarrow> same_services st st'"
proof -
  assume i: "inverseOperation C rcd st = (r, st')"
  have parse: "same_services st st'" if "parseOperation C raw st = (r, st')" for raw r st st'
    using parseOperation_quiet [OF that] by (simp add: quiet_def same_services_def)
  obtain r1 st1 where g: "getOrParseCommittedOperation C rcd st = (r1, st1)" by fastforce
  obtain r2 st2 where p: "parseOperation C (op_Op rcd) st = (r2, st2)" by fastforce
  have "st1 = st \<or> st1 = st2 \<or> (\<exists>d v op r. cacheCommittedOperation d v op st2 = (r, st1))"
  proof (cases r2)
    case (Inl e)
    then show ?thesis
      using g p by (auto simp: getOrParseCommittedOperation_def split: sum.splits option.splits)
  next
    case (Inr op)
    obtain r3 st3 where k: "cacheCommittedOperation (op_DocumentID rcd) (op_Version rcd) op st2 = (r3, st3)" by fastforce
    then have "st1 = st \<or> st1 = st3"
      using g p Inr by (cases r3) (auto simp: getOrParseCommittedOperation_def split: sum.splits option.splits)
    then show ?thesis using k by blast
  qed
  then have s1: "same_services st st1"
    using parse [OF p] cacheCommittedOperation_frame by (fastforce simp: same_services_def)
  have "st' = st1 \<or> (\<exists>raw r. parseOperation C raw st1 = (r, st'))"
    using i g by (cases r1) (auto simp: inverseOperation_def split: sum.splits)
  then show ?thesis using s1 parse by (fastforce simp: same_services_def)
qed

lemma rollback_loop_services: "rollback_loop C op v recs st = (r, st') \<Longrightarrow> same_services st st'"
proof (induction recs arbitrary: op v st)
  case (Cons x recs)
  obtain r1 st1 where i: "inverseOperation C x st = (r1, st1)" by fastforce
  note s1 = inverseOperation_services [OF i]
  show ?case
    using Cons.prems i s1 Cons.IH
    by (cases r1) (fastforce simp: same_services_def split: sum.splits prod.splits)+
qed (simp add: same_services_def)

text \<open>A rollback stores what it has computed.\<close>

lemma rollbackLocked_stores:
  assumes run: "rollbackLocked (memory_config E ot U depth maxGap) docID target source st = (Inr res, st')"
    and d: "srv_backend st docID = Some d" and t: "target < md_version d"
  obtains op doc st1 where
    "rollbackToVersionOperation (memory_config E ot U depth maxGap) (doc_record docID d) target st = (Inr (op, doc), st1)"
    "0 \<le> target" "res_Document res = doc" "res_Version res = i64 (md_version d + 1)"
    "srv_backend st' = (srv_backend st)(docID \<mapsto> \<lparr>md_version = res_Version res, md_doc = doc, md_ops = md_ops d @
       [\<lparr>op_DocumentID = docID, op_Version = res_Version res, op_BaseVersion = md_version d, op_ID = noOpID,
         op_Source = source, op_Sequence = 0, op_SubmittedOp = res_Operation res, op_Op = res_Operation res\<rparr>]\<rparr>)"
    "srv_pub st' = Memory_Publish (srv_pub st) \<lparr>ev_Type = EventTypeOp, ev_DocumentID = docID,
       ev_Version = res_Version res, ev_ID = noOpID, ev_Source = source, ev_Sequence = 0,
       ev_Operation = res_Operation res, ev_Document = doc\<rparr>"
proof -
  let ?C = "memory_config E ot U depth maxGap" and ?r = "doc_record docID d"
  have g: "Memory_GetDoc (srv_backend st) docID = Inr ?r" and id: "doc_Version ?r = md_version d"
    using d by (simp_all add: Memory_GetDoc_def doc_record_def)
  obtain op doc st1 where rb: "rollbackToVersionOperation ?C ?r target st = (Inr (op, doc), st1)" and t0: "0 \<le> target"
    using run t g id by (auto simp: rollbackLocked_def bindS_Inr_iff Let_def split: if_splits prod.splits)
  have s1: "same_services st st1"
    using rb rollback_loop_services
    by (fastforce simp: rollbackToVersionOperation_def bindS_Inr_iff split: sum.splits)
  define raw where "raw = RawMessage E (Operation_ToValue E op)"
  define v where "v = i64 (md_version d + 1)"
  define b where "b = (srv_backend st)(docID \<mapsto> \<lparr>md_version = v, md_doc = doc, md_ops = md_ops d @
       [\<lparr>op_DocumentID = docID, op_Version = v, op_BaseVersion = md_version d, op_ID = noOpID,
         op_Source = source, op_Sequence = 0, op_SubmittedOp = raw, op_Op = raw\<rparr>]\<rparr>)"
  obtain r2 st2 where k: "cacheCommittedOperation docID v op ((countEdits st1)\<lparr>srv_backend := b\<rparr>) = (r2, st2)"
    by fastforce
  have upd: "d\<lparr>md_version := x, md_doc := y, md_ops := z\<rparr> = \<lparr>md_version = x, md_doc = y, md_ops = z\<rparr>" for x y z
    by (cases d) simp
  have "bindS (cacheCommittedOperation docID v op ((countEdits st1)\<lparr>srv_backend := b\<rparr>)) (\<lambda>_ st.
      (Inr \<lparr>res_Version = v, res_Rebased = False, res_Duplicate = False, res_Operation = raw, res_Document = doc\<rparr>,
       publish ?C \<lparr>ev_Type = EventTypeOp, ev_DocumentID = docID, ev_Version = v, ev_ID = noOpID,
         ev_Source = source, ev_Sequence = 0, ev_Operation = raw, ev_Document = doc\<rparr> st)) = (Inr res, st')"
    using run t t0 g id rb d s1
    by (simp add: rollbackLocked_def Let_def onBackend_def Memory_CommitOp_def same_services_def b_def
        upd flip: raw_def v_def)
  note run' = this [unfolded k]
  then have "res = \<lparr>res_Version = v, res_Rebased = False, res_Duplicate = False, res_Operation = raw, res_Document = doc\<rparr>"
    and "srv_backend st' = b" and "srv_pub st' = Memory_Publish (srv_pub st) \<lparr>ev_Type = EventTypeOp, ev_DocumentID = docID,
       ev_Version = v, ev_ID = noOpID, ev_Source = source, ev_Sequence = 0, ev_Operation = raw, ev_Document = doc\<rparr>"
    using cacheCommittedOperation_frame [OF k] s1
    by (cases r2; auto simp: publish_def same_services_def)+
  then show thesis using rb t0 by (intro that) (simp_all add: b_def v_def)
qed



definition delete_a :: string where \<open>delete_a = ''[{"p":["a"],"od":1}]''\<close>

definition rolled_back_history :: "server_call list" where
  "rolled_back_history =
     [CallCreate ''d'' '''', CallSubmit (ref_request 0 set_a 1), CallSubmit (ref_request 1 delete_a 2),
      CallRollback ''d'' 0 ''s'']"

text \<open>A rollback can bury the history.  Inserting a member, deleting it and rolling back to the
  start commits the no-op the two inverses compose to, as version 3; its inverse is a no-op too,
  which cannot be applied, so the versions 0 to 2, readable before the rollback, cannot be read
  any more.\<close>

theorem rollback_buries_history:
  "map_option md_version (srv_backend (run_calls ref_server rolled_back_history NewMemoryServer) ''d'') = Some 3 \<and>
   map (\<lambda>v. isOk (fst (GetSnapshotAt ref_server ''d'' v
        (run_calls ref_server (take 3 rolled_back_history) NewMemoryServer)))) [0, 1, 2] = [True, True, True] \<and>
   map (\<lambda>v. fst (GetSnapshotAt ref_server ''d'' v
        (run_calls ref_server rolled_back_history NewMemoryServer))) [0, 1, 2] =
     [Inl FmtError, Inl FmtError, Inl FmtError]"
  by code_simp

section \<open>A submission that must succeed\<close>

lemma memory_commit_runs:
  assumes c: "commitOperation (memory_config E ot U depth maxGap) (doc_record (req_DocumentID req) d) req
      (Some cs) rebased st = (r, st')"
    and d: "srv_backend st (req_DocumentID req) = Some d"
    and "UnmarshalValue E (md_doc d) = Inr v" and "Engine_Apply E v (Some cs) = Inr v'"
  shows "\<exists>res. r = Inr res \<and> res_Document res = RawMessage E v'"
proof -
  let ?C = "memory_config E ot U depth maxGap"
  obtain cs' where cs': "inHand ?C (req_DocumentID req) 0 st (Some cs) = Some cs'" using inHand_Some by blast
  define st1 where "st1 = snd (onBackend (Memory_CommitOp (srv_backend st)
    \<lparr>doc_DocumentID = req_DocumentID req, doc_Version = i64 (md_version d + 1), doc_Doc = RawMessage E v'\<rparr>
    \<lparr>op_DocumentID = req_DocumentID req, op_Version = i64 (md_version d + 1),
     op_BaseVersion = req_BaseVersion req, op_ID = SubmitRequest_opID req,
     op_Source = id_Source (SubmitRequest_opID req), op_Sequence = id_Sequence (SubmitRequest_opID req),
     op_SubmittedOp = req_Operation req, op_Op = RawMessage E (Operation_ToValue E (Some cs'))\<rparr>) (touch ?C st))"
  obtain r2 st2 where k: "cacheCommittedOperation (req_DocumentID req) (i64 (md_version d + 1)) (Some cs') st1
      = (r2, st2)" by fastforce
  then have "r2 = Inr ()" by (rule cacheCommittedOperation_Some)
  then show ?thesis using c assms(3,4) k d cs'
    by (auto simp: commitOperation_def storeCommitted_def doc_record_def Let_def onBackend_def Memory_CommitOp_def
        st1_def)
qed

text \<open>C14: A submission based on the current version, whose operation is not empty, can be read and
  applies to the document, and which is not a retry (it carries no source and sequence number, or they
  are not those of a record in the log), is committed: it does not fail, it is not
  rebased, and the new document is the one the operation gives.\<close>

theorem current_submission_commits:
  assumes "srv_backend st (req_DocumentID req) = Some d" and "req_BaseVersion req = md_version d"
    and "md_version d = int (length (md_ops d))"
    and "\<not> has_sequence (SubmitRequest_opID req) \<or> SubmitRequest_opID req \<notin> OpRecord_opID ` set (md_ops d)"
    and "parseOperation (memory_config E ot U depth maxGap) (req_Operation req) st = (Inr (NewOperation cs), st1)"
    and "cs \<noteq> []" and "UnmarshalValue E (md_doc d) = Inr v"
    and "Engine_Apply E v (NewOperation cs) = Inr v'"
  shows "\<exists>res st'. submitCore (memory_config E ot U depth maxGap) req st = (Inr res, st') \<and>
    \<not> res_Rebased res \<and> res_Document res = RawMessage E v' \<and>
    advanced (memory_config E ot U depth maxGap) (\<lambda>b. b) req res st st'"
proof -
  let ?C = "memory_config E ot U depth maxGap" and ?r = "doc_record (req_DocumentID req) d"
  have g: "Memory_GetDoc (srv_backend st) (req_DocumentID req) = Inr ?r"
    using assms(1) by (simp add: Memory_GetDoc_def doc_record_def)
  have id: "doc_Version ?r = md_version d" "doc_Doc ?r = md_doc d" by (simp_all add: doc_record_def)
  have dup: "duplicateResult ?C ?r req (st\<lparr>srv_locks := l\<rparr>) = Inr None" for l
    using assms(1) by (intro memory_server.fresh_duplicate_None assms(3,4)) simp
  have q: "quiet ?C (\<lambda>b. b) st st1" by (rule parseOperation_quiet [OF assms(5)])
  have run: "submitLocked ?C req (st\<lparr>srv_locks := l\<rparr>) =
      commitOperation ?C ?r req (NewOperation cs) False (st1\<lparr>srv_locks := l\<rparr>)" for l
    using assms(2,3,5,6) g id dup
    by (simp add: submitLocked_def parseOperation_locks rebase_def NewOperation_def Operation_IsEmpty_def)
  have d1: "srv_backend (st1\<lparr>srv_locks := l\<rparr>) (req_DocumentID req) = Some d" for l
    using assms(1) q by (simp add: quiet_def)
  obtain l where l: "\<exists>l'. submitCore ?C req st =
      (fst (submitLocked ?C req (st\<lparr>srv_locks := l\<rparr>)),
       (snd (submitLocked ?C req (st\<lparr>srv_locks := l\<rparr>)))\<lparr>srv_locks := l'\<rparr>)"
    using memory_withLock [of E ot U depth maxGap "req_DocumentID req" "submitLocked ?C req" st]
    unfolding submitCore_def by blast
  obtain r st2 where c: "commitOperation ?C ?r req (Some cs) False (st1\<lparr>srv_locks := l\<rparr>) = (r, st2)" by fastforce
  have "\<exists>res. r = Inr res \<and> res_Document res = RawMessage E v'"
    using memory_commit_runs [OF c d1] assms(7,8) by (simp add: NewOperation_def)
  moreover note memory_server.commitOperation_outcome [OF c d1]
  ultimately obtain res where "r = Inr res" "res_Document res = RawMessage E v'" "\<not> res_Rebased res"
      "advanced ?C (\<lambda>b. b) req res (st1\<lparr>srv_locks := l\<rparr>) st2"
    by auto
  then show ?thesis using l c run [of l] advanced_from [OF q] by (auto simp: NewOperation_def)
qed

text \<open>The second submission of a client that numbers them.\<close>

lemma current_submission_commits_witness:
  \<open>\<exists>res st'. submitCore ref_server (ref_request 1 set_b 2) ref_state = (Inr res, st') \<and>
     \<not> res_Rebased res \<and> res_Document res = ''{"a":1,"b":2}''\<close>
proof -
  let ?req = "ref_request 1 set_b 2"
  let ?cs = "[\<lparr>Operator = ObjectInsert (JNum 2), Path = [PathElementFromKey ''b'']\<rparr>]"
  have p: "fst (parseOperation ref_server set_b ref_state) = Inr (NewOperation ?cs)" by code_simp
  have u: "UnmarshalValue ref_env (md_doc ref_doc) = Inr (JObj [(''a'', JNum 1)])" by code_simp
  have a: "Engine_Apply ref_env (JObj [(''a'', JNum 1)]) (NewOperation ?cs) =
      Inr (JObj [(''a'', JNum 1), (''b'', JNum 2)])" by code_simp
  have t: \<open>RawMessage ref_env (JObj [(''a'', JNum 1), (''b'', JNum 2)]) = ''{"a":1,"b":2}''\<close> by code_simp
  show ?thesis
    using current_submission_commits [of ref_state ?req ref_doc ref_env NewJSONOperationTransformer ref_json 3 2
        ?cs "snd (parseOperation ref_server set_b ref_state)" "JObj [(''a'', JNum 1)]"
        "JObj [(''a'', JNum 1), (''b'', JNum 2)]"] ref_state_doc p u a t
    by (auto simp: ref_request_def ref_doc_def SubmitRequest_opID_def OpRecord_opID_def Let_def
        prod_eq_iff simp flip: ref_server_def)
qed

section \<open>Locks and delivery\<close>

text \<open>C31: However the callers of the memory locker interleave, no two of them are in the critical
  section of the same document at once.\<close>

theorem lock_mutual_exclusion:
  assumes "locker_reachable s" and "snd s t = Inside m d" and "snd s t' = Inside m' d"
  shows "t = t'"
  using locker_inv_reachable [OF assms(1)] assms(2,3) by (rule Inside_unique)

definition one_waits :: lock_system where
  "one_waits = (snd (lock_entry NewMemoryLocker ''d''), (\<lambda>_. Outside)(0 := Waiting 0 ''d''))"

definition one_inside_one_waits :: lock_system where
  "one_inside_one_waits =
     ((fst one_waits)\<lparr>lk_held := (lk_held (fst one_waits))(0 := True)\<rparr>,
      (\<lambda>_. Outside)(0 := Inside 0 ''d'', 1 := Waiting 0 ''d''))"

lemma one_waits_reachable: "locker_reachable one_waits"
proof -
  have "locker_step (NewMemoryLocker, \<lambda>_. Outside) one_waits"
    unfolding one_waits_def by (rule enter) (simp_all add: lock_entry_def NewMemoryLocker_def Let_def)
  then show ?thesis by (rule locker_reachable.step [OF locker_reachable.start])
qed

lemma one_inside_one_waits_reachable: "locker_reachable one_inside_one_waits"
proof -
  let ?l = "(fst one_waits)\<lparr>lk_held := (lk_held (fst one_waits))(0 := True)\<rparr>"
  have "locker_step one_waits (?l, (\<lambda>_. Outside)(0 := Inside 0 ''d''))"
    using acquire [of "snd one_waits" 0 0 "''d''" "fst one_waits"]
    by (simp add: one_waits_def lock_entry_def NewMemoryLocker_def Let_def)
  moreover have "locker_step (?l, (\<lambda>_. Outside)(0 := Inside 0 ''d'')) one_inside_one_waits"
    unfolding one_inside_one_waits_def
    by (rule enter) (simp_all add: one_waits_def lock_entry_def NewMemoryLocker_def Let_def)
  ultimately show ?thesis
    using one_waits_reachable by (blast intro: locker_reachable.step)
qed

lemma lock_mutual_exclusion_witness:
  "{t. \<exists>m. snd one_inside_one_waits t = Inside m ''d''} = {0}"
proof -
  have i: "snd one_inside_one_waits 0 = Inside 0 ''d''" by (simp add: one_inside_one_waits_def)
  then show ?thesis using lock_mutual_exclusion [OF one_inside_one_waits_reachable _ i] by blast
qed

text \<open>A caller of the memory locker that waits for a document can enter its critical section now,
  or another caller is in the critical section of that same document: callers of other documents
  never keep it waiting, and no lock is left held by nobody.\<close>

theorem lock_wait_progress:
  assumes "locker_reachable s" and "snd s t = Waiting m d"
  shows "(\<exists>s'. locker_step s s' \<and> snd s' t = Inside m d) \<or> (\<exists>t'. t' \<noteq> t \<and> snd s t' = Inside m d)"
  using Waiting_progress [of "fst s" "snd s"] locker_inv_reachable assms by simp

lemma lock_wait_progress_witness:
  "(\<exists>s'. locker_step one_waits s' \<and> snd s' 0 = Inside 0 ''d'') \<and>
   (\<exists>t. t \<noteq> 1 \<and> snd one_inside_one_waits t = Inside 0 ''d'')"
proof -
  have "snd one_waits t \<noteq> Inside 0 ''d''" for t by (simp add: one_waits_def)
  moreover have "snd one_waits 0 = Waiting 0 ''d''" by (simp add: one_waits_def)
  ultimately show ?thesis
    using lock_wait_progress [OF one_waits_reachable, of 0 0 "''d''"] by (auto simp: one_inside_one_waits_def)
qed

text \<open>What a subscriber of a document receives through the memory publisher, in order, followed
  by what still waits in its channel, is a subsequence of the events published for that document
  since it subscribed, however publications and receives interleave: events can be dropped, but
  none is reordered, duplicated, made up or taken from another document.\<close>

theorem subscriber_sees_subsequence:
  assumes "numbered p" and "pub_next p < 2 ^ 63 - 1" and "Memory_Subscribe p docID buffer = (Inr i, p1)"
    and "delivery_run i steps p1 = (taken, p2)"
  shows "\<exists>waiting. memory_inbox p2 i = Some (docID, waiting) \<and>
    subseq (taken @ waiting) (events_of docID (published steps))"
  using delivery_run_subseq [OF numbered_Subscribe(3) [OF assms(1-3)] assms(4)] by auto

definition ref_event :: "int \<Rightarrow> Event" where
  "ref_event v =
     \<lparr>ev_Type = EventTypeOp, ev_DocumentID = ''d'', ev_Version = v, ev_ID = noOpID, ev_Source = ''s'',
      ev_Sequence = 0, ev_Operation = set_a, ev_Document = ''{}''\<rparr>"

lemma subscriber_sees_subsequence_witness:
  "fst (delivery_run 0 [Published (ref_event 1), Published (ref_event 2), Receives, Published (ref_event 3), Receives]
     (snd (Memory_Subscribe NewMemoryPublisher ''d'' 1))) = [ref_event 1, ref_event 3] \<and>
   subseq [ref_event 1, ref_event 3] [ref_event 1, ref_event 2, ref_event 3]"
proof -
  let ?steps = "[Published (ref_event 1), Published (ref_event 2), Receives, Published (ref_event 3), Receives]"
    and ?p = "snd (Memory_Subscribe NewMemoryPublisher ''d'' 1)"
  have "fst (delivery_run 0 ?steps ?p) = [ref_event 1, ref_event 3]" by code_simp
  moreover obtain taken p2 where d: "delivery_run 0 ?steps ?p = (taken, p2)" by fastforce
  moreover have "Memory_Subscribe NewMemoryPublisher ''d'' 1 = (Inr 0, ?p)" by (simp add: Memory_Subscribe_def NewMemoryPublisher_def)
  moreover have "events_of ''d'' (published ?steps) = [ref_event 1, ref_event 2, ref_event 3]"
    by (simp add: events_of_def ref_event_def)
  moreover from calculation obtain waiting
    where "subseq (taken @ waiting) [ref_event 1, ref_event 2, ref_event 3]"
    using subscriber_sees_subsequence [of NewMemoryPublisher "''d''" 1 0 ?p ?steps taken p2]
    by (auto simp: numbered_def NewMemoryPublisher_def)
  moreover have "subseq taken (taken @ waiting)" by (simp add: list_emb_prefix)
  ultimately show ?thesis by (metis fst_conv subseq_order.order_trans)
qed

end
