(* ===== verification/SessionProperties.thy ===== *)
theory SessionProperties
  imports ProtocolBehaviour HistoryProperties
begin

text \<open>
  Properties of the session layer: mailboxes and their replay, the registry of sessions (as atomic
  operations and interleaved), and the websocket handlers over the memory server and mailbox.
\<close>

section \<open>Mailboxes\<close>

definition envelope :: "string \<Rightarrow> Envelope" where
  "envelope i =
     \<lparr>env_ID = i, env_SessionID = ''s'', env_DocumentID = ''d'', env_Kind = EnvelopeKindAck,
      env_Version = 1, env_Event = None\<rparr>"

text \<open>C29: Whatever is appended and acknowledged, every envelope of a session's mailbox is well formed
  (its identifier, session and document are set, its kind is known, it carries an event exactly
  when it is an event envelope), belongs to the session and has an identifier of its own, and the
  acknowledged cursor is empty or names one of them.\<close>

theorem mailbox_well_formed:
  "box_ok sid (memory_box (run_mails Memory_Mailbox calls NewMemoryMailboxStore) sid) \<and>
   cursor_ok (memory_box (run_mails Memory_Mailbox calls NewMemoryMailboxStore) sid)
     (memory_cursor (run_mails Memory_Mailbox calls NewMemoryMailboxStore) sid)"
  by (rule memory_mail.run_mails_ok)
    (simp add: box_ok_def cursor_ok_def memory_box_def memory_cursor_def NewMemoryMailboxStore_def map_at_def)

text \<open>C28: A session's mailbox only grows, and its cursor only moves forward: no sequence of calls
  removes or reorders an envelope or takes back an acknowledgement.\<close>

theorem mailbox_only_grows:
  "prefix (memory_box m sid) (memory_box (run_mails Memory_Mailbox calls m) sid) \<and>
   ackedCount (memory_box m sid) (memory_cursor m sid)
     \<le> ackedCount (memory_box (run_mails Memory_Mailbox calls m) sid)
         (memory_cursor (run_mails Memory_Mailbox calls m) sid)"
  using memory_mail.run_mails_grows [of m sid calls] by (simp add: mailbox_grows_def)

text \<open>C27: A client that has a session's whole mailbox and comes back after any further calls is sent
  exactly the envelopes appended since, oldest first and cut at the limit, and is not told to
  resynchronise.\<close>

theorem reconnect_replays_missed:
  assumes "m = run_mails Memory_Mailbox calls NewMemoryMailboxStore"
    and "m' = run_mails Memory_Mailbox later m" and "memory_box m sid \<noteq> []"
    and "int (length (memory_box m sid)) + limit < 2 ^ 63"
  shows "\<exists>rr new. ReplaySessionMailbox Memory_Mailbox m' sid (env_ID (last (memory_box m sid))) limit = Inr rr \<and>
    memory_box m' sid = memory_box m sid @ new \<and> rr_Envelopes rr = replayed limit new \<and> \<not> rr_RequiresResync rr"
proof -
  have "\<forall>s. box_ok s (memory_box m s) \<and> cursor_ok (memory_box m s) (memory_cursor m s)"
    using memory_mail.run_mails_ok [of NewMemoryMailboxStore _ calls] assms(1)
    by (simp add: box_ok_def cursor_ok_def memory_box_def memory_cursor_def NewMemoryMailboxStore_def map_at_def)
  from memory_mail.replay_after_reconnect [OF assms(3) this assms(4,2)] show ?thesis by blast
qed

lemma reconnect_replays_missed_witness:
  "\<exists>rr. ReplaySessionMailbox Memory_Mailbox
      (run_mails Memory_Mailbox [MailAck ''s'' ''a'', MailAppend (envelope ''b''), MailAppend (envelope ''c'')]
        (run_mails Memory_Mailbox [MailAppend (envelope ''a'')] NewMemoryMailboxStore)) ''s'' ''a'' 1 = Inr rr \<and>
    rr_Envelopes rr = [envelope ''b'']"
proof -
  let ?m = "run_mails Memory_Mailbox [MailAppend (envelope ''a'')] NewMemoryMailboxStore"
    and ?later = "[MailAck ''s'' ''a'', MailAppend (envelope ''b''), MailAppend (envelope ''c'')]"
  have box: "memory_box ?m ''s'' = [envelope ''a'']" by code_simp
  have box': "memory_box (run_mails Memory_Mailbox ?later ?m) ''s'' = [envelope ''a'', envelope ''b'', envelope ''c'']"
    by code_simp
  show ?thesis
    using reconnect_replays_missed [OF refl refl, of "[MailAppend (envelope ''a'')]" "''s''" 1 ?later] box box'
    by (auto simp: envelope_def replayed_def simp del: run_mails.simps)
qed

text \<open>The position a replay starts from plus the limit wraps around: with the largest limits the
  replay of an existing cursor panics instead of returning what follows it.\<close>

theorem replay_limit_overflow:
  assumes "after \<noteq> ''''" and "envelopeIndex (memory_box m sid) after = Some n"
    and "Suc n < length (memory_box m sid)" and "int (length (memory_box m sid)) < 2 ^ 62"
    and "2 ^ 63 \<le> int (Suc n) + limit" and "limit < 2 ^ 63"
  shows "ReplaySessionMailbox Memory_Mailbox m sid after limit = Inl Panic"
proof -
  have "(int (Suc n) + limit + 2 ^ 63) mod 2 ^ 64 = (int (Suc n) + limit + 2 ^ 63 - 2 ^ 64) mod 2 ^ 64"
    by (simp only: minus_mod_self2)
  also have "\<dots> = int (Suc n) + limit + 2 ^ 63 - 2 ^ 64"
    by (intro mod_pos_pos_trivial) (use assms(3-6) in simp_all)
  finally have "i64 (int (Suc n) + limit) = int (Suc n) + limit - 2 ^ 64"
    by (simp add: i64_def)
  then have "i64 (int (Suc n) + limit) < 0" "0 < limit" using assms(3-6) by simp_all
  then show ?thesis
    using assms(1-3)
    by (simp add: ReplaySessionMailbox_def MemoryMailbox_LastAcked_def MemoryMailbox_ReplayAfter_def
        memory_box_def Let_def slice_range_def)
qed

lemma replay_limit_overflow_witness:
  "ReplaySessionMailbox Memory_Mailbox
     (run_mails Memory_Mailbox [MailAppend (envelope ''a''), MailAppend (envelope ''b'')] NewMemoryMailboxStore)
     ''s'' ''a'' (2 ^ 63 - 1) = Inl Panic"
proof -
  let ?m = "run_mails Memory_Mailbox [MailAppend (envelope ''a''), MailAppend (envelope ''b'')] NewMemoryMailboxStore"
  have "memory_box ?m ''s'' = [envelope ''a'', envelope ''b'']" by code_simp
  then show ?thesis
    by (intro replay_limit_overflow [where n = 0]) (simp_all add: envelope_def del: run_mails.simps)
qed

section \<open>Sessions\<close>

text \<open>C30: When a connection registers for a session it becomes the session's active connection; the
  connection it replaces is closed and is the active connection of no session any more, and every
  session that had another connection keeps it.\<close>

theorem session_takeover:
  assumes "session_inv t" and "c < tr_next t" and "Register sid (Some c) t = (Inr (), t')"
    and "Active sid t = Some old" and "old \<noteq> c"
  shows "Active sid t' = Some c \<and> cc_done (tr_conns t' old) \<and> session_inv t' \<and>
    (\<forall>s. s = sid \<or> Active s t' = (if Active s t = Some old then None else Active s t))"
  using Register_takes_over [OF assms(1-3)] assms(4,5) by (auto simp: Active_def)

definition two_connections :: "unit transport" where
  "two_connections =
     snd (Register ''b'' (Some 0) (snd (Register ''a'' (Some 0)
       (snd (NewClientConn 4 (snd (NewClientConn 4 NewTransport)))))))"

lemma session_takeover_witness:
  "\<exists>t'. Register ''a'' (Some 1) two_connections = (Inr (), t') \<and> Active ''a'' t' = Some 1 \<and>
     Active ''b'' t' = None \<and> cc_done (tr_conns t' 0)"
proof -
  have inv: "session_inv two_connections"
    unfolding two_connections_def
    by (auto simp: session_inv_def Register_def AddCloseHook_def NewClientConn_def NewTransport_def freshConn_def)
  have "Active ''a'' two_connections = Some 0" "Active ''b'' two_connections = Some 0"
      "tr_next two_connections = 2" "fst (Register ''a'' (Some 1) two_connections) = Inr ()"
    by code_simp+
  then show ?thesis
    using session_takeover [OF inv, of 1 "''a''" "snd (Register ''a'' (Some 1) two_connections)" 0]
    by (intro exI [of _ "snd (Register ''a'' (Some 1) two_connections)"]) (auto simp: prod_eq_iff dest!: spec [where x = "''b''"])
qed

text \<open>However registrations and closes interleave, an active connection that has not handed out
  its close hooks still holds the hook that unregisters it: the close that is to come removes
  the session.\<close>

theorem open_connection_will_unregister:
  assumes "session_reachable s" and "Active sid (fst s) = Some c" and "\<not> cc_closed (tr_conns (fst s) c)"
  shows "sid \<in> set (cc_closeHooks (tr_conns (fst s) c)) \<and> c < tr_next (fst s)"
  using hook_invD(1) [OF hook_inv_reachable [OF assms(1)], of sid c] assms(2,3) by (simp add: Active_def)

text \<open>A connection registers for a session while another goroutine closes it.\<close>

definition conn_open :: "unit transport" where
  "conn_open = snd (NewClientConn 4 NewTransport)"

definition conn_cancelled :: "unit transport" where
  "conn_cancelled = cancelConn 0 conn_open"

definition conn_closed :: "unit transport" where
  "conn_closed = takeHooks 0 conn_cancelled"

definition stale_registration :: "unit transport" where
  "stale_registration = fst (install ''s'' 0 (AddCloseHook 0 ''s'' conn_closed))"

lemmas race_defs = conn_open_def conn_cancelled_def conn_closed_def stale_registration_def NewClientConn_def
  NewTransport_def freshConn_def cancelConn_def takeHooks_def install_def AddCloseHook_def onConn_def
  Unregister_def

lemma conn_open_reachable: "session_reachable (conn_open, \<lambda>_. Idle)"
  unfolding conn_open_def by (rule session_next [OF session_start accept])

lemma hooked_reachable:
  "session_reachable (AddCloseHook 0 ''s'' conn_open, (\<lambda>_. Idle)(1 := Hooked ''s'' 0))"
proof -
  have "session_step (conn_open, \<lambda>_. Idle) (conn_open, (\<lambda>_. Idle)(1 := Checked ''s'' 0))"
    by (rule register_check) (simp_all add: race_defs)
  moreover have "session_step (conn_open, (\<lambda>_. Idle)(1 := Checked ''s'' 0))
      (AddCloseHook 0 ''s'' conn_open, ((\<lambda>_. Idle)(1 := Checked ''s'' 0))(1 := Hooked ''s'' 0))"
    by (rule register_hook) simp
  ultimately show ?thesis
    using conn_open_reachable session_next by (metis fun_upd_upd)
qed

lemma registered_reachable:
  "session_reachable (fst (install ''s'' 0 (AddCloseHook 0 ''s'' conn_open)), \<lambda>_. Idle)"
proof -
  have "session_step (AddCloseHook 0 ''s'' conn_open, (\<lambda>_. Idle)(1 := Hooked ''s'' 0))
      (fst (install ''s'' 0 (AddCloseHook 0 ''s'' conn_open)), ((\<lambda>_. Idle)(1 := Hooked ''s'' 0))(1 := Idle))"
    by (rule register_install [where sid = "''s''" and c = 0]) (simp_all add: race_defs)
  then show ?thesis
    using session_next [OF hooked_reachable] by (simp add: fun_upd_idem)
qed

lemma open_connection_will_unregister_witness:
  "cc_closeHooks (tr_conns (fst (install ''s'' 0 (AddCloseHook 0 ''s'' conn_open))) 0) = [''s'']"
proof -
  have "''s'' \<in> set (cc_closeHooks (tr_conns (fst (install ''s'' 0 (AddCloseHook 0 ''s'' conn_open))) 0))"
    using open_connection_will_unregister [OF registered_reachable, of "''s''" 0]
    by (simp add: Active_def race_defs)
  then show ?thesis by (simp add: race_defs)
qed

text \<open>A registration that races with the close of its connection leaves a closed connection active:
  the check that the connection is open comes first, the close then hands out its hooks, the hook
  added after that runs at once, and the connection is installed afterwards.  All goroutines are
  done, the connection is closed with no hook left, and the session still names it.\<close>

theorem register_close_race:
  "session_reachable (stale_registration, \<lambda>_. Idle) \<and> Active ''s'' stale_registration = Some 0 \<and>
   cc_closed (tr_conns stale_registration 0) \<and> cc_done (tr_conns stale_registration 0) \<and>
   cc_closeHooks (tr_conns stale_registration 0) = []"
proof -
  let ?p = "(\<lambda>_. Idle)(1 := Checked ''s'' 0)"
  have "session_step (conn_open, \<lambda>_. Idle) (conn_open, ?p)"
    by (rule register_check) (simp_all add: race_defs)
  then have 1: "session_reachable (conn_open, ?p)" by (rule session_next [OF conn_open_reachable])
  have "session_step (conn_open, ?p) (conn_cancelled, ?p(2 := Cancelled 0))"
    unfolding conn_cancelled_def by (rule close_cancel) (simp_all add: race_defs)
  then have 2: "session_reachable (conn_cancelled, ?p(2 := Cancelled 0))" by (rule session_next [OF 1])
  have "session_step (conn_cancelled, ?p(2 := Cancelled 0))
      (conn_closed, (?p(2 := Cancelled 0))(2 := RunningHooks 0 (cc_closeHooks (tr_conns conn_cancelled 0))))"
    unfolding conn_closed_def by (rule close_take) simp
  then have 3: "session_reachable (conn_closed, ?p(2 := RunningHooks 0 []))"
    using session_next [OF 2] by (simp add: race_defs)
  have "session_step (conn_closed, ?p(2 := RunningHooks 0 [])) (conn_closed, (?p(2 := RunningHooks 0 []))(2 := Idle))"
    by (rule close_end) simp
  then have 4: "session_reachable (conn_closed, ?p)" using session_next [OF 3] by (simp add: fun_upd_idem)
  have "session_step (conn_closed, ?p) (AddCloseHook 0 ''s'' conn_closed, ?p(1 := Hooked ''s'' 0))"
    by (rule register_hook) simp
  then have 5: "session_reachable (AddCloseHook 0 ''s'' conn_closed, ?p(1 := Hooked ''s'' 0))"
    by (rule session_next [OF 4])
  have "session_step (AddCloseHook 0 ''s'' conn_closed, ?p(1 := Hooked ''s'' 0))
      (stale_registration, (?p(1 := Hooked ''s'' 0))(1 := Idle))"
    by (rule register_install [where sid = "''s''" and c = 0]) (simp_all add: race_defs)
  then have "session_reachable (stale_registration, \<lambda>_. Idle)"
    using session_next [OF 5] by (simp add: fun_upd_idem)
  then show ?thesis by (simp add: race_defs Active_def)
qed

section \<open>Connecting\<close>

definition queued :: "nat \<Rightarrow> ServerMessage list \<Rightarrow> ServerMessage transport \<Rightarrow> ServerMessage transport" where
  "queued c msgs t = onConn c (\<lambda>cc. cc\<lparr>cc_queue := cc_queue cc @ msgs\<rparr>) t"

lemma queued_simps [simp]:
  "tr_next (queued c msgs t) = tr_next t" "tr_sessions (queued c msgs t) = tr_sessions t"
  "cc_done (tr_conns (queued c msgs t) c') = cc_done (tr_conns t c')"
  "queued c ms (queued c msgs t) = queued c (msgs @ ms) t"
  "cc_queue (tr_conns (queued c msgs t) c) = cc_queue (tr_conns t c) @ msgs"
  by (simp_all add: queued_def onConn_def)

lemma session_inv_queued: "session_inv t \<Longrightarrow> session_inv (queued c msgs t)"
  unfolding queued_def by (rule session_inv_onConn) auto

lemma sendJSON_open:
  "messageMarshals (wc_valid W) msg \<Longrightarrow> \<not> cc_done (tr_conns (ws_transport ws) c) \<Longrightarrow>
   sendJSON W c msg ws = (Inr (), ws\<lparr>ws_transport := queued c [msg] (ws_transport ws)\<rparr>)"
  by (simp add: sendJSON_def onTransport_def Enqueue_def queued_def)

definition handshake_messages :: "ConnectRequest \<Rightarrow> string \<Rightarrow> Envelope list \<Rightarrow> ServerMessage list" where
  "handshake_messages req lastAcked envs =
     Connected \<lparr>cm_SessionID = cr_SessionID req, cm_DocumentID = cr_DocumentID req,
       cm_LastAckedEnvelopeID = lastAcked\<rparr> #
     (if envs = [] then []
      else [Replay \<lparr>rm_SessionID = cr_SessionID req, rm_DocumentID = cr_DocumentID req, rm_Envelopes = envs\<rparr>])"

lemma handshake_sends:
  assumes "wc_mailbox W = Some M" and "validateConnectRequest req = Inr ()"
    and "\<not> cc_done (tr_conns (ws_transport ws) c)"
    and "ReplaySessionMailbox M (ws_mail ws) (cr_SessionID req) (cr_LastEnvelopeID req) defaultReplayLimit = Inr rr"
    and "\<not> rr_RequiresResync rr" and "\<forall>env \<in> set (rr_Envelopes rr). envelopeMarshals (wc_valid W) env"
  shows "sendConnectHandshake W (Some c) req ws =
    (Inr (), ws\<lparr>ws_transport :=
       queued c (handshake_messages req (rr_LastAcked rr) (rr_Envelopes rr)) (ws_transport ws)\<rparr>)"
  using assms by (simp add: sendConnectHandshake_def sendJSON_open handshake_messages_def list_all_iff)

text \<open>What follows a cursor in a mailbox.\<close>

definition pendingAfter :: "Envelope list \<Rightarrow> string \<Rightarrow> Envelope list option" where
  "pendingAfter envs i =
     (if i = '''' then Some envs else map_option (\<lambda>n. drop (Suc n) envs) (envelopeIndex envs i))"

lemma replay_pending:
  assumes "pendingAfter (memory_box m sid) i = Some pending" and "int (length (memory_box m sid)) < 2 ^ 62"
  shows "\<exists>rr. ReplaySessionMailbox Memory_Mailbox m sid i defaultReplayLimit = Inr rr \<and>
    \<not> rr_RequiresResync rr \<and> rr_LastAcked rr = memory_cursor m sid \<and> rr_Envelopes rr = take 256 pending"
proof (cases "i = ''''")
  case True
  then show ?thesis
    using assms memory_mail.replay_start [of 256 m sid]
    by (simp add: pendingAfter_def defaultReplayLimit_def replayed_def)
next
  case False
  then obtain n where n: "envelopeIndex (memory_box m sid) i = Some n" "pending = drop (Suc n) (memory_box m sid)"
    using assms(1) by (auto simp: pendingAfter_def)
  then have "int (Suc n) + 256 < 2 ^ 63" using assms(2) by (simp add: envelopeIndex_Some)
  then show ?thesis
    using memory_mail.replay_found [OF False n(1), of 256] n(2) by (simp add: defaultReplayLimit_def replayed_def)
qed

lemma Register_queue:
  assumes inv: "session_inv t" and c: "c < tr_next t" and "\<not> cc_done (tr_conns t c)" and "sid \<noteq> ''''"
  obtains t' where "Register sid (Some c) t = (Inr (), t')" and "Active sid t' = Some c"
    and "cc_queue (tr_conns t' c) = cc_queue (tr_conns t c)" and "\<not> cc_done (tr_conns t' c)"
proof -
  obtain r t' where r: "Register sid (Some c) t = (r, t')" by fastforce
  have ok: "r = Inr ()" using r assms(3,4) by (auto simp: Register_def Let_def)
  have t': "t' = (let t1 = (AddCloseHook c sid t)\<lparr>tr_sessions := (tr_sessions (AddCloseHook c sid t))(sid \<mapsto> c)\<rparr>
      in case tr_sessions (AddCloseHook c sid t) sid of None \<Rightarrow> t1
         | Some o' \<Rightarrow> if o' \<noteq> c then Close o' t1 else t1)"
    using r assms(3,4) by (auto simp: Register_def Let_def)
  have "cc_queue (tr_conns (AddCloseHook c sid t) c) = cc_queue (tr_conns t c)"
    "cc_done (tr_conns (AddCloseHook c sid t) c) = cc_done (tr_conns t c)"
    by (simp_all add: AddCloseHook_def)
  then have "cc_queue (tr_conns t' c) = cc_queue (tr_conns t c)" "\<not> cc_done (tr_conns t' c)"
    using assms(3) by (auto simp: t' Let_def Close_conns split: option.split)
  then show thesis using that r ok Register_takes_over(2) [OF inv c] by blast
qed

text \<open>C38: Connecting a session to a document, on an open connection not yet attached to it, sends the
  acknowledged cursor and, when there are envelopes after the client's cursor, one replay of the
  first 256 of them; the connection becomes the session's active one, a fresh subscription of the
  document exists, and a relay is started that skips events up to the highest version among the
  replayed envelopes.  Envelopes after the first 256 are not sent.\<close>

theorem connect_replays_backlog:
  assumes "memory_setup W (memory_config E ot U depth maxGap)" and "wc_sessions W" and "wc_gen W = Some f"
    and "validateConnectRequest req = Inr ()" and "session_inv (ws_transport ws)" and "c < tr_next (ws_transport ws)"
    and "\<not> cc_done (tr_conns (ws_transport ws) c)"
    and "\<not> hasLiveAttachment c (cr_SessionID req) (cr_DocumentID req) (ws_transport ws)"
    and "srv_backend (ws_server ws) (cr_DocumentID req) = Some d"
    and "pendingAfter (memory_box (ws_mail ws) (cr_SessionID req)) (cr_LastEnvelopeID req) = Some pending"
    and "int (length (memory_box (ws_mail ws) (cr_SessionID req))) < 2 ^ 62"
    and "\<forall>env \<in> set (take 256 pending). envelopeMarshals (wc_valid W) env"
  shows "\<exists>ws' i. HandleConnectAndAttachLive W (Some c) req ws = (Inr (), ws') \<and>
    outbox ws' c = outbox ws c @
      handshake_messages req (memory_cursor (ws_mail ws) (cr_SessionID req)) (take 256 pending) \<and>
    Active (cr_SessionID req) (ws_transport ws') = Some c \<and>
    memory_inbox (srv_pub (ws_server ws')) i = Some (cr_DocumentID req, []) \<and>
    ws_relays ws' = ws_relays ws @ [\<lparr>rl_conn = c, rl_sessionID = cr_SessionID req,
      rl_documentID = cr_DocumentID req, rl_events = i, rl_skipThroughVersion = maxVersion (take 256 pending)\<rparr>]"
proof -
  let ?C = "memory_config E ot U depth maxGap" and ?sid = "cr_SessionID req" and ?doc = "cr_DocumentID req"
  note W = assms(1)[unfolded memory_setup_def]
  obtain t1 where t1: "claimLiveAttachment c ?sid ?doc (ws_transport ws) = (True, t1)"
      "session_inv t1" "tr_next t1 = tr_next (ws_transport ws)" "\<not> cc_done (tr_conns t1 c)"
      "cc_queue (tr_conns t1 c) = outbox ws c"
    using assms(5,7,8) session_inv_claim [OF assms(5), of c ?sid ?doc]
    by (auto simp: claimLiveAttachment_def hasLiveAttachment_def Let_def outbox_def)
  obtain i st where s: "Server_Subscribe ?C ?doc liveSubscribeBuffer (ws_server ws) = (Inr i, st)"
      "memory_inbox (srv_pub st) i = Some (?doc, [])"
    using assms(9) by (auto simp: Server_Subscribe_def Memory_GetDoc_def Memory_Subscribe_def Let_def
        memory_inbox_def liveSubscribeBuffer_def)
  obtain rr where rr: "ReplaySessionMailbox Memory_Mailbox (ws_mail ws) ?sid (cr_LastEnvelopeID req)
      defaultReplayLimit = Inr rr" "\<not> rr_RequiresResync rr"
      "rr_LastAcked rr = memory_cursor (ws_mail ws) ?sid" "rr_Envelopes rr = take 256 pending"
    using replay_pending [OF assms(10,11)] by blast
  let ?msgs = "handshake_messages req (memory_cursor (ws_mail ws) ?sid) (take 256 pending)"
  let ?t2 = "queued c ?msgs t1"
  obtain t3 where t3: "Register ?sid (Some c) ?t2 = (Inr (), t3)" "Active ?sid t3 = Some c"
      "cc_queue (tr_conns t3 c) = cc_queue (tr_conns ?t2 c)" "\<not> cc_done (tr_conns t3 c)"
  proof (rule Register_queue)
    show "session_inv ?t2" using t1(2) by (rule session_inv_queued)
    show "?sid \<noteq> ''''" using assms(4) by (auto simp: validateConnectRequest_def split: if_splits)
  qed (use t1 assms(6) in auto)
  have hs: "sendConnectHandshake W (Some c) req (ws\<lparr>ws_transport := t1, ws_server := st\<rparr>) =
      (Inr (), ws\<lparr>ws_transport := ?t2, ws_server := st\<rparr>)"
    using handshake_sends [of W Memory_Mailbox req "ws\<lparr>ws_transport := t1, ws_server := st\<rparr>" c rr]
      W assms(4,12) t1(4) rr by simp
  have "connectSubscribed W Memory_Mailbox c req (ws\<lparr>ws_transport := t1, ws_server := st\<rparr>) =
      (Inr (maxVersion (take 256 pending)), ws\<lparr>ws_transport := t3, ws_server := st\<rparr>)"
    using hs rr t3(1) by (simp add: connectSubscribed_def maxReplayEnvelopeVersion_def onTransport_def)
  then show ?thesis
    using W assms(2-4,7) t1 t3 s
    by (simp add: HandleConnectAndAttachLive_def onTransport_def onServer_def startLiveRelay_def outbox_def)
qed

section \<open>A websocket server to compute with\<close>

text \<open>The payload \<open>c\<close> followed by a document connects session \<open>s\<close> to it, \<open>n\<close> letters \<open>s\<close> submit its
  \<open>n\<close>-th edit of document \<open>x\<close>.\<close>

definition ref_ws ::
    "(MemoryBackend, MemoryLocker, MemoryPublisher, jnode, int, jnode, MemoryMailboxStore, nat) ws_config" where
  "ref_ws =
     \<lparr>wc_server = Some ref_server, wc_middleware = [], wc_mailbox = Some Memory_Mailbox, wc_sessions = True,
      wc_gen = Some (\<lambda>n. (replicate (Suc n) CHR ''i'', Suc n)), wc_valid = (\<lambda>s. isOk (ref_json s)),
      wc_type = (\<lambda>p. Inr (if take 1 p = ''c'' then MessageTypeConnect else MessageTypeSubmit)),
      wc_connect = (\<lambda>p. Inr \<lparr>cr_Type = MessageTypeConnect, cr_SessionID = ''s'', cr_DocumentID = tl p,
        cr_LastEnvelopeID = ''''\<rparr>),
      wc_submit = (\<lambda>p. Inr \<lparr>sm_Type = MessageTypeSubmit, sm_SessionID = ''s'', sm_DocumentID = ''x'',
        sm_Request = \<lparr>req_DocumentID = '''', req_BaseVersion = int (length p) - 1, req_Operation = set_a,
          req_ID = \<lparr>id_Source = ''mallory'', id_Sequence = int (length p)\<rparr>, req_Source = '''',
          req_Sequence = 0\<rparr>\<rparr>),
      wc_ack = (\<lambda>_. Inl FmtError)\<rparr>"

lemma ref_ws_setup: "memory_setup ref_ws (memory_config ref_env NewJSONOperationTransformer ref_json 3 2)"
  by (simp add: memory_setup_def ref_ws_def ref_server_def)

definition edit_of_x :: "ws_event list" where
  "edit_of_x = [ServerCall (CallCreate ''x'' ''''), ServerCall (CallCreate ''d'' ''''), Accepted 8,
     Received 0 ''cx'']"

definition ack_of :: "nat \<Rightarrow> int \<Rightarrow> Envelope" where
  "ack_of n v =
     \<lparr>env_ID = replicate n CHR ''i'', env_SessionID = ''s'', env_DocumentID = ''x'', env_Kind = EnvelopeKindAck,
      env_Version = v, env_Event = None\<rparr>"

definition silenced_run :: "ws_event list" where
  "silenced_run = edit_of_x @ [Received 0 ''s'', Received 0 ''ss'', Accepted 8, Received 1 ''cd'',
     ServerCall (CallSubmit (SubmitRequest_of ''d'' 0 set_b ''t'')), Relayed 1]"

text \<open>Versions of one document silence the live events of another.  Session \<open>s\<close> edits document \<open>x\<close>
  twice and reconnects, to document \<open>d\<close>; the acknowledgements for \<open>x\<close> are replayed to it and raise the
  relay's limit to version 2, so when another client commits version 1 of \<open>d\<close> the running relay takes
  the event and sends nothing.\<close>

theorem other_document_silences_relay:
  "let ws = ws_run ref_ws ref_server silenced_run (NewWs 0) in
     outbox ws 1 = [Connected \<lparr>cm_SessionID = ''s'', cm_DocumentID = ''d'', cm_LastAckedEnvelopeID = ''''\<rparr>,
       Replay \<lparr>rm_SessionID = ''s'', rm_DocumentID = ''d'', rm_Envelopes = [ack_of 1 1, ack_of 2 2]\<rparr>] \<and>
     map_option md_version (srv_backend (ws_server ws) ''d'') = Some 1 \<and>
     map rl_skipThroughVersion (filter (\<lambda>r. rl_conn r = 1) (ws_relays ws)) = [2] \<and>
     map (\<lambda>r. memory_inbox (srv_pub (ws_server ws)) (rl_events r)) (filter (\<lambda>r. rl_conn r = 1) (ws_relays ws)) =
       [Some (''d'', [])]"
  by code_simp

lemma connect_replays_backlog_witness:
  "\<exists>ws' i. HandleConnectAndAttachLive ref_ws (Some 0)
       \<lparr>cr_Type = MessageTypeConnect, cr_SessionID = ''s'', cr_DocumentID = ''x'', cr_LastEnvelopeID = ''''\<rparr>
       (ws_run ref_ws ref_server (take 3 edit_of_x) (NewWs 0)) = (Inr (), ws') \<and>
     outbox ws' 0 = [Connected \<lparr>cm_SessionID = ''s'', cm_DocumentID = ''x'', cm_LastAckedEnvelopeID = ''''\<rparr>] \<and>
     memory_inbox (srv_pub (ws_server ws')) i = Some (''x'', [])"
proof -
  let ?ws = "ws_run ref_ws ref_server (take 3 edit_of_x) (NewWs 0)"
    and ?req = "\<lparr>cr_Type = MessageTypeConnect, cr_SessionID = ''s'', cr_DocumentID = ''x'', cr_LastEnvelopeID = ''''\<rparr>"
  have "ws_inv ref_server 3 ?ws"
    using ws_inv_run [OF ref_ws_setup, of "take 3 edit_of_x" 0] by (simp add: edit_of_x_def ref_server_def numeral_3_eq_3)
  then have inv: "session_inv (ws_transport ?ws)" by (simp add: ws_inv_def)
  have open': "tr_next (ws_transport ?ws) = 1 \<and> \<not> cc_done (tr_conns (ws_transport ?ws) 0) \<and>
      \<not> hasLiveAttachment 0 ''s'' ''x'' (ws_transport ?ws) \<and> outbox ?ws 0 = []"
    by code_simp
  have mail: "ws_mail ?ws = NewMemoryMailboxStore" by (simp add: edit_of_x_def NewWs_def)
  then have box: "memory_box (ws_mail ?ws) ''s'' = []" "memory_cursor (ws_mail ?ws) ''s'' = ''''"
    by (simp_all add: memory_box_def memory_cursor_def NewMemoryMailboxStore_def map_at_def)
  have "map_option md_version (srv_backend (ws_server ?ws) ''x'') = Some 0" by code_simp
  then obtain d where d: "srv_backend (ws_server ?ws) ''x'' = Some d" by auto
  have "validateConnectRequest ?req = Inr ()" by (simp add: validateConnectRequest_def)
  with connect_replays_backlog [OF ref_ws_setup _ _ _ inv, of _ ?req 0 d "[]"] d open' box show ?thesis
    by (auto simp: ref_ws_def pendingAfter_def handshake_messages_def)
qed

section \<open>Who writes\<close>

text \<open>C25: Whatever happens on the transport of a memory server without submit middleware, a record that
  appears in a document's log without a direct call of the server comes from a message read from the connection that is active for the record's
  source and attached to the document: a connection cannot write in the name of a session that is
  not its own, whatever source its messages claim.\<close>

theorem websocket_commits_as_active_session:
  assumes "memory_setup W (memory_config E ot U depth maxGap)" and "int (length es) < 2 ^ 63"
    and "ws = ws_run W (memory_config E ot U depth maxGap) es (NewWs g)"
    and "ws' = ws_act W (memory_config E ot U depth maxGap) e ws" and "\<forall>call. e \<noteq> ServerCall call"
    and "srv_backend (ws_server ws') docID = Some d'" and "r \<in> set (md_ops d')"
  shows "(\<exists>d. srv_backend (ws_server ws) docID = Some d \<and> r \<in> set (md_ops d)) \<or>
    (\<exists>c payload. e = Received c payload \<and> Active (op_Source r) (ws_transport ws) = Some c \<and>
       hasLiveAttachment c (op_Source r) docID (ws_transport ws) \<and> id_Source (op_ID r) = op_Source r)"
proof -
  have inv: "ws_inv (memory_config E ot U depth maxGap) (length es) ws"
    using ws_inv_run [OF assms(1,2)] assms(3) by simp
  from act_author [OF assms(1) inv assms(5)] show ?thesis
  proof cases
    case 1
    then show ?thesis using assms(4,6,7) by auto
  next
    case (2 c payload msg res d)
    then show ?thesis using assms(4,6,7) by (auto simp: commit_entry_def split: if_splits)
  qed
qed

lemma websocket_commits_as_active_session_witness:
  "\<exists>r. srv_backend (ws_server (ws_run ref_ws ref_server (edit_of_x @ [Received 0 ''s'']) (NewWs 0))) ''x''
       = Some \<lparr>md_version = 1, md_doc = ''{\"a\":1}'', md_ops = [r]\<rparr> \<and> op_Source r = ''s'' \<and>
     id_Source (op_ID r) = ''s'' \<and> Active ''s'' (ws_transport (ws_run ref_ws ref_server edit_of_x (NewWs 0))) = Some 0"
proof -
  let ?ws = "ws_run ref_ws ref_server edit_of_x (NewWs 0)"
  let ?ws' = "ws_act ref_ws ref_server (Received 0 ''s'') ?ws"
  have run: "ws_run ref_ws ref_server (edit_of_x @ [Received 0 ''s'']) (NewWs 0) = ?ws'"
    by (simp add: edit_of_x_def)
  have old: "map_option md_ops (srv_backend (ws_server ?ws) ''x'') = Some []" by code_simp
  have new: "map_option (\<lambda>d. (md_version d, md_doc d, map op_Source (md_ops d))) (srv_backend (ws_server ?ws') ''x'') =
      Some (1, ''{\"a\":1}'', [''s''])" by code_simp
  then obtain r where r: "srv_backend (ws_server ?ws') ''x'' =
      Some \<lparr>md_version = 1, md_doc = ''{\"a\":1}'', md_ops = [r]\<rparr>" "op_Source r = ''s''"
    by (auto simp: map_eq_Cons_conv) (metis memDoc.surjective old.unit.exhaust)
  from websocket_commits_as_active_session [OF ref_ws_setup _ refl refl _ r(1) [unfolded ref_server_def], of r] old r(2)
  show ?thesis unfolding run using r by (auto simp: edit_of_x_def ref_server_def)
qed

section \<open>What is relayed\<close>

text \<open>C26: A relay sends, in order, one envelope for each event it takes whose version is above the
  replayed ones and whose source is another session, and nothing else.  While it runs it has sent
  them all and stored each in the session's mailbox; when it stops, it has sent an initial part of
  them and its connection is closed.\<close>

theorem relay_sends_wanted:
  assumes "relayLoop W Memory_Mailbox r events ws = (running, ws')" and "session_inv (ws_transport ws)"
  shows "\<exists>envs. outbox ws' (rl_conn r) = outbox ws (rl_conn r) @ map (live_message r) envs \<and>
    prefix (map env_Event envs) (map Some (filter (wanted r) events)) \<and>
    (running \<and> map env_Event envs = map Some (filter (wanted r) events) \<and>
       memory_box (ws_mail ws') (rl_sessionID r) = memory_box (ws_mail ws) (rl_sessionID r) @ envs \<or>
     \<not> running \<and> cc_done (tr_conns (ws_transport ws') (rl_conn r)))"
  by (rule relayLoop_sends [OF assms])

definition ref_relay :: relay where
  "ref_relay = \<lparr>rl_conn = 0, rl_sessionID = ''me'', rl_documentID = ''d'', rl_events = 0, rl_skipThroughVersion = 1\<rparr>"

lemma relay_sends_wanted_witness:
  "\<exists>env. outbox (snd (relayLoop ref_ws Memory_Mailbox ref_relay [ref_event 1, ref_event 2] (NewWs 0))) 0 =
     [live_message ref_relay env] \<and> env_Event env = Some (ref_event 2)"
proof -
  let ?run = "relayLoop ref_ws Memory_Mailbox ref_relay [ref_event 1, ref_event 2] (NewWs 0)"
  obtain ws' where run: "?run = (True, ws')"
  proof -
    have "fst ?run" by code_simp
    then show thesis using that by (metis prod.collapse)
  qed
  have inv: "session_inv (ws_transport (NewWs 0))" by (simp add: NewWs_def session_inv_New)
  from relay_sends_wanted [OF run inv] run show ?thesis
    by (auto simp: wanted_def ref_relay_def ref_event_def outbox_def NewWs_def NewTransport_def freshConn_def
        map_eq_Cons_conv)
qed

section \<open>Acknowledging a submission\<close>

lemma HandleSubmit_committed:
  assumes W: "memory_setup W C" and "wc_gen W = Some f" and "validateSubmitMessage msg = Inr ()"
    and "submitCore C (canonicalizeSubmitRequest msg) (ws_server ws) = (Inr res, st)" and "\<not> res_Duplicate res"
    and "f (ws_gen ws) = (i, g)" and "i \<noteq> ''''"
  shows "HandleSubmit W (Some c) msg ws =
    (let env = \<lparr>env_ID = i, env_SessionID = sm_SessionID msg, env_DocumentID = sm_DocumentID msg,
                env_Kind = EnvelopeKindAck, env_Version = res_Version res, env_Event = None\<rparr>
     in bindS (onMail (\<lambda>m. Append Memory_Mailbox m env) (ws\<lparr>ws_server := st, ws_gen := g\<rparr>)) (\<lambda>_ ws.
          sendJSON W c (SubmitAck \<lparr>sa_SessionID = sm_SessionID msg, sa_DocumentID = sm_DocumentID msg,
            sa_Result = res, sa_Envelope = Some env\<rparr>) ws))"
  using assms
  by (simp add: HandleSubmit_def submitForSession_def memory_setup_def onServer_def SubmitWithRequest_def
      onGen_def submitAckEnvelope_def Let_def)

lemma Append_fresh:
  "validateEnvelope env = Inr () \<Longrightarrow> env_ID env \<notin> env_ID ` set (memory_box m (env_SessionID env)) \<Longrightarrow>
   \<exists>m'. Append Memory_Mailbox m env = (Inr (), m')"
  by (auto simp: MemoryMailbox_Append_def memory_box_def list_ex_iff image_iff)

lemma Append_duplicate:
  "validateEnvelope env = Inr () \<Longrightarrow> env_ID env \<in> env_ID ` set (memory_box m (env_SessionID env)) \<Longrightarrow>
   Append Memory_Mailbox m env = (Inl (Sentinel ErrDuplicateEnvelopeID), m)"
  by (auto simp: MemoryMailbox_Append_def memory_box_def list_ex_iff)

text \<open>C39: A submission that the server commits is acknowledged: with a fresh envelope identifier and an
  open connection, exactly one message is sent, the acknowledgement with the server's result, and
  the acknowledgement envelope with the committed version is in the session's mailbox, so that it
  can be replayed.\<close>

theorem submission_acknowledged:
  assumes "memory_setup W C" and "wc_gen W = Some f" and "validateSubmitMessage msg = Inr ()"
    and "submitCore C (canonicalizeSubmitRequest msg) (ws_server ws) = (Inr res, st)" and "\<not> res_Duplicate res"
    and "f (ws_gen ws) = (i, g)" and "i \<noteq> ''''"
    and "i \<notin> env_ID ` set (memory_box (ws_mail ws) (sm_SessionID msg))"
    and "\<not> cc_done (tr_conns (ws_transport ws) c)"
    and "rawMarshals (wc_valid W) (res_Operation res)" and "rawMarshals (wc_valid W) (res_Document res)"
  shows "\<exists>ws' env. HandleSubmit W (Some c) msg ws = (Inr (), ws') \<and> ws_server ws' = st \<and>
    env_ID env = i \<and> env_Kind env = EnvelopeKindAck \<and> env_Version env = res_Version res \<and>
    outbox ws' c = outbox ws c @ [SubmitAck \<lparr>sa_SessionID = sm_SessionID msg, sa_DocumentID = sm_DocumentID msg,
      sa_Result = res, sa_Envelope = Some env\<rparr>] \<and>
    memory_box (ws_mail ws') (sm_SessionID msg) = memory_box (ws_mail ws) (sm_SessionID msg) @ [env]"
proof -
  let ?env = "\<lparr>env_ID = i, env_SessionID = sm_SessionID msg, env_DocumentID = sm_DocumentID msg,
    env_Kind = EnvelopeKindAck, env_Version = res_Version res, env_Event = None\<rparr>"
  have "sm_SessionID msg \<noteq> ''''" "sm_DocumentID msg \<noteq> ''''"
    using assms(3) by (auto simp: validateSubmitMessage_def split: if_splits)
  then have "validateEnvelope ?env = Inr ()"
    using assms(7) by (simp add: validateEnvelope_def EnvelopeKind_defs)
  then obtain m where m: "Append Memory_Mailbox (ws_mail ws) ?env = (Inr (), m)"
    using Append_fresh [of ?env "ws_mail ws"] assms(8) by auto
  have "HandleSubmit W (Some c) msg ws = sendJSON W c (SubmitAck \<lparr>sa_SessionID = sm_SessionID msg,
      sa_DocumentID = sm_DocumentID msg, sa_Result = res, sa_Envelope = Some ?env\<rparr>)
      (ws\<lparr>ws_server := st, ws_gen := g, ws_mail := m\<rparr>)"
    using m by (simp add: HandleSubmit_committed [OF assms(1-7)] onMail_def)
  then show ?thesis
    using assms(9-11) memory_mail.Append_ok [OF m]
    by (intro exI [of _ ?env] exI) (auto simp: sendJSON_open envelopeMarshals_def outbox_def)
qed

text \<open>When the generator repeats an identifier of the session's mailbox, a submission that the
  server has committed fails: the connection is closed by the error, no acknowledgement is sent
  or stored, and the commit stays.\<close>

theorem committed_without_ack:
  assumes "memory_setup W C" and "wc_gen W = Some f" and "validateSubmitMessage msg = Inr ()"
    and "submitCore C (canonicalizeSubmitRequest msg) (ws_server ws) = (Inr res, st)" and "\<not> res_Duplicate res"
    and "f (ws_gen ws) = (i, g)" and "i \<noteq> ''''"
    and "i \<in> env_ID ` set (memory_box (ws_mail ws) (sm_SessionID msg))"
  shows "HandleSubmit W (Some c) msg ws =
    (Inl (Sentinel ErrDuplicateEnvelopeID), ws\<lparr>ws_server := st, ws_gen := g\<rparr>)"
proof -
  let ?env = "\<lparr>env_ID = i, env_SessionID = sm_SessionID msg, env_DocumentID = sm_DocumentID msg,
    env_Kind = EnvelopeKindAck, env_Version = res_Version res, env_Event = None\<rparr>"
  have "sm_SessionID msg \<noteq> ''''" "sm_DocumentID msg \<noteq> ''''"
    using assms(3) by (auto simp: validateSubmitMessage_def split: if_splits)
  then have "validateEnvelope ?env = Inr ()"
    using assms(7) by (simp add: validateEnvelope_def EnvelopeKind_defs)
  then have "Append Memory_Mailbox (ws_mail ws) ?env = (Inl (Sentinel ErrDuplicateEnvelopeID), ws_mail ws)"
    using Append_duplicate [of ?env "ws_mail ws"] assms(8) by simp
  then show ?thesis by (simp add: HandleSubmit_committed [OF assms(1-7)] onMail_def)
qed

text \<open>The first edit of \<open>x\<close>, over a websocket.\<close>

definition ref_ws_state :: "(MemoryBackend, MemoryLocker, MemoryPublisher, jnode, MemoryMailboxStore, nat) ws_state" where
  "ref_ws_state = ws_run ref_ws ref_server edit_of_x (NewWs 0)"

definition ref_submit :: SubmitMessage where
  "ref_submit = \<lparr>sm_Type = MessageTypeSubmit, sm_SessionID = ''s'', sm_DocumentID = ''x'',
     sm_Request = \<lparr>req_DocumentID = '''', req_BaseVersion = 0, req_Operation = set_a,
       req_ID = \<lparr>id_Source = ''mallory'', id_Sequence = 1\<rparr>, req_Source = '''', req_Sequence = 0\<rparr>\<rparr>"

lemma ref_submit_committed:
  obtains res st where "submitCore ref_server (canonicalizeSubmitRequest ref_submit) (ws_server ref_ws_state) = (Inr res, st)"
    and "\<not> res_Duplicate res" and "res_Version res = 1"
    and "rawMarshals (wc_valid ref_ws) (res_Operation res)" and "rawMarshals (wc_valid ref_ws) (res_Document res)"
proof -
  let ?s = "submitCore ref_server (canonicalizeSubmitRequest ref_submit) (ws_server ref_ws_state)"
  have "(case fst ?s of Inl _ \<Rightarrow> False | Inr res \<Rightarrow> \<not> res_Duplicate res \<and> res_Version res = 1 \<and>
      rawMarshals (wc_valid ref_ws) (res_Operation res) \<and> rawMarshals (wc_valid ref_ws) (res_Document res))"
    by code_simp
  then show thesis using that by (cases ?s) (auto split: sum.splits)
qed

lemma ref_ws_setup': "memory_setup ref_ws ref_server"
  by (simp add: ref_server_def ref_ws_setup)

lemma ref_submit_valid: "validateSubmitMessage ref_submit = Inr ()"
  by code_simp

lemma submission_acknowledged_witness:
  "\<exists>ws' env res. HandleSubmit ref_ws (Some 0) ref_submit ref_ws_state = (Inr (), ws') \<and> env_Version env = 1 \<and>
     last (outbox ws' 0) = SubmitAck \<lparr>sa_SessionID = ''s'', sa_DocumentID = ''x'', sa_Result = res, sa_Envelope = Some env\<rparr> \<and>
     memory_box (ws_mail ws') ''s'' = [env]"
proof -
  obtain res st where s: "submitCore ref_server (canonicalizeSubmitRequest ref_submit) (ws_server ref_ws_state) = (Inr res, st)"
      "\<not> res_Duplicate res" "res_Version res = 1" "rawMarshals (wc_valid ref_ws) (res_Operation res)"
      "rawMarshals (wc_valid ref_ws) (res_Document res)"
    by (rule ref_submit_committed)
  have st: "ws_gen ref_ws_state = 0 \<and> memory_box (ws_mail ref_ws_state) ''s'' = [] \<and>
      \<not> cc_done (tr_conns (ws_transport ref_ws_state) 0)" by code_simp
  have gen: "wc_gen ref_ws = Some (\<lambda>n. (replicate (Suc n) CHR ''i'', Suc n))" by (simp add: ref_ws_def)
  show ?thesis
    using submission_acknowledged [OF ref_ws_setup' gen ref_submit_valid s(1,2) _ _ _ _ s(4,5), of "''i''" 1 0]
      st s(3)
    by (fastforce simp: ref_submit_def)
qed

lemma committed_without_ack_witness:
  "fst (HandleSubmit ref_ws (Some 0) ref_submit
     (ref_ws_state\<lparr>ws_mail := run_mails Memory_Mailbox [MailAppend (envelope ''i'')] NewMemoryMailboxStore\<rparr>))
   = Inl (Sentinel ErrDuplicateEnvelopeID)"
proof -
  let ?ws = "ref_ws_state\<lparr>ws_mail := run_mails Memory_Mailbox [MailAppend (envelope ''i'')] NewMemoryMailboxStore\<rparr>"
  obtain res st where s: "submitCore ref_server (canonicalizeSubmitRequest ref_submit) (ws_server ?ws) = (Inr res, st)"
      "\<not> res_Duplicate res"
    by (rule ref_submit_committed) simp
  have gen: "wc_gen ref_ws = Some (\<lambda>n. (replicate (Suc n) CHR ''i'', Suc n))" by (simp add: ref_ws_def)
  have box: "memory_box (ws_mail ?ws) ''s'' = [envelope ''i'']" and g: "ws_gen ref_ws_state = 0" by code_simp+
  show ?thesis
    using committed_without_ack [OF ref_ws_setup' gen ref_submit_valid s, of "''i''" 1 0] box g
    by (simp add: ref_submit_def envelope_def del: run_mails.simps)
qed

end
