(* ===== verification/DiffOps.thy ===== *)
theory DiffOps
  imports Engine "HOL-Library.Char_ord" "HOL-Library.List_Lexorder"
begin

text \<open>
  \<open>diff.go\<close>: the operation that turns one value into another.  Objects are compared member by
  member in the byte order of their keys, arrays of equal length element by element, numbers
  become a \<open>na\<close> delta, everything else a replacement.  The recursion descends into the values;
  \<open>None\<close> is "out of fuel" (see \<open>diff_ends\<close>).
\<close>

text \<open>The early returns of the recursive calls.\<close>

fun bindFuel :: "'a res option \<Rightarrow> ('a \<Rightarrow> 'b res option) \<Rightarrow> 'b res option" where
  "bindFuel None f = None"
| "bindFuel (Some (Inl e)) f = Some (Inl e)"
| "bindFuel (Some (Inr x)) f = f x"

lemma bindFuel_cong [fundef_cong]:
  "r = r' \<Longrightarrow> (\<And>x. r' = Some (Inr x) \<Longrightarrow> f x = g x) \<Longrightarrow> bindFuel r f = bindFuel r' g"
  by (cases "(r', f)" rule: bindFuel.cases) auto

definition appendPath :: "Path \<Rightarrow> PathElement \<Rightarrow> Path" where
  "appendPath path element = Path_Clone path @ [element]"

definition replaceOperator :: "Path \<Rightarrow> 'v \<Rightarrow> 'v \<Rightarrow> 'v operator" where
  "replaceOperator path from to' =
     (if Path_IsEmpty path then ObjectReplace to' from
      else case Path_Last path of
        Some pe \<Rightarrow> if Key pe \<noteq> '''' then ObjectReplace to' from else ListReplace to' from
      | None \<Rightarrow> ListReplace to' from)"

definition supportsSubtypePath :: "Path \<Rightarrow> bool" where
  "supportsSubtypePath path =
     (if Path_IsEmpty path then True
      else case Path_Last path of Some pe \<Rightarrow> Key pe \<noteq> '''' | None \<Rightarrow> False)"

definition appendReplace ::
    "('v, 'f) env \<Rightarrow> Path \<Rightarrow> 'v \<Rightarrow> 'v \<Rightarrow> 'v Operation \<Rightarrow> 'v Operation res" where
  "appendReplace E path from to' operation =
     Operation_Append E operation (NewOperationComponent path (replaceOperator path from to'))"

text \<open>\<open>diffNumber\<close>: the integer difference wraps; the operand is packed so that it validates.\<close>

definition diffNumber ::
    "('v, 'f) env \<Rightarrow> JSONOperationTransformer \<Rightarrow> Path \<Rightarrow> 'v \<Rightarrow> 'v \<Rightarrow> 'v Operation \<Rightarrow> 'v Operation res" where
  "diffNumber E ot path from to' operation =
     (if \<not> supportsSubtypePath path then appendReplace E path from to' operation
      else case Holder_Get (ot_functions ot) ''na'' of
        None \<Rightarrow> appendReplace E path from to' operation
      | Some subTypeFunctions \<Rightarrow>
          if IsInt E from \<and> IsInt E to' then
            andThen (MustGet (GetInt E to')) (\<lambda>j.
            andThen (MustGet (GetInt E from)) (\<lambda>i.
              let delta = i64 (j - i) in
              if delta = 0 then Inr operation
              else
                let operand = PackAny E (ValueFromInt E delta) in
                Operation_Append E operation
                  (NewOperationComponent path (SubTypeOperator NumberAdd operand subTypeFunctions))))
          else
            andThen (MustGet (GetNumeric E to')) (\<lambda>y.
            andThen (MustGet (GetNumeric E from)) (\<lambda>x.
              let delta = float_sub E y x in
              if float_is_zero E delta then Inr operation
              else
                let operand = PackAny E (ValueFromFloat E delta) in
                Operation_Append E operation
                  (NewOperationComponent path (SubTypeOperator NumberAdd operand subTypeFunctions)))))"

text \<open>The keys of both objects, each once, sorted.\<close>

definition diffKeys :: "(string \<times> 'v) list \<Rightarrow> (string \<times> 'v) list \<Rightarrow> string list" where
  "diffKeys fromMap toMap = sort (remdups (map fst fromMap @ map fst toMap))"

text \<open>
  The loops of \<open>diffObject\<close> and \<open>diffArray\<close>; \<open>visit\<close> is the recursive call of \<open>diffInto\<close>.
\<close>

fun diffMembers ::
    "(Path \<Rightarrow> 'v \<Rightarrow> 'v \<Rightarrow> 'v Operation \<Rightarrow> 'v Operation res option) \<Rightarrow> ('v, 'f) env \<Rightarrow> Path \<Rightarrow>
     (string \<times> 'v) list \<Rightarrow> (string \<times> 'v) list \<Rightarrow> string list \<Rightarrow> 'v Operation \<Rightarrow> 'v Operation res option" where
  "diffMembers visit E path fromMap toMap [] operation = Some (Inr operation)"
| "diffMembers visit E path fromMap toMap (key # keys) operation =
     (let nextPath = appendPath path (PathElementFromKey key) in
      bindFuel
        (case map_of fromMap key of
           Some fromValue \<Rightarrow>
             (case map_of toMap key of
                None \<Rightarrow>
                  Some (Operation_Append E operation (NewOperationComponent nextPath (ObjectDelete fromValue)))
              | Some toValue \<Rightarrow> visit nextPath fromValue toValue operation)
         | None \<Rightarrow>
             (case map_of toMap key of
                Some toValue \<Rightarrow>
                  Some (Operation_Append E operation (NewOperationComponent nextPath (ObjectInsert toValue)))
              | None \<Rightarrow> Some (Inr operation)))
        (\<lambda>operation. diffMembers visit E path fromMap toMap keys operation))"

fun diffElements ::
    "(Path \<Rightarrow> 'v \<Rightarrow> 'v \<Rightarrow> 'v Operation \<Rightarrow> 'v Operation res option) \<Rightarrow> Path \<Rightarrow> nat \<Rightarrow>
     ('v \<times> 'v) list \<Rightarrow> 'v Operation \<Rightarrow> 'v Operation res option" where
  "diffElements visit path index [] operation = Some (Inr operation)"
| "diffElements visit path index ((l, r) # pairs) operation =
     (let nextPath = appendPath path (PathElementFromIndex (int index)) in
      bindFuel (visit nextPath l r operation)
        (\<lambda>operation. diffElements visit path (Suc index) pairs operation))"

definition diffObject ::
    "(Path \<Rightarrow> 'v \<Rightarrow> 'v \<Rightarrow> 'v Operation \<Rightarrow> 'v Operation res option) \<Rightarrow> ('v, 'f) env \<Rightarrow> Path \<Rightarrow> 'v \<Rightarrow> 'v \<Rightarrow>
     'v Operation \<Rightarrow> 'v Operation res option" where
  "diffObject visit E path from to' operation =
     bindFuel (Some (GetMap E from)) (\<lambda>fromMap.
     bindFuel (Some (GetMap E to')) (\<lambda>toMap.
       diffMembers visit E path fromMap toMap (diffKeys fromMap toMap) operation))"

definition diffArray ::
    "(Path \<Rightarrow> 'v \<Rightarrow> 'v \<Rightarrow> 'v Operation \<Rightarrow> 'v Operation res option) \<Rightarrow> ('v, 'f) env \<Rightarrow> Path \<Rightarrow> 'v \<Rightarrow> 'v \<Rightarrow>
     'v Operation \<Rightarrow> 'v Operation res option" where
  "diffArray visit E path from to' operation =
     bindFuel (Some (GetArray E from)) (\<lambda>left.
     bindFuel (Some (GetArray E to')) (\<lambda>right.
       if length left \<noteq> length right then Some (appendReplace E path from to' operation)
       else diffElements visit path 0 (zip left right) operation))"

primrec diffInto ::
    "nat \<Rightarrow> ('v, 'f) env \<Rightarrow> JSONOperationTransformer \<Rightarrow> Path \<Rightarrow> 'v \<Rightarrow> 'v \<Rightarrow> 'v Operation \<Rightarrow>
     'v Operation res option" where
  "diffInto 0 E ot path from to' operation = None"
| "diffInto (Suc fuel) E ot path from to' operation =
     (if Equals E from to' then Some (Inr operation)
      else if IsObject E from \<and> IsObject E to' then diffObject (diffInto fuel E ot) E path from to' operation
      else if IsArray E from \<and> IsArray E to' then diffArray (diffInto fuel E ot) E path from to' operation
      else if IsNumeric E from \<and> IsNumeric E to' then
        Some (diffNumber E ot path from to' operation)
      else Some (appendReplace E path from to' operation))"

definition Diff ::
    "nat \<Rightarrow> ('v, 'f) env \<Rightarrow> JSONOperationTransformer \<Rightarrow> 'v \<Rightarrow> 'v \<Rightarrow> 'v Operation res option" where
  "Diff fuel E ot from to' = diffInto fuel E ot [] from to' (NewOperation [])"

end
