(* ===== verification/DiffBehaviour.thy ===== *)
theory DiffBehaviour
  imports DiffOps OTProperties
begin

text \<open>
  Why the operation \<open>Diff\<close> returns turns the first value into the second.  \<open>diffable\<close>
  describes the pairs for which it does; the remaining ones are those where the first element of
  an array or a member with the empty name has to be replaced, which \<open>apply.go\<close> does not do.
  \<open>performs\<close> is what a run of components does to a document, \<open>delivers\<close> what a recursive call
  of \<open>diffInto\<close> adds to the operation; the loops chain deliveries.  The last section shows that
  the recursion ends.
\<close>

declare diffObject_def [simp] diffArray_def [simp]

section \<open>Which pairs\<close>

text \<open>
  Where the compared values sit: at the root or under a key (\<open>Named\<close>), at index 0 or under the
  empty key, which the code takes for index 0 (\<open>FirstItem\<close>), or at a later index.
\<close>

datatype place = Named | FirstItem | LaterItem

definition place_of :: "Path \<Rightarrow> place" where
  "place_of p =
     (if p = [] \<or> Key (last p) \<noteq> '''' then Named
      else if Index (last p) > 0 then LaterItem else FirstItem)"

fun same_kind :: "'n jdoc \<Rightarrow> 'n jdoc \<Rightarrow> bool" where
  "same_kind (Obj _) (Obj _) \<longleftrightarrow> True"
| "same_kind (Arr xs) (Arr ys) \<longleftrightarrow> length xs = length ys"
| "same_kind (Atom (NumA _)) (Atom (NumA _)) \<longleftrightarrow> True"
| "same_kind _ _ \<longleftrightarrow> False"

inductive diffable :: "(int \<Rightarrow> 'n) \<Rightarrow> place \<Rightarrow> 'n jdoc \<Rightarrow> 'n jdoc \<Rightarrow> bool" for numI where
  same: "diffable numI pl (Atom a) (Atom a)"
| members: "(\<And>k d e. m k = Some d \<Longrightarrow> m' k = Some e \<Longrightarrow>
      diffable numI (if k = '''' then FirstItem else Named) d e) \<Longrightarrow> diffable numI pl (Obj m) (Obj m')"
| items: "length xs = length ys \<Longrightarrow> (\<And>i. i < length xs \<Longrightarrow>
      diffable numI (if i = 0 then FirstItem else LaterItem) (xs ! i) (ys ! i)) \<Longrightarrow>
      diffable numI pl (Arr xs) (Arr ys)"
| number: "float_exact i \<Longrightarrow> float_exact j \<Longrightarrow> float_exact (j - i) \<Longrightarrow>
      diffable numI Named (Atom (NumA (numI i))) (Atom (NumA (numI j)))"
| replaced: "\<not> same_kind d e \<Longrightarrow> diffable numI Named d e"
| later: "a \<noteq> NullA \<Longrightarrow> diffable numI LaterItem (Atom a) e"

text \<open>
  The contract of the node implementation, and that scalars standing for the same JSON value
  compare equal, as they do when both texts are canonical.
\<close>

locale diff_contract = value_floats E view numI
  for E :: "('v, 'f) env" and view :: "'v \<Rightarrow> 'n jdoc" and numI :: "int \<Rightarrow> 'n" +
  assumes Equals_atom: "view v = Atom a \<Longrightarrow> view w = Atom a \<Longrightarrow> Equals E v w"

sublocale diff_contract \<subseteq> ot_contract E view
  by (simp add: ot_contract_def value_contract_axioms)

section \<open>Appending without merging\<close>

definition apart :: "Path \<Rightarrow> 'v OperationComponent list \<Rightarrow> bool" where
  "apart p ops \<longleftrightarrow> ops = [] \<or> \<not> prefix p (Path (last ops))"

fun is_move :: "'v operator \<Rightarrow> bool" where
  "is_move (ListMove _) = True"
| "is_move _ = False"

declare Path_Equal.simps [simp del]

lemma Path_Equal_iff [simp]: "Path_Equal p q \<longleftrightarrow> p = q"
  by (auto simp: Path_Equal.simps list.rel_eq)

lemma Append_apart:
  "apart (Path c) ops \<Longrightarrow> \<not> is_move (Operator c) \<Longrightarrow>
   Operation_Append E (Some ops) c = Inr (Some (ops @ [c]))"
  by (cases "Operator c") (auto simp: Operation_Append_def apart_def Let_def)

lemma apart_deeper: "apart p ops \<Longrightarrow> apart (p @ q) ops"
  by (auto simp: apart_def dest: append_prefixD)

lemma apart_sibling:
  "apart (p @ [x]) (ops @ cs) \<longleftrightarrow> (if cs = [] then apart (p @ [x]) ops else apart (p @ [x]) cs)"
  by (auto simp: apart_def)


section \<open>What a run of components does to a document\<close>

definition performs ::
    "('v, 'f) env \<Rightarrow> ('v \<Rightarrow> 'n jdoc) \<Rightarrow> 'v OperationComponent list \<Rightarrow> 'n jdoc \<Rightarrow> 'n jdoc \<Rightarrow> bool" where
  "performs E view cs d d' \<longleftrightarrow> components_Validation cs = Inr ()
     \<and> (\<forall>v. view v = d \<longrightarrow> (\<exists>v'. Apply_loop E v cs = Inr v' \<and> view v' = d'))"

lemma Apply_loop_append:
  "Apply_loop E v (cs @ ds) = andThen (Apply_loop E v cs) (\<lambda>v. Apply_loop E v ds)"
  by (induction cs arbitrary: v) (simp_all add: andThen_assoc)

lemma Validation_append:
  "components_Validation (cs @ ds) = andThen (components_Validation cs) (\<lambda>_. components_Validation ds)"
  by (induction cs) (simp_all add: andThen_assoc)

lemma performs_Nil [simp]: "performs E view [] d d"
  by (simp add: performs_def)

lemma performs_append:
  "performs E view cs d d' \<Longrightarrow> performs E view ds d' d'' \<Longrightarrow> performs E view (cs @ ds) d d''"
  by (fastforce simp: performs_def Apply_loop_append Validation_append)

text \<open>A key is a member of an object, a later index a position of an array.\<close>

definition parent_ok :: "Path \<Rightarrow> 'n jdoc \<Rightarrow> bool" where
  "parent_ok p d \<longleftrightarrow> p = []
     \<or> (if Key (last p) \<noteq> '''' then \<exists>m. doc_at (butlast p) d = Some (Obj m)
         else Index (last p) > 0 \<longrightarrow> (\<exists>xs. doc_at (butlast p) d = Some (Arr xs)))"

definition delivers ::
    "('v, 'f) env \<Rightarrow> ('v \<Rightarrow> 'n jdoc) \<Rightarrow> Path \<Rightarrow> 'n jdoc \<Rightarrow> 'n jdoc \<Rightarrow> 'v OperationComponent list \<Rightarrow>
     'v Operation res option \<Rightarrow> bool" where
  "delivers E view p a b ops r \<longleftrightarrow>
     (\<exists>cs. r = Some (Inr (Some (ops @ cs))) \<and> (\<forall>c \<in> set cs. prefix p (Path c))
        \<and> (\<forall>d. doc_at p d = Some a \<longrightarrow> parent_ok p d \<longrightarrow> performs E view cs d (doc_put p b d)))"

lemma deliversI:
  "apart p ops \<Longrightarrow> Path c = p \<Longrightarrow> \<not> is_move (Operator c) \<Longrightarrow>
   (\<And>d. doc_at p d = Some a \<Longrightarrow> parent_ok p d \<Longrightarrow> performs E view [c] d (doc_put p b d)) \<Longrightarrow>
   delivers E view p a b ops (Some (Operation_Append E (Some ops) c))"
  using Append_apart [of c ops E] by (auto simp: delivers_def)

lemma delivers_nothing: "delivers E view p a a ops (Some (Inr (Some ops)))"
  by (auto simp: delivers_def doc_put_same)

lemma performs_single:
  "Path c \<noteq> [] \<Longrightarrow> \<not> is_move (Operator c) \<Longrightarrow>
   (\<And>v. view v = d \<Longrightarrow> \<exists>v'. ApplyToValue E v (Path c) (Operator c) = Inr v' \<and> view v' = d') \<Longrightarrow>
   performs E view [c] d d'"
  by (cases "Operator c")
    (auto simp: performs_def Component_Validation_def Path_IsEmpty_def Path_Len_def)

lemma performs_root:
  "Path c = [] \<Longrightarrow> \<not> is_move (Operator c) \<Longrightarrow> supportsRootPathOperator (Operator c) \<Longrightarrow>
   (\<And>v. view v = d \<Longrightarrow> \<exists>v'. ApplyToRootValue E v (Operator c) = Inr v' \<and> view v' = d') \<Longrightarrow>
   performs E view [c] d d'"
  by (cases "Operator c")
    (auto simp: performs_def Component_Validation_def Path_IsEmpty_def Path_Len_def)

lemma Component_eta: "Path (NewOperationComponent p op) = p"
  by simp

lemma doc_put_member:
  "doc_at p d = Some (Obj m) \<Longrightarrow> doc_put (p @ [pe]) e d = doc_put p (Obj (m(Key pe \<mapsto> e))) d"
  by (simp add: doc_put_append)

lemma doc_put_item:
  "doc_at p d = Some (Arr xs) \<Longrightarrow>
   doc_put (p @ [pe]) e d = doc_put p (Arr (xs[nat (elem_index pe) := e])) d"
  by (simp add: doc_put_append)

context ot_contract
begin

lemma performs_member:
  assumes "is_object_op (Operator c)" and "Path c = q @ [pe]" and "doc_at q d = Some (Obj m)"
  shows "performs E view [c] d (doc_put q (Obj (object_effect view (Operator c) (Key pe) m)) d)"
proof (rule performs_single)
  show "Path c \<noteq> []" "\<not> is_move (Operator c)" using assms by (auto elim: is_object_op.elims)
  show "\<exists>v'. ApplyToValue E v (Path c) (Operator c) = Inr v'
      \<and> view v' = doc_put q (Obj (object_effect view (Operator c) (Key pe) m)) d" if "view v = d" for v
    using ApplyToValue_object_op [OF assms(1), of q v m pe] assms(2,3) that by auto
qed

text \<open>Replacing the value under a key, or the whole document.\<close>

lemma replace_named:
  assumes "place_of p = Named" and "doc_at p d = Some a" and "parent_ok p d"
  shows "performs E view [NewOperationComponent p (replaceOperator p from to')] d (doc_put p (view to') d)"
proof (cases p rule: rev_cases)
  case Nil
  then show ?thesis
    by (intro performs_root)
      (auto simp: replaceOperator_def Path_IsEmpty_def Path_Len_def ApplyToRootValue_def supportsRootPathOperator_def)
next
  case (snoc q pe)
  then have k: "Key pe \<noteq> ''''" using assms(1) by (auto simp: place_of_def split: if_splits)
  with snoc assms(3) obtain m where m: "doc_at q d = Some (Obj m)" by (auto simp: parent_ok_def)
  have op: "replaceOperator p from to' = ObjectReplace to' from"
    using snoc k by (simp add: replaceOperator_def Path_Last_def)
  show ?thesis
    using performs_member [of "NewOperationComponent p (ObjectReplace to' from)" q pe d m] snoc m
    unfolding op by (simp add: doc_put_member)
qed

text \<open>Replacing a scalar at a later index of an array.\<close>

lemma replace_later:
  assumes "place_of p = LaterItem" and d: "doc_at p d = Some (view from)" and "parent_ok p d"
    and "view from \<noteq> Atom NullA" and eq: "\<And>w. view w = view from \<Longrightarrow> Equals E w from"
  shows "performs E view [NewOperationComponent p (replaceOperator p from to')] d (doc_put p (view to') d)"
proof (cases p rule: rev_cases)
  case Nil
  then show ?thesis using assms(1) by (simp add: place_of_def)
next
  case (snoc q pe)
  then have k: "Key pe = ''''" "Index pe > 0"
    using assms(1) by (auto simp: place_of_def split: if_splits)
  with snoc assms(3) obtain xs where xs: "doc_at q d = Some (Arr xs)" by (auto simp: parent_ok_def)
  have i: "elem_index pe = Index pe" using k by (simp add: elem_index_def)
  have pos: "nat (Index pe) < length xs" "xs ! nat (Index pe) = view from"
    using d snoc xs i by (auto simp: doc_at_append split: if_splits)
  have op: "replaceOperator p from to' = ListReplace to' from"
    using snoc k by (simp add: replaceOperator_def Path_Last_def Path_IsEmpty_def Path_Len_def)
  show ?thesis
  proof (rule performs_single)
    fix v assume v: "view v = d"
    obtain arr where arr: "list_at E view q v arr" "map view arr = xs"
      using list_at_ex xs v by blast
    let ?i = "nat (Index pe)"
    have e: "view (arr ! ?i) = view from" using arr(2) pos by (metis length_map nth_map)
    have l: "?i < length arr" "Index pe < int (length arr)" using arr(2) pos(1) k(2) by auto
    have "IndexFunc E arr from (Index pe) = Index pe"
      using IndexFunc_at [of ?i arr E "from"] eq [OF e] l(1) k(2) by simp
    then have a: "ApplyToArray E arr [pe] (ListReplace to' from) = Inr (arr[?i := to'])"
      using k l e assms(4) by (simp add: ApplyToArray_def ApplyListReplace_def IsNull_iff Let_def)
    have "map view (arr[?i := to']) = xs[?i := view to']" using arr(2) by (simp add: map_update)
    with ApplyToValue_list [OF arr(1) a]
    show "\<exists>v'. ApplyToValue E v (Path (NewOperationComponent p (replaceOperator p from to')))
        (Operator (NewOperationComponent p (replaceOperator p from to'))) = Inr v'
        \<and> view v' = doc_put p (view to') d"
      using snoc v xs by (auto simp: op [unfolded snoc] doc_put_item i)
  qed (use snoc op in simp_all)
qed

end


section \<open>Numbers\<close>

lemma supports_named: "place_of p = Named \<Longrightarrow> supportsSubtypePath p"
  by (auto simp: supportsSubtypePath_def place_of_def Path_Last_def Path_IsEmpty_def
      Path_Len_def last_conv_nth split: if_splits)

lemma supports_later: "place_of p = LaterItem \<Longrightarrow> \<not> supportsSubtypePath p"
  by (auto simp: supportsSubtypePath_def place_of_def Path_Last_def Path_IsEmpty_def
      Path_Len_def last_conv_nth split: if_splits)

context diff_contract
begin

lemma packed_int:
  "float_exact i \<Longrightarrow> IsNumeric E (PackAny E (ValueFromInt E i)) \<and> IsInt E (PackAny E (ValueFromInt E i))
     \<and> GetInt E (PackAny E (ValueFromInt E i)) = Inr i"
  using FromInt_exact [of i] abs_PackAny [of "ValueFromInt E i"]
    IsNumeric_pack number_int by auto

lemma NumberAdd_delta:
  assumes "view v = Atom (NumA (numI i))" and "float_exact i" "float_exact j" "float_exact (j - i)"
  shows "\<exists>s. NumberAdd_Apply E (Some v) (PackAny E (ValueFromInt E (j - i))) = Inr (Some s)
           \<and> view s = Atom (NumA (numI j))"
proof -
  have "\<not> IsNull E v" "IsInt E v" "GetInt E v = Inr i"
    using assms(1,2) number_int by (auto simp: IsNull_iff)
  with packed_int [OF assms(4)] have
    "NumberAdd_Apply E (Some v) (PackAny E (ValueFromInt E (j - i))) = Inr (Some (ValueFromInt E (i64 j)))"
    by (simp add: NumberAdd_Apply_def NumberAdd_ValidateOperand_def)
  then show ?thesis
    using assms(3) FromInt_exact [of j] by (simp add: float_exact_int64)
qed

lemma number_named:
  assumes "place_of p = Named" and "doc_at p d = Some (Atom (NumA (numI i)))" and "parent_ok p d"
    and "float_exact i" "float_exact j" "float_exact (j - i)"
  shows "performs E view
      [NewOperationComponent p (SubTypeOperator NumberAdd (PackAny E (ValueFromInt E (j - i))) NumberAddSubType)]
      d (doc_put p (Atom (NumA (numI j))) d)"
proof (cases p rule: rev_cases)
  case Nil
  then show ?thesis
    using NumberAdd_delta [OF _ assms(4-6)] assms(2)
    by (intro performs_root) (fastforce simp: ApplyToRootValue_def supportsRootPathOperator_def)+
next
  case (snoc q pe)
  then have k: "Key pe \<noteq> ''''" using assms(1) by (auto simp: place_of_def split: if_splits)
  with snoc assms(3) obtain m where m: "doc_at q d = Some (Obj m)" by (auto simp: parent_ok_def)
  have mk: "m (Key pe) = Some (Atom (NumA (numI i)))"
    using assms(2) snoc m by (auto simp: doc_at_append split: option.splits)
  let ?op = "SubTypeOperator NumberAdd (PackAny E (ValueFromInt E (j - i))) NumberAddSubType"
  have app: "\<exists>r. ApplyToObject E lv [pe] ?op = Inr r \<and> view r = Obj (m(Key pe \<mapsto> Atom (NumA (numI j))))"
    if lv: "view lv = Obj m" for lv
  proof -
    obtain w where w: "GetKey E lv (Key pe) = Some w" "view w = Atom (NumA (numI i))"
      using GetKey_at [OF lv mk] by blast
    obtain s where s: "NumberAdd_Apply E (Some w) (PackAny E (ValueFromInt E (j - i))) = Inr (Some s)"
        "view s = Atom (NumA (numI j))"
      using NumberAdd_delta [OF w(2) assms(4-6)] by blast
    show ?thesis
      using w(1) s SetKey_Obj [OF lv, of "Key pe" s] by (auto simp: ApplyToObject_def Path_Len_def)
  qed
  show ?thesis
  proof (rule performs_single)
    show "\<exists>v'. ApplyToValue E v (Path (NewOperationComponent p ?op)) (Operator (NewOperationComponent p ?op)) = Inr v'
        \<and> view v' = doc_put p (Atom (NumA (numI j))) d" if v: "view v = d" for v
      using ApplyToValue_object [of q v m pe ?op "m(Key pe \<mapsto> Atom (NumA (numI j)))"] app m snoc v
      by (auto simp: doc_put_member)
  qed (use snoc in simp_all)
qed

section \<open>The recursion\<close>

lemma delivers_replace:
  assumes "apart p ops" and "place_of p = Named \<or> place_of p = LaterItem \<and> (\<exists>a. view from = Atom a \<and> a \<noteq> NullA)"
  shows "delivers E view p (view from) (view to') ops (Some (appendReplace E p from to' (Some ops)))"
  unfolding appendReplace_def
proof (rule deliversI)
  show "\<not> is_move (Operator (NewOperationComponent p (replaceOperator p from to')))"
    by (simp add: replaceOperator_def split: option.split)
  show "performs E view [NewOperationComponent p (replaceOperator p from to')] d (doc_put p (view to') d)"
    if "doc_at p d = Some (view from)" "parent_ok p d" for d
    using assms(2) replace_named [of p d] replace_later [of p d "from"] Equals_atom that by auto
qed (use assms(1) in simp_all)

lemma delivers_number:
  assumes "apart p ops" and "place_of p = Named" and F: "builtins_intact (ot_functions ot)"
    and "view from = Atom (NumA (numI i))" and "view to' = Atom (NumA (numI j))"
    and "float_exact i" "float_exact j" "float_exact (j - i)"
  shows "delivers E view p (view from) (view to') ops (Some (diffNumber E ot p from to' (Some ops)))"
proof (cases "i = j")
  case True
  then show ?thesis
    using assms number_int supports_named [OF assms(2)]
    by (simp add: diffNumber_def builtins_intact_def delivers_nothing is_int64_def Let_def)
next
  case False
  have s: "supportsSubtypePath p" using supports_named [OF assms(2)] .
  let ?c = "NewOperationComponent p (SubTypeOperator NumberAdd (PackAny E (ValueFromInt E (j - i))) NumberAddSubType)"
  have "diffNumber E ot p from to' (Some ops) = Operation_Append E (Some ops) ?c"
    using assms number_int s False float_exact_int64 [OF assms(8)]
    by (simp add: diffNumber_def builtins_intact_def Let_def)
  then show ?thesis
    using number_named [of p _ i j] assms by (auto intro!: deliversI)
qed

end


lemma place_of_key: "place_of (appendPath p (PathElementFromKey k)) = (if k = '''' then FirstItem else Named)"
  by (simp add: place_of_def appendPath_def PathElementFromKey_def)

lemma place_of_index:
  "place_of (appendPath p (PathElementFromIndex (int i))) = (if i = 0 then FirstItem else LaterItem)"
  by (simp add: place_of_def appendPath_def PathElementFromIndex_def)

lemma appendPath_eq: "appendPath p pe = p @ [pe]"
  by (simp add: appendPath_def Path_Clone_def)

lemma PathElementFromKey_inj [simp]: "PathElementFromKey k = PathElementFromKey l \<longleftrightarrow> k = l"
  by (simp add: PathElementFromKey_def)

lemma PathElementFromIndex_inj [simp]: "PathElementFromIndex i = PathElementFromIndex j \<longleftrightarrow> i = j"
  by (simp add: PathElementFromIndex_def)

text \<open>After the components for one member, the next member still has nothing to merge with.\<close>

lemma apart_next:
  "apart (p @ [x]) ops \<Longrightarrow> (\<forall>c \<in> set cs. prefix (p @ [y]) (Path c)) \<Longrightarrow> x \<noteq> y \<Longrightarrow> apart (p @ [x]) (ops @ cs)"
  by (cases cs rule: rev_cases) (auto simp: apart_def prefix_def)

lemma parent_ok_put:
  assumes "doc_at p d = Some y" and "parent_ok p d"
  shows "parent_ok p (doc_put p e d)"
proof (cases p rule: rev_cases)
  case (snoc q pe)
  then obtain c where c: "doc_at q d = Some c"
    using assms(1) by (auto simp: doc_at_append split: option.splits)
  have "doc_at q (doc_put p e d) = Some (doc_put [pe] e c)"
    using snoc doc_put_append [OF c] doc_at_put [OF c] by simp
  then show ?thesis using assms(2) snoc c by (auto simp: parent_ok_def)
qed (simp add: parent_ok_def)


abbreviation delivered ::
    "('v, 'f) env \<Rightarrow> ('v \<Rightarrow> 'n jdoc) \<Rightarrow> Path \<Rightarrow> 'n jdoc \<Rightarrow> 'n jdoc \<Rightarrow> 'v OperationComponent list \<Rightarrow>
     'v Operation res option \<Rightarrow> bool" where
  "delivered E view p a b ops r \<equiv> r = None \<or> delivers E view p a b ops r"

text \<open>Two deliveries in a row, and a delivery inside a larger part of the document.\<close>

lemma delivers_trans:
  assumes first: "delivers E view p y mid ops (Some (Inr (Some (ops @ cs))))"
    and rest: "delivers E view p mid z (ops @ cs) r"
  shows "delivers E view p y z ops r"
proof -
  obtain ds where ds: "r = Some (Inr (Some ((ops @ cs) @ ds)))" "\<forall>c \<in> set ds. prefix p (Path c)"
      "\<And>d. doc_at p d = Some mid \<Longrightarrow> parent_ok p d \<Longrightarrow> performs E view ds d (doc_put p z d)"
    using rest by (auto simp: delivers_def)
  have "performs E view (cs @ ds) d (doc_put p z d)" if d: "doc_at p d = Some y" "parent_ok p d" for d
    using performs_append [of E view cs d "doc_put p mid d" ds] first d ds(3) [of "doc_put p mid d"]
      doc_at_put [OF d(1)] parent_ok_put [OF d] doc_put_put [OF d(1)] by (auto simp: delivers_def)
  then show ?thesis
    using ds(1,2) first by (auto simp: delivers_def)
qed

lemma delivers_inner:
  assumes "delivers E view (p @ [pe]) a b ops r"
    and "\<And>d. doc_at p d = Some y \<Longrightarrow> parent_ok p d \<Longrightarrow>
          doc_at (p @ [pe]) d = Some a \<and> parent_ok (p @ [pe]) d \<and> doc_put (p @ [pe]) b d = doc_put p mid d"
  shows "delivers E view p y mid ops r"
  using assms by (fastforce simp: delivers_def dest: append_prefixD)

definition steps_to ::
    "('v, 'f) env \<Rightarrow> ('v \<Rightarrow> 'n jdoc) \<Rightarrow> Path \<Rightarrow> PathElement \<Rightarrow> 'n jdoc \<Rightarrow> 'n jdoc \<Rightarrow>
     'v OperationComponent list \<Rightarrow> 'v Operation res option \<Rightarrow> bool" where
  "steps_to E view p pe y mid ops r \<longleftrightarrow> delivers E view p y mid ops r
     \<and> (\<exists>cs. r = Some (Inr (Some (ops @ cs))) \<and> (\<forall>c \<in> set cs. prefix (p @ [pe]) (Path c)))"

lemma steps_to_inner:
  "delivers E view (p @ [pe]) a b ops r \<Longrightarrow>
   (\<And>d. doc_at p d = Some y \<Longrightarrow> parent_ok p d \<Longrightarrow>
      doc_at (p @ [pe]) d = Some a \<and> parent_ok (p @ [pe]) d \<and> doc_put (p @ [pe]) b d = doc_put p mid d) \<Longrightarrow>
   steps_to E view p pe y mid ops r"
  using delivers_inner [of E view p pe a b ops r y mid] by (auto simp: steps_to_def) (auto simp: delivers_def)

lemma steps_to_bind:
  assumes "steps_to E view p pe y mid ops r"
    and "\<And>ops'. (\<And>x. x \<noteq> pe \<Longrightarrow> apart (p @ [x]) ops \<Longrightarrow> apart (p @ [x]) ops') \<Longrightarrow>
          delivered E view p mid z ops' (f (Some ops'))"
  shows "delivered E view p y z ops (bindFuel r f)"
proof -
  obtain cs where cs: "r = Some (Inr (Some (ops @ cs)))" "\<forall>c \<in> set cs. prefix (p @ [pe]) (Path c)"
      "delivers E view p y mid ops (Some (Inr (Some (ops @ cs))))"
    using assms(1) by (auto simp: steps_to_def)
  have "delivered E view p mid z (ops @ cs) (f (Some (ops @ cs)))"
    using assms(2) [of "ops @ cs"] apart_next cs(2) by blast
  then show ?thesis using delivers_trans [OF cs(3)] cs(1) by auto
qed

lemma inner_item:
  "doc_at p d = Some (Arr xs) \<Longrightarrow> i < length xs \<Longrightarrow>
   doc_at (p @ [PathElementFromIndex (int i)]) d = Some (xs ! i)
     \<and> parent_ok (p @ [PathElementFromIndex (int i)]) d
     \<and> doc_put (p @ [PathElementFromIndex (int i)]) e d = doc_put p (Arr (xs[i := e])) d"
  by (simp add: doc_at_append doc_put_item parent_ok_def)

lemma inner_member:
  "doc_at p d = Some (Obj m) \<Longrightarrow> m k = Some a \<Longrightarrow>
   doc_at (p @ [PathElementFromKey k]) d = Some a \<and> parent_ok (p @ [PathElementFromKey k]) d
     \<and> doc_put (p @ [PathElementFromKey k]) e d = doc_put p (Obj (m(k \<mapsto> e))) d"
  by (simp add: doc_at_append doc_put_member parent_ok_def PathElementFromKey_def)

lemma delivers_sound_array:
  assumes "index + length pairs = length xs"
    and "\<And>j. j < length pairs \<Longrightarrow> xs ! (index + j) = view (fst (pairs ! j))"
    and "\<And>i. index \<le> i \<Longrightarrow> apart (p @ [PathElementFromIndex (int i)]) ops"
    and "\<And>j ops. j < length pairs \<Longrightarrow> apart (p @ [PathElementFromIndex (int (index + j))]) ops \<Longrightarrow>
      delivered E view (p @ [PathElementFromIndex (int (index + j))])
        (view (fst (pairs ! j))) (view (snd (pairs ! j))) ops
        (visit (p @ [PathElementFromIndex (int (index + j))]) (fst (pairs ! j)) (snd (pairs ! j)) (Some ops))"
  shows "delivered E view p (Arr xs) (Arr (take index xs @ map (\<lambda>(l, r). view r) pairs)) ops
           (diffElements visit p index pairs (Some ops))"
  using assms
proof (induction pairs arbitrary: index xs ops)
  case Nil
  then show ?case by (simp add: delivers_nothing)
next
  case (Cons lr pairs)
  obtain l r where lr: "lr = (l, r)" by (cases lr)
  let ?pe = "PathElementFromIndex (int index)"
  let ?xs = "xs[index := view r]"
  let ?v = "visit (p @ [?pe]) l r (Some ops)"
  have i: "index < length xs" "xs ! index = view l"
    using Cons.prems(1) Cons.prems(2) [of 0] lr by auto
  show ?case
  proof (cases "?v = None")
    case True
    then show ?thesis by (simp add: lr appendPath_eq)
  next
    case False
    then have "delivers E view (p @ [?pe]) (view l) (view r) ops ?v"
      using Cons.prems(4) [of 0 ops] Cons.prems(3) [of index] by (auto simp: lr)
    then have s: "steps_to E view p ?pe (Arr xs) (Arr ?xs) ops ?v"
      using i by (auto intro!: steps_to_inner dest: inner_item)
    have t: "take (Suc index) ?xs @ map (\<lambda>(l, r). view r) pairs
        = take index xs @ map (\<lambda>(l, r). view r) (lr # pairs)"
      using i by (simp add: lr take_Suc_conv_app_nth)
    have "delivered E view p (Arr ?xs) (Arr (take (Suc index) ?xs @ map (\<lambda>(l, r). view r) pairs)) ops'
        (diffElements visit p (Suc index) pairs (Some ops'))"
      if "\<And>x. x \<noteq> ?pe \<Longrightarrow> apart (p @ [x]) ops \<Longrightarrow> apart (p @ [x]) ops'" for ops'
    proof (rule Cons.IH)
      show "?xs ! (Suc index + j) = view (fst (pairs ! j))" if "j < length pairs" for j
        using Cons.prems(2) [of "Suc j"] that by simp
      show "apart (p @ [PathElementFromIndex (int i)]) ops'" if "Suc index \<le> i" for i
        using Cons.prems(3) [of i] that \<open>\<And>x. x \<noteq> ?pe \<Longrightarrow> apart (p @ [x]) ops \<Longrightarrow> apart (p @ [x]) ops'\<close> by simp
    qed (use Cons.prems(1) Cons.prems(4) [of "Suc _"] in simp_all)
    from steps_to_bind [OF s, of "diffElements visit p (Suc index) pairs"
        "Arr (take (Suc index) ?xs @ map (\<lambda>(l, r). view r) pairs)"] this
    show ?thesis unfolding t by (simp add: lr appendPath_eq Let_def)
  qed
qed


context ot_contract
begin

text \<open>A member only one of the two objects has.\<close>

lemma member_step:
  assumes "is_object_op op" and "apart (p @ [PathElementFromKey k]) ops"
  shows "steps_to E view p (PathElementFromKey k) (Obj m) (Obj (object_effect view op k m)) ops
     (Some (Operation_Append E (Some ops) (NewOperationComponent (p @ [PathElementFromKey k]) op)))"
proof -
  let ?c = "NewOperationComponent (p @ [PathElementFromKey k]) op"
  have op: "Operator_Clone op = op" "\<not> is_move op" using assms(1) by (cases op; simp)+
  then have a: "Operation_Append E (Some ops) ?c = Inr (Some (ops @ [?c]))"
    using Append_apart [of ?c ops E] assms(2) by simp
  have "performs E view [?c] d (doc_put p (Obj (object_effect view op k m)) d)"
    if "doc_at p d = Some (Obj m)" for d
    using performs_member [of ?c p "PathElementFromKey k" d m] assms(1) op that
    by (simp add: PathElementFromKey_def)
  then show ?thesis by (auto simp: steps_to_def delivers_def a)
qed

lemma delivers_sound_object:
  assumes "distinct keys"
    and "\<And>k. map_option view (map_of fromMap k) = m k" and "\<And>k. map_option view (map_of toMap k) = m' k"
    and "\<And>k. k \<in> set keys \<Longrightarrow> cur k = m k"
    and "\<And>k. k \<in> set keys \<Longrightarrow> apart (p @ [PathElementFromKey k]) ops"
    and "\<And>k a b ops. map_of fromMap k = Some a \<Longrightarrow> map_of toMap k = Some b \<Longrightarrow>
      apart (p @ [PathElementFromKey k]) ops \<Longrightarrow>
      delivered E view (p @ [PathElementFromKey k]) (view a) (view b) ops
        (visit (p @ [PathElementFromKey k]) a b (Some ops))"
  shows "delivered E view p (Obj cur) (Obj (\<lambda>k. if k \<in> set keys then m' k else cur k)) ops
           (diffMembers visit E p fromMap toMap keys (Some ops))"
  using assms(1,4,5)
proof (induction keys arbitrary: cur ops)
  case Nil
  then show ?case by (simp add: delivers_nothing)
next
  case (Cons k keys)
  let ?pe = "PathElementFromKey k"
  let ?cur = "cur(k := m' k)"
  let ?step = "case map_of fromMap k of
      Some a \<Rightarrow> (case map_of toMap k of
          None \<Rightarrow> Some (Operation_Append E (Some ops) (NewOperationComponent (p @ [?pe]) (ObjectDelete a)))
        | Some b \<Rightarrow> visit (p @ [?pe]) a b (Some ops))
    | None \<Rightarrow> (case map_of toMap k of
          Some b \<Rightarrow> Some (Operation_Append E (Some ops) (NewOperationComponent (p @ [?pe]) (ObjectInsert b)))
        | None \<Rightarrow> Some (Inr (Some ops)))"
  have ap: "apart (p @ [?pe]) ops" and ck: "cur k = map_option view (map_of fromMap k)"
    using Cons.prems assms(2) by auto
  have "?step = None \<or> steps_to E view p ?pe (Obj cur) (Obj ?cur) ops ?step"
  proof (cases "map_of fromMap k")
    case None
    show ?thesis
    proof (cases "map_of toMap k")
      case None': None
      then have "?cur = cur" using None ck assms(3) [of k] by (auto simp: fun_eq_iff)
      then show ?thesis using None None' by (auto simp: steps_to_def delivers_nothing)
    next
      case (Some b)
      then show ?thesis
        using None member_step [OF _ ap, of "ObjectInsert b" cur] assms(3) [of k, symmetric] by simp
    qed
  next
    case (Some a)
    show ?thesis
    proof (cases "map_of toMap k")
      case None
      then show ?thesis
        using Some member_step [OF _ ap, of "ObjectDelete a" cur] assms(3) [of k, symmetric] by simp
    next
      case Some': (Some b)
      have "steps_to E view p ?pe (Obj cur) (Obj ?cur) ops (visit (p @ [?pe]) a b (Some ops))"
        if "visit (p @ [?pe]) a b (Some ops) \<noteq> None"
        using assms(6) [OF Some Some' ap] that ck Some assms(3) [of k, symmetric] Some'
        by (auto intro!: steps_to_inner dest: inner_member)
      then show ?thesis using Some Some' by (cases "visit (p @ [?pe]) a b (Some ops) = None") simp_all
    qed
  qed
  then show ?case
  proof
    assume s: "steps_to E view p ?pe (Obj cur) (Obj ?cur) ops ?step"
    have "delivered E view p (Obj ?cur) (Obj (\<lambda>j. if j \<in> set keys then m' j else ?cur j)) ops'
        (diffMembers visit E p fromMap toMap keys (Some ops'))"
      if "\<And>x. x \<noteq> ?pe \<Longrightarrow> apart (p @ [x]) ops \<Longrightarrow> apart (p @ [x]) ops'" for ops'
    proof (rule Cons.IH)
      show "apart (p @ [PathElementFromKey j]) ops'" if "j \<in> set keys" for j
      proof -
        have "PathElementFromKey j \<noteq> ?pe" using Cons.prems(1) that by auto
        then show ?thesis
          using \<open>\<And>x. x \<noteq> ?pe \<Longrightarrow> apart (p @ [x]) ops \<Longrightarrow> apart (p @ [x]) ops'\<close> Cons.prems(3) [of j] that by simp
      qed
    qed (use Cons.prems in auto)
    from steps_to_bind [OF s, of "diffMembers visit E p fromMap toMap keys"
        "Obj (\<lambda>j. if j \<in> set keys then m' j else ?cur j)"] this
    have "delivered E view p (Obj cur) (Obj (\<lambda>j. if j \<in> set keys then m' j else ?cur j)) ops
        (diffMembers visit E p fromMap toMap (k # keys) (Some ops))"
      by (simp add: appendPath_eq Let_def)
    moreover have "(\<lambda>j. if j \<in> set keys then m' j else ?cur j) = (\<lambda>j. if j \<in> set (k # keys) then m' j else cur j)"
      using Cons.prems(1) by (auto simp: fun_eq_iff)
    ultimately show ?thesis by simp
  qed (simp add: appendPath_eq Let_def)
qed

end


context diff_contract
begin

lemma diffKeys_set: "set (diffKeys kvs kvs') = dom (map_of kvs) \<union> dom (map_of kvs')"
  by (simp add: diffKeys_def dom_map_of_conv_image_fst)

lemma diffKeys_distinct: "distinct (diffKeys kvs kvs')"
  by (simp add: diffKeys_def)

lemma diffInto_sound:
  assumes F: "builtins_intact (ot_functions ot)"
  shows "diffable numI (place_of p) (view from) (view to') \<Longrightarrow> apart p ops \<Longrightarrow>
    delivered E view p (view from) (view to') ops (diffInto fuel E ot p from to' (Some ops))"
proof (induction fuel arbitrary: p "from" to' ops)
  case 0
  then show ?case by simp
next
  case (Suc fuel)
  show ?case
  proof (cases "Equals E from to'")
    case True
    then show ?thesis using Equals_sound [OF True] by (simp add: delivers_nothing)
  next
    case ne: False
    from Suc.prems(1) show ?thesis
    proof cases
      case (same a)
      then show ?thesis using ne Equals_atom by metis
    next
      case (members m m')
      then have o: "IsObject E from" "IsObject E to'" by (auto simp: IsObject_iff)
      obtain kvs where kvs: "GetMap E from = Inr kvs" "\<And>k. map_option view (map_of kvs k) = m k"
        using GetMap_Obj [OF members(1)] by blast
      obtain kvs' where kvs': "GetMap E to' = Inr kvs'" "\<And>k. map_option view (map_of kvs' k) = m' k"
        using GetMap_Obj [OF members(2)] by blast
      have d: "delivered E view p (Obj m) (Obj (\<lambda>k. if k \<in> set (diffKeys kvs kvs') then m' k else m k)) ops
          (diffMembers (diffInto fuel E ot) E p kvs kvs' (diffKeys kvs kvs') (Some ops))"
      proof (rule delivers_sound_object [OF diffKeys_distinct kvs(2) kvs'(2)])
        show "apart (p @ [PathElementFromKey k]) ops" for k
          using apart_deeper Suc.prems(2) by blast
        show "delivered E view (p @ [PathElementFromKey k]) (view a) (view b) ops
            (diffInto fuel E ot (p @ [PathElementFromKey k]) a b (Some ops))"
          if ab: "map_of kvs k = Some a" "map_of kvs' k = Some b" "apart (p @ [PathElementFromKey k]) ops"
          for k a b ops
        proof (rule Suc.IH)
          show "diffable numI (place_of (p @ [PathElementFromKey k])) (view a) (view b)"
            using members(3) [of k "view a" "view b"] ab(1,2) kvs(2) [of k] kvs'(2) [of k]
              place_of_key [of p k] by (simp add: appendPath_eq)
        qed (rule ab(3))
      qed simp
      have "(\<lambda>k. if k \<in> set (diffKeys kvs kvs') then m' k else m k) = m'"
        using kvs(2) kvs'(2) by (auto simp: diffKeys_set fun_eq_iff dom_def) (metis option.map_disc_iff)
      then show ?thesis using d ne o kvs kvs' members by simp
    next
      case (items xs ys)
      then have a: "IsArray E from" "IsArray E to'" "\<not> IsObject E from"
        by (auto simp: IsArray_iff IsObject_iff)
      obtain vs where vs: "GetArray E from = Inr vs" "map view vs = xs" using GetArray_Arr [OF items(1)] by blast
      obtain ws where ws: "GetArray E to' = Inr ws" "map view ws = ys" using GetArray_Arr [OF items(2)] by blast
      have l: "length vs = length ws" using items(3) vs(2) ws(2) by auto
      have "delivered E view p (Arr xs) (Arr (take 0 xs @ map (\<lambda>(l, r). view r) (zip vs ws))) ops
          (diffElements (diffInto fuel E ot) p 0 (zip vs ws) (Some ops))"
      proof (rule delivers_sound_array)
        show "apart (p @ [PathElementFromIndex (int i)]) ops" for i
          using apart_deeper Suc.prems(2) by blast
        show "delivered E view (p @ [PathElementFromIndex (int (0 + j))]) (view (fst (zip vs ws ! j)))
            (view (snd (zip vs ws ! j))) ops
            (diffInto fuel E ot (p @ [PathElementFromIndex (int (0 + j))]) (fst (zip vs ws ! j))
              (snd (zip vs ws ! j)) (Some ops))"
          if j: "j < length (zip vs ws)" "apart (p @ [PathElementFromIndex (int (0 + j))]) ops" for j ops
        proof (rule Suc.IH)
          show "diffable numI (place_of (p @ [PathElementFromIndex (int (0 + j))]))
              (view (fst (zip vs ws ! j))) (view (snd (zip vs ws ! j)))"
            using items(4) [of j] j(1) vs(2) ws(2) l place_of_index [of p j] by (auto simp: appendPath_eq)
        qed (rule j(2))
      qed (use vs(2) l in auto)
      moreover have "map view (map snd (zip vs ws)) = ys"
        using ws(2) l by simp
      then have "map (\<lambda>(l, r). view r) (zip vs ws) = ys" by (simp add: split_def comp_def)
      ultimately show ?thesis using a ne vs ws l items by simp
    next
      case (number i j)
      then have "\<not> IsObject E from" "\<not> IsArray E from" by (auto simp: IsArray_iff IsObject_iff)
      then show ?thesis
        using ne delivers_number [OF Suc.prems(2) _ F] delivers_replace [OF Suc.prems(2), of "from" to'] number
        by (auto simp: IsArray_iff IsObject_iff)
    next
      case replaced
      then have "diffInto (Suc fuel) E ot p from to' (Some ops) = Some (appendReplace E p from to' (Some ops))"
        using ne GetArray_Arr [of "from"] GetArray_Arr [of to'] IsNumeric_number [of "from"] IsNumeric_number [of to']
        by (cases "view from"; cases "view to'") (auto simp: IsArray_iff IsObject_iff)
      then show ?thesis
        using delivers_replace [OF Suc.prems(2), of "from" to'] replaced by simp
    next
      case (later a)
      then have "diffInto (Suc fuel) E ot p from to' (Some ops) = Some (appendReplace E p from to' (Some ops))"
        using ne supports_later [of p] by (auto simp: IsArray_iff IsObject_iff diffNumber_def)
      then show ?thesis
        using delivers_replace [OF Suc.prems(2), of "from" to'] later by simp
    qed
  qed
qed

end


section \<open>The comparison ends\<close>

lemma bindFuel_mono:
  "bindFuel r f = Some y \<Longrightarrow> (\<And>x. r = Some x \<Longrightarrow> r' = Some x) \<Longrightarrow>
   (\<And>x. f x = Some y \<Longrightarrow> g x = Some y) \<Longrightarrow> bindFuel r' g = Some y"
  by (cases "(r, f)" rule: bindFuel.cases) auto

lemma diffMembers_mono:
  assumes "\<And>p a b ops x. visit p a b ops = Some x \<Longrightarrow> visit' p a b ops = Some x"
  shows "diffMembers visit E p kvs kvs' keys ops = Some y \<Longrightarrow> diffMembers visit' E p kvs kvs' keys ops = Some y"
  by (induction keys arbitrary: ops)
    (auto simp: Let_def elim!: bindFuel_mono split: option.splits intro: assms)

lemma diffElements_mono:
  assumes "\<And>p a b ops x. visit p a b ops = Some x \<Longrightarrow> visit' p a b ops = Some x"
  shows "diffElements visit p i pairs ops = Some y \<Longrightarrow> diffElements visit' p i pairs ops = Some y"
  by (induction pairs arbitrary: i ops) (auto simp: Let_def elim!: bindFuel_mono intro: assms)

lemma diffInto_Suc: "diffInto n E ot p a b ops = Some y \<Longrightarrow> diffInto (Suc n) E ot p a b ops = Some y"
proof (induction n arbitrary: p a b ops y)
  case (Suc n)
  note o = diffMembers_mono [of "diffInto n E ot" "diffInto (Suc n) E ot", OF Suc.IH]
    and i = diffElements_mono [of "diffInto n E ot" "diffInto (Suc n) E ot", OF Suc.IH]
  show ?case
    using Suc.prems
    by (subst diffInto.simps, subst (asm) diffInto.simps)
      (auto simp del: diffInto.simps elim!: bindFuel_mono intro: o i split: if_splits)
qed simp


lemma diffInto_le: "diffInto n E ot p a b ops = Some y \<Longrightarrow> n \<le> k \<Longrightarrow> diffInto k E ot p a b ops = Some y"
  by (induction k) (auto simp: le_Suc_eq simp del: diffInto.simps dest: diffInto_Suc)

text \<open>Finitely many visits that each end with some fuel all end with one amount.\<close>

lemma fuel_for_all:
  fixes f :: "nat \<Rightarrow> 'i \<Rightarrow> bool"
  assumes "finite A" and "\<And>x. x \<in> A \<Longrightarrow> \<exists>n. f n x" and "\<And>n k x. f n x \<Longrightarrow> n \<le> k \<Longrightarrow> f k x"
  shows "\<exists>n. \<forall>x \<in> A. f n x"
  using assms(1,2)
proof (induction A)
  case (insert a A)
  obtain n where n: "\<forall>x \<in> A. f n x" using insert by auto
  obtain k where k: "f k a" using insert.prems by auto
  have "f (max n k) x" if "x \<in> insert a A" for x
    using n k that assms(3) [of _ x "max n k"] by (cases "x = a") auto
  then show ?case by blast
qed simp

lemma diffMembers_ends:
  assumes "\<And>k a b p ops. k \<in> set keys \<Longrightarrow> map_of kvs k = Some a \<Longrightarrow> map_of kvs' k = Some b \<Longrightarrow>
      visit p a b ops \<noteq> None"
  shows "diffMembers visit E p kvs kvs' keys ops \<noteq> None"
  using assms
proof (induction keys arbitrary: ops)
  case (Cons k keys)
  let ?p = "appendPath p (PathElementFromKey k)"
  have r: "diffMembers visit E p kvs kvs' keys ops' \<noteq> None" for ops'
    by (rule Cons.IH, rule Cons.prems) auto
  have "bindFuel s (\<lambda>ops. diffMembers visit E p kvs kvs' keys ops) \<noteq> None" if "s \<noteq> None" for s
    using that r by (cases "(s, \<lambda>ops. diffMembers visit E p kvs kvs' keys ops)" rule: bindFuel.cases) auto
  moreover have "visit ?p a b ops \<noteq> None" if "map_of kvs k = Some a" "map_of kvs' k = Some b" for a b
    by (rule Cons.prems) (use that in auto)
  ultimately show ?case by (simp add: Let_def split: option.split)
qed simp

lemma diffElements_ends:
  assumes "\<And>a b p ops. (a, b) \<in> set pairs \<Longrightarrow> visit p a b ops \<noteq> None"
  shows "diffElements visit p i pairs ops \<noteq> None"
  using assms
proof (induction pairs arbitrary: i ops)
  case (Cons ab pairs)
  obtain a b where ab: "ab = (a, b)" by (cases ab)
  have r: "diffElements visit p j pairs ops' \<noteq> None" for j ops'
    by (rule Cons.IH) (use Cons.prems in simp)
  have "bindFuel s (\<lambda>ops. diffElements visit p (Suc i) pairs ops) \<noteq> None" if "s \<noteq> None" for s
    using that r by (cases "(s, \<lambda>ops. diffElements visit p (Suc i) pairs ops)" rule: bindFuel.cases) auto
  then show ?case using Cons.prems ab by (simp add: Let_def)
qed simp


context ot_contract
begin

lemma diffInto_ends: "\<exists>n. \<forall>p from to' ops. view from = d \<longrightarrow> diffInto n E ot p from to' ops \<noteq> None"
proof (induction d)
  case (Atom a)
  have "diffInto 1 E ot p from to' ops \<noteq> None" if "view from = Atom a" for p "from" to' ops
  proof -
    have "\<not> IsObject E from" "\<not> IsArray E from" using that by (auto simp: IsObject_iff IsArray_iff)
    then show ?thesis by simp
  qed
  then show ?case by blast
next
  case (Arr xs)
  then obtain n where n: "\<forall>x \<in> set xs. \<forall>p from to' ops. view from = x \<longrightarrow> diffInto n E ot p from to' ops \<noteq> None"
    using fuel_for_all [of "set xs" "\<lambda>n x. \<forall>p from to' ops. view from = x \<longrightarrow> diffInto n E ot p from to' ops \<noteq> None"]
      diffInto_le by (metis List.finite_set not_Some_eq)
  have "diffInto (Suc n) E ot p from to' ops \<noteq> None" if f: "view from = Arr xs" for p "from" to' ops
  proof -
    obtain vs where vs: "GetArray E from = Inr vs" "map view vs = xs" using GetArray_Arr [OF f] by blast
    have "diffElements (diffInto n E ot) p 0 (zip vs ws) ops \<noteq> None" for ws
      using n vs(2) by (intro diffElements_ends) (auto dest: set_zip_leftD)
    moreover have "\<not> IsObject E from" using f by (simp add: IsObject_iff)
    ultimately show ?thesis using vs(1)
      by (cases "GetArray E to'") (auto simp del: not_None_eq)
  qed
  then show ?case by blast
next
  case (Obj m)
  show ?case
  proof (cases "\<exists>v. view v = Obj m")
    case True
    then obtain kvs0 where "\<And>k. map_option view (map_of kvs0 k) = m k"
      using GetMap_Obj by blast
    then have "m = (\<lambda>k. map_option view (map_of kvs0 k))" by auto
    then have "dom m = dom (map_of kvs0)" by (simp add: dom_def)
    then have "finite (ran m)" by (simp add: finite_dom_map_of finite_ran)
    moreover have "\<exists>n. \<forall>p from to' ops. view from = x \<longrightarrow> diffInto n E ot p from to' ops \<noteq> None"
      if "x \<in> ran m" for x
    proof -
      obtain k where "m k = Some x" using \<open>x \<in> ran m\<close> by (auto simp: ran_def)
      then show ?thesis using Obj [of "m k" x] by (metis option.set_intros rangeI)
    qed
    ultimately obtain n where
        n: "\<forall>x \<in> ran m. \<forall>p from to' ops. view from = x \<longrightarrow> diffInto n E ot p from to' ops \<noteq> None"
      using fuel_for_all [of "ran m" "\<lambda>n x. \<forall>p from to' ops. view from = x \<longrightarrow> diffInto n E ot p from to' ops \<noteq> None"]
        diffInto_le by (metis not_Some_eq)
    have "diffInto (Suc n) E ot p from to' ops \<noteq> None" if f: "view from = Obj m" for p "from" to' ops
    proof -
      obtain kvs where kvs: "GetMap E from = Inr kvs" "\<And>k. map_option view (map_of kvs k) = m k"
        using GetMap_Obj [OF f] by blast
      have "view a \<in> ran m" if "map_of kvs k = Some a" for k a
        using kvs(2) [of k] that by (auto simp: ran_def intro: exI [of _ k])
      then have "diffMembers (diffInto n E ot) E p kvs kvs' keys ops \<noteq> None" for kvs' keys
        using n by (intro diffMembers_ends) blast
      moreover have "\<not> IsArray E from" using f by (simp add: IsArray_iff)
      ultimately show ?thesis using kvs(1)
        by (cases "GetMap E to'") (auto simp del: not_None_eq)
    qed
    then show ?thesis by blast
  qed auto
qed

end


context diff_contract
begin

lemma diff_apply:
  assumes "builtins_intact (ot_functions ot)" and "diffable numI Named (view from) (view to')"
  shows "\<exists>n op. Diff n E ot from to' = Some (Inr op)
    \<and> (\<forall>v. view v = view from \<longrightarrow> (\<exists>v'. Engine_Apply E v op = Inr v' \<and> view v' = view to'))"
proof -
  obtain n where "diffInto n E ot [] from to' (Some []) \<noteq> None"
    using diffInto_ends [of "view from" ot] by blast
  then have "delivers E view [] (view from) (view to') [] (diffInto n E ot [] from to' (Some []))"
    using diffInto_sound [OF assms(1), of "[]" "from" to' "[]" n] assms(2)
    by (auto simp: place_of_def apart_def)
  then obtain cs where cs: "diffInto n E ot [] from to' (Some []) = Some (Inr (Some cs))"
      "performs E view cs (view from) (view to')"
    by (auto simp: delivers_def parent_ok_def)
  have "\<exists>v'. Engine_Apply E v (Some cs) = Inr v' \<and> view v' = view to'" if "view v = view from" for v
    using cs(2) that abs_PackAny [of v] by (auto simp: performs_def Engine_Apply_def)
  then show ?thesis using cs(1) by (auto simp: Diff_def NewOperation_def)
qed

end

end
