(* ===== verification/DiffProperties.thy ===== *)
theory DiffProperties
  imports DiffBehaviour
begin

text \<open>
  The properties of \<open>Diff\<close>: its operation turns one value into the other, the comparison ends,
  and the two kinds of change it loses.
\<close>

lemma ref_diff_contract: "diff_contract ref_env jdoc_of (\<lambda>i. i)"
proof -
  have "print_json v = print_json w" if "jdoc_of v = Atom a" "jdoc_of w = Atom a" for v w a
    using that by (cases v; cases w) auto
  then show ?thesis
    unfolding diff_contract_def diff_contract_axioms_def ref_Equals
    using ref_numbers.value_floats_axioms by blast
qed

interpretation ref_diff: diff_contract ref_env jdoc_of "\<lambda>i. i"
  by (rule ref_diff_contract)


lemma ref_diff_ab:
  "diffable (\<lambda>i. i) Named (jdoc_of (JObj [(''a'', JNum 1), (''b'', JArr [JNum 1, JNum 2]), (''c'', JNull)]))
     (jdoc_of (JObj [(''a'', JNum 3), (''b'', JArr [JNum 1, JStr ''x'']), (''d'', JNull)]))"
proof -
  have items: "diffable (\<lambda>i. i) pl (Arr [Atom (NumA 1), Atom (NumA 2)]) (Arr [Atom (NumA 1), Atom (StrA ''x'')])" for pl
    by (rule diffable.items)
      (auto simp: less_Suc_eq numeral_2_eq_2 intro: diffable.same diffable.later)
  have "diffable (\<lambda>i. i) Named (Atom (NumA 1)) (Atom (NumA 3))"
    by (rule diffable.number) (simp_all add: float_exact_def)
  with items show ?thesis
    by (simp, intro diffable.members) (auto split: if_splits)
qed


text \<open>The comparison of two values always ends: some depth is enough, whatever the second value is.\<close>

theorem diff_ends:
  assumes "ot_contract E view"
  shows "\<exists>n. \<forall>to'. Diff n E ot from to' \<noteq> None"
  using ot_contract.diffInto_ends [OF assms, of "view from" ot] by (fastforce simp: Diff_def)

text \<open>The first element of an array is compared like the others, but \<open>Apply\<close> never replaces it: the
  operation \<open>Diff\<close> returns leaves the document as it was.  For a member with the empty name
  \<open>Diff\<close> emits a list replacement, which \<open>Apply\<close> refuses on an object.\<close>

theorem diff_of_first_element_lost:
  "Diff 2 ref_env NewJSONOperationTransformer (JArr [JNum 1]) (JArr [JNum 2])
     = Some (Inr (Some [NewOperationComponent [PathElementFromIndex 0] (ListReplace (JNum 2) (JNum 1))]))
   \<and> Engine_Apply ref_env (JArr [JNum 1])
        (Some [NewOperationComponent [PathElementFromIndex 0] (ListReplace (JNum 2) (JNum 1))])
      = Inr (JArr [JNum 1])
   \<and> Diff 2 ref_env NewJSONOperationTransformer (JObj [('''', JNum 1)]) (JObj [('''', JNum 2)])
     = Some (Inr (Some [NewOperationComponent [PathElementFromKey ''''] (ListReplace (JNum 2) (JNum 1))]))
   \<and> Engine_Apply ref_env (JObj [('''', JNum 1)])
        (Some [NewOperationComponent [PathElementFromKey ''''] (ListReplace (JNum 2) (JNum 1))])
      = Inl FmtError"
  by code_simp

end
