(* ===== verification/AjsonNode.thy ===== *)
theory AjsonNode
  imports JsonValue
begin

text \<open>
  \<open>value_ajson.go\<close> and the ajson part of \<open>value_factory.go\<close>: the methods of \<open>AJSONValue\<close> over
  the third-party \<open>ajson.Node\<close>.  The library is a record of functions (\<open>ajson\<close>), one per
  function the code calls, with what the code takes from the Go runtime.  A node is its content:
  its key, its parent and its place in the source are not part of it.  A library function that
  changes its receiver returns the new content; \<open>aj_withChild\<close> is what an object becomes when
  the child node that \<open>GetKey\<close> returned (a pointer into it) is changed.  \<open>AjsonAPI\<close> collects the
  methods into the \<open>Value\<close> interface; the locale \<open>ajson_contract\<close> says what they rely on.
\<close>

section \<open>The library\<close>

datatype aj_type = AjNull | AjNumeric | AjString | AjBool | AjArray | AjObject

text \<open>\<open>aj_nil\<close> is the nil pointer.\<close>

record ('n, 'f) ajson =
  aj_Type :: "'n \<Rightarrow> aj_type"
  aj_IsBool :: "'n \<Rightarrow> bool"
  aj_IsNull :: "'n \<Rightarrow> bool"
  aj_IsNumeric :: "'n \<Rightarrow> bool"
  aj_IsString :: "'n \<Rightarrow> bool"
  aj_IsArray :: "'n \<Rightarrow> bool"
  aj_IsObject :: "'n \<Rightarrow> bool"
  aj_Value :: "'n \<Rightarrow> 'f goAny res"
  aj_Unpack :: "'n \<Rightarrow> 'f goAny res"
  aj_Unmarshal :: "string \<Rightarrow> 'n res"
  aj_GetKey :: "'n \<Rightarrow> string \<Rightarrow> 'n res"
  aj_GetIndex :: "'n \<Rightarrow> int \<Rightarrow> 'n res"
  aj_GetArray :: "'n \<Rightarrow> 'n list res"
  aj_GetObject :: "'n \<Rightarrow> (string \<times> 'n) list res"
  aj_GetNumeric :: "'n \<Rightarrow> 'f res"
  aj_GetString :: "'n \<Rightarrow> string res"
  aj_GetBool :: "'n \<Rightarrow> bool res"
  aj_SetArray :: "'n \<Rightarrow> 'n list \<Rightarrow> 'n res"
  aj_SetObject :: "'n \<Rightarrow> (string \<times> 'n) list \<Rightarrow> 'n res"
  aj_SetNumeric :: "'n \<Rightarrow> 'f \<Rightarrow> 'n res"
  aj_SetString :: "'n \<Rightarrow> string \<Rightarrow> 'n res"
  aj_SetBool :: "'n \<Rightarrow> bool \<Rightarrow> 'n res"
  aj_SetNull :: "'n \<Rightarrow> 'n res"
  aj_AppendObject :: "'n \<Rightarrow> string \<Rightarrow> 'n \<Rightarrow> 'n res"
  aj_withChild :: "'n \<Rightarrow> string \<Rightarrow> 'n \<Rightarrow> 'n"
  aj_DeleteKey :: "'n \<Rightarrow> string \<Rightarrow> 'n res"
  aj_HasKey :: "'n \<Rightarrow> string \<Rightarrow> bool"
  aj_Size :: "'n \<Rightarrow> int"
  aj_Eq :: "'n \<Rightarrow> 'n \<Rightarrow> bool res"
  aj_Clone :: "'n \<Rightarrow> 'n"
  aj_StringNode :: "string \<Rightarrow> 'n"
  aj_NumericNode :: "'f \<Rightarrow> 'n"
  aj_BoolNode :: "bool \<Rightarrow> 'n"
  aj_NullNode :: 'n
  aj_ArrayNode :: "'n list \<Rightarrow> 'n"
  aj_nil :: 'n
  rt_json_Marshal :: "'f goAny \<Rightarrow> string"
  rt_float_add :: "'f \<Rightarrow> 'f \<Rightarrow> 'f"
  rt_float_sub :: "'f \<Rightarrow> 'f \<Rightarrow> 'f"
  rt_float_neg :: "'f \<Rightarrow> 'f"
  rt_float_is_zero :: "'f \<Rightarrow> bool"
  rt_float_eq :: "'f \<Rightarrow> 'f \<Rightarrow> bool"
  rt_float_of_int :: "int \<Rightarrow> 'f"
  rt_int_of_float :: "'f \<Rightarrow> int"
  rt_sameZeroSize :: bool
  rt_sameInterface :: "'n \<Rightarrow> 'n \<Rightarrow> bool"
  rt_sharedEdit :: "nat \<Rightarrow> string \<Rightarrow> int \<Rightarrow> nat \<Rightarrow> bool \<Rightarrow> 'n \<Rightarrow> 'n"

section \<open>The methods of \<open>AJSONValue\<close>\<close>

definition Ajson_Type :: "('n, 'f) ajson \<Rightarrow> 'n \<Rightarrow> ValueType" where
  "Ajson_Type A n =
     (case aj_Type A n of
        AjNull \<Rightarrow> Null
      | AjString \<Rightarrow> String
      | AjNumeric \<Rightarrow> Numeric
      | AjBool \<Rightarrow> Bool
      | AjObject \<Rightarrow> Object
      | AjArray \<Rightarrow> Array)"

definition Ajson_IsBool :: "('n, 'f) ajson \<Rightarrow> 'n \<Rightarrow> bool" where
  "Ajson_IsBool A n = aj_IsBool A n"

definition Ajson_IsNull :: "('n, 'f) ajson \<Rightarrow> 'n \<Rightarrow> bool" where
  "Ajson_IsNull A n = aj_IsNull A n"

definition Ajson_IsNumeric :: "('n, 'f) ajson \<Rightarrow> 'n \<Rightarrow> bool" where
  "Ajson_IsNumeric A n = aj_IsNumeric A n"

definition Ajson_IsInt :: "('n, 'f) ajson \<Rightarrow> 'n \<Rightarrow> bool" where
  "Ajson_IsInt A n =
     (case aj_Value A n of
        Inl _ \<Rightarrow> False
      | Inr val \<Rightarrow>
          (case val of
             AFloat v \<Rightarrow> rt_float_eq A v (rt_float_of_int A (rt_int_of_float A v))
           | AInt _ \<Rightarrow> True
           | _ \<Rightarrow> False))"

definition Ajson_IsString :: "('n, 'f) ajson \<Rightarrow> 'n \<Rightarrow> bool" where
  "Ajson_IsString A n = aj_IsString A n"

definition Ajson_IsArray :: "('n, 'f) ajson \<Rightarrow> 'n \<Rightarrow> bool" where
  "Ajson_IsArray A n = aj_IsArray A n"

definition Ajson_IsObject :: "('n, 'f) ajson \<Rightarrow> 'n \<Rightarrow> bool" where
  "Ajson_IsObject A n = aj_IsObject A n"

definition Ajson_Unmarshal :: "('n, 'f) ajson \<Rightarrow> string \<Rightarrow> 'n res" where
  "Ajson_Unmarshal A data =
     (case aj_Unmarshal A data of Inl e \<Rightarrow> Inl (CodeError UnexpectedError) | Inr node \<Rightarrow> Inr node)"

definition Ajson_PackAny :: "'n \<Rightarrow> 'n" where
  "Ajson_PackAny n = n"

definition Ajson_GetKey :: "('n, 'f) ajson \<Rightarrow> 'n \<Rightarrow> string \<Rightarrow> 'n option" where
  "Ajson_GetKey A n key = (case aj_GetKey A n key of Inl _ \<Rightarrow> None | Inr node \<Rightarrow> Some node)"

text \<open>
  \<open>GetByPath\<close> looks every element up in the receiver; an element that is neither a string nor an
  int leaves the node of the element before.
\<close>

datatype aj_arg = KeyArg string | IndexArg int | OtherArg

fun GetByPath_loop :: "('n, 'f) ajson \<Rightarrow> 'n \<Rightarrow> 'n \<Rightarrow> aj_arg list \<Rightarrow> 'n option" where
  "GetByPath_loop A n node [] = Some node"
| "GetByPath_loop A n node (p # path) =
     (case (case p of
              KeyArg v \<Rightarrow> aj_GetKey A n v
            | IndexArg v \<Rightarrow> aj_GetIndex A n v
            | OtherArg \<Rightarrow> Inr node) of
        Inl _ \<Rightarrow> None
      | Inr node \<Rightarrow> GetByPath_loop A n node path)"

definition Ajson_GetByPath :: "('n, 'f) ajson \<Rightarrow> 'n \<Rightarrow> aj_arg list \<Rightarrow> 'n option" where
  "Ajson_GetByPath A n path = GetByPath_loop A n (aj_nil A) path"

definition Ajson_GetStringKey :: "('n, 'f) ajson \<Rightarrow> 'n \<Rightarrow> string \<Rightarrow> string option" where
  "Ajson_GetStringKey A n key =
     (case aj_GetKey A n key of
        Inl _ \<Rightarrow> None
      | Inr node \<Rightarrow>
          (case aj_Value A node of
             Inl _ \<Rightarrow> None
           | Inr val \<Rightarrow> (case val of AStr str \<Rightarrow> Some str | _ \<Rightarrow> None)))"

definition Ajson_GetInt :: "('n, 'f) ajson \<Rightarrow> 'n \<Rightarrow> int res" where
  "Ajson_GetInt A n =
     andThen (aj_GetNumeric A n) (\<lambda>num.
       let intNum = rt_int_of_float A num in
       if \<not> rt_float_is_zero A (rt_float_sub A num (rt_float_of_int A intNum)) then Inl FmtError
       else Inr intNum)"

definition Ajson_GetIntKey :: "('n, 'f) ajson \<Rightarrow> 'n \<Rightarrow> string \<Rightarrow> int option" where
  "Ajson_GetIntKey A n key =
     (case aj_GetKey A n key of
        Inl _ \<Rightarrow> None
      | Inr node \<Rightarrow>
          if Ajson_IsInt A node then
            (case Ajson_GetInt A node of Inl _ \<Rightarrow> None | Inr val \<Rightarrow> Some val)
          else None)"

definition Ajson_GetArray :: "('n, 'f) ajson \<Rightarrow> 'n \<Rightarrow> 'n list res" where
  "Ajson_GetArray A n = andThen (aj_GetArray A n) (\<lambda>nodes. Inr nodes)"

definition Ajson_UpdateArray :: "('n, 'f) ajson \<Rightarrow> 'n \<Rightarrow> 'n list \<Rightarrow> 'n res" where
  "Ajson_UpdateArray A n values =
     (let nodes = map (aj_Clone A) values in
      case aj_SetArray A n nodes of Inl e \<Rightarrow> Inl (WrapError e) | Inr n \<Rightarrow> Inr n)"

definition Ajson_UpdateObject :: "'n \<Rightarrow> 'n \<Rightarrow> 'n res" where
  "Ajson_UpdateObject n value = Inr value"

definition Ajson_GetMap :: "('n, 'f) ajson \<Rightarrow> 'n \<Rightarrow> (string \<times> 'n) list res" where
  "Ajson_GetMap A n = andThen (aj_GetObject A n) (\<lambda>properties. Inr properties)"

definition Ajson_GetNumeric :: "('n, 'f) ajson \<Rightarrow> 'n \<Rightarrow> 'f res" where
  "Ajson_GetNumeric A n = andThen (aj_GetNumeric A n) (\<lambda>num. Inr num)"

definition Ajson_GetString :: "('n, 'f) ajson \<Rightarrow> 'n \<Rightarrow> string res" where
  "Ajson_GetString A n = (if \<not> Ajson_IsString A n then Inl FmtError else aj_GetString A n)"

text \<open>An existing child is changed in place, by the type of the new value.\<close>

definition Ajson_SetKey :: "('n, 'f) ajson \<Rightarrow> 'n \<Rightarrow> string \<Rightarrow> 'n \<Rightarrow> 'n res" where
  "Ajson_SetKey A n key vnode =
     (case aj_GetKey A n key of
        Inl _ \<Rightarrow> aj_AppendObject A n key vnode
      | Inr childNode \<Rightarrow>
          andThen
            (case aj_Type A vnode of
               AjNumeric \<Rightarrow> andThen (MustGet (aj_GetNumeric A vnode)) (aj_SetNumeric A childNode)
             | AjString \<Rightarrow> andThen (MustGet (aj_GetString A vnode)) (aj_SetString A childNode)
             | AjBool \<Rightarrow> andThen (MustGet (aj_GetBool A vnode)) (aj_SetBool A childNode)
             | AjNull \<Rightarrow> aj_SetNull A childNode
             | AjObject \<Rightarrow> andThen (MustGet (aj_GetObject A vnode)) (aj_SetObject A childNode)
             | AjArray \<Rightarrow> andThen (MustGet (aj_GetArray A vnode)) (aj_SetArray A childNode))
            (\<lambda>childNode. Inr (aj_withChild A n key childNode)))"

definition Ajson_DeleteKey :: "('n, 'f) ajson \<Rightarrow> 'n \<Rightarrow> string \<Rightarrow> 'n res" where
  "Ajson_DeleteKey A n key =
     (if \<not> Ajson_IsObject A n then Inl FmtError
      else case aj_DeleteKey A n key of Inl e \<Rightarrow> Inl e | Inr n \<Rightarrow> Inr n)"

definition Ajson_HasKey :: "('n, 'f) ajson \<Rightarrow> 'n \<Rightarrow> string \<Rightarrow> bool" where
  "Ajson_HasKey A n key = aj_HasKey A n key"

definition Ajson_Size :: "('n, 'f) ajson \<Rightarrow> 'n \<Rightarrow> int" where
  "Ajson_Size A n = aj_Size A n"

definition Ajson_Equals :: "('n, 'f) ajson \<Rightarrow> 'n \<Rightarrow> 'n \<Rightarrow> bool" where
  "Ajson_Equals A n other =
     (if aj_Type A n \<noteq> aj_Type A other then False
      else case aj_Eq A n other of Inl _ \<Rightarrow> False | Inr eq \<Rightarrow> eq)"

definition Ajson_RawMessage :: "('n, 'f) ajson \<Rightarrow> 'n \<Rightarrow> string" where
  "Ajson_RawMessage A n =
     (case aj_Unpack A n of Inl _ \<Rightarrow> '''' | Inr val \<Rightarrow> rt_json_Marshal A val)"

section \<open>\<open>AJSONValueFactory\<close>\<close>

text \<open>A value of another type leaves the node pointer nil.\<close>

definition AjsonFactory_FromPrimitive :: "('n, 'f) ajson \<Rightarrow> 'f goAny \<Rightarrow> 'n" where
  "AjsonFactory_FromPrimitive A pt =
     (case pt of
        AStr v \<Rightarrow> aj_StringNode A v
      | AInt v \<Rightarrow> aj_NumericNode A (rt_float_of_int A v)
      | AFloat v \<Rightarrow> aj_NumericNode A v
      | ABool v \<Rightarrow> aj_BoolNode A v
      | _ \<Rightarrow> aj_nil A)"

definition AjsonFactory_FromAny :: "('n, 'f) ajson \<Rightarrow> 'f goAny \<Rightarrow> 'n" where
  "AjsonFactory_FromAny A a =
     (case aj_Unmarshal A (rt_json_Marshal A a) of Inl _ \<Rightarrow> aj_NullNode A | Inr node \<Rightarrow> node)"

definition AjsonFactory_FromArray :: "('n, 'f) ajson \<Rightarrow> 'n list \<Rightarrow> 'n" where
  "AjsonFactory_FromArray A values = aj_ArrayNode A (map (aj_Clone A) values)"

definition AjsonFactory_Unmarshal :: "('n, 'f) ajson \<Rightarrow> string \<Rightarrow> 'n res" where
  "AjsonFactory_Unmarshal A bytes = aj_Unmarshal A bytes"

definition AjsonAPI :: "('n, 'f) ajson \<Rightarrow> ('n, 'f) value_api" where
  "AjsonAPI A =
     \<lparr>Type = Ajson_Type A, IsBool = Ajson_IsBool A, IsNull = Ajson_IsNull A,
      IsNumeric = Ajson_IsNumeric A, IsInt = Ajson_IsInt A, IsString = Ajson_IsString A,
      IsArray = Ajson_IsArray A, IsObject = Ajson_IsObject A, PackAny = Ajson_PackAny,
      GetKey = Ajson_GetKey A, GetStringKey = Ajson_GetStringKey A, GetIntKey = Ajson_GetIntKey A,
      GetArray = Ajson_GetArray A, GetMap = Ajson_GetMap A, GetNumeric = Ajson_GetNumeric A,
      GetInt = Ajson_GetInt A, GetString = Ajson_GetString A, UpdateArray = Ajson_UpdateArray A,
      UpdateObject = Ajson_UpdateObject, SetKey = Ajson_SetKey A, DeleteKey = Ajson_DeleteKey A,
      HasKey = Ajson_HasKey A, Size = Ajson_Size A, Equals = Ajson_Equals A,
      RawMessage = Ajson_RawMessage A, UnmarshalValue = AjsonFactory_Unmarshal A,
      ValueFromString = (\<lambda>s. AjsonFactory_FromPrimitive A (AStr s)),
      ValueFromInt = (\<lambda>i. AjsonFactory_FromPrimitive A (AInt i)),
      ValueFromFloat = (\<lambda>x. AjsonFactory_FromPrimitive A (AFloat x)),
      ValueFromAny = AjsonFactory_FromAny A, ValueFromArray = AjsonFactory_FromArray A,
      json_Marshal = rt_json_Marshal A, nilValue = aj_nil A,
      float_add = rt_float_add A, float_sub = rt_float_sub A, float_neg = rt_float_neg A,
      float_is_zero = rt_float_is_zero A, float_of_int = rt_float_of_int A,
      sameZeroSize = rt_sameZeroSize A, sameInterface = rt_sameInterface A,
      sharedEdit = rt_sharedEdit A\<rparr>"

lemma AjsonAPI_simps [simp]:
  "Type (AjsonAPI A) = Ajson_Type A" "IsNull (AjsonAPI A) = Ajson_IsNull A"
  "IsNumeric (AjsonAPI A) = Ajson_IsNumeric A" "IsInt (AjsonAPI A) = Ajson_IsInt A"
  "IsString (AjsonAPI A) = Ajson_IsString A" "IsArray (AjsonAPI A) = Ajson_IsArray A"
  "IsObject (AjsonAPI A) = Ajson_IsObject A" "PackAny (AjsonAPI A) = Ajson_PackAny"
  "GetKey (AjsonAPI A) = Ajson_GetKey A" "GetArray (AjsonAPI A) = Ajson_GetArray A"
  "GetMap (AjsonAPI A) = Ajson_GetMap A" "GetInt (AjsonAPI A) = Ajson_GetInt A"
  "GetString (AjsonAPI A) = Ajson_GetString A" "UpdateArray (AjsonAPI A) = Ajson_UpdateArray A"
  "UpdateObject (AjsonAPI A) = Ajson_UpdateObject" "SetKey (AjsonAPI A) = Ajson_SetKey A"
  "DeleteKey (AjsonAPI A) = Ajson_DeleteKey A" "HasKey (AjsonAPI A) = Ajson_HasKey A"
  "Equals (AjsonAPI A) = Ajson_Equals A" "ValueFromAny (AjsonAPI A) = AjsonFactory_FromAny A"
  "ValueFromInt (AjsonAPI A) i = AjsonFactory_FromPrimitive A (AInt i)"
  by (simp_all add: AjsonAPI_def)


section \<open>What the code relies on of the library\<close>

locale ajson_contract =
  fixes A :: "('n, 'f) ajson" and doc :: "'n \<Rightarrow> 'm jdoc" and numI :: "int \<Rightarrow> 'm"
  assumes aj_array: "aj_Type A n = AjArray \<longleftrightarrow> (\<exists>xs. doc n = Arr xs)"
    and aj_object: "aj_Type A n = AjObject \<longleftrightarrow> (\<exists>m. doc n = Obj m)"
    and aj_null: "aj_Type A n = AjNull \<longleftrightarrow> doc n = Atom NullA"
    and aj_numeric: "aj_Type A n = AjNumeric \<longleftrightarrow> (\<exists>x. doc n = Atom (NumA x))"
    and aj_is_null: "aj_IsNull A n \<longleftrightarrow> aj_Type A n = AjNull"
    and aj_is_numeric: "aj_IsNumeric A n \<longleftrightarrow> aj_Type A n = AjNumeric"
    and aj_is_array: "aj_IsArray A n \<longleftrightarrow> aj_Type A n = AjArray"
    and aj_is_object: "aj_IsObject A n \<longleftrightarrow> aj_Type A n = AjObject"
    and aj_array_nodes: "doc n = Arr xs \<Longrightarrow> \<exists>ns. aj_GetArray A n = Inr ns \<and> map doc ns = xs"
    and aj_object_nodes: "doc n = Obj m \<Longrightarrow>
          \<exists>kvs. aj_GetObject A n = Inr kvs \<and> distinct (map fst kvs)
            \<and> (\<forall>k. map_option doc (map_of kvs k) = m k)"
    and aj_get_present: "doc n = Obj m \<Longrightarrow> m k = Some d \<Longrightarrow> \<exists>c. aj_GetKey A n k = Inr c \<and> doc c = d"
    and aj_get_absent: "doc n = Obj m \<Longrightarrow> m k = None \<Longrightarrow> \<exists>e. aj_GetKey A n k = Inl e"
    and aj_append: "doc n = Obj m \<Longrightarrow> m k = None \<Longrightarrow>
          \<exists>n'. aj_AppendObject A n k w = Inr n' \<and> doc n' = Obj (m(k \<mapsto> doc w)) \<and> aj_GetKey A n' k = Inr w"
    and aj_with_child: "doc n = Obj m \<Longrightarrow> m k \<noteq> None \<Longrightarrow>
          doc (aj_withChild A n k c) = Obj (m(k \<mapsto> doc c)) \<and> aj_GetKey A (aj_withChild A n k c) k = Inr c"
    and aj_set_null: "\<exists>c'. aj_SetNull A c = Inr c' \<and> doc c' = Atom NullA"
    and aj_set_numeric: "aj_Type A w = AjNumeric \<Longrightarrow>
          \<exists>x c'. aj_GetNumeric A w = Inr x \<and> aj_SetNumeric A c x = Inr c' \<and> doc c' = doc w"
    and aj_set_string: "aj_Type A w = AjString \<Longrightarrow>
          \<exists>s c'. aj_GetString A w = Inr s \<and> aj_SetString A c s = Inr c' \<and> doc c' = doc w"
    and aj_set_bool: "aj_Type A w = AjBool \<Longrightarrow>
          \<exists>b c'. aj_GetBool A w = Inr b \<and> aj_SetBool A c b = Inr c' \<and> doc c' = doc w"
    and aj_set_object: "aj_Type A w = AjObject \<Longrightarrow> aj_GetObject A w = Inr kvs \<Longrightarrow> aj_SetObject A c kvs = Inr w"
    and aj_set_array: "aj_GetArray A w = Inr ns \<Longrightarrow> aj_Type A w = AjArray \<Longrightarrow> aj_SetArray A c ns = Inr w"
    and aj_update_array: "\<exists>n'. aj_SetArray A n ns = Inr n' \<and> doc n' = Arr (map doc ns) \<and> aj_GetArray A n' = Inr ns"
    and aj_clone: "aj_Clone A n = n"
    and aj_delete: "doc n = Obj m \<Longrightarrow> m k \<noteq> None \<Longrightarrow>
          \<exists>n'. aj_DeleteKey A n k = Inr n' \<and> doc n' = Obj (m(k := None))"
    and aj_has: "doc n = Obj m \<Longrightarrow> aj_HasKey A n k \<longleftrightarrow> m k \<noteq> None"
    and aj_eq_sound: "aj_Eq A n n' = Inr True \<Longrightarrow> doc n = doc n'"
    and aj_eq_refl: "aj_Eq A n n = Inr True"
    and aj_marshal_array: "\<exists>n. aj_Unmarshal A (rt_json_Marshal A (AList [])) = Inr n \<and> doc n = Arr []"
    and aj_marshal_object: "\<exists>n. aj_Unmarshal A (rt_json_Marshal A (AMap [])) = Inr n \<and> doc n = Obj (\<lambda>_. None)"
    and aj_marshal_nil: "\<exists>n. aj_Unmarshal A (rt_json_Marshal A ANil) = Inr n \<and> doc n = Atom NullA"
    and aj_int_value: "doc n = Atom (NumA (numI i)) \<Longrightarrow> float_exact i \<Longrightarrow>
          aj_Value A n = Inr (AFloat (rt_float_of_int A i)) \<and> aj_GetNumeric A n = Inr (rt_float_of_int A i)"
    and aj_numeric_node: "float_exact i \<Longrightarrow> doc (aj_NumericNode A (rt_float_of_int A i)) = Atom (NumA (numI i))"
    and rt_int_float: "float_exact i \<Longrightarrow> rt_int_of_float A (rt_float_of_int A i) = i"
    and rt_float_refl: "float_exact i \<Longrightarrow> rt_float_eq A (rt_float_of_int A i) (rt_float_of_int A i)
          \<and> rt_float_is_zero A (rt_float_sub A (rt_float_of_int A i) (rt_float_of_int A i))"
begin

lemma Ajson_SetKey_doc:
  assumes n: "doc n = Obj m"
  shows "\<exists>n'. Ajson_SetKey A n k w = Inr n' \<and> doc n' = Obj (m(k \<mapsto> doc w))
      \<and> (doc w = Arr xs \<or> doc w = Obj m' \<longrightarrow> Ajson_GetKey A n' k = Some w)"
proof (cases "m k")
  case None
  then show ?thesis
    using aj_get_absent [OF n None] aj_append [OF n None, of w]
    by (auto simp: Ajson_SetKey_def Ajson_GetKey_def)
next
  case (Some d)
  obtain c where c: "aj_GetKey A n k = Inr c" using aj_get_present [OF n Some] by blast
  have set: "\<exists>c'. (case aj_Type A w of
               AjNumeric \<Rightarrow> andThen (MustGet (aj_GetNumeric A w)) (aj_SetNumeric A c)
             | AjString \<Rightarrow> andThen (MustGet (aj_GetString A w)) (aj_SetString A c)
             | AjBool \<Rightarrow> andThen (MustGet (aj_GetBool A w)) (aj_SetBool A c)
             | AjNull \<Rightarrow> aj_SetNull A c
             | AjObject \<Rightarrow> andThen (MustGet (aj_GetObject A w)) (aj_SetObject A c)
             | AjArray \<Rightarrow> andThen (MustGet (aj_GetArray A w)) (aj_SetArray A c)) = Inr c'
      \<and> doc c' = doc w \<and> (aj_Type A w = AjArray \<or> aj_Type A w = AjObject \<longrightarrow> c' = w)"
  proof (cases "aj_Type A w")
    case AjNull
    then show ?thesis using aj_set_null [of c] aj_null [of w] by auto
  next
    case AjNumeric
    then show ?thesis using aj_set_numeric [OF AjNumeric, of c] by auto
  next
    case AjString
    then show ?thesis using aj_set_string [OF AjString, of c] by auto
  next
    case AjBool
    then show ?thesis using aj_set_bool [OF AjBool, of c] by auto
  next
    case AjArray
    then obtain ns where "aj_GetArray A w = Inr ns" using aj_array [of w] aj_array_nodes by blast
    then show ?thesis using AjArray aj_set_array [of w ns c] by auto
  next
    case AjObject
    then obtain kvs where "aj_GetObject A w = Inr kvs" using aj_object [of w] aj_object_nodes by blast
    then show ?thesis using AjObject aj_set_object [of w kvs c] by auto
  qed
  then obtain c' where c': "Ajson_SetKey A n k w = Inr (aj_withChild A n k c')" "doc c' = doc w"
      "aj_Type A w = AjArray \<or> aj_Type A w = AjObject \<longrightarrow> c' = w"
    using c by (auto simp: Ajson_SetKey_def)
  then show ?thesis
    using aj_with_child [OF n, of k c'] Some aj_array [of w] aj_object [of w]
    by (auto simp: Ajson_GetKey_def)
qed

lemma Ajson_GetKey_doc: "doc n = Obj m \<Longrightarrow> map_option doc (Ajson_GetKey A n k) = m k"
  using aj_get_present [of n m k] aj_get_absent [of n m k]
  by (cases "m k") (auto simp: Ajson_GetKey_def)

lemma ajson_api_contract: "value_contract (AjsonAPI A) doc"
proof
  fix v w :: 'n and k and vs :: "'n list" and xs m
  show "(Type (AjsonAPI A) v = Array) = (\<exists>xs. doc v = Arr xs)"
    using aj_array [of v] by (auto simp: Ajson_Type_def split: aj_type.splits)
  show "(Type (AjsonAPI A) v = Object) = (\<exists>m. doc v = Obj m)"
    using aj_object [of v] by (auto simp: Ajson_Type_def split: aj_type.splits)
  show "IsNull (AjsonAPI A) v = (doc v = Atom NullA)" by (simp add: Ajson_IsNull_def aj_is_null aj_null)
  show "IsArray (AjsonAPI A) v = (\<exists>xs. doc v = Arr xs)" by (simp add: Ajson_IsArray_def aj_is_array aj_array)
  show "IsObject (AjsonAPI A) v = (\<exists>m. doc v = Obj m)" by (simp add: Ajson_IsObject_def aj_is_object aj_object)
  show "doc v = Arr xs \<Longrightarrow> \<exists>vs. GetArray (AjsonAPI A) v = Inr vs \<and> map doc vs = xs"
    by (simp add: Ajson_GetArray_def aj_array_nodes)
  show "\<exists>v'. UpdateArray (AjsonAPI A) v vs = Inr v' \<and> doc v' = Arr (map doc vs)
      \<and> GetArray (AjsonAPI A) v' = Inr vs"
    using aj_update_array [of v vs]
    by (auto simp: Ajson_UpdateArray_def Ajson_GetArray_def map_idI [of vs "aj_Clone A", OF aj_clone])
  show "doc v = Obj m \<Longrightarrow> SetKey (AjsonAPI A) v k w = Inr v' \<Longrightarrow>
      doc w = Arr xs \<or> doc w = Obj m' \<Longrightarrow> GetKey (AjsonAPI A) v' k = Some w" for v' m'
    using Ajson_SetKey_doc [of v m k w xs m'] by auto
  show "doc v = Obj m \<Longrightarrow> map_option doc (GetKey (AjsonAPI A) v k) = m k"
    by (simp add: Ajson_GetKey_doc)
  show "doc v = Obj m \<Longrightarrow> \<exists>v'. SetKey (AjsonAPI A) v k w = Inr v' \<and> doc v' = Obj (m(k \<mapsto> doc w))"
    using Ajson_SetKey_doc [of v m k w] by auto
  show "doc v = Obj m \<Longrightarrow> m k \<noteq> None \<Longrightarrow>
      \<exists>v'. DeleteKey (AjsonAPI A) v k = Inr v' \<and> doc v' = Obj (m(k := None))"
    using aj_delete [of v m k] aj_object [of v]
    by (auto simp: Ajson_DeleteKey_def Ajson_IsObject_def aj_is_object)
  show "doc v = Obj m \<Longrightarrow> HasKey (AjsonAPI A) v k \<Longrightarrow> m k \<noteq> None"
    by (simp add: Ajson_HasKey_def aj_has)
  show "doc v = Obj m \<Longrightarrow> m k = Some d \<Longrightarrow> d \<noteq> Atom NullA \<Longrightarrow> HasKey (AjsonAPI A) v k" for d
    by (simp add: Ajson_HasKey_def aj_has)
  show "doc v = Obj m \<Longrightarrow> \<exists>kvs. GetMap (AjsonAPI A) v = Inr kvs \<and> distinct (map fst kvs)
          \<and> (\<forall>k. map_option doc (map_of kvs k) = m k)"
    using aj_object_nodes [of v m] by (simp add: Ajson_GetMap_def)
  show "Equals (AjsonAPI A) v w \<Longrightarrow> doc v = doc w"
    using aj_eq_sound [of v w] by (auto simp: Ajson_Equals_def split: if_splits sum.splits)
  show "Equals (AjsonAPI A) v v" by (simp add: Ajson_Equals_def aj_eq_refl)
  show "doc (ValueFromAny (AjsonAPI A) (AList [])) = Arr []"
    using aj_marshal_array by (auto simp: AjsonFactory_FromAny_def)
  show "doc (ValueFromAny (AjsonAPI A) (AMap [])) = Obj (\<lambda>_. None)"
    using aj_marshal_object by (auto simp: AjsonFactory_FromAny_def)
  show "doc (ValueFromAny (AjsonAPI A) ANil) = Atom NullA"
    using aj_marshal_nil by (auto simp: AjsonFactory_FromAny_def)
qed (simp_all add: Ajson_PackAny_def Ajson_UpdateObject_def)

lemma ajson_api_floats: "value_floats (AjsonAPI A) doc numI"
  unfolding value_floats_def value_floats_axioms_def AjsonAPI_simps
  using ajson_api_contract aj_numeric_node aj_numeric
  by (auto simp: AjsonFactory_FromPrimitive_def Ajson_IsInt_def Ajson_GetInt_def Ajson_IsNumeric_def
      Ajson_PackAny_def aj_is_numeric aj_int_value rt_int_float rt_float_refl)

end

sublocale ajson_contract \<subseteq> value_floats "AjsonAPI A" doc numI
  by (rule ajson_api_floats)

end
