(* ===== verification/AjsonReference.thy ===== *)
theory AjsonReference
  imports AjsonNode SonicEnv "HOL-Library.Finite_Map" "HOL-Library.Char_ord"
    "HOL-Library.List_Lexorder"
begin

text \<open>
  A reference implementation of the ajson functions: JSON trees whose objects are finite maps, as
  the Go maps of the library are.  It instantiates the contract, and the environment of the
  package after \<open>UseAJSON\<close> is the ajson \<open>Value\<close> functions over it.
\<close>

section \<open>Trees\<close>

datatype anode = NNull | NBool bool | NNum int | NStr string | NArr "anode list"
  | NObj "(string, anode) fmap"

primrec adoc_of :: "anode \<Rightarrow> int jdoc" where
  "adoc_of NNull = Atom NullA"
| "adoc_of (NBool b) = Atom (BoolA b)"
| "adoc_of (NNum i) = Atom (NumA i)"
| "adoc_of (NStr s) = Atom (StrA s)"
| "adoc_of (NArr xs) = Arr (map adoc_of xs)"
| "adoc_of (NObj m) = Obj (fmlookup (fmmap adoc_of m))"

fun anode_type :: "anode \<Rightarrow> aj_type" where
  "anode_type NNull = AjNull"
| "anode_type (NBool _) = AjBool"
| "anode_type (NNum _) = AjNumeric"
| "anode_type (NStr _) = AjString"
| "anode_type (NArr _) = AjArray"
| "anode_type (NObj _) = AjObject"

definition anode_fail :: "'a res" where
  "anode_fail = Inl (LibError ''wrong type'')"

text \<open>Members in the order of their names.\<close>

definition members_of :: "(string, 'a) fmap \<Rightarrow> (string \<times> 'a) list" where
  "members_of m = map (\<lambda>k. (k, the (fmlookup m k))) (sorted_list_of_fset (fmdom m))"

lemma map_of_members: "map_of (members_of m) k = fmlookup m k"
proof -
  have "map_of (map (\<lambda>k. (k, the (fmlookup m k))) ks) k = (if k \<in> set ks then Some (the (fmlookup m k)) else None)" for ks
    by (induction ks) auto
  then show ?thesis by (simp add: members_of_def fmlookup_dom_iff)
qed

lemma distinct_members: "distinct (map fst (members_of m))"
  by (simp add: members_of_def comp_def sorted_list_of_fset.rep_eq)

lemma fmap_of_members: "fmap_of_list (members_of m) = m"
  by (rule fmap_ext) (simp add: fmlookup_of_list map_of_members)

text \<open>Of two members with the same name in a text, the last one counts.\<close>

fun anode_of :: "jnode \<Rightarrow> anode" where
  "anode_of (JBool b) = NBool b"
| "anode_of (JNum i) = NNum i"
| "anode_of (JAny i) = NNum i"
| "anode_of (JStr s) = NStr s"
| "anode_of (JArr xs) = NArr (map anode_of xs)"
| "anode_of (JObj kvs) = NObj (fmap_of_list (rev (map (\<lambda>(k, v). (k, anode_of v)) kvs)))"
| "anode_of _ = NNull"


fun anode_get :: "anode \<Rightarrow> string \<Rightarrow> anode res" where
  "anode_get (NObj m) k = (case fmlookup m k of Some v \<Rightarrow> Inr v | None \<Rightarrow> anode_fail)"
| "anode_get _ k = anode_fail"

fun anode_index :: "anode \<Rightarrow> int \<Rightarrow> anode res" where
  "anode_index (NArr xs) i = (if 0 \<le> i \<and> i < int (length xs) then Inr (xs ! nat i) else anode_fail)"
| "anode_index _ i = anode_fail"

fun anode_array :: "anode \<Rightarrow> anode list res" where
  "anode_array (NArr xs) = Inr xs" | "anode_array _ = anode_fail"

fun anode_object :: "anode \<Rightarrow> (string \<times> anode) list res" where
  "anode_object (NObj m) = Inr (members_of m)" | "anode_object _ = anode_fail"

fun anode_number :: "anode \<Rightarrow> int res" where
  "anode_number (NNum i) = Inr i" | "anode_number _ = anode_fail"

fun anode_string :: "anode \<Rightarrow> string res" where
  "anode_string (NStr s) = Inr s" | "anode_string _ = anode_fail"

fun anode_bool :: "anode \<Rightarrow> bool res" where
  "anode_bool (NBool b) = Inr b" | "anode_bool _ = anode_fail"

fun anode_append :: "anode \<Rightarrow> string \<Rightarrow> anode \<Rightarrow> anode res" where
  "anode_append (NObj m) k v = Inr (NObj (fmupd k v m))" | "anode_append _ k v = anode_fail"

fun anode_with :: "anode \<Rightarrow> string \<Rightarrow> anode \<Rightarrow> anode" where
  "anode_with (NObj m) k v = NObj (fmupd k v m)" | "anode_with n k v = n"

fun anode_delete :: "anode \<Rightarrow> string \<Rightarrow> anode res" where
  "anode_delete (NObj m) k = (case fmlookup m k of Some _ \<Rightarrow> Inr (NObj (fmdrop k m)) | None \<Rightarrow> anode_fail)"
| "anode_delete _ k = anode_fail"

fun anode_size :: "anode \<Rightarrow> int" where
  "anode_size (NArr xs) = int (length xs)"
| "anode_size (NObj m) = int (length (members_of m))"
| "anode_size _ = 0"

text \<open>\<open>Unpack\<close>: the plain Go value of a tree; \<open>Value\<close> has it for the scalars.\<close>

primrec anode_unpack :: "anode \<Rightarrow> int goAny" where
  "anode_unpack NNull = ANil"
| "anode_unpack (NBool b) = ABool b"
| "anode_unpack (NNum i) = AFloat i"
| "anode_unpack (NStr s) = AStr s"
| "anode_unpack (NArr xs) = AList (map anode_unpack xs)"
| "anode_unpack (NObj m) = AMap (members_of (fmmap anode_unpack m))"

definition anode_parse :: "string \<Rightarrow> anode res" where
  "anode_parse s = (case parse_text s of Some n \<Rightarrow> Inr (anode_of n) | None \<Rightarrow> anode_fail)"

definition ref_ajson :: "(anode, int) ajson" where
  "ref_ajson =
     \<lparr>aj_Type = anode_type, aj_IsBool = (\<lambda>n. anode_type n = AjBool),
      aj_IsNull = (\<lambda>n. anode_type n = AjNull), aj_IsNumeric = (\<lambda>n. anode_type n = AjNumeric),
      aj_IsString = (\<lambda>n. anode_type n = AjString), aj_IsArray = (\<lambda>n. anode_type n = AjArray),
      aj_IsObject = (\<lambda>n. anode_type n = AjObject), aj_Value = (\<lambda>n. Inr (anode_unpack n)),
      aj_Unpack = (\<lambda>n. Inr (anode_unpack n)), aj_Unmarshal = anode_parse, aj_GetKey = anode_get,
      aj_GetIndex = anode_index, aj_GetArray = anode_array, aj_GetObject = anode_object,
      aj_GetNumeric = anode_number, aj_GetString = anode_string, aj_GetBool = anode_bool,
      aj_SetArray = (\<lambda>_ ns. Inr (NArr ns)), aj_SetObject = (\<lambda>_ kvs. Inr (NObj (fmap_of_list kvs))),
      aj_SetNumeric = (\<lambda>_ x. Inr (NNum x)), aj_SetString = (\<lambda>_ s. Inr (NStr s)),
      aj_SetBool = (\<lambda>_ b. Inr (NBool b)), aj_SetNull = (\<lambda>_. Inr NNull),
      aj_AppendObject = anode_append, aj_withChild = anode_with, aj_DeleteKey = anode_delete,
      aj_HasKey = (\<lambda>n k. isOk (anode_get n k)), aj_Size = anode_size,
      aj_Eq = (\<lambda>n n'. Inr (n = n')), aj_Clone = (\<lambda>n. n), aj_StringNode = NStr,
      aj_NumericNode = NNum, aj_BoolNode = NBool, aj_NullNode = NNull, aj_ArrayNode = NArr,
      aj_nil = NNull, rt_json_Marshal = (\<lambda>a. print_json (node_of a)), rt_float_add = (+),
      rt_float_sub = (-), rt_float_neg = uminus, rt_float_is_zero = (\<lambda>x. x = 0), rt_float_eq = (=),
      rt_float_of_int = (\<lambda>i. i), rt_int_of_float = (\<lambda>i. i), rt_sameZeroSize = False,
      rt_sameInterface = (\<lambda>_ _. False), rt_sharedEdit = (\<lambda>_ _ _ _ _ v. v)\<rparr>"

lemma ref_ajson_simps [simp]:
  "aj_Type ref_ajson = anode_type" "aj_IsNull ref_ajson n = (anode_type n = AjNull)"
  "aj_IsNumeric ref_ajson n = (anode_type n = AjNumeric)" "aj_IsArray ref_ajson n = (anode_type n = AjArray)"
  "aj_IsObject ref_ajson n = (anode_type n = AjObject)" "aj_IsString ref_ajson n = (anode_type n = AjString)"
  "aj_Value ref_ajson n = Inr (anode_unpack n)" "aj_Unmarshal ref_ajson = anode_parse"
  "aj_GetKey ref_ajson = anode_get" "aj_GetIndex ref_ajson = anode_index"
  "aj_GetArray ref_ajson = anode_array" "aj_GetObject ref_ajson = anode_object"
  "aj_GetNumeric ref_ajson = anode_number" "aj_GetString ref_ajson = anode_string"
  "aj_GetBool ref_ajson = anode_bool" "aj_SetArray ref_ajson n ns = Inr (NArr ns)"
  "aj_SetObject ref_ajson n kvs = Inr (NObj (fmap_of_list kvs))" "aj_SetNumeric ref_ajson n x = Inr (NNum x)"
  "aj_SetString ref_ajson n s = Inr (NStr s)" "aj_SetBool ref_ajson n b = Inr (NBool b)"
  "aj_SetNull ref_ajson n = Inr NNull" "aj_AppendObject ref_ajson = anode_append"
  "aj_withChild ref_ajson = anode_with" "aj_DeleteKey ref_ajson = anode_delete"
  "aj_HasKey ref_ajson n k = isOk (anode_get n k)" "aj_Eq ref_ajson n n' = Inr (n = n')"
  "aj_Clone ref_ajson n = n" "aj_NumericNode ref_ajson = NNum" "aj_NullNode ref_ajson = NNull"
  "aj_nil ref_ajson = NNull" "rt_json_Marshal ref_ajson a = print_json (node_of a)"
  "rt_float_sub ref_ajson = (-)" "rt_float_is_zero ref_ajson x = (x = 0)" "rt_float_eq ref_ajson = (=)"
  "rt_float_of_int ref_ajson i = i" "rt_int_of_float ref_ajson i = i"
  by (simp_all add: ref_ajson_def)

section \<open>The reference trees meet the contract\<close>

lemma adoc_NObj: "adoc_of (NObj m) = Obj (\<lambda>k. map_option adoc_of (fmlookup m k))"
  by (simp add: fun_eq_iff)

lemma anode_parse_print: "anode_parse (print_json n) = Inr (anode_of (norm n))"
  by (simp add: anode_parse_def parse_print)

interpretation ref_aj: ajson_contract ref_ajson adoc_of "\<lambda>i. i"
proof
  fix n w c :: anode and ns and k :: string and m :: "string \<Rightarrow> int jdoc option" and i :: int
  show "(aj_Type ref_ajson n = AjArray) = (\<exists>xs. adoc_of n = Arr xs)" by (cases n) simp_all
  show "(aj_Type ref_ajson n = AjObject) = (\<exists>m. adoc_of n = Obj m)" by (cases n) simp_all
  show "(aj_Type ref_ajson n = AjNull) = (adoc_of n = Atom NullA)" by (cases n) simp_all
  show "(aj_Type ref_ajson n = AjNumeric) = (\<exists>x. adoc_of n = Atom (NumA x))" by (cases n) simp_all
  show "adoc_of n = Arr xs \<Longrightarrow> \<exists>ns. aj_GetArray ref_ajson n = Inr ns \<and> map adoc_of ns = xs" for xs
    by (cases n) simp_all
  show "adoc_of n = Obj m \<Longrightarrow> \<exists>kvs. aj_GetObject ref_ajson n = Inr kvs \<and> distinct (map fst kvs)
            \<and> (\<forall>k. map_option adoc_of (map_of kvs k) = m k)"
    by (cases n) (auto simp: adoc_NObj map_of_members distinct_members simp del: adoc_of.simps(6))
  show "adoc_of n = Obj m \<Longrightarrow> m k = Some d \<Longrightarrow> \<exists>c. aj_GetKey ref_ajson n k = Inr c \<and> adoc_of c = d" for d
    by (cases n) (auto simp: adoc_NObj simp del: adoc_of.simps(6))
  show "adoc_of n = Obj m \<Longrightarrow> m k = None \<Longrightarrow> \<exists>e. aj_GetKey ref_ajson n k = Inl e"
    by (cases n) (auto simp: adoc_NObj anode_fail_def simp del: adoc_of.simps(6))
  show "adoc_of n = Obj m \<Longrightarrow> m k = None \<Longrightarrow> \<exists>n'. aj_AppendObject ref_ajson n k w = Inr n'
      \<and> adoc_of n' = Obj (m(k \<mapsto> adoc_of w)) \<and> aj_GetKey ref_ajson n' k = Inr w"
    by (cases n) (auto simp: adoc_NObj fun_eq_iff simp del: adoc_of.simps(6))
  show "adoc_of n = Obj m \<Longrightarrow> m k \<noteq> None \<Longrightarrow> adoc_of (aj_withChild ref_ajson n k c) = Obj (m(k \<mapsto> adoc_of c))
      \<and> aj_GetKey ref_ajson (aj_withChild ref_ajson n k c) k = Inr c"
    by (cases n) (auto simp: adoc_NObj fun_eq_iff simp del: adoc_of.simps(6))
  show "aj_Type ref_ajson w = AjNumeric \<Longrightarrow>
      \<exists>x c'. aj_GetNumeric ref_ajson w = Inr x \<and> aj_SetNumeric ref_ajson c x = Inr c' \<and> adoc_of c' = adoc_of w"
    by (cases w) simp_all
  show "aj_Type ref_ajson w = AjString \<Longrightarrow>
      \<exists>s c'. aj_GetString ref_ajson w = Inr s \<and> aj_SetString ref_ajson c s = Inr c' \<and> adoc_of c' = adoc_of w"
    by (cases w) simp_all
  show "aj_Type ref_ajson w = AjBool \<Longrightarrow>
      \<exists>b c'. aj_GetBool ref_ajson w = Inr b \<and> aj_SetBool ref_ajson c b = Inr c' \<and> adoc_of c' = adoc_of w"
    by (cases w) simp_all
  show "aj_Type ref_ajson w = AjObject \<Longrightarrow> aj_GetObject ref_ajson w = Inr kvs \<Longrightarrow>
      aj_SetObject ref_ajson c kvs = Inr w" for kvs
    by (cases w) (auto simp: fmap_of_members)
  show "aj_GetArray ref_ajson w = Inr ns \<Longrightarrow> aj_Type ref_ajson w = AjArray \<Longrightarrow>
      aj_SetArray ref_ajson c ns = Inr w" for ns
    by (cases w) simp_all
  show "adoc_of n = Obj m \<Longrightarrow> m k \<noteq> None \<Longrightarrow>
      \<exists>n'. aj_DeleteKey ref_ajson n k = Inr n' \<and> adoc_of n' = Obj (m(k := None))"
  proof (cases n)
    case (NObj x)
    assume "adoc_of n = Obj m" "m k \<noteq> None"
    then have m: "m = (\<lambda>k. map_option adoc_of (fmlookup x k))" and "fmlookup x k \<noteq> None"
      using NObj by (auto simp: adoc_NObj simp del: adoc_of.simps(6))
    then obtain v where "fmlookup x k = Some v" by blast
    moreover have "adoc_of (NObj (fmdrop k x)) = Obj (m(k := None))"
      by (auto simp: adoc_NObj m fun_eq_iff simp del: adoc_of.simps(6))
    ultimately show ?thesis using NObj by (simp del: adoc_of.simps(6))
  qed simp_all
  show "adoc_of n = Obj m \<Longrightarrow> aj_HasKey ref_ajson n k = (m k \<noteq> None)"
    by (cases n) (auto simp: adoc_NObj anode_fail_def simp del: adoc_of.simps(6) split: option.split)
  show "\<exists>n. aj_Unmarshal ref_ajson (rt_json_Marshal ref_ajson (AList [])) = Inr n \<and> adoc_of n = Arr []"
    by (simp add: anode_parse_print del: print_json.simps)
  show "\<exists>n. aj_Unmarshal ref_ajson (rt_json_Marshal ref_ajson (AMap [])) = Inr n \<and> adoc_of n = Obj (\<lambda>_. None)"
    by (simp add: anode_parse_print adoc_NObj del: print_json.simps adoc_of.simps)
  show "\<exists>n. aj_Unmarshal ref_ajson (rt_json_Marshal ref_ajson ANil) = Inr n \<and> adoc_of n = Atom NullA"
    by (simp add: anode_parse_print del: print_json.simps)
  show "adoc_of n = Atom (NumA i) \<Longrightarrow> float_exact i \<Longrightarrow>
      aj_Value ref_ajson n = Inr (AFloat (rt_float_of_int ref_ajson i))
      \<and> aj_GetNumeric ref_ajson n = Inr (rt_float_of_int ref_ajson i)"
    by (cases n) simp_all
qed simp_all

section \<open>The environment of the package after \<open>UseAJSON\<close>\<close>

definition AjsonEnv :: "('n, 'f) ajson \<Rightarrow> (nat \<Rightarrow> 'n subtype_impl) \<Rightarrow> ('n, 'f) env" where
  "AjsonEnv A us = value_api.extend (AjsonAPI A) (env.fields us)"

lemma AjsonEnv_simps [simp]:
  "Type (AjsonEnv A us) = Type (AjsonAPI A)" "IsNull (AjsonEnv A us) = IsNull (AjsonAPI A)"
  "IsNumeric (AjsonEnv A us) = IsNumeric (AjsonAPI A)" "IsInt (AjsonEnv A us) = IsInt (AjsonAPI A)"
  "IsArray (AjsonEnv A us) = IsArray (AjsonAPI A)" "IsObject (AjsonEnv A us) = IsObject (AjsonAPI A)"
  "PackAny (AjsonEnv A us) = PackAny (AjsonAPI A)" "GetKey (AjsonEnv A us) = GetKey (AjsonAPI A)"
  "GetArray (AjsonEnv A us) = GetArray (AjsonAPI A)" "GetMap (AjsonEnv A us) = GetMap (AjsonAPI A)"
  "GetInt (AjsonEnv A us) = GetInt (AjsonAPI A)" "UpdateArray (AjsonEnv A us) = UpdateArray (AjsonAPI A)"
  "UpdateObject (AjsonEnv A us) = UpdateObject (AjsonAPI A)" "SetKey (AjsonEnv A us) = SetKey (AjsonAPI A)"
  "DeleteKey (AjsonEnv A us) = DeleteKey (AjsonAPI A)" "HasKey (AjsonEnv A us) = HasKey (AjsonAPI A)"
  "Equals (AjsonEnv A us) = Equals (AjsonAPI A)" "ValueFromInt (AjsonEnv A us) = ValueFromInt (AjsonAPI A)"
  "ValueFromAny (AjsonEnv A us) = ValueFromAny (AjsonAPI A)"
  unfolding AjsonEnv_def value_api.extend_def env.fields_def by simp_all

context ajson_contract
begin

lemma ajson_env_contract: "ot_contract (AjsonEnv A us) doc"
  using ajson_api_contract unfolding ot_contract_def value_contract_def AjsonEnv_simps .

lemma ajson_env_floats: "value_floats (AjsonEnv A us) doc numI"
  using ajson_api_floats ajson_env_contract
  unfolding ot_contract_def value_floats_def value_floats_axioms_def AjsonEnv_simps by blast

end

definition ref_aj_env :: "(anode, int) env" where
  "ref_aj_env = AjsonEnv ref_ajson (\<lambda>_. no_subtype)"

interpretation ref_aj_env: ot_contract ref_aj_env adoc_of
  unfolding ref_aj_env_def by (rule ref_aj.ajson_env_contract)

end
