(* ===== verification/AjsonProperties.thy ===== *)
theory AjsonProperties
  imports AjsonReference OTProperties
begin

text \<open>
  The two value implementations: \<open>AJSONValue\<close> meets the contract every theorem about applying,
  transforming and comparing documents rests on, and where it and \<open>SonicValue\<close> differ.
\<close>

text \<open>C19: With the ajson values (\<open>UseAJSON\<close>), too, the \<open>Value\<close> methods behave like the documents they
  stand for: setting, deleting and reading members and elements, whatever the type of the child
  that is overwritten in place, and integers a \<open>float64\<close> holds.  So every theorem that assumes
  \<open>ot_contract\<close> or \<open>value_floats\<close> holds for this implementation as it does for sonic.\<close>

theorem ajson_values_meet_contract:
  assumes "ajson_contract A doc numI"
  shows "ot_contract (AjsonEnv A us) doc \<and> value_floats (AjsonEnv A us) doc numI"
  using ajson_contract.ajson_env_contract [OF assms] ajson_contract.ajson_env_floats [OF assms] by blast

lemma ajson_values_meet_contract_witness:
  "ot_contract (AjsonEnv ref_ajson (\<lambda>_. no_subtype)) adoc_of
   \<and> value_floats (AjsonEnv ref_ajson (\<lambda>_. no_subtype)) adoc_of (\<lambda>i. i)"
  by (rule ajson_values_meet_contract [OF ref_aj.ajson_contract_axioms])

text \<open>\<open>GetByPath\<close> of \<open>AJSONValue\<close> does not descend: each name is looked up in the receiver itself, so the
  result is the member of the root with the last name of the path, provided the root has all the
  names.  The empty path gives the nil node.\<close>

theorem ajson_path_never_descends:
  "Ajson_GetByPath A n (map KeyArg ks) =
     (if list_all (\<lambda>k. Ajson_GetKey A n k \<noteq> None) ks
      then (if ks = [] then Some (aj_nil A) else Ajson_GetKey A n (last ks)) else None)"
proof -
  have "GetByPath_loop A n node (map KeyArg ks) =
      (if list_all (\<lambda>k. Ajson_GetKey A n k \<noteq> None) ks
       then (if ks = [] then Some node else Ajson_GetKey A n (last ks)) else None)" for node
    by (induction ks arbitrary: node) (auto simp: Ajson_GetKey_def split: sum.splits)
  then show ?thesis by (simp add: Ajson_GetByPath_def)
qed

lemma ajson_path_example:
  "Ajson_GetByPath ref_ajson
     (NObj (fmap_of_list [(''a'', NObj (fmap_of_list [(''b'', NNum 1)])), (''b'', NNum 2)]))
     [KeyArg ''a'', KeyArg ''b''] = Some (NNum 2)"
  by code_simp

text \<open>The two implementations read the same texts differently: a member that is null is present for
  ajson and absent for sonic, so the insertion of a null member is read by the one and becomes a
  no-op for the other; and two objects with the same members in another order are equal for ajson only.\<close>

theorem implementations_differ:
  "OperationComponentFromValue ref_aj_env NewSubTypeFunctionsHolder 0
      (NObj (fmap_of_list [(''p'', NArr [NStr ''a'']), (''oi'', NNull)]))
     = Inr (\<lparr>Operator = ObjectInsert NNull, Path = [PathElementFromKey ''a'']\<rparr>, 0)
   \<and> OperationComponentFromValue ref_env NewSubTypeFunctionsHolder 0
      (JObj [(''p'', JArr [JStr ''a'']), (''oi'', JNull)]) = Inr (\<lparr>Operator = Noop, Path = [PathElementFromKey ''a'']\<rparr>, 0)
   \<and> Equals ref_aj_env (NObj (fmap_of_list [(''a'', NNum 1), (''b'', NNum 2)]))
        (NObj (fmap_of_list [(''b'', NNum 2), (''a'', NNum 1)]))
   \<and> \<not> Equals ref_env (JObj [(''a'', JNum 1), (''b'', JNum 2)]) (JObj [(''b'', JNum 2), (''a'', JNum 1)])"
  by code_simp

end
