(* ===== verification/RedisStore.thy ===== *)
theory RedisStore
  imports Storage Publishing Decimal
begin

text \<open>
  \<open>sharedb/redis.go\<close>: the backend on a redis server.  Redis is a service, so its commands are a
  parameter: a record \<open>redis\<close> of one function per command the code or one of its scripts calls, on
  the state \<open>'r\<close> of the server.  A script runs as a whole; an error of a command ends it without
  undoing the commands before.  The locale \<open>redis_contract\<close> states the documented effect of the
  commands on the keyspace.  Encoding and decoding of records by \<open>encoding/json\<close> are parameters,
  too; what \<open>MarshalJSON\<close> hands to the encoder is modelled.
\<close>

section \<open>Commands\<close>

text \<open>Times are in nanoseconds.\<close>

record 'r redis =
  rd_HSETNX :: "'r \<Rightarrow> string \<Rightarrow> string \<Rightarrow> string \<Rightarrow> bool res \<times> 'r"
  rd_HSET :: "'r \<Rightarrow> string \<Rightarrow> (string \<times> string) list \<Rightarrow> unit res \<times> 'r"
  rd_HGETALL :: "'r \<Rightarrow> string \<Rightarrow> (string \<times> string) list res"
  rd_EXISTS :: "'r \<Rightarrow> string \<Rightarrow> int res"
  rd_DEL :: "'r \<Rightarrow> string list \<Rightarrow> int res \<times> 'r"
  rd_TYPE :: "'r \<Rightarrow> string \<Rightarrow> string res"
  rd_RPUSH :: "'r \<Rightarrow> string \<Rightarrow> string \<Rightarrow> unit res \<times> 'r"
  rd_LRANGE :: "'r \<Rightarrow> string \<Rightarrow> int \<Rightarrow> int \<Rightarrow> string list res"
  rd_GET :: "'r \<Rightarrow> string \<Rightarrow> string option res"
  rd_SETNX :: "'r \<Rightarrow> string \<Rightarrow> string \<Rightarrow> nat \<Rightarrow> bool res \<times> 'r"
  rd_PUBLISH :: "'r \<Rightarrow> string \<Rightarrow> string \<Rightarrow> unit res \<times> 'r"

record 'f redis_json =
  js_Marshal :: "'f goAny \<Rightarrow> string res"
  js_OpRecord :: "string \<Rightarrow> OpRecord res"
  js_Event :: "string \<Rightarrow> Event res"

text \<open>The client writes an \<open>int\<close> argument with \<open>strconv.AppendInt\<close>.\<close>

abbreviation Itoa :: "int \<Rightarrow> string" where
  "Itoa \<equiv> print_int"

text \<open>\<open>strings.Contains(err.Error(), ErrDocumentNotFound.Error())\<close>.\<close>

definition notFoundText :: string where
  "notFoundText = ''sharedb: document not found''"

fun containsText :: "string \<Rightarrow> string \<Rightarrow> bool" where
  "containsText [] t \<longleftrightarrow> t = []"
| "containsText (c # s) t \<longleftrightarrow> take (length t) (c # s) = t \<or> containsText s t"

fun saysNotFound :: "go_error \<Rightarrow> bool" where
  "saysNotFound (LibError s) = containsText s notFoundText"
| "saysNotFound (Sentinel e) = (e = ErrDocumentNotFound)"
| "saysNotFound (WrapError e) = saysNotFound e"
| "saysNotFound _ = False"

section \<open>Keys\<close>

definition redisSnapKey :: "string \<Rightarrow> string" where
  "redisSnapKey docID = ''sharedb:'' @ docID @ '':snap''"

definition redisOpsKey :: "string \<Rightarrow> string" where
  "redisOpsKey docID = ''sharedb:'' @ docID @ '':ops''"

definition redisLockKey :: "string \<Rightarrow> string" where
  "redisLockKey docID = ''sharedb:'' @ docID @ '':lock''"

definition redisEventsChannel :: string where
  "redisEventsChannel = ''sharedb:events''"

text \<open>The keys of different kinds and documents do not collide.\<close>

lemma key_inj [simp]:
  "redisSnapKey d = redisSnapKey d' \<longleftrightarrow> d = d'" "redisOpsKey d = redisOpsKey d' \<longleftrightarrow> d = d'"
  "redisLockKey d = redisLockKey d' \<longleftrightarrow> d = d'"
  by (simp_all add: redisSnapKey_def redisOpsKey_def redisLockKey_def)

lemma last_key:
  "last (redisSnapKey d) = CHR ''p''" "last (redisOpsKey d) = CHR ''s''" "last (redisLockKey d) = CHR ''k''"
  by (simp_all add: redisSnapKey_def redisOpsKey_def redisLockKey_def)

lemma key_disjoint [simp]:
  "redisSnapKey d \<noteq> redisOpsKey d'" "redisOpsKey d \<noteq> redisSnapKey d'"
  "redisSnapKey d \<noteq> redisLockKey d'" "redisLockKey d \<noteq> redisSnapKey d'"
  "redisOpsKey d \<noteq> redisLockKey d'" "redisLockKey d \<noteq> redisOpsKey d'"
  using last_key [of d] last_key [of d'] by auto

section \<open>The backend\<close>

text \<open>\<open>vals[k]\<close> of a Go map of strings.\<close>

definition mapEntry :: "(string \<times> string) list \<Rightarrow> string \<Rightarrow> string" where
  "mapEntry vals k = (case map_of vals k of Some v \<Rightarrow> v | None \<Rightarrow> '''')"

definition Redis_CreateDoc :: "'r redis \<Rightarrow> 'r \<Rightarrow> string \<Rightarrow> string \<Rightarrow> unit res \<times> 'r" where
  "Redis_CreateDoc R s docID initial =
     (let snapKey = redisSnapKey docID in
      bindS (rd_HSETNX R s snapKey ''version'' (Itoa 0)) (\<lambda>set s.
        if \<not> set then (Inl (Sentinel ErrDocumentExists), s)
        else
          (let payload = (if length initial = 0 then ''{}'' else initial)
           in rd_HSET R s snapKey [(''doc'', payload)])))"

definition Redis_GetDoc :: "'r redis \<Rightarrow> 'r \<Rightarrow> string \<Rightarrow> DocRecord res" where
  "Redis_GetDoc R s docID =
     andThen (rd_HGETALL R s (redisSnapKey docID)) (\<lambda>vals.
       if length vals = 0 then Inl (Sentinel ErrDocumentNotFound)
       else case Atoi (mapEntry vals ''version'') of
         None \<Rightarrow> Inl (WrapError FmtError)
       | Some version \<Rightarrow>
           Inr \<lparr>doc_DocumentID = docID, doc_Version = version, doc_Doc = mapEntry vals ''doc''\<rparr>)"

definition deleteScript :: "'r redis \<Rightarrow> string \<Rightarrow> string \<Rightarrow> 'r \<Rightarrow> int res \<times> 'r" where
  "deleteScript R key1 key2 s =
     bindS (rd_EXISTS R s key1, s) (\<lambda>n s.
       if n = 0 then (Inr 0, s)
       else bindS (rd_DEL R s [key1, key2]) (\<lambda>_ s. (Inr 1, s)))"

definition Redis_DeleteDoc :: "'r redis \<Rightarrow> 'r \<Rightarrow> string \<Rightarrow> unit res \<times> 'r" where
  "Redis_DeleteDoc R s docID =
     bindS (deleteScript R (redisSnapKey docID) (redisOpsKey docID) s) (\<lambda>deleted s.
       if deleted = 0 then (Inl (Sentinel ErrDocumentNotFound), s) else (Inr (), s))"

definition Redis_SaveDoc :: "'r redis \<Rightarrow> 'r \<Rightarrow> DocRecord \<Rightarrow> unit res \<times> 'r" where
  "Redis_SaveDoc R s r =
     rd_HSET R s (redisSnapKey (doc_DocumentID r))
       [(''version'', Itoa (doc_Version r)), (''doc'', doc_Doc r)]"

text \<open>\<open>MarshalJSON\<close> of \<open>OpRecord\<close> (\<open>server.go\<close>): fields marked \<open>omitempty\<close> are left out when empty.\<close>

definition omitempty :: "bool \<Rightarrow> string \<times> 'f goAny \<Rightarrow> (string \<times> 'f goAny) list" where
  "omitempty isEmpty field = (if isEmpty then [] else [field])"

definition OpID_fields :: "OpID \<Rightarrow> 'f goAny" where
  "OpID_fields i = AMap
     (omitempty (id_Source i = '''') (''source'', AStr (id_Source i))
      @ omitempty (id_Sequence i = 0) (''seq'', AInt (id_Sequence i)))"

definition rawField :: "string \<Rightarrow> 'f goAny" where
  "rawField raw = (if raw = '''' then ANil else ARaw raw)"

definition OpRecord_MarshalJSON :: "OpRecord \<Rightarrow> 'f goAny" where
  "OpRecord_MarshalJSON r = AMap
     ([(''documentId'', AStr (op_DocumentID r)), (''version'', AInt (op_Version r)),
       (''baseVersion'', AInt (op_BaseVersion r))]
      @ omitempty (isZero (op_ID r)) (''id'', OpID_fields (op_ID r))
      @ omitempty (op_Source r = '''') (''source'', AStr (op_Source r))
      @ omitempty (op_Sequence r = 0) (''seq'', AInt (op_Sequence r))
      @ omitempty (op_SubmittedOp r = '''') (''submittedOp'', rawField (op_SubmittedOp r))
      @ [(''op'', rawField (op_Op r))])"

definition Redis_AppendOp :: "'r redis \<Rightarrow> 'f redis_json \<Rightarrow> 'r \<Rightarrow> OpRecord \<Rightarrow> unit res \<times> 'r" where
  "Redis_AppendOp R J s r =
     bindS (js_Marshal J (OpRecord_MarshalJSON r), s) (\<lambda>raw s.
       rd_RPUSH R s (redisOpsKey (op_DocumentID r)) raw)"

definition commitScript ::
    "'r redis \<Rightarrow> string \<Rightarrow> string \<Rightarrow> string \<Rightarrow> string \<Rightarrow> string \<Rightarrow> 'r \<Rightarrow> int res \<times> 'r" where
  "commitScript R key1 key2 arg1 arg2 arg3 s =
     bindS (rd_TYPE R s key1, s) (\<lambda>snapType s.
       if snapType \<noteq> ''hash'' then (Inl (LibError notFoundText), s)
       else
         bindS (rd_TYPE R s key2, s) (\<lambda>opsType s.
           if opsType \<noteq> ''none'' \<and> opsType \<noteq> ''list''
           then (Inl (LibError ''sharedb redis: ops key has wrong type''), s)
           else
             bindS (rd_HSET R s key1 [(''version'', arg1), (''doc'', arg2)]) (\<lambda>_ s.
             bindS (rd_RPUSH R s key2 arg3) (\<lambda>_ s. (Inr 1, s)))))"

definition Redis_CommitOp ::
    "'r redis \<Rightarrow> 'f redis_json \<Rightarrow> 'r \<Rightarrow> DocRecord \<Rightarrow> OpRecord \<Rightarrow> unit res \<times> 'r" where
  "Redis_CommitOp R J s r op =
     bindS (js_Marshal J (OpRecord_MarshalJSON op), s) (\<lambda>raw s.
       case commitScript R (redisSnapKey (doc_DocumentID r)) (redisOpsKey (op_DocumentID op))
              (Itoa (doc_Version r)) (doc_Doc r) raw s of
         (Inl err, s) \<Rightarrow> (Inl (if saysNotFound err then Sentinel ErrDocumentNotFound else err), s)
       | (Inr _, s) \<Rightarrow> (Inr (), s))"

fun decodeOps :: "'f redis_json \<Rightarrow> string list \<Rightarrow> OpRecord list res" where
  "decodeOps J [] = Inr []"
| "decodeOps J (raw # raws) =
     (case js_OpRecord J raw of
        Inl e \<Rightarrow> Inl (WrapError e)
      | Inr rec \<Rightarrow> andThen (decodeOps J raws) (\<lambda>records. Inr (rec # records)))"

definition Redis_GetOps ::
    "'r redis \<Rightarrow> 'f redis_json \<Rightarrow> 'r \<Rightarrow> string \<Rightarrow> int \<Rightarrow> int \<Rightarrow> OpRecord list res" where
  "Redis_GetOps R J s docID fromVersion toVersion =
     (if fromVersion = toVersion then Inr []
      else
        andThen (rd_LRANGE R s (redisOpsKey docID) fromVersion (i64 (toVersion - 1))) (decodeOps J))"

definition Redis_Backend :: "'r redis \<Rightarrow> 'f redis_json \<Rightarrow> 'r Backend" where
  "Redis_Backend R J =
     \<lparr>CreateDoc = Redis_CreateDoc R, GetDoc = Redis_GetDoc R, DeleteDoc = Redis_DeleteDoc R,
      SaveDoc = Redis_SaveDoc R, AppendOp = Redis_AppendOp R J, CommitOp = Redis_CommitOp R J,
      GetOps = Redis_GetOps R J\<rparr>"

lemma Redis_Backend_simps [simp]:
  "CreateDoc (Redis_Backend R J) = Redis_CreateDoc R" "GetDoc (Redis_Backend R J) = Redis_GetDoc R"
  "DeleteDoc (Redis_Backend R J) = Redis_DeleteDoc R" "SaveDoc (Redis_Backend R J) = Redis_SaveDoc R"
  "AppendOp (Redis_Backend R J) = Redis_AppendOp R J" "CommitOp (Redis_Backend R J) = Redis_CommitOp R J"
  "GetOps (Redis_Backend R J) = Redis_GetOps R J"
  by (simp_all add: Redis_Backend_def)

section \<open>What the code relies on of redis\<close>

datatype redis_value = RHash "string \<Rightarrow> string option" | RList "string list" | RString string

fun type_name :: "redis_value option \<Rightarrow> string" where
  "type_name None = ''none''"
| "type_name (Some (RHash _)) = ''hash''"
| "type_name (Some (RList _)) = ''list''"
| "type_name (Some (RString _)) = ''string''"

text \<open>A missing key is an empty hash and an empty list.\<close>

fun hash_of :: "redis_value option \<Rightarrow> (string \<Rightarrow> string option) option" where
  "hash_of None = Some (\<lambda>_. None)"
| "hash_of (Some (RHash h)) = Some h"
| "hash_of _ = None"

fun list_of :: "redis_value option \<Rightarrow> string list option" where
  "list_of None = Some []"
| "list_of (Some (RList xs)) = Some xs"
| "list_of _ = None"

text \<open>\<open>LRANGE\<close>: both ends included, negative ones count from the end, out of range ones are cut.\<close>

definition lrange :: "'a list \<Rightarrow> int \<Rightarrow> int \<Rightarrow> 'a list" where
  "lrange xs start stop =
     (let n = int (length xs);
          a = (if start < 0 then max 0 (start + n) else start);
          b = min (if stop < 0 then stop + n else stop) (n - 1)
      in if a > b then [] else take (nat (b - a + 1)) (drop (nat a) xs))"

text \<open>
  \<open>keys\<close> is the keyspace: the keys that exist (and have not expired) with their values.
\<close>

locale redis_contract =
  fixes R :: "'r redis" and keys :: "'r \<Rightarrow> string \<Rightarrow> redis_value option"
  assumes HSETNX_free: "hash_of (keys s k) = Some h \<Longrightarrow> h f = None \<Longrightarrow>
          \<exists>s'. rd_HSETNX R s k f v = (Inr True, s') \<and> keys s' = (keys s)(k \<mapsto> RHash (h(f \<mapsto> v)))"
    and HSETNX_taken: "hash_of (keys s k) = Some h \<Longrightarrow> h f = Some w \<Longrightarrow>
          rd_HSETNX R s k f v = (Inr False, s)"
    and HSET_hash: "hash_of (keys s k) = Some h \<Longrightarrow> fvs \<noteq> [] \<Longrightarrow>
          \<exists>s'. rd_HSET R s k fvs = (Inr (), s') \<and> keys s' = (keys s)(k \<mapsto> RHash (h(map fst fvs [\<mapsto>] map snd fvs)))"
    and HGETALL_hash: "hash_of (keys s k) = Some h \<Longrightarrow> \<exists>vals. rd_HGETALL R s k = Inr vals \<and> map_of vals = h"
    and EXISTS_key: "rd_EXISTS R s k = Inr (if keys s k = None then 0 else 1)"
    and DEL_keys: "ks \<noteq> [] \<Longrightarrow> \<exists>n s'. rd_DEL R s ks = (Inr n, s')
          \<and> keys s' = (\<lambda>k. if k \<in> set ks then None else keys s k)"
    and TYPE_key: "rd_TYPE R s k = Inr (type_name (keys s k))"
    and RPUSH_list: "list_of (keys s k) = Some xs \<Longrightarrow>
          \<exists>s'. rd_RPUSH R s k v = (Inr (), s') \<and> keys s' = (keys s)(k \<mapsto> RList (xs @ [v]))"
    and LRANGE_list: "list_of (keys s k) = Some xs \<Longrightarrow> rd_LRANGE R s k a b = Inr (lrange xs a b)"
    and GET_string: "keys s k = Some (RString v) \<Longrightarrow> rd_GET R s k = Inr (Some v)"
    and GET_missing: "keys s k = None \<Longrightarrow> rd_GET R s k = Inr None"
    and SETNX_free: "keys s k = None \<Longrightarrow> 0 < ttl \<Longrightarrow>
          \<exists>s'. rd_SETNX R s k v ttl = (Inr True, s') \<and> keys s' = (keys s)(k \<mapsto> RString v)"
    and SETNX_taken: "keys s k \<noteq> None \<Longrightarrow> rd_SETNX R s k v ttl = (Inr False, s)"

end
