(* ===== verification/RedisRefinement.thy ===== *)
theory RedisRefinement
  imports RedisStore
begin

text \<open>
  The redis backend and the memory backend answer alike.  \<open>holds\<close> relates a keyspace to the
  documents of a memory backend; every call that keeps to the server's use of the interface
  (\<open>well_used\<close>) gives the same answer on both and leaves related states.
\<close>

section \<open>The relation\<close>

text \<open>The record survives being encoded and decoded.\<close>

definition storable :: "'f redis_json \<Rightarrow> OpRecord \<Rightarrow> bool" where
  "storable J op \<longleftrightarrow>
     (\<exists>raw. js_Marshal J (OpRecord_MarshalJSON op) = Inr raw \<and> js_OpRecord J raw = Inr op)"

definition snapshot_hash :: "memDoc \<Rightarrow> string \<Rightarrow> string option" where
  "snapshot_hash d = [''version'' \<mapsto> Itoa (md_version d), ''doc'' \<mapsto> md_doc d]"

definition log_holds :: "'f redis_json \<Rightarrow> redis_value option \<Rightarrow> OpRecord list \<Rightarrow> bool" where
  "log_holds J v ops \<longleftrightarrow>
     (if ops = [] then v = None
      else \<exists>raws. v = Some (RList raws) \<and> list_all2 (\<lambda>raw op. js_OpRecord J raw = Inr op) raws ops)"

definition doc_holds ::
    "'f redis_json \<Rightarrow> (string \<Rightarrow> redis_value option) \<Rightarrow> string \<Rightarrow> memDoc option \<Rightarrow> bool" where
  "doc_holds J ks docID d \<longleftrightarrow>
     (case d of
        None \<Rightarrow> ks (redisSnapKey docID) = None \<and> ks (redisOpsKey docID) = None
      | Some d \<Rightarrow> ks (redisSnapKey docID) = Some (RHash (snapshot_hash d)) \<and> is_int64 (md_version d)
          \<and> log_holds J (ks (redisOpsKey docID)) (md_ops d))"

definition holds ::
    "'f redis_json \<Rightarrow> (string \<Rightarrow> redis_value option) \<Rightarrow> MemoryBackend \<Rightarrow> bool" where
  "holds J ks b \<longleftrightarrow> (\<forall>docID. doc_holds J ks docID (b docID))"

lemma doc_holds_cong:
  "ks (redisSnapKey d) = ks' (redisSnapKey d) \<Longrightarrow> ks (redisOpsKey d) = ks' (redisOpsKey d) \<Longrightarrow>
   doc_holds J ks d md = doc_holds J ks' d md"
  by (simp add: doc_holds_def split: option.split)

lemma holds_upd:
  assumes "holds J ks b"
    and "\<And>k. k \<noteq> redisSnapKey docID \<Longrightarrow> k \<noteq> redisOpsKey docID \<Longrightarrow> ks' k = ks k"
    and "doc_holds J ks' docID d"
  shows "holds J ks' (b(docID := d))"
  unfolding holds_def
proof
  fix docID'
  show "doc_holds J ks' docID' ((b(docID := d)) docID')"
  proof (cases "docID' = docID")
    case False
    then have "doc_holds J ks' docID' (b docID') = doc_holds J ks docID' (b docID')"
      by (intro doc_holds_cong) (simp_all add: assms(2))
    then show ?thesis using False assms(1) by (simp add: holds_def)
  qed (simp add: assms(3))
qed

lemma holds_at: "holds J ks b \<Longrightarrow> doc_holds J ks d (b d)"
  by (simp add: holds_def)

lemma holds_None: "holds J ks b \<Longrightarrow> b d = None \<Longrightarrow> ks (redisSnapKey d) = None \<and> ks (redisOpsKey d) = None"
  by (drule holds_at [of _ _ _ d]) (simp add: doc_holds_def)

lemma holds_Some:
  assumes "holds J ks b" and "b d = Some md"
  shows "ks (redisSnapKey d) = Some (RHash (snapshot_hash md))" and "is_int64 (md_version md)"
    and "log_holds J (ks (redisOpsKey d)) (md_ops md)"
  using holds_at [OF assms(1), of d] assms(2) by (simp_all add: doc_holds_def)

lemma log_holds_list: "log_holds J v ops \<Longrightarrow> \<exists>raws. list_of v = Some raws
    \<and> list_all2 (\<lambda>raw op. js_OpRecord J raw = Inr op) raws ops"
  by (auto simp: log_holds_def split: if_splits)

lemma log_holds_append:
  "log_holds J v ops \<Longrightarrow> list_of v = Some raws \<Longrightarrow> js_OpRecord J raw = Inr op \<Longrightarrow>
   log_holds J (Some (RList (raws @ [raw]))) (ops @ [op])"
  by (auto simp: log_holds_def list_all2_appendI split: if_splits)

lemma decodeOps_all:
  "list_all2 (\<lambda>raw op. js_OpRecord J raw = Inr op) raws ops \<Longrightarrow> decodeOps J raws = Inr ops"
  by (induction rule: list_all2_induct) auto

lemma lrange_inside:
  "0 \<le> a \<Longrightarrow> a < b \<Longrightarrow> b \<le> int (length xs) \<Longrightarrow> lrange xs a (b - 1) = take (nat (b - a)) (drop (nat a) xs)"
  by (simp add: lrange_def Let_def)

lemma snapshot_version: "snapshot_hash d ''version'' = Some (Itoa (md_version d))"
  by (simp add: snapshot_hash_def)

lemma snapshot_doc: "snapshot_hash d ''doc'' = Some (md_doc d)"
  by (simp add: snapshot_hash_def)

section \<open>Calls\<close>

datatype backend_call = AskCreate string string | AskGet string | AskDelete string
  | AskSave DocRecord | AskAppend OpRecord | AskCommit DocRecord OpRecord
  | AskOps string int int

datatype backend_answer = AnsUnit "unit res" | AnsDoc "DocRecord res" | AnsOps "OpRecord list res"

fun backend_run :: "'s Backend \<Rightarrow> backend_call \<Rightarrow> 's \<Rightarrow> backend_answer \<times> 's" where
  "backend_run B (AskCreate d initial) s = (let (r, s') = CreateDoc B s d initial in (AnsUnit r, s'))"
| "backend_run B (AskGet d) s = (AnsDoc (GetDoc B s d), s)"
| "backend_run B (AskDelete d) s = (let (r, s') = DeleteDoc B s d in (AnsUnit r, s'))"
| "backend_run B (AskSave r) s = (let (r, s') = SaveDoc B s r in (AnsUnit r, s'))"
| "backend_run B (AskAppend op) s = (let (r, s') = AppendOp B s op in (AnsUnit r, s'))"
| "backend_run B (AskCommit r op) s = (let (r, s') = CommitOp B s r op in (AnsUnit r, s'))"
| "backend_run B (AskOps d a b) s = (AnsOps (GetOps B s d a b), s)"

fun backend_runs :: "'s Backend \<Rightarrow> backend_call list \<Rightarrow> 's \<Rightarrow> backend_answer list" where
  "backend_runs B [] s = []"
| "backend_runs B (c # cs) s = (let (a, s') = backend_run B c s in a # backend_runs B cs s')"

text \<open>
  How the server uses a backend: documents are created with some content, a commit concerns one
  document and stores a record that survives encoding, snapshots and log entries are only added
  to documents that exist, and the log is read between two versions it has.
\<close>

fun well_used :: "'f redis_json \<Rightarrow> MemoryBackend \<Rightarrow> backend_call \<Rightarrow> bool" where
  "well_used J b (AskCreate d initial) \<longleftrightarrow> initial \<noteq> ''''"
| "well_used J b (AskGet d) \<longleftrightarrow> True"
| "well_used J b (AskDelete d) \<longleftrightarrow> True"
| "well_used J b (AskSave r) \<longleftrightarrow> b (doc_DocumentID r) \<noteq> None \<and> is_int64 (doc_Version r)"
| "well_used J b (AskAppend op) \<longleftrightarrow> b (op_DocumentID op) \<noteq> None \<and> storable J op"
| "well_used J b (AskCommit r op) \<longleftrightarrow>
     op_DocumentID op = doc_DocumentID r \<and> is_int64 (doc_Version r) \<and> storable J op"
| "well_used J b (AskOps d from to) \<longleftrightarrow>
     (\<exists>md. b d = Some md \<and> 0 \<le> from \<and> from \<le> to \<and> to \<le> int (length (md_ops md)) \<and> is_int64 to)"

fun all_well_used :: "'f redis_json \<Rightarrow> backend_call list \<Rightarrow> MemoryBackend \<Rightarrow> bool" where
  "all_well_used J [] b \<longleftrightarrow> True"
| "all_well_used J (c # cs) b \<longleftrightarrow>
     well_used J b c \<and> all_well_used J cs (snd (backend_run Memory_Backend c b))"


context redis_contract
begin

text \<open>Every call gives the same answer and leaves related states.\<close>

lemma sim_create:
  assumes h: "holds J (keys s) b" and ne: "initial \<noteq> ''''"
  shows "\<exists>r s' b'. Redis_CreateDoc R s d initial = (r, s') \<and> Memory_CreateDoc b d initial = (r, b')
    \<and> holds J (keys s') b'"
proof (cases "b d")
  case None
  let ?snap = "redisSnapKey d"
  have k: "hash_of (keys s ?snap) = Some (\<lambda>_. None)" "keys s (redisOpsKey d) = None"
    using holds_None [OF h None] by simp_all
  obtain s1 where s1: "rd_HSETNX R s ?snap ''version'' (Itoa 0) = (Inr True, s1)"
      "keys s1 = (keys s)(?snap \<mapsto> RHash [''version'' \<mapsto> Itoa 0])"
    using HSETNX_free [OF k(1), of "''version''" "Itoa 0"] by auto
  obtain s2 where s2: "rd_HSET R s1 ?snap [(''doc'', initial)] = (Inr (), s2)"
      "keys s2 = (keys s1)(?snap \<mapsto> RHash [''version'' \<mapsto> Itoa 0, ''doc'' \<mapsto> initial])"
    using HSET_hash [of s1 ?snap "[''version'' \<mapsto> Itoa 0]" "[(''doc'', initial)]"] s1(2) by auto
  let ?md = "\<lparr>md_version = 0, md_doc = initial, md_ops = []\<rparr>"
  have "holds J (keys s2) (b(d \<mapsto> ?md))"
    using h by (rule holds_upd)
      (auto simp: s2 s1 doc_holds_def snapshot_hash_def log_holds_def k is_int64_def)
  then show ?thesis
    using None ne s1(1) s2(1) by (simp add: Redis_CreateDoc_def Memory_CreateDoc_def Let_def)
next
  case (Some md)
  then have "rd_HSETNX R s (redisSnapKey d) ''version'' (Itoa 0) = (Inr False, s)"
    using holds_Some(1) [OF h Some]
    by (intro HSETNX_taken [of _ _ "snapshot_hash md"]) (simp_all add: snapshot_version)
  then show ?thesis using Some h by (simp add: Redis_CreateDoc_def Memory_CreateDoc_def Let_def)
qed

lemma sim_get:
  assumes h: "holds J (keys s) b"
  shows "Redis_GetDoc R s d = Memory_GetDoc b d"
proof (cases "b d")
  case None
  then obtain vals where "rd_HGETALL R s (redisSnapKey d) = Inr vals" "map_of vals = (\<lambda>_. None)"
    using holds_None [OF h None] HGETALL_hash [of s "redisSnapKey d" "\<lambda>_. None"] by auto
  then show ?thesis using None by (simp add: Redis_GetDoc_def Memory_GetDoc_def)
next
  case (Some md)
  obtain vals where v: "rd_HGETALL R s (redisSnapKey d) = Inr vals" "map_of vals = snapshot_hash md"
    using holds_Some(1) [OF h Some] HGETALL_hash [of s "redisSnapKey d" "snapshot_hash md"] by auto
  then have "map_of vals ''version'' \<noteq> None" by (simp add: snapshot_version)
  then have "vals \<noteq> []" by auto
  then show ?thesis
    using v Some Atoi_print_int [OF holds_Some(2) [OF h Some]]
    by (simp add: Redis_GetDoc_def Memory_GetDoc_def mapEntry_def snapshot_version snapshot_doc)
qed

lemma sim_delete:
  assumes h: "holds J (keys s) b"
  shows "\<exists>r s' b'. Redis_DeleteDoc R s d = (r, s') \<and> Memory_DeleteDoc b d = (r, b') \<and> holds J (keys s') b'"
proof (cases "b d")
  case None
  then show ?thesis
    using holds_None [OF h None] h
    by (simp add: Redis_DeleteDoc_def deleteScript_def EXISTS_key Memory_DeleteDoc_def)
next
  case (Some md)
  obtain n s' where s': "rd_DEL R s [redisSnapKey d, redisOpsKey d] = (Inr n, s')"
      "keys s' = (\<lambda>k. if k \<in> set [redisSnapKey d, redisOpsKey d] then None else keys s k)"
    using DEL_keys [of "[redisSnapKey d, redisOpsKey d]" s] by blast
  have "holds J (keys s') (b(d := None))"
    using h by (rule holds_upd) (auto simp: s' doc_holds_def)
  then show ?thesis
    using holds_Some(1) [OF h Some] s'(1) Some
    by (simp add: Redis_DeleteDoc_def deleteScript_def EXISTS_key Memory_DeleteDoc_def)
qed

lemma HSET_snapshot:
  assumes h: "holds J (keys s) b" and md: "b d = Some md"
  shows "\<exists>s'. rd_HSET R s (redisSnapKey d) [(''version'', Itoa v), (''doc'', doc)] = (Inr (), s')
    \<and> keys s' = (keys s)(redisSnapKey d \<mapsto> RHash (snapshot_hash (md\<lparr>md_version := v, md_doc := doc\<rparr>)))"
proof -
  have "(snapshot_hash md)(''version'' \<mapsto> Itoa v, ''doc'' \<mapsto> doc)
      = snapshot_hash (md\<lparr>md_version := v, md_doc := doc\<rparr>)"
    by (auto simp: snapshot_hash_def fun_eq_iff)
  then show ?thesis
    using HSET_hash [of s "redisSnapKey d" "snapshot_hash md" "[(''version'', Itoa v), (''doc'', doc)]"]
      holds_Some(1) [OF h md] by auto
qed

lemma sim_save:
  assumes h: "holds J (keys s) b" and md: "b (doc_DocumentID r) \<noteq> None" and v: "is_int64 (doc_Version r)"
  shows "\<exists>a s' b'. Redis_SaveDoc R s r = (a, s') \<and> Memory_SaveDoc b r = (a, b') \<and> holds J (keys s') b'"
proof -
  obtain d where d: "b (doc_DocumentID r) = Some d" using md by blast
  let ?d = "d\<lparr>md_version := doc_Version r, md_doc := doc_Doc r\<rparr>"
  obtain s' where s': "Redis_SaveDoc R s r = (Inr (), s')"
      "keys s' = (keys s)(redisSnapKey (doc_DocumentID r) \<mapsto> RHash (snapshot_hash ?d))"
    using HSET_snapshot [OF h d] by (auto simp: Redis_SaveDoc_def)
  have "holds J (keys s') (b(doc_DocumentID r \<mapsto> ?d))"
    using h by (rule holds_upd) (auto simp: s' doc_holds_def v holds_Some(3) [OF h d])
  then show ?thesis using s'(1) d by (simp add: Memory_SaveDoc_def)
qed

lemma RPUSH_log:
  assumes l: "log_holds J (keys s k) ops" and st: "storable J op"
  shows "\<exists>raw s' raws. js_Marshal J (OpRecord_MarshalJSON op) = Inr raw \<and> rd_RPUSH R s k raw = (Inr (), s')
    \<and> keys s' = (keys s)(k \<mapsto> RList (raws @ [raw])) \<and> log_holds J (Some (RList (raws @ [raw]))) (ops @ [op])"
proof -
  obtain raw where raw: "js_Marshal J (OpRecord_MarshalJSON op) = Inr raw" "js_OpRecord J raw = Inr op"
    using st by (auto simp: storable_def)
  obtain raws where raws: "list_of (keys s k) = Some raws" using log_holds_list [OF l] by blast
  show ?thesis using RPUSH_list [OF raws, of raw] raw log_holds_append [OF l raws raw(2)] by blast
qed

lemma sim_append:
  assumes h: "holds J (keys s) b" and md: "b (op_DocumentID op) \<noteq> None" and st: "storable J op"
  shows "\<exists>a s' b'. Redis_AppendOp R J s op = (a, s') \<and> Memory_AppendOp b op = (a, b') \<and> holds J (keys s') b'"
proof -
  obtain d where d: "b (op_DocumentID op) = Some d" using md by blast
  note H = holds_Some [OF h d]
  obtain raw s' raws where s': "js_Marshal J (OpRecord_MarshalJSON op) = Inr raw"
      "rd_RPUSH R s (redisOpsKey (op_DocumentID op)) raw = (Inr (), s')"
      "keys s' = (keys s)(redisOpsKey (op_DocumentID op) \<mapsto> RList (raws @ [raw]))"
      "log_holds J (Some (RList (raws @ [raw]))) (md_ops d @ [op])"
    using RPUSH_log [OF H(3) st] by blast
  have "holds J (keys s') (b(op_DocumentID op \<mapsto> d\<lparr>md_ops := md_ops d @ [op]\<rparr>))"
    using h by (rule holds_upd) (auto simp: s' doc_holds_def H snapshot_hash_def)
  then show ?thesis using s' d by (simp add: Redis_AppendOp_def Memory_AppendOp_def)
qed

lemma sim_commit:
  assumes h: "holds J (keys s) b" and same: "op_DocumentID op = doc_DocumentID r"
    and v: "is_int64 (doc_Version r)" and st: "storable J op"
  shows "\<exists>a s' b'. Redis_CommitOp R J s r op = (a, s') \<and> Memory_CommitOp b r op = (a, b') \<and> holds J (keys s') b'"
proof (cases "b (doc_DocumentID r)")
  case None
  obtain raw where "js_Marshal J (OpRecord_MarshalJSON op) = Inr raw" using st by (auto simp: storable_def)
  moreover have "saysNotFound (LibError notFoundText)" by code_simp
  ultimately show ?thesis
    using holds_None [OF h None] None h same
    by (simp add: Redis_CommitOp_def commitScript_def TYPE_key Memory_CommitOp_def)
next
  case (Some d)
  note H = holds_Some [OF h Some]
  let ?k = "redisSnapKey (doc_DocumentID r)" and ?o = "redisOpsKey (doc_DocumentID r)"
  let ?d = "d\<lparr>md_version := doc_Version r, md_doc := doc_Doc r\<rparr>"
  have t: "type_name (keys s ?o) = ''none'' \<or> type_name (keys s ?o) = ''list''"
    using H(3) by (auto simp: log_holds_def split: if_splits)
  obtain s1 where s1: "rd_HSET R s ?k [(''version'', Itoa (doc_Version r)), (''doc'', doc_Doc r)] = (Inr (), s1)"
      "keys s1 = (keys s)(?k \<mapsto> RHash (snapshot_hash ?d))"
    using HSET_snapshot [OF h Some] by blast
  have "log_holds J (keys s1 ?o) (md_ops d)" using H(3) s1(2) by simp
  from RPUSH_log [OF this st] obtain raw s2 raws where s2: "js_Marshal J (OpRecord_MarshalJSON op) = Inr raw"
      "rd_RPUSH R s1 ?o raw = (Inr (), s2)" "keys s2 = (keys s1)(?o \<mapsto> RList (raws @ [raw]))"
      "log_holds J (Some (RList (raws @ [raw]))) (md_ops d @ [op])"
    by blast
  have "holds J (keys s2) (b(doc_DocumentID r \<mapsto> ?d\<lparr>md_ops := md_ops d @ [op]\<rparr>))"
    using h by (rule holds_upd) (auto simp: s1(2) s2 doc_holds_def v snapshot_hash_def)
  moreover have "Redis_CommitOp R J s r op = (Inr (), s2)"
    using s2(1,2) s1(1) H(1) t same by (auto simp: Redis_CommitOp_def commitScript_def TYPE_key)
  ultimately show ?thesis using Some by (simp add: Memory_CommitOp_def)
qed

lemma sim_ops:
  assumes h: "holds J (keys s) b" and md: "b d = Some md" and "0 \<le> from" "from \<le> to"
    and "to \<le> int (length (md_ops md))" and "is_int64 to"
  shows "Redis_GetOps R J s d from to = Memory_GetOps b d from to"
proof (cases "from = to")
  case True
  then show ?thesis using md by (simp add: Redis_GetOps_def Memory_GetOps_def)
next
  case False
  obtain raws where raws: "list_of (keys s (redisOpsKey d)) = Some raws"
      "list_all2 (\<lambda>raw op. js_OpRecord J raw = Inr op) raws (md_ops md)"
    using log_holds_list [OF holds_Some(3) [OF h md]] by blast
  have len: "length raws = length (md_ops md)" using raws(2) by (rule list_all2_lengthD)
  have "is_int64 (to - 1)" using assms(3,4,6) False by (auto simp: is_int64_def)
  moreover have "lrange raws from (to - 1) = take (nat (to - from)) (drop (nat from) raws)"
    using lrange_inside [of "from" to raws] assms(3-5) False len by simp
  moreover have "decodeOps J (take (nat (to - from)) (drop (nat from) raws))
      = Inr (take (nat (to - from)) (drop (nat from) (md_ops md)))"
    using raws(2) by (intro decodeOps_all list_all2_takeI list_all2_dropI)
  ultimately show ?thesis
    using False LRANGE_list [OF raws(1)] Memory_GetOps_range [of b d md "from" to] assms(2-5)
    by (simp add: Redis_GetOps_def)
qed

theorem sim_call:
  assumes "holds J (keys s) b" and "well_used J b c"
  shows "\<exists>a s' b'. backend_run (Redis_Backend R J) c s = (a, s') \<and> backend_run Memory_Backend c b = (a, b')
    \<and> holds J (keys s') b'"
proof (cases c)
  case (AskCreate d initial)
  then show ?thesis using sim_create [OF assms(1), of initial d] assms(2) by fastforce
next
  case (AskGet d)
  then show ?thesis using sim_get [OF assms(1)] assms(1) by auto
next
  case (AskDelete d)
  then show ?thesis using sim_delete [OF assms(1), of d] by fastforce
next
  case (AskSave r)
  then show ?thesis using sim_save [OF assms(1), of r] assms(2) by fastforce
next
  case (AskAppend op)
  then show ?thesis using sim_append [OF assms(1), of op] assms(2) by fastforce
next
  case (AskCommit r op)
  then show ?thesis using sim_commit [OF assms(1), of op r] assms(2) by fastforce
next
  case (AskOps d a b)
  then show ?thesis using sim_ops [OF assms(1), of d _ a b] assms by auto
qed

lemma sim_calls:
  "holds J (keys s) b \<Longrightarrow> all_well_used J cs b \<Longrightarrow>
   backend_runs (Redis_Backend R J) cs s = backend_runs Memory_Backend cs b"
proof (induction cs arbitrary: s b)
  case (Cons c cs)
  then show ?case using sim_call [of J s b c] by fastforce
qed simp

end

end
