(* ===== verification/RedisLocks.thy ===== *)
theory RedisLocks
  imports RedisStore Locking
begin

text \<open>
  \<open>RedisLocker\<close> of \<open>sharedb/redis.go\<close>: a lock is a key of the redis server that holds the token of
  its owner and expires.  First the call as one thread sees it, then any number of threads, each
  command a step of its own, with time passing between them.
\<close>

section \<open>The calls\<close>

text \<open>Nanoseconds.\<close>

definition DefaultRedisLockTTL :: nat where
  "DefaultRedisLockTTL = 5000000000"

definition maxRetries :: nat where
  "maxRetries = 50"

definition retryDelay :: nat where
  "retryDelay = 50000000"

definition unlockScript :: "'r redis \<Rightarrow> string \<Rightarrow> string \<Rightarrow> 'r \<Rightarrow> int res \<times> 'r" where
  "unlockScript R key1 arg1 s =
     bindS (rd_GET R s key1, s) (\<lambda>v s.
       if v = Some arg1 then rd_DEL R s [key1] else (Inr 0, s))"

text \<open>The function \<open>Lock\<close> returns on success; it ignores the error of its script.\<close>

definition Redis_Unlock :: "'r redis \<Rightarrow> string \<Rightarrow> string \<Rightarrow> 'r \<Rightarrow> 'r" where
  "Redis_Unlock R docID token s = snd (unlockScript R (redisLockKey docID) token s)"

text \<open>
  The loop with \<open>n\<close> attempts left.  \<open>pause\<close> is the \<open>select\<close> between the delay and the end of the
  context: the error of the context, or nothing once the delay is over, and the redis server as it is
  then.  The result is the token the unlock function keeps.
\<close>

fun Lock_loop ::
    "'r redis \<Rightarrow> ('r \<Rightarrow> go_error option \<times> 'r) \<Rightarrow> nat \<Rightarrow> string \<Rightarrow> string \<Rightarrow> nat \<Rightarrow> 'r \<Rightarrow> string res \<times> 'r" where
  "Lock_loop R pause ttl docID token 0 s =
     (Inl (LibError (''sharedb redis: failed to acquire lock for document '' @ docID)), s)"
| "Lock_loop R pause ttl docID token (Suc n) s =
     bindS (rd_SETNX R s (redisLockKey docID) token ttl) (\<lambda>set s.
       if set then (Inr token, s)
       else if n = 0 then Lock_loop R pause ttl docID token 0 s
       else
         (case pause s of
            (Some err, s) \<Rightarrow> (Inl err, s)
          | (None, s) \<Rightarrow> Lock_loop R pause ttl docID token n s))"

text \<open>\<open>unixNano\<close> is the clock of the caller.\<close>

definition Redis_Lock ::
    "'r redis \<Rightarrow> ('r \<Rightarrow> go_error option \<times> 'r) \<Rightarrow> nat \<Rightarrow> int \<Rightarrow> 'r \<Rightarrow> string \<Rightarrow> string res \<times> 'r" where
  "Redis_Lock R pause ttl unixNano s docID =
     Lock_loop R pause ttl docID (Itoa unixNano) maxRetries s"

text \<open>
  As a \<open>Locker\<close>: the unlock functions that have been returned are the tokens by document.
\<close>

definition Redis_Locker ::
    "'r redis \<Rightarrow> ('r \<Rightarrow> go_error option \<times> 'r) \<Rightarrow> ('r \<Rightarrow> int) \<Rightarrow> nat \<Rightarrow> ('r \<times> (string \<Rightarrow> string)) Locker" where
  "Redis_Locker R pause clock ttl =
     \<lparr>Lock = (\<lambda>(s, tokens) docID.
        case Redis_Lock R pause ttl (clock s) s docID of
          (Inl err, s) \<Rightarrow> (Inl err, (s, tokens))
        | (Inr token, s) \<Rightarrow> (Inr (), (s, tokens(docID := token)))),
      Unlock = (\<lambda>(s, tokens) docID. (Redis_Unlock R docID (tokens docID) s, tokens))\<rparr>"

section \<open>Time\<close>

text \<open>
  What the lock relies on beyond the keyspace: the server's clock, the instant at which a key
  expires, and what is left of the keyspace after a while.
\<close>

text \<open>The key exists now and still will at the instant \<open>t\<close> if nothing but time passes.\<close>

definition outlives ::
    "('r \<Rightarrow> string \<Rightarrow> redis_value option) \<Rightarrow> ('r \<Rightarrow> string \<Rightarrow> nat option) \<Rightarrow> 'r \<Rightarrow> string \<Rightarrow> nat \<Rightarrow> bool" where
  "outlives keys expires s k t \<longleftrightarrow>
     keys s k \<noteq> None \<and> (case expires s k of Some u \<Rightarrow> t < u | None \<Rightarrow> True)"

locale redis_clock = redis_contract R keys
  for R :: "'r redis" and keys +
  fixes clock :: "'r \<Rightarrow> nat" and expires :: "'r \<Rightarrow> string \<Rightarrow> nat option" and wait :: "nat \<Rightarrow> 'r \<Rightarrow> 'r"
  assumes SETNX_expires: "rd_SETNX R s k v ttl = (Inr True, s') \<Longrightarrow> 0 < ttl \<Longrightarrow>
          clock s' = clock s \<and> expires s' = (expires s)(k \<mapsto> clock s + ttl)"
    and DEL_expires: "rd_DEL R s ks = (Inr removed, s') \<Longrightarrow>
          clock s' = clock s \<and> expires s' = (\<lambda>k. if k \<in> set ks then None else expires s k)"
    and key_alive: "keys s k \<noteq> None \<Longrightarrow> expires s k = Some u \<Longrightarrow> clock s < u"
    and wait_clock: "clock (wait n s) = clock s + n"
    and wait_keys: "keys (wait n s) k = (if outlives keys expires s k (clock s + n) then keys s k else None)"
    and wait_expires: "expires (wait n s) k =
          (if outlives keys expires s k (clock s + n) then expires s k else None)"
begin

lemma outlives_now: "outlives keys expires s k (clock s) \<longleftrightarrow> keys s k \<noteq> None"
  using key_alive by (auto simp: outlives_def split: option.split)

lemma outlives_wait:
  "clock s + n \<le> t \<Longrightarrow> outlives keys expires (wait n s) k t \<longleftrightarrow> outlives keys expires s k t"
  by (auto simp: outlives_def wait_keys wait_expires split: option.splits)

text \<open>Against a key that nobody removes, the attempts fail exactly when it outlives all of them.\<close>

lemma Lock_loop_fails_iff:
  assumes "0 < ttl"
  shows "isl (fst (Lock_loop R (\<lambda>s. (None, wait retryDelay s)) ttl d token (Suc n) s)) \<longleftrightarrow>
    outlives keys expires s (redisLockKey d) (clock s + n * retryDelay)"
proof (induction n arbitrary: s)
  let ?k = "redisLockKey d"
  note free = SETNX_free [OF _ assms, of _ ?k token] and taken = SETNX_taken [of _ ?k token ttl]
  {
    case 0
    then show ?case
      using free [of s] taken [of s] by (cases "keys s ?k = None") (auto simp: outlives_now)
  next
    case (Suc n)
    show ?case
    proof (cases "keys s ?k = None")
      case True
      then show ?thesis using free [of s] by (auto simp: outlives_def)
    next
      case False
      have "outlives keys expires (wait retryDelay s) ?k (clock s + retryDelay + n * retryDelay)
          \<longleftrightarrow> outlives keys expires s ?k (clock s + retryDelay + n * retryDelay)"
        by (rule outlives_wait) simp
      then show ?thesis
        using Suc.IH [of "wait retryDelay s"] taken [OF False]
        by (simp add: wait_clock algebra_simps del: Lock_loop.simps(2))
           (simp add: Lock_loop.simps(2) [of _ _ _ _ _ "Suc n"] taken [OF False] del: Lock_loop.simps(2))
    qed
  }
qed

end


section \<open>Interleaved threads\<close>

text \<open>
  A thread is outside, has attempts left, or holds the lock since an instant.  Every command is a
  step; the delay between two attempts is a lower bound that the relation leaves out.  \<open>uniq\<close>
  says whether the threads that start take tokens that no other thread uses: the code takes the
  clock of its machine and relies on that.
\<close>

datatype redis_pc = RIdle | RTrying string nat string | RHolding string string nat

fun pc_token :: "redis_pc \<Rightarrow> string option" where
  "pc_token RIdle = None"
| "pc_token (RTrying token n docID) = Some token"
| "pc_token (RHolding token docID since) = Some token"

inductive redis_step ::
    "'r redis \<Rightarrow> ('r \<Rightarrow> nat) \<Rightarrow> (nat \<Rightarrow> 'r \<Rightarrow> 'r) \<Rightarrow> nat \<Rightarrow> bool \<Rightarrow>
     'r \<times> (nat \<Rightarrow> redis_pc) \<Rightarrow> 'r \<times> (nat \<Rightarrow> redis_pc) \<Rightarrow> bool"
  for R clock wait ttl uniq where
  begins: "pcs t = RIdle \<Longrightarrow> (uniq \<Longrightarrow> \<forall>t'. pc_token (pcs t') \<noteq> Some (Itoa unixNano)) \<Longrightarrow>
    redis_step R clock wait ttl uniq (s, pcs) (s, pcs(t := RTrying (Itoa unixNano) maxRetries docID))"
| acquires: "pcs t = RTrying token (Suc n) docID \<Longrightarrow>
    rd_SETNX R s (redisLockKey docID) token ttl = (Inr True, s') \<Longrightarrow>
    redis_step R clock wait ttl uniq (s, pcs) (s', pcs(t := RHolding token docID (clock s)))"
| refused: "pcs t = RTrying token (Suc n) docID \<Longrightarrow>
    rd_SETNX R s (redisLockKey docID) token ttl = (Inr False, s') \<Longrightarrow>
    redis_step R clock wait ttl uniq (s, pcs) (s', pcs(t := if n = 0 then RIdle else RTrying token n docID))"
| cancelled: "pcs t = RTrying token n docID \<Longrightarrow>
    redis_step R clock wait ttl uniq (s, pcs) (s, pcs(t := RIdle))"
| releases: "pcs t = RHolding token docID since \<Longrightarrow>
    redis_step R clock wait ttl uniq (s, pcs) (Redis_Unlock R docID token s, pcs(t := RIdle))"
| passes: "redis_step R clock wait ttl uniq (s, pcs) (wait n s, pcs)"

inductive redis_reachable ::
    "'r redis \<Rightarrow> ('r \<Rightarrow> nat) \<Rightarrow> (nat \<Rightarrow> 'r \<Rightarrow> 'r) \<Rightarrow> nat \<Rightarrow> bool \<Rightarrow> 'r \<Rightarrow> 'r \<times> (nat \<Rightarrow> redis_pc) \<Rightarrow> bool"
  for R clock wait ttl uniq s0 where
  at_start: "redis_reachable R clock wait ttl uniq s0 (s0, \<lambda>_. RIdle)"
| by_step: "redis_reachable R clock wait ttl uniq s0 x \<Longrightarrow> redis_step R clock wait ttl uniq x y \<Longrightarrow>
    redis_reachable R clock wait ttl uniq s0 y"

inductive_cases redis_stepE: "redis_step R clock wait ttl uniq (s, pcs) y"

lemmas redis_step_cases = redis_stepE [consumes 1, case_names begins acquires refused cancelled releases passes]

text \<open>
  The invariant: active threads have different tokens, and a thread whose time is not up owns
  the key, which expires with its time.
\<close>

definition tokens_differ :: "(nat \<Rightarrow> redis_pc) \<Rightarrow> bool" where
  "tokens_differ pcs \<longleftrightarrow> (\<forall>t t' token. pc_token (pcs t) = Some token \<longrightarrow> pc_token (pcs t') = Some token \<longrightarrow> t = t')"

definition owns :: "('r \<Rightarrow> string \<Rightarrow> redis_value option) \<Rightarrow> ('r \<Rightarrow> string \<Rightarrow> nat option) \<Rightarrow> 'r \<Rightarrow>
    string \<Rightarrow> string \<Rightarrow> nat \<Rightarrow> bool" where
  "owns keys expires s token docID until \<longleftrightarrow>
     keys s (redisLockKey docID) = Some (RString token) \<and> expires s (redisLockKey docID) = Some until"

definition holders_own :: "('r \<Rightarrow> string \<Rightarrow> redis_value option) \<Rightarrow> ('r \<Rightarrow> nat) \<Rightarrow>
    ('r \<Rightarrow> string \<Rightarrow> nat option) \<Rightarrow> nat \<Rightarrow> 'r \<Rightarrow> (nat \<Rightarrow> redis_pc) \<Rightarrow> bool" where
  "holders_own keys clock expires ttl s pcs \<longleftrightarrow>
     (\<forall>t token docID since. pcs t = RHolding token docID since \<longrightarrow> clock s < since + ttl \<longrightarrow>
        owns keys expires s token docID (since + ttl))"

lemma tokens_differ_upd:
  assumes "tokens_differ pcs"
    and "\<And>token t'. pc_token c = Some token \<Longrightarrow> t' \<noteq> t \<Longrightarrow> pc_token (pcs t') \<noteq> Some token"
  shows "tokens_differ (pcs(t := c))"
  using assms unfolding tokens_differ_def by (metis fun_upd_apply)

lemma tokens_differ_same:
  "tokens_differ pcs \<Longrightarrow> pc_token c = pc_token (pcs t) \<or> pc_token c = None \<Longrightarrow> tokens_differ (pcs(t := c))"
  by (rule tokens_differ_upd) (simp, unfold tokens_differ_def, metis option.distinct(1))

lemma tokens_differ_step:
  "redis_step R clock wait ttl True (s, pcs) (s', pcs') \<Longrightarrow> tokens_differ pcs \<Longrightarrow> tokens_differ pcs'"
  by (elim redis_stepE) (auto intro: tokens_differ_same tokens_differ_upd)

text \<open>Whatever else is under a lock key is a string.\<close>

definition lock_strings :: "('r \<Rightarrow> string \<Rightarrow> redis_value option) \<Rightarrow> 'r \<Rightarrow> bool" where
  "lock_strings keys s \<longleftrightarrow> (\<forall>d v. keys s (redisLockKey d) = Some v \<longrightarrow> (\<exists>w. v = RString w))"

definition lock_inv :: "('r \<Rightarrow> string \<Rightarrow> redis_value option) \<Rightarrow> ('r \<Rightarrow> nat) \<Rightarrow>
    ('r \<Rightarrow> string \<Rightarrow> nat option) \<Rightarrow> nat \<Rightarrow> 'r \<times> (nat \<Rightarrow> redis_pc) \<Rightarrow> bool" where
  "lock_inv keys clock expires ttl x \<longleftrightarrow> tokens_differ (snd x) \<and> lock_strings keys (fst x)
     \<and> holders_own keys clock expires ttl (fst x) (snd x)"

context redis_clock
begin

lemma Unlock_cases:
  assumes "lock_strings keys s"
  obtains (mine) "keys s (redisLockKey d) = Some (RString token)"
      "keys (Redis_Unlock R d token s) = (keys s)(redisLockKey d := None)"
      "clock (Redis_Unlock R d token s) = clock s"
      "expires (Redis_Unlock R d token s) = (expires s)(redisLockKey d := None)"
  | (other) "keys s (redisLockKey d) \<noteq> Some (RString token)" "Redis_Unlock R d token s = s"
proof -
  let ?k = "redisLockKey d"
  obtain n s' where del: "rd_DEL R s [?k] = (Inr n, s')"
      "keys s' = (\<lambda>k. if k \<in> set [?k] then None else keys s k)"
    using DEL_keys [of "[?k]" s] by auto
  note del' = DEL_expires [OF del(1)]
  show thesis
  proof (cases "keys s ?k")
    case None
    then show thesis using other by (simp add: Redis_Unlock_def unlockScript_def GET_missing)
  next
    case (Some v)
    then obtain w where w: "keys s ?k = Some (RString w)" using assms by (auto simp: lock_strings_def)
    show thesis
    proof (cases "w = token")
      case True
      then show thesis using mine w del del'
        by (auto simp: Redis_Unlock_def unlockScript_def GET_string [OF w] fun_eq_iff)
    next
      case False
      then show thesis using other w by (simp add: Redis_Unlock_def unlockScript_def GET_string [OF w])
    qed
  qed
qed

lemma SETNX_granted:
  assumes "rd_SETNX R s k v ttl = (Inr True, s')" and "0 < ttl"
  shows "keys s k = None" and "keys s' = (keys s)(k \<mapsto> RString v)"
    and "clock s' = clock s" and "expires s' = (expires s)(k \<mapsto> clock s + ttl)"
proof -
  show "keys s k = None" using SETNX_taken [of s k v ttl] assms(1) by (cases "keys s k") auto
  then show "keys s' = (keys s)(k \<mapsto> RString v)" using SETNX_free [of s k ttl v] assms by auto
  show "clock s' = clock s" "expires s' = (expires s)(k \<mapsto> clock s + ttl)"
    using SETNX_expires [OF assms] by simp_all
qed

lemma SETNX_refused: "rd_SETNX R s k v ttl = (Inr False, s') \<Longrightarrow> 0 < ttl \<Longrightarrow> s' = s"
  using SETNX_taken [of s k v ttl] SETNX_free [of s k ttl v] by (cases "keys s k") auto

lemma holders_own_outside:
  "holders_own keys clock expires ttl s pcs \<Longrightarrow> (\<And>token d since. c \<noteq> RHolding token d since) \<Longrightarrow>
   holders_own keys clock expires ttl s (pcs(t := c))"
  by (auto simp: holders_own_def)

lemma holders_own_acquires:
  assumes "holders_own keys clock expires ttl s pcs" and "0 < ttl"
    and "rd_SETNX R s (redisLockKey d) token ttl = (Inr True, s')"
  shows "holders_own keys clock expires ttl s' (pcs(t := RHolding token d (clock s)))"
  using assms(1) SETNX_granted [OF assms(3,2)]
  by (auto simp: holders_own_def owns_def split: if_splits)

lemma holders_own_releases:
  assumes own: "holders_own keys clock expires ttl s pcs" and strings: "lock_strings keys s"
    and differ: "tokens_differ pcs" and t: "pcs t = RHolding token d since"
  shows "holders_own keys clock expires ttl (Redis_Unlock R d token s) (pcs(t := RIdle))"
  using strings
proof (cases rule: Unlock_cases [of s d token])
  case mine
  show ?thesis
    unfolding holders_own_def
  proof (intro allI impI)
    fix t' token' d' since'
    assume h: "(pcs(t := RIdle)) t' = RHolding token' d' since'"
      and alive: "clock (Redis_Unlock R d token s) < since' + ttl"
    from h have t': "t' \<noteq> t" "pcs t' = RHolding token' d' since'" by (auto split: if_splits)
    then have own': "owns keys expires s token' d' (since' + ttl)"
      using own alive by (auto simp: holders_own_def mine(3))
    have "token' \<noteq> token" using differ t t' unfolding tokens_differ_def by (metis pc_token.simps(3))
    then have "d' \<noteq> d" using own' mine(1) by (auto simp: owns_def)
    then show "owns keys expires (Redis_Unlock R d token s) token' d' (since' + ttl)"
      using own' by (simp add: owns_def mine)
  qed
next
  case other
  then show ?thesis using own by (simp add: holders_own_outside)
qed

lemma holders_own_passes:
  "holders_own keys clock expires ttl s pcs \<Longrightarrow> holders_own keys clock expires ttl (wait n s) pcs"
  by (auto simp: holders_own_def owns_def wait_clock wait_keys wait_expires outlives_def)

lemma lock_strings_step:
  assumes "redis_step R clock wait ttl uniq (s, pcs) (s', pcs')" and "0 < ttl" and "lock_strings keys s"
  shows "lock_strings keys s'"
  using assms(1)
proof (cases rule: redis_step_cases)
  case (acquires t token n docID)
  then show ?thesis using SETNX_granted(2) assms(2,3) by (fastforce simp: lock_strings_def)
next
  case (refused t token n docID)
  then show ?thesis using SETNX_refused assms(2,3) by blast
next
  case (releases t token docID since)
  show ?thesis
    using assms(3) by (cases rule: Unlock_cases [of s docID token])
      (use releases assms(3) in \<open>auto simp: lock_strings_def\<close>)
qed (use assms(3) in \<open>auto simp: lock_strings_def wait_keys split: if_splits\<close>)

lemma lock_inv_step:
  assumes "redis_step R clock wait ttl True x y" and "0 < ttl" and "lock_inv keys clock expires ttl x"
  shows "lock_inv keys clock expires ttl y"
proof -
  obtain s pcs s' pcs' where x: "x = (s, pcs)" and y: "y = (s', pcs')" by (cases x, cases y)
  note step = assms(1) [unfolded x y]
  have inv: "tokens_differ pcs" "lock_strings keys s" "holders_own keys clock expires ttl s pcs"
    using assms(3) by (simp_all add: lock_inv_def x)
  have "holders_own keys clock expires ttl s' pcs'"
    using step
  proof (cases rule: redis_step_cases)
    case (acquires t token n docID)
    then show ?thesis using holders_own_acquires [OF inv(3) assms(2)] by simp
  next
    case (refused t token n docID)
    then show ?thesis using SETNX_refused [OF _ assms(2)] inv(3) by (auto intro!: holders_own_outside)
  next
    case (releases t token docID since)
    then show ?thesis using holders_own_releases [OF inv(3,2,1)] by simp
  next
    case (passes n)
    then show ?thesis using holders_own_passes [OF inv(3)] by simp
  qed (use inv(3) in \<open>auto intro: holders_own_outside\<close>)
  then show ?thesis
    using tokens_differ_step [OF step inv(1)] lock_strings_step [OF step assms(2) inv(2)]
    by (simp add: lock_inv_def y)
qed

theorem lock_inv_reachable:
  assumes "redis_reachable R clock wait ttl True s0 x" and "0 < ttl" and "lock_strings keys s0"
  shows "lock_inv keys clock expires ttl x"
  using assms(1)
proof induction
  case at_start
  then show ?case using assms(3) by (simp add: lock_inv_def tokens_differ_def holders_own_def)
next
  case (by_step x y)
  then show ?case using lock_inv_step assms(2) by blast
qed

lemma holders_unique:
  assumes "lock_inv keys clock expires ttl (s, pcs)"
    and "pcs t = RHolding token d since" "clock s < since + ttl"
    and "pcs t' = RHolding token' d since'" "clock s < since' + ttl"
  shows "t = t'"
proof -
  have "owns keys expires s token d (since + ttl)" "owns keys expires s token' d (since' + ttl)"
    using assms by (auto simp: lock_inv_def holders_own_def)
  then have "token' = token" by (simp add: owns_def)
  then show ?thesis using assms(1,2,4) unfolding lock_inv_def tokens_differ_def snd_conv
    by (metis pc_token.simps(3))
qed

end

end
