(* ===== verification/RedisPublishing.thy ===== *)
theory RedisPublishing
  imports RedisStore
begin

text \<open>
  \<open>RedisPublisher\<close> of \<open>sharedb/redis.go\<close>: events are published as JSON on one channel of the redis
  server; in every process a listener decodes each message it is delivered and offers the event to the local
  subscriptions of its document.
\<close>

section \<open>Publishing\<close>

text \<open>\<open>MarshalJSON\<close> of \<open>Event\<close> (\<open>server.go\<close>).\<close>

definition Event_MarshalJSON :: "Event \<Rightarrow> 'f goAny" where
  "Event_MarshalJSON e = AMap
     (omitempty (ev_Type e = '''') (''type'', AStr (ev_Type e))
      @ [(''documentId'', AStr (ev_DocumentID e)), (''version'', AInt (ev_Version e))]
      @ omitempty (isZero (ev_ID e)) (''id'', OpID_fields (ev_ID e))
      @ omitempty (ev_Source e = '''') (''source'', AStr (ev_Source e))
      @ omitempty (ev_Sequence e = 0) (''seq'', AInt (ev_Sequence e))
      @ [(''op'', rawField (ev_Operation e)), (''document'', rawField (ev_Document e))])"

definition Redis_Publish :: "'r redis \<Rightarrow> 'f redis_json \<Rightarrow> 'r \<Rightarrow> Event \<Rightarrow> 'r" where
  "Redis_Publish R J s event =
     (case js_Marshal J (Event_MarshalJSON event) of
        Inl err \<Rightarrow> s
      | Inr raw \<Rightarrow> snd (rd_PUBLISH R s redisEventsChannel raw))"

section \<open>Subscriptions\<close>

text \<open>A channel is its capacity, its queue and whether a receiver waits on it.\<close>

record redisSub =
  rs_docID :: string
  rs_cap :: int
  rs_queue :: "Event list"
  rs_waiting :: bool

record RedisPublisher =
  rp_subs :: "int \<Rightarrow> redisSub option"
  rp_next :: int

definition NewRedisPublisher :: RedisPublisher where
  "NewRedisPublisher = \<lparr>rp_subs = (\<lambda>_. None), rp_next = 0\<rparr>"

definition Redis_Subscribe :: "RedisPublisher \<Rightarrow> string \<Rightarrow> int \<Rightarrow> int res \<times> RedisPublisher" where
  "Redis_Subscribe p docID buffer =
     (let buffer = (if buffer < 0 then 0 else buffer);
          i = rp_next p;
          sub = \<lparr>rs_docID = docID, rs_cap = buffer, rs_queue = [], rs_waiting = False\<rparr>
      in (Inr i, p\<lparr>rp_next := i64 (i + 1), rp_subs := (rp_subs p)(i \<mapsto> sub)\<rparr>))"

definition Redis_Unsubscribe :: "RedisPublisher \<Rightarrow> int \<Rightarrow> RedisPublisher" where
  "Redis_Unsubscribe p i =
     (case rp_subs p i of
        Some s \<Rightarrow> p\<lparr>rp_subs := (rp_subs p)(i := None)\<rparr>
      | None \<Rightarrow> p)"

section \<open>The listener\<close>

definition offer :: "Event \<Rightarrow> redisSub \<Rightarrow> redisSub" where
  "offer event s =
     (if rs_docID s \<noteq> ev_DocumentID event then s
      else if int (length (rs_queue s)) < rs_cap s \<or> rs_waiting s
      then s\<lparr>rs_queue := rs_queue s @ [cloneEvent event], rs_waiting := False\<rparr>
      else s)"

fun listen :: "'f redis_json \<Rightarrow> string list \<Rightarrow> RedisPublisher \<Rightarrow> RedisPublisher" where
  "listen J [] p = p"
| "listen J (payload # ch) p =
     (case js_Event J payload of
        Inl err \<Rightarrow> listen J ch p
      | Inr event \<Rightarrow> listen J ch (p\<lparr>rp_subs := (\<lambda>i. map_option (offer event) (rp_subs p i))\<rparr>))"

text \<open>As a \<open>Publisher\<close>: publishing concerns the redis server only, subscribing the process only.\<close>

definition Redis_Publisher :: "'r redis \<Rightarrow> 'f redis_json \<Rightarrow> ('r \<times> RedisPublisher) Publisher" where
  "Redis_Publisher R J =
     \<lparr>Publish = (\<lambda>(s, p) event. (Redis_Publish R J s event, p)),
      Subscribe = (\<lambda>(s, p) docID buffer. case Redis_Subscribe p docID buffer of (r, p) \<Rightarrow> (r, (s, p))),
      Unsubscribe = (\<lambda>(s, p) i. (s, Redis_Unsubscribe p i))\<rparr>"

definition redis_inbox :: "RedisPublisher \<Rightarrow> int \<Rightarrow> (string \<times> Event list) option" where
  "redis_inbox p i = map_option (\<lambda>s. (rs_docID s, rs_queue s)) (rp_subs p i)"

interpretation redis_pub: publisher_contract "Redis_Publisher R J" "\<lambda>(s, p). redis_inbox p"
  by unfold_locales (auto simp: Redis_Publisher_def)

section \<open>From a publication to a subscription\<close>

text \<open>The messages sent on a channel, oldest first.\<close>

locale redis_channels =
  fixes R :: "'r redis" and sent :: "'r \<Rightarrow> string \<Rightarrow> string list"
  assumes PUBLISH_sent: "\<exists>s'. rd_PUBLISH R s ch m = (Inr (), s') \<and> sent s' = (sent s)(ch := sent s ch @ [m])"

text \<open>An empty raw message is encoded as \<open>null\<close> and decoded as the text \<open>null\<close>.\<close>

definition wire_raw :: "string \<Rightarrow> string" where
  "wire_raw raw = (if raw = '''' then ''null'' else raw)"

definition wire_event :: "Event \<Rightarrow> Event" where
  "wire_event e = e\<lparr>ev_Operation := wire_raw (ev_Operation e), ev_Document := wire_raw (ev_Document e)\<rparr>"

definition event_survives :: "'f redis_json \<Rightarrow> Event \<Rightarrow> bool" where
  "event_survives J e \<longleftrightarrow>
     (\<exists>raw. js_Marshal J (Event_MarshalJSON e) = Inr raw \<and> js_Event J raw = Inr (wire_event e))"

text \<open>The listener does what the memory publisher does with the events as they come off the wire.\<close>

definition as_memory_sub :: "redisSub \<Rightarrow> memSubscriber" where
  "as_memory_sub s =
     \<lparr>sub_docID = rs_docID s, sub_cap = rs_cap s, sub_queue = rs_queue s, sub_waiting = rs_waiting s\<rparr>"

definition as_memory_publisher :: "RedisPublisher \<Rightarrow> MemoryPublisher" where
  "as_memory_publisher p =
     \<lparr>pub_subs = (\<lambda>i. map_option as_memory_sub (rp_subs p i)), pub_next = rp_next p\<rparr>"

lemma as_memory_offer: "as_memory_sub (offer e s) = trySend (as_memory_sub s) e"
  by (simp add: as_memory_sub_def offer_def trySend_def)

lemma as_memory_inbox: "memory_inbox (as_memory_publisher p) = redis_inbox p"
  by (auto simp: fun_eq_iff memory_inbox_def redis_inbox_def as_memory_publisher_def as_memory_sub_def
    option.map_comp comp_def)

lemma as_memory_Subscribe:
  "Memory_Subscribe (as_memory_publisher p) docID buffer =
     (case Redis_Subscribe p docID buffer of (r, p') \<Rightarrow> (r, as_memory_publisher p'))"
  by (auto simp: Memory_Subscribe_def Redis_Subscribe_def as_memory_publisher_def as_memory_sub_def Let_def)

lemma as_memory_Unsubscribe:
  "Memory_Unsubscribe (as_memory_publisher p) i = as_memory_publisher (Redis_Unsubscribe p i)"
  by (auto simp: Memory_Unsubscribe_def Redis_Unsubscribe_def as_memory_publisher_def split: option.split)

lemma listen_publishes:
  "list_all2 (\<lambda>raw e. js_Event J raw = Inr e) ms es \<Longrightarrow>
   as_memory_publisher (listen J ms p) = publish_all Memory_Publisher (as_memory_publisher p) es"
proof (induction arbitrary: p rule: list_all2_induct)
  case (Cons raw ms e es)
  have "as_memory_publisher (p\<lparr>rp_subs := (\<lambda>i. map_option (offer e) (rp_subs p i))\<rparr>)
      = Memory_Publish (as_memory_publisher p) e"
    by (auto simp: as_memory_publisher_def Memory_Publish_def fun_eq_iff option.map_comp comp_def as_memory_offer)
  then show ?case using Cons by simp
qed simp

fun Redis_Publishes :: "'r redis \<Rightarrow> 'f redis_json \<Rightarrow> 'r \<Rightarrow> Event list \<Rightarrow> 'r" where
  "Redis_Publishes R J s [] = s"
| "Redis_Publishes R J s (e # es) = Redis_Publishes R J (Redis_Publish R J s e) es"

lemma list_all2_subseq:
  "list_all2 P xs ys \<Longrightarrow> subseq xs' xs \<Longrightarrow> \<exists>ys'. list_all2 P xs' ys' \<and> subseq ys' ys"
proof (induction arbitrary: xs' rule: list_all2_induct)
  case Nil
  then show ?case by (cases xs') auto
next
  case (Cons x xs y ys)
  show ?case
  proof (cases "\<exists>zs. xs' = x # zs \<and> subseq zs xs")
    case True
    then obtain zs where zs: "xs' = x # zs" "subseq zs xs" by blast
    obtain ys' where "list_all2 P zs ys'" "subseq ys' ys" using Cons.IH [OF zs(2)] by blast
    then show ?thesis using Cons.hyps(1) zs(1) by (intro exI [of _ "y # ys'"]) auto
  next
    case False
    then have "subseq xs' xs" using Cons.prems by (cases xs') (auto split: if_splits)
    then show ?thesis using Cons.IH by (meson list_emb_Cons)
  qed
qed

context redis_channels
begin

lemma Publishes_sent:
  "\<forall>e \<in> set es. event_survives J e \<Longrightarrow>
   \<exists>ms. sent (Redis_Publishes R J s es) redisEventsChannel = sent s redisEventsChannel @ ms
     \<and> list_all2 (\<lambda>raw e. js_Event J raw = Inr e) ms (map wire_event es)"
proof (induction es arbitrary: s)
  case (Cons e es)
  then obtain raw where raw: "js_Marshal J (Event_MarshalJSON e) = Inr raw" "js_Event J raw = Inr (wire_event e)"
    by (auto simp: event_survives_def)
  obtain s' where s': "rd_PUBLISH R s redisEventsChannel raw = (Inr (), s')"
      "sent s' = (sent s)(redisEventsChannel := sent s redisEventsChannel @ [raw])"
    using PUBLISH_sent by blast
  obtain ms where ms: "sent (Redis_Publishes R J s' es) redisEventsChannel = sent s' redisEventsChannel @ ms"
      "list_all2 (\<lambda>raw e. js_Event J raw = Inr e) ms (map wire_event es)"
    using Cons.IH [of s'] Cons.prems by auto
  then show ?case
    using raw s' by (intro exI [of _ "raw # ms"]) (simp add: Redis_Publish_def)
qed simp

lemma events_of_wire: "events_of d (map wire_event es) = map wire_event (events_of d es)"
  by (induction es) (auto simp: events_of_def wire_event_def)

theorem subscription_sees_subsequence:
  assumes "\<forall>e \<in> set es. event_survives J e" and "sent s redisEventsChannel = []"
    and "subseq delivered (sent (Redis_Publishes R J s es) redisEventsChannel)"
    and "redis_inbox p i = Some (d, q)"
  shows "\<exists>new. redis_inbox (listen J delivered p) i = Some (d, q @ new)
    \<and> subseq new (map wire_event (events_of d es))"
proof -
  obtain ms where ms: "sent (Redis_Publishes R J s es) redisEventsChannel = ms"
      "list_all2 (\<lambda>raw e. js_Event J raw = Inr e) ms (map wire_event es)"
    using Publishes_sent [OF assms(1), of s] assms(2) by auto
  obtain es' where es': "list_all2 (\<lambda>raw e. js_Event J raw = Inr e) delivered es'"
      "subseq es' (map wire_event es)"
    using list_all2_subseq [OF ms(2)] assms(3) ms(1) by blast
  have "memory_inbox (as_memory_publisher p) i = Some (d, q)" using assms(4) by (simp add: as_memory_inbox)
  from memory_pub.publish_all_queue [OF this, of es'] obtain new where
    new: "redis_inbox (listen J delivered p) i = Some (d, q @ new)" "subseq new (events_of d es')"
    by (auto simp: listen_publishes [OF es'(1), symmetric] as_memory_inbox)
  have "subseq (events_of d es') (events_of d (map wire_event es))"
    unfolding events_of_def using es'(2) by (rule subseq_filter)
  then show ?thesis using new subseq_order.order_trans by (metis events_of_wire)
qed

end

end
