(* ===== verification/RedisReference.thy ===== *)
theory RedisReference
  imports RedisRefinement RedisLocks RedisPublishing ReferenceJson
begin

text \<open>
  A concrete redis server and a concrete encoding of records, on which the contracts of
  \<open>RedisStore\<close> and \<open>RedisLocks\<close> are discharged and the witnesses are evaluated.  Neither is a model of code of the
  repository.
\<close>

section \<open>A keyspace with a clock\<close>

datatype ref_value = VHash "(string \<times> string) list" | VList "string list" | VString string

record ref_redis =
  rr_clock :: nat
  rr_keys :: "string \<Rightarrow> (ref_value \<times> nat option) option"
  rr_sent :: "string \<Rightarrow> string list"

fun view_value :: "ref_value \<Rightarrow> redis_value" where
  "view_value (VHash h) = RHash (map_of h)"
| "view_value (VList xs) = RList xs"
| "view_value (VString v) = RString v"

text \<open>A key is there until its instant.\<close>

definition rr_live :: "ref_redis \<Rightarrow> string \<Rightarrow> (ref_value \<times> nat option) option" where
  "rr_live s k =
     (case rr_keys s k of
        Some (v, Some u) \<Rightarrow> if rr_clock s < u then Some (v, Some u) else None
      | r \<Rightarrow> r)"

definition rr_view :: "ref_redis \<Rightarrow> string \<Rightarrow> redis_value option" where
  "rr_view s k = map_option (\<lambda>(v, u). view_value v) (rr_live s k)"

definition rr_expires :: "ref_redis \<Rightarrow> string \<Rightarrow> nat option" where
  "rr_expires s k = (case rr_live s k of Some (v, u) \<Rightarrow> u | None \<Rightarrow> None)"

definition rr_wait :: "nat \<Rightarrow> ref_redis \<Rightarrow> ref_redis" where
  "rr_wait n s = s\<lparr>rr_clock := rr_clock s + n\<rparr>"

definition rr_put :: "ref_redis \<Rightarrow> string \<Rightarrow> ref_value \<Rightarrow> nat option \<Rightarrow> ref_redis" where
  "rr_put s k v u = s\<lparr>rr_keys := (rr_keys s)(k \<mapsto> (v, u))\<rparr>"

definition emptyRedis :: ref_redis where
  "emptyRedis = \<lparr>rr_clock = 0, rr_keys = (\<lambda>_. None), rr_sent = (\<lambda>_. [])\<rparr>"

definition wrongType :: go_error where
  "wrongType = LibError ''WRONGTYPE Operation against a key holding the wrong kind of value''"

definition rr_hash :: "ref_redis \<Rightarrow> string \<Rightarrow> ((string \<times> string) list \<times> nat option) res" where
  "rr_hash s k =
     (case rr_live s k of None \<Rightarrow> Inr ([], None) | Some (VHash h, u) \<Rightarrow> Inr (h, u) | _ \<Rightarrow> Inl wrongType)"

definition rr_list :: "ref_redis \<Rightarrow> string \<Rightarrow> (string list \<times> nat option) res" where
  "rr_list s k =
     (case rr_live s k of None \<Rightarrow> Inr ([], None) | Some (VList xs, u) \<Rightarrow> Inr (xs, u) | _ \<Rightarrow> Inl wrongType)"

definition ref_redis_api :: "ref_redis redis" where
  "ref_redis_api =
     \<lparr>rd_HSETNX = (\<lambda>s k f v. bindS (rr_hash s k, s) (\<lambda>(h, u) s.
        if map_of h f = None then (Inr True, rr_put s k (VHash (AList.update f v h)) u) else (Inr False, s))),
      rd_HSET = (\<lambda>s k fvs. bindS (rr_hash s k, s) (\<lambda>(h, u) s.
        (Inr (), rr_put s k (VHash (fold (\<lambda>(f, v). AList.update f v) fvs h)) u))),
      rd_HGETALL = (\<lambda>s k. map_sum id fst (rr_hash s k)),
      rd_EXISTS = (\<lambda>s k. Inr (if rr_live s k = None then 0 else 1)),
      rd_DEL = (\<lambda>s ks. (Inr (int (length (filter (\<lambda>k. rr_live s k \<noteq> None) (remdups ks)))),
        s\<lparr>rr_keys := (\<lambda>k. if k \<in> set ks then None else rr_keys s k)\<rparr>)),
      rd_TYPE = (\<lambda>s k. Inr (type_name (rr_view s k))),
      rd_RPUSH = (\<lambda>s k v. bindS (rr_list s k, s) (\<lambda>(xs, u) s. (Inr (), rr_put s k (VList (xs @ [v])) u))),
      rd_LRANGE = (\<lambda>s k a b. map_sum id (\<lambda>(xs, u). lrange xs a b) (rr_list s k)),
      rd_GET = (\<lambda>s k. case rr_live s k of None \<Rightarrow> Inr None | Some (VString v, u) \<Rightarrow> Inr (Some v)
        | _ \<Rightarrow> Inl wrongType),
      rd_SETNX = (\<lambda>s k v ttl. if rr_live s k = None
        then (Inr True, rr_put s k (VString v) (if ttl = 0 then None else Some (rr_clock s + ttl)))
        else (Inr False, s)),
      rd_PUBLISH = (\<lambda>s ch m. (Inr (), s\<lparr>rr_sent := (rr_sent s)(ch := rr_sent s ch @ [m])\<rparr>))\<rparr>"

lemma rr_live_put: "rr_live (rr_put s k v u) k' =
    (if k' = k then (case u of Some t \<Rightarrow> if rr_clock s < t then Some (v, u) else None | None \<Rightarrow> Some (v, u))
     else rr_live s k')"
  by (auto simp: rr_live_def rr_put_def split: option.split)

lemma rr_live_alive: "rr_live s k = Some (v, Some t) \<Longrightarrow> rr_clock s < t"
  by (auto simp: rr_live_def split: option.splits if_splits)

lemma rr_live_delete:
  "rr_live (s\<lparr>rr_keys := (\<lambda>k. if k \<in> A then None else rr_keys s k)\<rparr>) k = (if k \<in> A then None else rr_live s k)"
  by (auto simp: rr_live_def split: option.split)

lemma rr_live_wait: "rr_live (rr_wait n s) k =
    (case rr_live s k of Some (v, Some u) \<Rightarrow> if u \<le> rr_clock s + n then None else Some (v, Some u) | r \<Rightarrow> r)"
  by (auto simp: rr_live_def rr_wait_def split: option.split)

lemma rr_hash_view:
  "hash_of (rr_view s k) = Some h \<Longrightarrow> \<exists>xs u. rr_hash s k = Inr (xs, u) \<and> map_of xs = h
     \<and> (\<forall>t. u = Some t \<longrightarrow> rr_clock s < t)"
  by (cases "rr_live s k"; cases "fst (the (rr_live s k))")
    (auto simp: rr_view_def rr_hash_def fun_eq_iff dest: rr_live_alive)

lemma rr_list_view:
  "list_of (rr_view s k) = Some xs \<Longrightarrow> \<exists>u. rr_list s k = Inr (xs, u) \<and> (\<forall>t. u = Some t \<longrightarrow> rr_clock s < t)"
  by (cases "rr_live s k"; cases "fst (the (rr_live s k))")
    (auto simp: rr_view_def rr_list_def dest: rr_live_alive)

lemma rr_view_put:
  "(\<forall>t. u = Some t \<longrightarrow> rr_clock s < t) \<Longrightarrow> rr_view (rr_put s k v u) = (rr_view s)(k \<mapsto> view_value v)"
  by (auto simp: rr_view_def rr_live_put fun_eq_iff split: option.split)

lemma map_of_updates: "map_of (fold (\<lambda>(f, v). AList.update f v) fvs h) = (map_of h)(map fst fvs [\<mapsto>] map snd fvs)"
  by (induction fvs arbitrary: h) (auto simp: update_conv')

interpretation ref_redis: redis_contract ref_redis_api rr_view
proof
  fix s k h f v w fvs xs ks a b ttl
  show "hash_of (rr_view s k) = Some h \<Longrightarrow> h f = None \<Longrightarrow>
      \<exists>s'. rd_HSETNX ref_redis_api s k f v = (Inr True, s') \<and> rr_view s' = (rr_view s)(k \<mapsto> RHash (h(f \<mapsto> v)))"
    using rr_hash_view [of s k h] by (auto simp: ref_redis_api_def rr_view_put update_conv')
  show "hash_of (rr_view s k) = Some h \<Longrightarrow> h f = Some w \<Longrightarrow> rd_HSETNX ref_redis_api s k f v = (Inr False, s)"
    using rr_hash_view [of s k h] by (auto simp: ref_redis_api_def)
  show "hash_of (rr_view s k) = Some h \<Longrightarrow> fvs \<noteq> [] \<Longrightarrow> \<exists>s'. rd_HSET ref_redis_api s k fvs = (Inr (), s')
      \<and> rr_view s' = (rr_view s)(k \<mapsto> RHash (h(map fst fvs [\<mapsto>] map snd fvs)))"
    using rr_hash_view [of s k h] by (auto simp: ref_redis_api_def rr_view_put map_of_updates)
  show "hash_of (rr_view s k) = Some h \<Longrightarrow> \<exists>vals. rd_HGETALL ref_redis_api s k = Inr vals \<and> map_of vals = h"
    using rr_hash_view [of s k h] by (auto simp: ref_redis_api_def)
  show "rd_EXISTS ref_redis_api s k = Inr (if rr_view s k = None then 0 else 1)"
    by (simp add: ref_redis_api_def rr_view_def)
  show "ks \<noteq> [] \<Longrightarrow> \<exists>n s'. rd_DEL ref_redis_api s ks = (Inr n, s')
      \<and> rr_view s' = (\<lambda>k. if k \<in> set ks then None else rr_view s k)"
    by (simp add: ref_redis_api_def rr_view_def rr_live_delete fun_eq_iff)
  show "rd_TYPE ref_redis_api s k = Inr (type_name (rr_view s k))" by (simp add: ref_redis_api_def)
  show "list_of (rr_view s k) = Some xs \<Longrightarrow> \<exists>s'. rd_RPUSH ref_redis_api s k v = (Inr (), s')
      \<and> rr_view s' = (rr_view s)(k \<mapsto> RList (xs @ [v]))"
    using rr_list_view [of s k xs] by (auto simp: ref_redis_api_def rr_view_put)
  show "list_of (rr_view s k) = Some xs \<Longrightarrow> rd_LRANGE ref_redis_api s k a b = Inr (lrange xs a b)"
    using rr_list_view [of s k xs] by (auto simp: ref_redis_api_def)
  show "rr_view s k = Some (RString v) \<Longrightarrow> rd_GET ref_redis_api s k = Inr (Some v)"
    by (cases "fst (the (rr_live s k))") (auto simp: ref_redis_api_def rr_view_def split: ref_value.splits)
  show "rr_view s k = None \<Longrightarrow> rd_GET ref_redis_api s k = Inr None"
    by (simp add: ref_redis_api_def rr_view_def)
  show "rr_view s k = None \<Longrightarrow> 0 < ttl \<Longrightarrow> \<exists>s'. rd_SETNX ref_redis_api s k v ttl = (Inr True, s')
      \<and> rr_view s' = (rr_view s)(k \<mapsto> RString v)"
    by (simp add: ref_redis_api_def rr_view_put) (simp add: rr_view_def)
  show "rr_view s k \<noteq> None \<Longrightarrow> rd_SETNX ref_redis_api s k v ttl = (Inr False, s)"
    by (simp add: ref_redis_api_def rr_view_def)
qed


lemma rr_clock_put [simp]: "rr_clock (rr_put s k v u) = rr_clock s"
  by (simp add: rr_put_def)

lemma rr_expires_put:
  "(\<forall>t. u = Some t \<longrightarrow> rr_clock s < t) \<Longrightarrow> rr_expires (rr_put s k v u) = (rr_expires s)(k := u)"
  by (auto simp: rr_expires_def rr_live_put fun_eq_iff split: option.split)

lemma rr_outlives: "outlives rr_view rr_expires s k t \<longleftrightarrow>
    (case rr_live s k of None \<Rightarrow> False | Some (v, Some u) \<Rightarrow> t < u | Some (v, None) \<Rightarrow> True)"
  by (auto simp: outlives_def rr_view_def rr_expires_def split: option.split)

interpretation ref_redis: redis_clock ref_redis_api rr_view rr_clock rr_expires rr_wait
proof
  fix s s' :: ref_redis and k v ks ttl n u removed
  show "rr_clock s' = rr_clock s \<and> rr_expires s' = (rr_expires s)(k \<mapsto> rr_clock s + ttl)"
    if "rd_SETNX ref_redis_api s k v ttl = (Inr True, s')" "0 < ttl"
    using that by (auto simp: ref_redis_api_def rr_expires_put split: if_splits)
  show "rr_clock s' = rr_clock s \<and> rr_expires s' = (\<lambda>k. if k \<in> set ks then None else rr_expires s k)"
    if "rd_DEL ref_redis_api s ks = (Inr removed, s')"
    using that by (auto simp: ref_redis_api_def rr_expires_def rr_live_delete fun_eq_iff)
  show "rr_clock s < u" if "rr_view s k \<noteq> None" "rr_expires s k = Some u"
    using that rr_live_alive [of s k _ u] by (auto simp: rr_expires_def split: option.splits)
  show "rr_clock (rr_wait n s) = rr_clock s + n" by (simp add: rr_wait_def)
  show "rr_view (rr_wait n s) k = (if outlives rr_view rr_expires s k (rr_clock s + n) then rr_view s k else None)"
    by (auto simp: rr_outlives rr_view_def rr_live_wait split: option.split)
  show "rr_expires (rr_wait n s) k =
      (if outlives rr_view rr_expires s k (rr_clock s + n) then rr_expires s k else None)"
    by (auto simp: rr_outlives rr_expires_def rr_live_wait split: option.split)
qed

interpretation ref_redis: redis_channels ref_redis_api rr_sent
  by unfold_locales (simp add: ref_redis_api_def)

section \<open>Encoding\<close>

text \<open>A raw message is encoded as the text it holds; one that is not JSON is refused.\<close>

fun encodes :: "int goAny \<Rightarrow> jnode option"
  and encode_all :: "int goAny list \<Rightarrow> jnode list option"
  and encode_fields :: "(string \<times> int goAny) list \<Rightarrow> (string \<times> jnode) list option" where
  "encodes ANil = Some JNull"
| "encodes (ABool b) = Some (JBool b)"
| "encodes (AInt i) = Some (JNum i)"
| "encodes (AFloat i) = Some (JNum i)"
| "encodes (AStr s) = Some (JStr s)"
| "encodes (ARaw s) = parse_text s"
| "encodes (AList xs) = map_option JArr (encode_all xs)"
| "encodes (AMap kvs) = map_option JObj (encode_fields kvs)"
| "encode_all [] = Some []"
| "encode_all (x # xs) =
     (case encodes x of None \<Rightarrow> None | Some n \<Rightarrow> map_option (\<lambda>ns. n # ns) (encode_all xs))"
| "encode_fields [] = Some []"
| "encode_fields ((k, x) # kvs) =
     (case encodes x of None \<Rightarrow> None | Some n \<Rightarrow> map_option (\<lambda>ns. (k, n) # ns) (encode_fields kvs))"

fun field_int :: "(string \<times> jnode) list \<Rightarrow> string \<Rightarrow> int" where
  "field_int kvs k = (case map_of kvs k of Some (JNum i) \<Rightarrow> i | _ \<Rightarrow> 0)"

fun field_str :: "(string \<times> jnode) list \<Rightarrow> string \<Rightarrow> string" where
  "field_str kvs k = (case map_of kvs k of Some (JStr s) \<Rightarrow> s | _ \<Rightarrow> '''')"

fun field_raw :: "(string \<times> jnode) list \<Rightarrow> string \<Rightarrow> string" where
  "field_raw kvs k = (case map_of kvs k of Some n \<Rightarrow> print_json n | None \<Rightarrow> '''')"

fun field_id :: "(string \<times> jnode) list \<Rightarrow> string \<Rightarrow> OpID" where
  "field_id kvs k =
     (case map_of kvs k of
        Some (JObj fs) \<Rightarrow> \<lparr>id_Source = field_str fs ''source'', id_Sequence = field_int fs ''seq''\<rparr>
      | _ \<Rightarrow> noOpID)"

definition decode_record :: "string \<Rightarrow> OpRecord res" where
  "decode_record raw =
     (case parse_text raw of
        Some (JObj kvs) \<Rightarrow> Inr
          \<lparr>op_DocumentID = field_str kvs ''documentId'', op_Version = field_int kvs ''version'',
           op_BaseVersion = field_int kvs ''baseVersion'', op_ID = field_id kvs ''id'',
           op_Source = field_str kvs ''source'', op_Sequence = field_int kvs ''seq'',
           op_SubmittedOp = field_raw kvs ''submittedOp'', op_Op = field_raw kvs ''op''\<rparr>
      | _ \<Rightarrow> Inl (LibError ''json''))"

definition decode_event :: "string \<Rightarrow> Event res" where
  "decode_event raw =
     (case parse_text raw of
        Some (JObj kvs) \<Rightarrow> Inr
          \<lparr>ev_Type = field_str kvs ''type'', ev_DocumentID = field_str kvs ''documentId'',
           ev_Version = field_int kvs ''version'', ev_ID = field_id kvs ''id'',
           ev_Source = field_str kvs ''source'', ev_Sequence = field_int kvs ''seq'',
           ev_Operation = field_raw kvs ''op'', ev_Document = field_raw kvs ''document''\<rparr>
      | _ \<Rightarrow> Inl (LibError ''json''))"

definition ref_codec :: "int redis_json" where
  "ref_codec =
     \<lparr>js_Marshal = (\<lambda>x. case encodes x of Some n \<Rightarrow> Inr (print_json n) | None \<Rightarrow> Inl (LibError ''json'')),
      js_OpRecord = decode_record, js_Event = decode_event\<rparr>"

text \<open>Every record whose operations are printed JSON survives.\<close>

lemma map_of_omitempty: "map_of (omitempty e f @ fs) k = (if \<not> e \<and> k = fst f then Some (snd f) else map_of fs k)"
  by (cases f) (simp add: omitempty_def)

lemma encode_fields_append:
  "encode_fields (xs @ ys) =
     (case encode_fields xs of None \<Rightarrow> None | Some ns \<Rightarrow> map_option (\<lambda>ms. ns @ ms) (encode_fields ys))"
  by (induction xs; cases "encode_fields ys") (auto split: option.splits)

lemma encode_omitempty:
  "encode_fields (omitempty e (k, x)) =
     (if e then Some [] else map_option (\<lambda>n. [(k, n)]) (encodes x))"
  by (simp add: omitempty_def split: option.split)

lemma print_json_ne [simp]: "print_json n \<noteq> ''''"
  using value_start_print [of n "[]"] by (auto simp: value_start_def)

lemma encodes_raw: "encodes (rawField (print_json n)) = Some (norm n)"
  by (simp add: rawField_def parse_print)

theorem printed_record_storable:
  assumes "op_Op r = print_json n" and "op_SubmittedOp r = '''' \<or> op_SubmittedOp r = print_json m"
  shows "storable ref_codec r"
proof -
  let ?id = "(if id_Source (op_ID r) = '''' then [] else [(''source'', JStr (id_Source (op_ID r)))])
      @ (if id_Sequence (op_ID r) = 0 then [] else [(''seq'', JNum (id_Sequence (op_ID r)))])"
  let ?fs = "[(''documentId'', JStr (op_DocumentID r)), (''version'', JNum (op_Version r)),
       (''baseVersion'', JNum (op_BaseVersion r))]
      @ (if isZero (op_ID r) then [] else [(''id'', JObj ?id)])
      @ (if op_Source r = '''' then [] else [(''source'', JStr (op_Source r))])
      @ (if op_Sequence r = 0 then [] else [(''seq'', JNum (op_Sequence r))])
      @ (if op_SubmittedOp r = '''' then [] else [(''submittedOp'', norm m)])
      @ [(''op'', norm n)]"
  have "encodes (OpID_fields (op_ID r)) = Some (JObj ?id)"
    by (simp add: OpID_fields_def encode_fields_append encode_omitempty)
  then have "encodes (OpRecord_MarshalJSON r) = Some (JObj ?fs)"
    using assms by (auto simp: OpRecord_MarshalJSON_def encode_fields_append encode_omitempty encodes_raw)
  then have "js_Marshal ref_codec (OpRecord_MarshalJSON r) = Inr (print_json (JObj ?fs))"
    by (simp add: ref_codec_def del: print_json.simps)
  moreover have "norm (JObj ?fs) = JObj ?fs"
    by simp
  then have "parse_text (print_json (JObj ?fs)) = Some (JObj ?fs)" by (simp only: parse_print)
  then have "decode_record (print_json (JObj ?fs)) = Inr r"
    using assms by (cases r; cases "op_ID r")
      (auto simp: decode_record_def isZero_def noOpID_def simp del: print_json.simps norm.simps)
  ultimately show ?thesis by (auto simp: storable_def ref_codec_def)
qed


theorem printed_event_survives:
  assumes "ev_Operation e = '''' \<or> ev_Operation e = print_json n"
    and "ev_Document e = '''' \<or> ev_Document e = print_json m"
  shows "event_survives ref_codec e"
proof -
  let ?raw = "\<lambda>s x. if s = '''' then JNull else norm x"
  let ?id = "(if id_Source (ev_ID e) = '''' then [] else [(''source'', JStr (id_Source (ev_ID e)))])
      @ (if id_Sequence (ev_ID e) = 0 then [] else [(''seq'', JNum (id_Sequence (ev_ID e)))])"
  let ?fs = "(if ev_Type e = '''' then [] else [(''type'', JStr (ev_Type e))])
      @ [(''documentId'', JStr (ev_DocumentID e)), (''version'', JNum (ev_Version e))]
      @ (if isZero (ev_ID e) then [] else [(''id'', JObj ?id)])
      @ (if ev_Source e = '''' then [] else [(''source'', JStr (ev_Source e))])
      @ (if ev_Sequence e = 0 then [] else [(''seq'', JNum (ev_Sequence e))])
      @ [(''op'', ?raw (ev_Operation e) n), (''document'', ?raw (ev_Document e) m)]"
  have "encodes (OpID_fields (ev_ID e)) = Some (JObj ?id)"
    by (simp add: OpID_fields_def encode_fields_append encode_omitempty)
  moreover have "encodes (rawField (ev_Operation e)) = Some (?raw (ev_Operation e) n)"
      "encodes (rawField (ev_Document e)) = Some (?raw (ev_Document e) m)"
    using assms encodes_raw [of n] encodes_raw [of m] by (auto simp: rawField_def)
  ultimately have "encodes (Event_MarshalJSON e) = Some (JObj ?fs)"
    by (simp add: Event_MarshalJSON_def encode_fields_append encode_omitempty)
  then have "js_Marshal ref_codec (Event_MarshalJSON e) = Inr (print_json (JObj ?fs))"
    by (simp add: ref_codec_def del: print_json.simps)
  moreover have "norm (JObj ?fs) = JObj ?fs"
    by simp
  then have "parse_text (print_json (JObj ?fs)) = Some (JObj ?fs)" by (simp only: parse_print)
  then have "decode_event (print_json (JObj ?fs)) = Inr (wire_event e)"
    using assms by (cases e; cases "ev_ID e")
      (auto simp: decode_event_def isZero_def noOpID_def wire_event_def wire_raw_def
        simp del: print_json.simps(6,7) norm.simps)
  ultimately show ?thesis by (auto simp: event_survives_def ref_codec_def)
qed

lemma empty_holds: "holds J (rr_view emptyRedis) NewMemoryBackend"
  by (simp add: holds_def doc_holds_def NewMemoryBackend_def rr_view_def rr_live_def emptyRedis_def)

end
