(* ===== verification/ServerSimulation.thy ===== *)
theory ServerSimulation
  imports ServerBehaviour
begin

text \<open>
  One server over two backends.  A backend that answers like another for the calls a server makes
  (locale \<open>backend_simulation\<close>) may take its place: every method of the server returns the same and
  leaves the same cache, locks and publisher.  The proof goes method by method with the relation
  \<open>alike\<close> between two outcomes.
\<close>

section \<open>The same server over another backend\<close>

definition with_backend ::
    "'t Backend \<Rightarrow> ('s, 'l, 'p, 'v, 'f, 'j) server_config \<Rightarrow> ('t, 'l, 'p, 'v, 'f, 'j) server_config" where
  "with_backend B C =
     \<lparr>cfg_backend = B, cfg_locker = cfg_locker C, cfg_pub = cfg_pub C, cfg_env = cfg_env C,
      cfg_ot = cfg_ot C, cfg_json = cfg_json C, cfg_depth = cfg_depth C,
      cfg_maxRebaseGap = cfg_maxRebaseGap C\<rparr>"

lemma with_backend_simps [simp]:
  "cfg_backend (with_backend B C) = B" "cfg_locker (with_backend B C) = cfg_locker C"
  "cfg_pub (with_backend B C) = cfg_pub C" "cfg_env (with_backend B C) = cfg_env C"
  "cfg_ot (with_backend B C) = cfg_ot C" "cfg_json (with_backend B C) = cfg_json C"
  "cfg_depth (with_backend B C) = cfg_depth C" "cfg_maxRebaseGap (with_backend B C) = cfg_maxRebaseGap C"
  by (simp_all add: with_backend_def)

text \<open>States that differ in the backend, which is related by \<open>H\<close>; outcomes with equal results and such states.\<close>

definition same_but ::
    "('s \<Rightarrow> 't \<Rightarrow> bool) \<Rightarrow> ('s, 'l, 'p, 'v) server_state \<Rightarrow> ('t, 'l, 'p, 'v) server_state \<Rightarrow> bool" where
  "same_but H st st' \<longleftrightarrow> H (srv_backend st) (srv_backend st') \<and> srv_locks st = srv_locks st'
     \<and> srv_pub st = srv_pub st' \<and> srv_parsedOps st = srv_parsedOps st' \<and> srv_fresh st = srv_fresh st'
     \<and> srv_edits st = srv_edits st'"

fun alike ::
    "('s \<Rightarrow> 't \<Rightarrow> bool) \<Rightarrow> 'a \<times> ('s, 'l, 'p, 'v) server_state \<Rightarrow> 'a \<times> ('t, 'l, 'p, 'v) server_state \<Rightarrow> bool" where
  "alike H (r, st) (r', st') \<longleftrightarrow> r = r' \<and> same_but H st st'"

named_theorems alike_intros

lemma alike_bind:
  assumes "alike H m m'" and "\<And>x st st'. same_but H st st' \<Longrightarrow> alike K (f x st) (f' x st')"
    and "\<And>s t. H s t \<Longrightarrow> K s t"
  shows "alike K (bindS m f) (bindS m' f')"
proof -
  obtain r st where m: "m = (r, st)" by fastforce
  obtain st' where m': "m' = (r, st')" "same_but H st st'" using assms(1) m by (cases m') auto
  show ?thesis
    using m m' assms(2,3) by (cases r) (auto simp: same_but_def)
qed

lemma alike_bind_same [alike_intros]:
  "alike H m m' \<Longrightarrow> (\<And>x st st'. same_but H st st' \<Longrightarrow> alike H (f x st) (f' x st')) \<Longrightarrow>
   alike H (bindS m f) (bindS m' f')"
  by (rule alike_bind)

lemma alike_pair [alike_intros]: "same_but H st st' \<Longrightarrow> alike H (r, st) (r, st')"
  by simp

lemma alike_res [alike_intros]:
  "(\<And>e. r = Inl e \<Longrightarrow> alike H (f e) (f' e)) \<Longrightarrow> (\<And>x. r = Inr x \<Longrightarrow> alike H (g x) (g' x)) \<Longrightarrow>
   alike H (case r of Inl e \<Rightarrow> f e | Inr x \<Rightarrow> g x) (case r of Inl e \<Rightarrow> f' e | Inr x \<Rightarrow> g' x)"
  by (cases r) auto

lemma alike_option [alike_intros]:
  "(r = None \<Longrightarrow> alike H n n') \<Longrightarrow> (\<And>x. r = Some x \<Longrightarrow> alike H (f x) (f' x)) \<Longrightarrow>
   alike H (case r of None \<Rightarrow> n | Some x \<Rightarrow> f x) (case r of None \<Rightarrow> n' | Some x \<Rightarrow> f' x)"
  by (cases r) auto

lemma alike_prod [alike_intros]:
  "(\<And>x y. r = (x, y) \<Longrightarrow> alike H (f x y) (f' x y)) \<Longrightarrow>
   alike H (case r of (x, y) \<Rightarrow> f x y) (case r of (x, y) \<Rightarrow> f' x y)"
  by (cases r) auto

lemma alike_prod_app [alike_intros]:
  "(\<And>x y. r = (x, y) \<Longrightarrow> alike H (f x y s) (f' x y s')) \<Longrightarrow>
   alike H ((case r of (x, y) \<Rightarrow> f x y) s) ((case r of (x, y) \<Rightarrow> f' x y) s')"
  by (cases r) auto

lemma alike_if [alike_intros]:
  "(b \<Longrightarrow> alike H m m') \<Longrightarrow> (\<not> b \<Longrightarrow> alike H n n') \<Longrightarrow> alike H (if b then m else n) (if b then m' else n')"
  by simp

lemma alike_bool [alike_intros]:
  "(b \<Longrightarrow> alike H m m') \<Longrightarrow> (\<not> b \<Longrightarrow> alike H n n') \<Longrightarrow>
   alike H (case b of True \<Rightarrow> m | False \<Rightarrow> n) (case b of True \<Rightarrow> m' | False \<Rightarrow> n')"
  by (cases b) auto

lemma same_but_upd [alike_intros]:
  "same_but H st st' \<Longrightarrow> same_but H (st\<lparr>srv_fresh := n\<rparr>) (st'\<lparr>srv_fresh := n\<rparr>)"
  "same_but H st st' \<Longrightarrow> same_but H (st\<lparr>srv_parsedOps := c\<rparr>) (st'\<lparr>srv_parsedOps := c\<rparr>)"
  "same_but H st st' \<Longrightarrow> same_but H (st\<lparr>srv_locks := l\<rparr>) (st'\<lparr>srv_locks := l\<rparr>)"
  "same_but H st st' \<Longrightarrow> same_but H (st\<lparr>srv_pub := p\<rparr>) (st'\<lparr>srv_pub := p\<rparr>)"
  by (auto simp: same_but_def)

lemma same_but_fields:
  assumes "same_but H st st'"
  shows "srv_locks st' = srv_locks st" "srv_pub st' = srv_pub st" "srv_parsedOps st' = srv_parsedOps st"
    "srv_fresh st' = srv_fresh st" "H (srv_backend st) (srv_backend st')" "srv_edits st' = srv_edits st"
  using assms by (simp_all add: same_but_def)

lemma same_but_touch [alike_intros]: "same_but H st st' \<Longrightarrow> same_but H (touch C st) (touch (with_backend B C) st')"
  by (simp add: same_but_def touch_def)

lemma same_but_countEdits [alike_intros]: "same_but H st st' \<Longrightarrow> same_but H (countEdits st) (countEdits st')"
  by (simp add: same_but_def countEdits_def)

lemma inHand_same: "same_but H st st' \<Longrightarrow> inHand (with_backend B C) d k st' op = inHand C d k st op"
  by (simp add: inHand_def same_but_fields(6))

lemma same_but_publish [alike_intros]:
  "same_but H st st' \<Longrightarrow> same_but H (publish C e st) (publish (with_backend B C) e st')"
  by (auto simp: publish_def same_but_def)

section \<open>Methods that do not reach the backend\<close>

lemma parseOperation_alike [alike_intros]:
  "same_but H st st' \<Longrightarrow> alike H (parseOperation C raw st) (parseOperation (with_backend B C) raw st')"
  unfolding parseOperation_def Let_def with_backend_simps same_but_fields(4)
  by (intro alike_intros | assumption)+

lemma cacheCommittedOperation_alike [alike_intros]:
  "same_but H st st' \<Longrightarrow>
   alike H (cacheCommittedOperation d v op st) (cacheCommittedOperation d v op st')"
  unfolding cacheCommittedOperation_def same_but_fields(3)
  by (intro alike_intros | assumption)+

lemma getOrParse_alike [alike_intros]:
  "same_but H st st' \<Longrightarrow> alike H (getOrParseCommittedOperation C r st)
     (getOrParseCommittedOperation (with_backend B C) r st')"
  unfolding getOrParseCommittedOperation_def same_but_fields(3)
  by (intro alike_intros | assumption)+

lemma inverseOperation_alike [alike_intros]:
  "same_but H st st' \<Longrightarrow> alike H (inverseOperation C r st) (inverseOperation (with_backend B C) r st')"
  unfolding inverseOperation_def with_backend_simps
  by (intro alike_intros | assumption)+

lemma undo_loop_alike [alike_intros]:
  "same_but H st st' \<Longrightarrow> alike H (undo_loop C v rs st) (undo_loop (with_backend B C) v rs st')"
proof (induction rs arbitrary: v st st')
  case (Cons r rs)
  show ?case
    unfolding undo_loop.simps with_backend_simps
    by (intro alike_intros Cons | assumption)+
qed simp

lemma rollback_loop_alike [alike_intros]:
  "same_but H st st' \<Longrightarrow> alike H (rollback_loop C op v rs st) (rollback_loop (with_backend B C) op v rs st')"
proof (induction rs arbitrary: op v st st')
  case (Cons r rs)
  have rest: "alike H (rollback_loop C (inHand C d k s a) b rs s)
      (rollback_loop (with_backend B C) (inHand (with_backend B C) d k s' a) b rs s')"
    if "same_but H s s'" for d k s s' a b
    by (simp only: inHand_same [OF that]) (rule Cons.IH [OF that])
  show ?case
    unfolding rollback_loop.simps with_backend_simps
    by (intro alike_intros rest Cons.prems | assumption)+
qed simp

lemma rebase_loop_alike [alike_intros]:
  "same_but H st st' \<Longrightarrow> alike H (rebase_loop C op rs st) (rebase_loop (with_backend B C) op rs st')"
proof (induction rs arbitrary: op st st')
  case (Cons r rs)
  obtain c s where c: "getOrParseCommittedOperation C r st = (c, s)" by fastforce
  then obtain s' where c': "getOrParseCommittedOperation (with_backend B C) r st' = (c, s')" "same_but H s s'"
    using getOrParse_alike [OF Cons.prems, of C r B]
    by (cases "getOrParseCommittedOperation (with_backend B C) r st'") auto
  show ?case
    unfolding rebase_loop.simps with_backend_simps c c'(1) Let_def prod.case
    by (intro alike_intros c'(2) | simp only: inHand_same | (rule Cons.IH, rule same_but_touch) | assumption)+
qed simp


section \<open>A backend in the place of another\<close>

text \<open>
  What the server asks of a backend: documents are created with some content, a commit follows a read and
  raises the version by one, its record \<open>fits\<close> the store, and the log is read up to the
  version that was read.
\<close>

locale backend_simulation =
  fixes B :: "'s Backend" and B' :: "'t Backend" and H :: "'s \<Rightarrow> 't \<Rightarrow> bool" and fits :: "OpRecord \<Rightarrow> bool"
  assumes GetDoc_same: "H s t \<Longrightarrow> GetDoc B' t d = GetDoc B s d"
    and CreateDoc_same: "H s t \<Longrightarrow> initial \<noteq> '''' \<Longrightarrow>
          fst (CreateDoc B' t d initial) = fst (CreateDoc B s d initial)
          \<and> H (snd (CreateDoc B s d initial)) (snd (CreateDoc B' t d initial))"
    and DeleteDoc_same: "H s t \<Longrightarrow> fst (DeleteDoc B' t d) = fst (DeleteDoc B s d)
          \<and> H (snd (DeleteDoc B s d)) (snd (DeleteDoc B' t d))"
    and CommitOp_same: "H s t \<Longrightarrow> GetDoc B s (doc_DocumentID r) = Inr r0 \<Longrightarrow>
          doc_Version r = i64 (doc_Version r0 + 1) \<Longrightarrow> op_DocumentID op = doc_DocumentID r \<Longrightarrow> fits op \<Longrightarrow>
          fst (CommitOp B' t r op) = fst (CommitOp B s r op)
          \<and> H (snd (CommitOp B s r op)) (snd (CommitOp B' t r op))"
    and GetOps_same: "H s t \<Longrightarrow> GetDoc B s d = Inr r0 \<Longrightarrow> 0 \<le> from \<Longrightarrow> from \<le> to \<Longrightarrow> to \<le> doc_Version r0 \<Longrightarrow>
          GetOps B' t d from to = GetOps B s d from to"

text \<open>The records a call may commit fit, whatever version and operation they get.\<close>

definition submission_fits :: "(OpRecord \<Rightarrow> bool) \<Rightarrow> ('v, 'f) env \<Rightarrow> SubmitRequest \<Rightarrow> bool" where
  "submission_fits fits E req \<longleftrightarrow>
     (\<forall>version op. fits
        \<lparr>op_DocumentID = req_DocumentID req, op_Version = version, op_BaseVersion = req_BaseVersion req,
         op_ID = SubmitRequest_opID req, op_Source = id_Source (SubmitRequest_opID req),
         op_Sequence = id_Sequence (SubmitRequest_opID req), op_SubmittedOp = req_Operation req,
         op_Op = RawMessage E (Operation_ToValue E op)\<rparr>)"

definition rollback_fits :: "(OpRecord \<Rightarrow> bool) \<Rightarrow> ('v, 'f) env \<Rightarrow> string \<Rightarrow> string \<Rightarrow> bool" where
  "rollback_fits fits E docID source \<longleftrightarrow>
     (\<forall>version base op. fits
        \<lparr>op_DocumentID = docID, op_Version = version, op_BaseVersion = base, op_ID = noOpID,
         op_Source = source, op_Sequence = 0, op_SubmittedOp = RawMessage E (Operation_ToValue E op),
         op_Op = RawMessage E (Operation_ToValue E op)\<rparr>)"

lemma alike_weaken: "alike H m m' \<Longrightarrow> (\<And>s t. H s t \<Longrightarrow> K s t) \<Longrightarrow> alike K m m'"
  by (cases m; cases m') (auto simp: same_but_def)

lemma withLock_alike:
  assumes "same_but H st st'"
    and "\<And>st st'. same_but H st st' \<Longrightarrow> alike H (body st) (body' st')"
  shows "alike H (withLock C d body st) (withLock (with_backend B C) d body' st')"
proof -
  obtain r l where L: "Lock (cfg_locker C) (srv_locks st) d = (r, l)" by fastforce
  have *: "alike H (body (st\<lparr>srv_locks := l\<rparr>)) (body' (st'\<lparr>srv_locks := l\<rparr>))"
    using assms by (intro assms(2) alike_intros)
  show ?thesis
    using * assms(1) L same_but_fields(1) [OF assms(1)]
    by (cases r; cases "body (st\<lparr>srv_locks := l\<rparr>)"; cases "body' (st'\<lparr>srv_locks := l\<rparr>)")
      (auto simp: withLock_def same_but_def)
qed

lemma onBackend_alike:
  "same_but K st st' \<Longrightarrow> fst m' = fst m \<Longrightarrow> H (snd m) (snd m') \<Longrightarrow> alike H (onBackend m st) (onBackend m' st')"
  by (simp add: onBackend_def same_but_def)

text \<open>Related backends that are still what they were.\<close>

definition at_backends :: "('s \<Rightarrow> 't \<Rightarrow> bool) \<Rightarrow> 's \<Rightarrow> 't \<Rightarrow> 's \<Rightarrow> 't \<Rightarrow> bool" where
  "at_backends H s0 t0 s t \<longleftrightarrow> s = s0 \<and> t = t0 \<and> H s t"

lemma at_backendsI: "same_but H st st' \<Longrightarrow> same_but (at_backends H (srv_backend st) (srv_backend st')) st st'"
  by (simp add: same_but_def at_backends_def)

lemma at_backendsD:
  assumes "same_but (at_backends H s0 t0) st st'"
  shows "same_but H st st'" "srv_backend st = s0" "srv_backend st' = t0" "H s0 t0"
  using assms by (auto simp: same_but_def at_backends_def)

context backend_simulation
begin

lemma GetDoc_at: "same_but H st st' \<Longrightarrow> GetDoc B' (srv_backend st') d = GetDoc B (srv_backend st) d"
  by (rule GetDoc_same) (simp add: same_but_def)

lemma CreateDoc_at:
  assumes "same_but H st st'" and "initial \<noteq> ''''"
  shows "alike H (onBackend (CreateDoc B (srv_backend st) d initial) st)
    (onBackend (CreateDoc B' (srv_backend st') d initial) st')"
  using CreateDoc_same [OF same_but_fields(5) [OF assms(1)] assms(2)] assms(1) by (simp add: onBackend_alike)

lemma DeleteDoc_at:
  assumes "same_but H st st'"
  shows "alike H (onBackend (DeleteDoc B (srv_backend st) d) st) (onBackend (DeleteDoc B' (srv_backend st') d) st')"
  using DeleteDoc_same [OF same_but_fields(5) [OF assms(1)]] assms(1) by (simp add: onBackend_alike)

lemma CreateDocument_alike:
  assumes "same_but H st st'" and B: "cfg_backend C = B"
  shows "alike H (CreateDocument C d initial st) (CreateDocument (with_backend B' C) d initial st')"
  unfolding CreateDocument_def Let_def with_backend_simps B
  by (rule withLock_alike [OF assms(1)]) (intro alike_intros CreateDoc_at | assumption | simp)+

lemma GetSnapshot_same:
  "same_but H st st' \<Longrightarrow> cfg_backend C = B \<Longrightarrow> GetSnapshot (with_backend B' C) d st' = GetSnapshot C d st"
  by (simp add: GetSnapshot_def GetDoc_at)

lemma GetOps_at:
  "same_but H st st' \<Longrightarrow> GetDoc B (srv_backend st) d = Inr r0 \<Longrightarrow> 0 \<le> from \<Longrightarrow> from \<le> to \<Longrightarrow>
   to \<le> doc_Version r0 \<Longrightarrow> GetOps B' (srv_backend st') d from to = GetOps B (srv_backend st) d from to"
  by (rule GetOps_same) (simp_all add: same_but_def)

lemma GetOperations_same:
  assumes "same_but H st st'" and "cfg_backend C = B"
  shows "GetOperations (with_backend B' C) d from to st' = GetOperations C d from to st"
  using GetDoc_at [OF assms(1), of d] GetOps_at [OF assms(1), of d _ "from" to] assms(2)
  by (cases "GetDoc B (srv_backend st) d") (auto simp: GetOperations_def)

lemma documentAtVersion_alike:
  assumes "same_but H st st'" and "cfg_backend C = B"
  shows "alike H (documentAtVersion C r v st) (documentAtVersion (with_backend B' C) r v st')"
  unfolding documentAtVersion_def GetOperations_same [OF assms] with_backend_simps
  using assms(1) by (intro alike_intros | assumption)+

lemma GetSnapshotAt_alike:
  assumes "same_but H st st'" and B: "cfg_backend C = B"
  shows "alike H (GetSnapshotAt C d v st) (GetSnapshotAt (with_backend B' C) d v st')"
  unfolding GetSnapshotAt_def with_backend_simps GetDoc_at [OF assms(1)] B
  using assms by (intro alike_intros documentAtVersion_alike | assumption)+

lemma Server_Subscribe_alike:
  assumes "same_but H st st'" and B: "cfg_backend C = B"
  shows "alike H (Server_Subscribe C d buffer st) (Server_Subscribe (with_backend B' C) d buffer st')"
  unfolding Server_Subscribe_def with_backend_simps GetDoc_at [OF assms(1)] B same_but_fields(2) [OF assms(1)]
    Let_def
  using assms by (intro alike_intros | assumption)+

lemma DeleteDocument_alike:
  assumes "same_but H st st'" and B: "cfg_backend C = B"
  shows "alike H (DeleteDocument C d base source st) (DeleteDocument (with_backend B' C) d base source st')"
  unfolding DeleteDocument_def with_backend_simps B
  by (rule withLock_alike [OF assms(1)], subst GetDoc_at, assumption)
    (intro alike_intros DeleteDoc_at | assumption | (auto simp: same_but_def publish_def)[1])+

text \<open>A commit after a read that still holds.\<close>

lemma CommitOp_at:
  assumes "same_but (at_backends H s0 t0) st st'" and "GetDoc B s0 (doc_DocumentID r) = Inr r0"
    and "doc_Version r = i64 (doc_Version r0 + 1)" and "op_DocumentID op = doc_DocumentID r" and "fits op"
  shows "alike H (onBackend (CommitOp B (srv_backend st) r op) st)
    (onBackend (CommitOp B' (srv_backend st') r op) st')"
proof -
  note at = at_backendsD [OF assms(1)]
  show ?thesis
    using CommitOp_same [OF at(4) assms(2-5)] at by (intro onBackend_alike) auto
qed

lemma storeCommitted_alike:
  assumes "same_but (at_backends H s0 t0) st st'" and B: "cfg_backend C = B"
    and "GetDoc B s0 (req_DocumentID req) = Inr r" and "submission_fits fits (cfg_env C) req"
  shows "alike H (storeCommitted C r req op rebased x st) (storeCommitted (with_backend B' C) r req op rebased x st')"
  unfolding storeCommitted_def Let_def with_backend_simps B
  using assms at_backendsD(1) [OF assms(1)]
  by (intro alike_intros CommitOp_at | assumption | (simp add: submission_fits_def)[1])+

lemma commitOperation_alike:
  assumes "same_but (at_backends H s0 t0) st st'" and B: "cfg_backend C = B"
    and "GetDoc B s0 (req_DocumentID req) = Inr r" and "submission_fits fits (cfg_env C) req"
  shows "alike H (commitOperation C r req op rebased st) (commitOperation (with_backend B' C) r req op rebased st')"
  unfolding commitOperation_def with_backend_simps inHand_same [OF assms(1)]
  using at_backendsD(1) [OF assms(1)]
  by (intro alike_intros storeCommitted_alike [OF same_but_touch [OF assms(1)] assms(2-4)] | assumption)+

lemma duplicateResult_same:
  assumes "same_but H st st'" and B: "cfg_backend C = B" and r: "GetDoc B (srv_backend st) (req_DocumentID req) = Inr r"
  shows "duplicateResult (with_backend B' C) r req st' = duplicateResult C r req st"
  using GetOps_at [OF assms(1) r, of 0 "doc_Version r"]
  unfolding duplicateResult_def Let_def with_backend_simps B by simp

lemma rebase_alike:
  assumes "same_but (at_backends H s0 t0) st st'" and B: "cfg_backend C = B"
    and r: "GetDoc B s0 (req_DocumentID req) = Inr r" and "0 \<le> req_BaseVersion req"
  shows "alike (at_backends H s0 t0) (rebase C r req op st) (rebase (with_backend B' C) r req op st')"
proof (cases "req_BaseVersion req < doc_Version r")
  case True
  note at = at_backendsD [OF assms(1)]
  have "GetOps B' (srv_backend st') (req_DocumentID req) (req_BaseVersion req) (doc_Version r)
      = GetOps B (srv_backend st) (req_DocumentID req) (req_BaseVersion req) (doc_Version r)"
    using GetOps_at [OF at(1), of "req_DocumentID req" r] r at assms(4) True by simp
  then show ?thesis
    unfolding rebase_def Let_def with_backend_simps B
    using assms(1) by (simp only:) (intro alike_intros | assumption)+
next
  case False
  then show ?thesis using assms(1) by (simp add: rebase_def)
qed

lemma submitLocked_alike:
  assumes st: "same_but H st st'" and B: "cfg_backend C = B" and fit: "submission_fits fits (cfg_env C) req"
  shows "alike H (submitLocked C req st) (submitLocked (with_backend B' C) req st')"
proof (cases "GetDoc B (srv_backend st) (req_DocumentID req)")
  case (Inl e)
  then show ?thesis using GetDoc_at [OF st, of "req_DocumentID req"] st by (simp add: submitLocked_def B)
next
  case (Inr r)
  let ?K = "at_backends H (srv_backend st) (srv_backend st')"
  have K: "same_but ?K st st'" using st by (rule at_backendsI)
  have weaken: "?K s t \<Longrightarrow> H s t" for s t by (auto simp: at_backends_def)
  show ?thesis
  proof (cases "req_BaseVersion req < 0 \<or> req_BaseVersion req > doc_Version r")
    case True
    then show ?thesis using Inr GetDoc_at [OF st, of "req_DocumentID req"] st by (simp add: submitLocked_def B)
  next
    case False
    then have base: "0 \<le> req_BaseVersion req" by simp
    have commit: "alike H
        (case Operation_IsEmpty op of Inl e \<Rightarrow> (Inl e, s) | Inr True \<Rightarrow> (Inr res, s)
         | Inr False \<Rightarrow> commitOperation C r req op reb s)
        (case Operation_IsEmpty op of Inl e \<Rightarrow> (Inl e, s') | Inr True \<Rightarrow> (Inr res, s')
         | Inr False \<Rightarrow> commitOperation (with_backend B' C) r req op reb s')"
      if "same_but ?K s s'" for op reb res s s'
      using that at_backendsD(1) [OF that]
      by (intro alike_intros commitOperation_alike [OF that B Inr fit] | assumption)+
    have run: "alike H
        (bindS (parseOperation C (req_Operation req) st) (\<lambda>op st.
          bindS (rebase C r req op st) (\<lambda>transformed st. F transformed st)))
        (bindS (parseOperation (with_backend B' C) (req_Operation req) st') (\<lambda>op st.
          bindS (rebase (with_backend B' C) r req op st) (\<lambda>transformed st. F' transformed st)))"
      if "\<And>op s s'. same_but ?K s s' \<Longrightarrow> alike H (F op s) (F' op s')" for F F'
      using K weaken that
      by (intro alike_bind [where H = ?K] parseOperation_alike rebase_alike [OF _ B Inr base])
    show ?thesis
      unfolding submitLocked_def B with_backend_simps GetDoc_at [OF st] Let_def
      using st
      by (simp only: Inr sum.case False if_False duplicateResult_same [OF st B Inr])
        (intro alike_intros run commit | assumption)+
  qed
qed

lemma submitCore_alike:
  assumes "same_but H st st'" and "cfg_backend C = B" and "submission_fits fits (cfg_env C) req"
  shows "alike H (submitCore C req st) (submitCore (with_backend B' C) req st')"
  unfolding submitCore_def using assms(2,3) by (intro withLock_alike [OF assms(1)] submitLocked_alike)

lemma rollbackToVersionOperation_alike:
  assumes "same_but (at_backends H s0 t0) st st'" and "cfg_backend C = B"
  shows "alike (at_backends H s0 t0) (rollbackToVersionOperation C r target st)
    (rollbackToVersionOperation (with_backend B' C) r target st')"
  unfolding rollbackToVersionOperation_def with_backend_simps
    GetOperations_same [OF at_backendsD(1) [OF assms(1)] assms(2)]
  using assms(1) by (intro alike_intros | assumption)+

lemma rollbackLocked_alike:
  assumes st: "same_but H st st'" and B: "cfg_backend C = B" and fit: "rollback_fits fits (cfg_env C) d source"
  shows "alike H (rollbackLocked C d target source st) (rollbackLocked (with_backend B' C) d target source st')"
proof (cases "GetDoc B (srv_backend st) d")
  case (Inl e)
  then show ?thesis using GetDoc_at [OF st, of d] st by (simp add: rollbackLocked_def B)
next
  case (Inr r)
  let ?K = "at_backends H (srv_backend st) (srv_backend st')"
  have K: "same_but ?K st st'" using st by (rule at_backendsI)
  have bind: "alike H (bindS (rollbackToVersionOperation C r target st) F)
      (bindS (rollbackToVersionOperation (with_backend B' C) r target st') F')"
    if "\<And>x s s'. same_but ?K s s' \<Longrightarrow> alike H (F x s) (F' x s')" for F F'
    using K that
    by (intro alike_bind [where H = ?K] rollbackToVersionOperation_alike [OF _ B]) (auto simp: at_backends_def)
  have commit: "alike H
      (onBackend (CommitOp B (srv_backend s)
         \<lparr>doc_DocumentID = d, doc_Version = i64 (doc_Version r + 1), doc_Doc = doc\<rparr>
         \<lparr>op_DocumentID = d, op_Version = i64 (doc_Version r + 1), op_BaseVersion = doc_Version r, op_ID = noOpID,
          op_Source = source, op_Sequence = 0, op_SubmittedOp = RawMessage (cfg_env C) (Operation_ToValue (cfg_env C) op),
          op_Op = RawMessage (cfg_env C) (Operation_ToValue (cfg_env C) op)\<rparr>) s)
      (onBackend (CommitOp B' (srv_backend s')
         \<lparr>doc_DocumentID = d, doc_Version = i64 (doc_Version r + 1), doc_Doc = doc\<rparr>
         \<lparr>op_DocumentID = d, op_Version = i64 (doc_Version r + 1), op_BaseVersion = doc_Version r, op_ID = noOpID,
          op_Source = source, op_Sequence = 0, op_SubmittedOp = RawMessage (cfg_env C) (Operation_ToValue (cfg_env C) op),
          op_Op = RawMessage (cfg_env C) (Operation_ToValue (cfg_env C) op)\<rparr>) s')"
    if "same_but ?K s s'" for s s' doc op
    using CommitOp_at [OF that, of _ r] Inr fit by (simp add: rollback_fits_def)
  show ?thesis
    unfolding rollbackLocked_def B with_backend_simps GetDoc_at [OF st] Let_def
    using st by (simp only: Inr sum.case) (intro alike_intros bind commit | assumption)+
qed

lemma RollbackToVersion_alike:
  assumes "same_but H st st'" and "cfg_backend C = B" and "rollback_fits fits (cfg_env C) d source"
  shows "alike H (RollbackToVersion C d target source st) (RollbackToVersion (with_backend B' C) d target source st')"
  unfolding RollbackToVersion_def using assms(2,3) by (intro withLock_alike [OF assms(1)] rollbackLocked_alike)

end

section \<open>Runs\<close>

text \<open>A call with its answer.\<close>

datatype server_answer = AnsSnapshot "Snapshot res" | AnsSubmit "SubmitResult res" | AnsDone "unit res"
  | AnsSubscription "int res"

fun answer_call ::
    "('s, 'l, 'p, 'v, 'f, 'j) server_config \<Rightarrow> server_call \<Rightarrow> ('s, 'l, 'p, 'v) server_state \<Rightarrow>
     server_answer \<times> ('s, 'l, 'p, 'v) server_state" where
  "answer_call C (CallCreate docID initial) st = map_prod AnsSnapshot id (CreateDocument C docID initial st)"
| "answer_call C (CallSubmit req) st = map_prod AnsSubmit id (submitCore C req st)"
| "answer_call C (CallDelete docID base source) st = map_prod AnsDone id (DeleteDocument C docID base source st)"
| "answer_call C (CallRollback docID target source) st =
     map_prod AnsSubmit id (RollbackToVersion C docID target source st)"
| "answer_call C (CallSnapshotAt docID version) st = map_prod AnsSnapshot id (GetSnapshotAt C docID version st)"
| "answer_call C (CallSubscribe docID buffer) st = map_prod AnsSubscription id (Server_Subscribe C docID buffer st)"

fun answer_calls ::
    "('s, 'l, 'p, 'v, 'f, 'j) server_config \<Rightarrow> server_call list \<Rightarrow> ('s, 'l, 'p, 'v) server_state \<Rightarrow>
     server_answer list \<times> ('s, 'l, 'p, 'v) server_state" where
  "answer_calls C [] st = ([], st)"
| "answer_calls C (c # cs) st =
     (let (a, st) = answer_call C c st; (as, st) = answer_calls C cs st in (a # as, st))"

lemma answer_call_state: "snd (answer_call C c st) = run_call C c st"
  by (cases c) simp_all

lemma answer_calls_state: "snd (answer_calls C cs st) = run_calls C cs st"
proof (induction cs arbitrary: st)
  case (Cons c cs)
  obtain a st' where c: "answer_call C c st = (a, st')" by fastforce
  then have "run_call C c st = st'" using answer_call_state [of C c st] by simp
  then show ?case using c Cons [of st'] by (cases "answer_calls C cs st'") (simp add: Let_def)
qed simp

fun call_fits :: "(OpRecord \<Rightarrow> bool) \<Rightarrow> ('v, 'f) env \<Rightarrow> server_call \<Rightarrow> bool" where
  "call_fits fits E (CallSubmit req) \<longleftrightarrow> submission_fits fits E req"
| "call_fits fits E (CallRollback docID target source) \<longleftrightarrow> rollback_fits fits E docID source"
| "call_fits fits E _ \<longleftrightarrow> True"

lemma alike_map: "alike H m m' \<Longrightarrow> alike H (map_prod f id m) (map_prod f id m')"
  by (cases m; cases m') auto

context backend_simulation
begin

lemma answer_call_alike:
  assumes "same_but H st st'" and "cfg_backend C = B" and "call_fits fits (cfg_env C) c"
  shows "alike H (answer_call C c st) (answer_call (with_backend B' C) c st')"
  using assms
  by (cases c) (simp_all only: answer_call.simps call_fits.simps alike_map CreateDocument_alike submitCore_alike
    DeleteDocument_alike RollbackToVersion_alike GetSnapshotAt_alike Server_Subscribe_alike)

theorem answer_calls_alike:
  assumes "same_but H st st'" and B: "cfg_backend C = B" and "list_all (call_fits fits (cfg_env C)) cs"
  shows "alike H (answer_calls C cs st) (answer_calls (with_backend B' C) cs st')"
  using assms(1,3)
proof (induction cs arbitrary: st st')
  case (Cons c cs)
  have "alike H (answer_call C c st) (answer_call (with_backend B' C) c st')"
    using answer_call_alike [OF Cons.prems(1) B] Cons.prems(2) by simp
  then show ?case
    using Cons.IH Cons.prems(2)
    by (cases "answer_call C c st"; cases "answer_call (with_backend B' C) c st'")
      (fastforce simp: Let_def split: prod.split)
qed simp

end

end
