(* ===== verification/RedisServer.thy ===== *)
theory RedisServer
  imports ServerSimulation RedisRefinement
begin

text \<open>
  The document server on the redis backend: it takes the place of the memory backend
  (\<open>backend_simulation\<close>), because the server keeps to the calls on which the two agree.
\<close>

text \<open>The keyspace holds the documents, and the log of each reaches its version.\<close>

definition redis_serves ::
    "'f redis_json \<Rightarrow> ('r \<Rightarrow> string \<Rightarrow> redis_value option) \<Rightarrow> MemoryBackend \<Rightarrow> 'r \<Rightarrow> bool" where
  "redis_serves J keys b s \<longleftrightarrow> holds J (keys s) b
     \<and> (\<forall>d md. b d = Some md \<longrightarrow> md_version md \<le> int (length (md_ops md)))"

lemma i64_succ_le: "is_int64 v \<Longrightarrow> i64 (v + 1) \<le> v + 1"
  using zmod_le_nonneg_dividend [of "v + 1 + 2 ^ 63" "2 ^ 64"] by (simp add: i64_def is_int64_def)

lemma Memory_GetDoc_Inr: "Memory_GetDoc b d = Inr r \<longleftrightarrow> (\<exists>md. b d = Some md \<and> r = doc_record d md)"
  by (auto simp: Memory_GetDoc_def doc_record_def split: option.split)

lemma redis_servesD:
  assumes "redis_serves J keys b s"
  shows "holds J (keys s) b" "b d = Some md \<Longrightarrow> md_version md \<le> int (length (md_ops md))"
  using assms by (auto simp: redis_serves_def)

context redis_contract
begin

lemma serves_get: "redis_serves J keys b s \<Longrightarrow> Redis_GetDoc R s d = Memory_GetDoc b d"
  by (rule sim_get [OF redis_servesD(1)])

lemma serves_create:
  assumes h: "redis_serves J keys b s" and ne: "initial \<noteq> ''''"
  shows "fst (Redis_CreateDoc R s d initial) = fst (Memory_CreateDoc b d initial)
    \<and> redis_serves J keys (snd (Memory_CreateDoc b d initial)) (snd (Redis_CreateDoc R s d initial))"
proof -
  obtain a s' b' where r: "Redis_CreateDoc R s d initial = (a, s')" "Memory_CreateDoc b d initial = (a, b')"
      "holds J (keys s') b'"
    using sim_create [OF redis_servesD(1) [OF h] ne] by blast
  have "md_version md \<le> int (length (md_ops md))" if "b' d' = Some md" for d' md
    using that r(2) redis_servesD(2) [OF h] by (auto simp: Memory_CreateDoc_def split: option.splits if_splits)
  then show ?thesis using r by (auto simp: redis_serves_def)
qed

lemma serves_delete:
  assumes h: "redis_serves J keys b s"
  shows "fst (Redis_DeleteDoc R s d) = fst (Memory_DeleteDoc b d)
    \<and> redis_serves J keys (snd (Memory_DeleteDoc b d)) (snd (Redis_DeleteDoc R s d))"
proof -
  obtain a s' b' where r: "Redis_DeleteDoc R s d = (a, s')" "Memory_DeleteDoc b d = (a, b')" "holds J (keys s') b'"
    using sim_delete [OF redis_servesD(1) [OF h]] by blast
  have "md_version md \<le> int (length (md_ops md))" if "b' d' = Some md" for d' md
    using that r(2) redis_servesD(2) [OF h] by (auto simp: Memory_DeleteDoc_def split: option.splits if_splits)
  then show ?thesis using r by (auto simp: redis_serves_def)
qed

lemma serves_commit:
  assumes h: "redis_serves J keys b s" and r0: "Memory_GetDoc b (doc_DocumentID r) = Inr r0"
    and v: "doc_Version r = i64 (doc_Version r0 + 1)" and same: "op_DocumentID op = doc_DocumentID r"
    and fits: "storable J op"
  shows "fst (Redis_CommitOp R J s r op) = fst (Memory_CommitOp b r op)
    \<and> redis_serves J keys (snd (Memory_CommitOp b r op)) (snd (Redis_CommitOp R J s r op))"
proof -
  obtain md where md: "b (doc_DocumentID r) = Some md" "doc_Version r0 = md_version md"
    using r0 by (auto simp: Memory_GetDoc_Inr doc_record_def)
  have "is_int64 (doc_Version r)" by (simp add: v)
  then obtain a s' b' where c: "Redis_CommitOp R J s r op = (a, s')" "Memory_CommitOp b r op = (a, b')"
      "holds J (keys s') b'"
    using sim_commit [OF redis_servesD(1) [OF h] same _ fits] by blast
  have "doc_Version r \<le> md_version md + 1"
    using i64_succ_le holds_Some(2) [OF redis_servesD(1) [OF h] md(1)] by (simp add: v md(2))
  then have "doc_Version r \<le> int (length (md_ops md)) + 1"
    using redis_servesD(2) [OF h md(1)] by simp
  then have "md_version md' \<le> int (length (md_ops md'))" if "b' d' = Some md'" for d' md'
    using that c(2) md redis_servesD(2) [OF h]
    by (auto simp: Memory_CommitOp_def split: option.splits if_splits)
  then show ?thesis using c by (auto simp: redis_serves_def)
qed

lemma serves_ops:
  assumes h: "redis_serves J keys b s" and r0: "Memory_GetDoc b d = Inr r0"
    and "0 \<le> from" "from \<le> to" "to \<le> doc_Version r0"
  shows "Redis_GetOps R J s d from to = Memory_GetOps b d from to"
proof -
  obtain md where md: "b d = Some md" "doc_Version r0 = md_version md"
    using r0 by (auto simp: Memory_GetDoc_Inr doc_record_def)
  have "is_int64 to"
    using holds_Some(2) [OF redis_servesD(1) [OF h] md(1)] assms(3-5) md(2) by (simp add: is_int64_def)
  then show ?thesis
    using sim_ops [OF redis_servesD(1) [OF h] md(1) assms(3,4)] redis_servesD(2) [OF h md(1)] assms(5) md(2)
    by simp
qed

lemma served_simulation: "backend_simulation Memory_Backend (Redis_Backend R J) (redis_serves J keys) (storable J)"
  by unfold_locales
    (simp_all add: serves_get serves_create serves_delete serves_commit serves_ops)

end

sublocale redis_contract \<subseteq> served: backend_simulation
  Memory_Backend "Redis_Backend R J" "redis_serves J keys" "storable J" for J
  by (rule served_simulation)

end
