(* ===== verification/RedisProperties.thy ===== *)
theory RedisProperties
  imports RedisReference RedisServer ServerProperties
begin

text \<open>
  What the redis adapter promises, with the places where it differs from the memory
  implementations.
\<close>

section \<open>The backend\<close>

text \<open>C21: Refinement: on a redis server that behaves as documented, from a keyspace that holds the
  documents of a memory backend, any sequence of calls that keeps to the server's use of the
  interface is answered by \<open>RedisBackend\<close> exactly as by \<open>MemoryBackend\<close>, errors included.\<close>

theorem redis_agrees_with_memory:
  assumes "redis_contract R keys" and "holds J (keys s) b" and "all_well_used J calls b"
  shows "backend_runs (Redis_Backend R J) calls s = backend_runs Memory_Backend calls b"
  using redis_contract.sim_calls [OF assms] .

definition sample_record :: OpRecord where
  "sample_record =
     \<lparr>op_DocumentID = ''d'', op_Version = 1, op_BaseVersion = 0,
      op_ID = \<lparr>id_Source = ''c'', id_Sequence = 1\<rparr>, op_Source = ''c'', op_Sequence = 1,
      op_SubmittedOp = '''', op_Op = print_json (JArr [JNum 1])\<rparr>"

definition sample_calls :: "backend_call list" where
  "sample_calls =
     [AskGet ''d'', AskCreate ''d'' ''[]'', AskCreate ''d'' ''[]'',
      AskCommit \<lparr>doc_DocumentID = ''d'', doc_Version = 1, doc_Doc = ''[1]''\<rparr> sample_record,
      AskOps ''d'' 0 1, AskGet ''d'', AskDelete ''d'', AskDelete ''d'']"

lemma sample_storable: "storable ref_codec sample_record"
  by (rule printed_record_storable [of _ "JArr [JNum 1]"]) (simp_all add: sample_record_def)

lemma sample_well_used: "all_well_used ref_codec sample_calls NewMemoryBackend"
  using sample_storable
  by (simp add: sample_calls_def NewMemoryBackend_def Memory_CreateDoc_def Memory_CommitOp_def
      Memory_DeleteDoc_def is_int64_def Let_def)
     (simp add: sample_record_def)

theorem redis_agrees_with_memory_witness:
  "backend_runs (Redis_Backend ref_redis_api ref_codec) sample_calls emptyRedis
   = [AnsDoc (Inl (Sentinel ErrDocumentNotFound)), AnsUnit (Inr ()), AnsUnit (Inl (Sentinel ErrDocumentExists)),
      AnsUnit (Inr ()), AnsOps (Inr [sample_record]),
      AnsDoc (Inr \<lparr>doc_DocumentID = ''d'', doc_Version = 1, doc_Doc = ''[1]''\<rparr>),
      AnsUnit (Inr ()), AnsUnit (Inl (Sentinel ErrDocumentNotFound))]"
  unfolding redis_agrees_with_memory [OF ref_redis.redis_contract_axioms empty_holds sample_well_used]
  by code_simp

section \<open>The server on the redis backend\<close>

interpretation ref_served: backend_simulation
  Memory_Backend "Redis_Backend ref_redis_api ref_codec" "redis_serves ref_codec rr_view" "storable ref_codec"
  by (rule redis_contract.served_simulation [OF ref_redis.redis_contract_axioms])

text \<open>C20: Composition of server and storage: from a keyspace that holds the documents of a memory server, any sequence of
  calls of the server on the redis backend (create, submit, delete, roll back, read history,
  subscribe) gives the answers, the cache, the locks and the events of the server on the memory backend, and the keyspace
  goes on holding its documents, provided the records the submissions and rollbacks can commit survive encoding.\<close>

theorem redis_server_agrees:
  assumes "redis_contract R keys" and "same_but (redis_serves J keys) st st'"
    and "cfg_backend C = Memory_Backend" and "list_all (call_fits (storable J) (cfg_env C)) calls"
    and "answer_calls C calls st = (answers, final)"
    and "answer_calls (with_backend (Redis_Backend R J) C) calls st' = (answers', final')"
  shows "answers' = answers \<and> srv_pub final' = srv_pub final \<and> srv_locks final' = srv_locks final
    \<and> srv_parsedOps final' = srv_parsedOps final \<and> holds J (keys (srv_backend final')) (srv_backend final)"
proof -
  note sim = redis_contract.served_simulation [OF assms(1)]
  have "alike (redis_serves J keys) (answer_calls C calls st)
      (answer_calls (with_backend (Redis_Backend R J) C) calls st')"
    by (rule backend_simulation.answer_calls_alike [OF sim assms(2-4)])
  then show ?thesis using assms(5,6) by (auto simp: same_but_def redis_serves_def)
qed

definition sample_session :: "server_call list" where
  "sample_session =
     [CallCreate ''d'' '''', CallSubmit (ref_request 0 set_a 1), CallSubmit (ref_request 0 set_a 1),
      CallSnapshotAt ''d'' 0, CallDelete ''d'' 1 ''s'']"

lemma set_a_printed: "set_a = print_json (JArr [JObj [(''p'', JArr [JStr ''a'']), (''oi'', JNum 1)]])"
  by code_simp

lemma RawMessage_ref_env: "RawMessage ref_env n = print_json n"
  by (simp add: ref_env_def SonicEnv_simps SonicAPI_simps Sonic_RawMessage_def)

lemma sample_session_fits: "list_all (call_fits (storable ref_codec) (cfg_env ref_server)) sample_session"
proof -
  have "submission_fits (storable ref_codec) ref_env (ref_request 0 set_a 1)"
    unfolding submission_fits_def
    by (intro allI printed_record_storable [where m = "JArr [JObj [(''p'', JArr [JStr ''a'']), (''oi'', JNum 1)]]"])
      (simp_all add: RawMessage_ref_env ref_request_def set_a_printed del: print_json.simps)
  then show ?thesis by (simp add: sample_session_def ref_server_def)
qed

definition NewRedisBackedServer :: "(ref_redis, MemoryLocker, MemoryPublisher, jnode) server_state" where
  "NewRedisBackedServer = NewServer emptyRedis NewMemoryLocker NewMemoryPublisher"

lemma NewRedisBackedServer_same: "same_but (redis_serves J rr_view) NewMemoryServer NewRedisBackedServer"
  by (simp add: same_but_def redis_serves_def empty_holds NewMemoryServer_def NewRedisBackedServer_def NewServer_def)
    (simp add: NewMemoryBackend_def)

theorem redis_server_agrees_witness:
  "fst (answer_calls (with_backend (Redis_Backend ref_redis_api ref_codec) ref_server) sample_session
      NewRedisBackedServer)
   = fst (answer_calls ref_server sample_session NewMemoryServer)"
  using redis_server_agrees [OF ref_redis.redis_contract_axioms NewRedisBackedServer_same _ sample_session_fits
      prod.collapse [symmetric] prod.collapse [symmetric]]
  by (simp add: ref_server_def)

lemma sample_session_answers:
  "fst (answer_calls ref_server sample_session NewMemoryServer) =
     [AnsSnapshot (Inr \<lparr>snap_DocumentID = ''d'', snap_Version = 0, snap_Document = ''{}''\<rparr>),
      AnsSubmit (Inr \<lparr>res_Version = 1, res_Rebased = False, res_Duplicate = False, res_Operation = set_a,
        res_Document = ''{'' @ [CHR 0x22] @ ''a'' @ [CHR 0x22] @ '':1}''\<rparr>),
      AnsSubmit (Inr \<lparr>res_Version = 1, res_Rebased = False, res_Duplicate = True, res_Operation = set_a,
        res_Document = ''{'' @ [CHR 0x22] @ ''a'' @ [CHR 0x22] @ '':1}''\<rparr>),
      AnsSnapshot (Inr \<lparr>snap_DocumentID = ''d'', snap_Version = 0, snap_Document = ''{}''\<rparr>),
      AnsDone (Inr ())]"
  by code_simp

text \<open>Outside that use the two differ: reading the log of a missing document is an error for the one and an
  empty log for the other, a negative version reads from the end of the list, and saving a
  snapshot or a log entry for a missing document makes it.\<close>

lemma redis_backend_differs:
  "Memory_GetOps NewMemoryBackend ''d'' 0 1 = Inl (Sentinel ErrDocumentNotFound)"
  "Redis_GetOps ref_redis_api ref_codec emptyRedis ''d'' 0 1 = Inr []"
  "lrange [''a'', ''b'', ''c''] (- 2) 2 = [''b'', ''c'']"
  "fst (Memory_SaveDoc NewMemoryBackend \<lparr>doc_DocumentID = ''d'', doc_Version = 7, doc_Doc = ''[]''\<rparr>)
     = Inl (Sentinel ErrDocumentNotFound)"
  "Redis_GetDoc ref_redis_api (snd (Redis_SaveDoc ref_redis_api emptyRedis
       \<lparr>doc_DocumentID = ''d'', doc_Version = 7, doc_Doc = ''[]''\<rparr>)) ''d''
     = Inr \<lparr>doc_DocumentID = ''d'', doc_Version = 7, doc_Doc = ''[]''\<rparr>"
  by code_simp+

text \<open>A document is created by two commands; between them, and for good when the second one fails, it is
  there with an empty text for its content, and creating it again is refused.\<close>

lemma create_is_two_commands:
  "(let s = snd (rd_HSETNX ref_redis_api emptyRedis (redisSnapKey ''d'') ''version'' (Itoa 0)) in
      (Redis_GetDoc ref_redis_api s ''d'', fst (Redis_CreateDoc ref_redis_api s ''d'' ''[]'')))
   = (Inr \<lparr>doc_DocumentID = ''d'', doc_Version = 0, doc_Doc = ''''\<rparr>, Inl (Sentinel ErrDocumentExists))"
  by code_simp

section \<open>Locks\<close>

text \<open>C22: With tokens that differ, any interleaving of threads that lock, retry, give up, crash or unlock, and of
  passing time, leaves at most one holder of a document's lock whose time to live is not over.\<close>

theorem redis_lock_exclusive:
  assumes "redis_clock R keys clock expires wait" and "0 < ttl" and "lock_strings keys s0"
    and "redis_reachable R clock wait ttl True s0 (s, pcs)"
    and "pcs t = RHolding token docID since" and "clock s < since + ttl"
  shows "{t'. \<exists>token' since'. pcs t' = RHolding token' docID since' \<and> clock s < since' + ttl} = {t}"
proof -
  have "lock_inv keys clock expires ttl (s, pcs)"
    using redis_clock.lock_inv_reachable [OF assms(1,4,2,3)] .
  note unique = redis_clock.holders_unique [OF assms(1) this assms(5,6)]
  show ?thesis using assms(5,6) by (blast dest: unique)
qed

text \<open>Locking and holding on the concrete server.\<close>

definition locked_by :: "string \<Rightarrow> ref_redis \<Rightarrow> ref_redis" where
  "locked_by token s = rr_put s (redisLockKey ''d'') (VString token) (Some (rr_clock s + DefaultRedisLockTTL))"

lemma SETNX_ref: "rr_live s (redisLockKey ''d'') = None \<Longrightarrow>
    rd_SETNX ref_redis_api s (redisLockKey ''d'') token DefaultRedisLockTTL = (Inr True, locked_by token s)"
  by (simp add: ref_redis_api_def locked_by_def DefaultRedisLockTTL_def)

lemma ref_locks:
  assumes "redis_reachable ref_redis_api rr_clock rr_wait DefaultRedisLockTTL True emptyRedis (s, pcs)"
    and "pcs t = RIdle" and "\<forall>t'. pc_token (pcs t') \<noteq> Some (Itoa unixNano)"
    and "rr_live s (redisLockKey ''d'') = None"
  shows "redis_reachable ref_redis_api rr_clock rr_wait DefaultRedisLockTTL True emptyRedis
    (locked_by (Itoa unixNano) s, pcs(t := RHolding (Itoa unixNano) ''d'' (rr_clock s)))"
proof -
  let ?attempt = "pcs(t := RTrying (Itoa unixNano) maxRetries ''d'')"
  have "redis_step ref_redis_api rr_clock rr_wait DefaultRedisLockTTL True (s, pcs) (s, ?attempt)"
    using assms(2,3) by (intro begins) auto
  moreover have "redis_step ref_redis_api rr_clock rr_wait DefaultRedisLockTTL True (s, ?attempt)
      (locked_by (Itoa unixNano) s, ?attempt(t := RHolding (Itoa unixNano) ''d'' (rr_clock s)))"
    using assms(4) by (intro acquires [where n = 49]) (simp_all add: maxRetries_def SETNX_ref)
  ultimately show ?thesis
    using by_step [OF by_step [OF assms(1)]] by simp
qed

definition held_by_1 :: "ref_redis \<times> (nat \<Rightarrow> redis_pc)" where
  "held_by_1 = (locked_by (Itoa 7) emptyRedis, (\<lambda>_. RIdle)(1 := RHolding (Itoa 7) ''d'' 0))"

lemma empty_live [simp]: "rr_live emptyRedis k = None" "rr_clock emptyRedis = 0"
  by (simp_all add: rr_live_def emptyRedis_def)

lemma held_by_1_reachable:
  "redis_reachable ref_redis_api rr_clock rr_wait DefaultRedisLockTTL True emptyRedis held_by_1"
  using ref_locks [OF at_start, where t = 1 and unixNano = 7] by (simp add: held_by_1_def)

theorem redis_lock_exclusive_witness:
  "{t'. \<exists>token' since'. snd held_by_1 t' = RHolding token' ''d'' since'
      \<and> rr_clock (fst held_by_1) < since' + DefaultRedisLockTTL} = {1}"
proof (rule redis_lock_exclusive [OF ref_redis.redis_clock_axioms])
  show "redis_reachable ref_redis_api rr_clock rr_wait DefaultRedisLockTTL True emptyRedis
      (fst held_by_1, snd held_by_1)"
    using held_by_1_reachable by simp
  show "snd held_by_1 1 = RHolding (Itoa 7) ''d'' 0" by (simp add: held_by_1_def)
qed (simp_all add: lock_strings_def rr_view_def DefaultRedisLockTTL_def held_by_1_def locked_by_def)

text \<open>Nothing stops a holder whose time is over: after 5 s another thread locks the same document
  while the first still works under the lock.\<close>

theorem redis_lock_outlived:
  "\<exists>s pcs. redis_reachable ref_redis_api rr_clock rr_wait DefaultRedisLockTTL True emptyRedis (s, pcs)
     \<and> pcs 1 = RHolding (Itoa 7) ''d'' 0 \<and> pcs 2 = RHolding (Itoa 8) ''d'' DefaultRedisLockTTL"
proof -
  let ?s = "rr_wait DefaultRedisLockTTL (fst held_by_1)"
  have "redis_reachable ref_redis_api rr_clock rr_wait DefaultRedisLockTTL True emptyRedis (?s, snd held_by_1)"
    using held_by_1_reachable by (rule by_step) (simp add: held_by_1_def passes)
  moreover have "rr_live ?s (redisLockKey ''d'') = None"
    by (simp add: rr_live_wait held_by_1_def locked_by_def rr_live_put)
  moreover have "Itoa 7 \<noteq> Itoa 8" by code_simp
  ultimately have "redis_reachable ref_redis_api rr_clock rr_wait DefaultRedisLockTTL True emptyRedis
      (locked_by (Itoa 8) ?s, (snd held_by_1)(2 := RHolding (Itoa 8) ''d'' (rr_clock ?s)))"
    by (intro ref_locks) (auto simp: held_by_1_def)
  then show ?thesis
    by (intro exI conjI) (assumption, simp_all add: held_by_1_def locked_by_def rr_wait_def)
qed

text \<open>C23: A caller that nobody cancels, against a key that nobody removes, gets the lock exactly when the key is gone 49 pauses
  of 50 ms from now; otherwise the call ends with an error.  The lock of a crashed owner with the
  default time to live of 5 s is therefore refused during its first 2.55 s.\<close>

theorem redis_lock_waits:
  assumes "redis_clock R keys clock expires wait" and "0 < ttl"
  shows "isl (fst (Redis_Lock R (\<lambda>s. (None, wait retryDelay s)) ttl unixNano s docID)) =
    outlives keys expires s (redisLockKey docID) (clock s + 2450000000)"
  using redis_clock.Lock_loop_fails_iff [OF assms, of docID "Itoa unixNano" 49 s]
  by (simp add: Redis_Lock_def maxRetries_def retryDelay_def del: Lock_loop.simps)

theorem redis_lock_waits_witness:
  "isl (fst (Redis_Lock ref_redis_api (\<lambda>s. (None, rr_wait retryDelay s)) DefaultRedisLockTTL 8
      (fst held_by_1) ''d''))
   \<and> \<not> isl (fst (Redis_Lock ref_redis_api (\<lambda>s. (None, rr_wait retryDelay s)) DefaultRedisLockTTL 8
      (rr_wait 2550000000 (fst held_by_1)) ''d''))"
proof -
  note law = redis_lock_waits [OF ref_redis.redis_clock_axioms, of DefaultRedisLockTTL 8]
  have ttl: "0 < DefaultRedisLockTTL" by (simp add: DefaultRedisLockTTL_def)
  show ?thesis
    unfolding law [OF ttl] rr_outlives rr_live_wait
    by (simp add: held_by_1_def locked_by_def rr_live_put rr_wait_def DefaultRedisLockTTL_def)
qed


section \<open>Events\<close>

text \<open>C24: Events that survive encoding, published through redis and delivered at most once and in order (messages may
  be lost), reach a subscription of a listening process as a subsequence of the events of its document in the
  order of publication, with empty raw messages read back as \<open>null\<close>, and nothing else changes in its queue.\<close>

theorem redis_subscription_sees_subsequence:
  assumes "redis_channels R sent" and "\<forall>e \<in> set es. event_survives J e"
    and "sent s redisEventsChannel = []"
    and "subseq delivered (sent (Redis_Publishes R J s es) redisEventsChannel)"
    and "redis_inbox p i = Some (d, q)"
  shows "\<exists>new. redis_inbox (listen J delivered p) i = Some (d, q @ new)
    \<and> subseq new (map wire_event (events_of d es))"
  using redis_channels.subscription_sees_subsequence [OF assms] .

definition sample_event :: "string \<Rightarrow> Event" where
  "sample_event d =
     \<lparr>ev_Type = EventTypeOp, ev_DocumentID = d, ev_Version = 1, ev_ID = noOpID, ev_Source = ''c'',
      ev_Sequence = 0, ev_Operation = print_json (JArr []), ev_Document = ''''\<rparr>"

lemma sample_event_survives: "event_survives ref_codec (sample_event d)"
  by (rule printed_event_survives [of _ "JArr []"]) (simp_all add: sample_event_def)

theorem redis_subscription_sees_subsequence_witness:
  "\<exists>new. redis_inbox (listen ref_codec
        (rr_sent (Redis_Publishes ref_redis_api ref_codec emptyRedis [sample_event ''d'', sample_event ''e''])
          redisEventsChannel)
        (snd (Redis_Subscribe NewRedisPublisher ''d'' 8))) 0 = Some (''d'', [] @ new)
     \<and> subseq new (map wire_event (events_of ''d'' [sample_event ''d'', sample_event ''e'']))"
  by (rule redis_subscription_sees_subsequence
        [OF ref_redis.redis_channels_axioms, where s = emptyRedis and es = "[sample_event ''d'', sample_event ''e'']"])
    (simp_all add: sample_event_survives emptyRedis_def Redis_Subscribe_def redis_inbox_def NewRedisPublisher_def Let_def)

lemma redis_delivers_event:
  "redis_inbox (listen ref_codec
      (rr_sent (Redis_Publish ref_redis_api ref_codec emptyRedis (sample_event ''d'')) redisEventsChannel)
      (snd (Redis_Subscribe NewRedisPublisher ''d'' 8))) 0
   = Some (''d'', [sample_event ''d''\<lparr>ev_Document := ''null''\<rparr>])"
  by code_simp


section \<open>Two servers on one backend\<close>

text \<open>
  The cache of parsed operations belongs to one process.  Server 1 commits version 1 of a document;
  server 2 deletes the document, makes it again and commits another version 1.  From the same
  backend server 1 now answers a read of version 0 by undoing its old operation on the new
  document, while server 2 answers right.
\<close>

definition first_server :: "(MemoryBackend, MemoryLocker, MemoryPublisher, jnode) server_state" where
  "first_server = run_calls ref_server [CallCreate ''d'' '''', CallSubmit (ref_request 0 set_a 1)] NewMemoryServer"

definition second_server :: "(MemoryBackend, MemoryLocker, MemoryPublisher, jnode) server_state" where
  "second_server = run_calls ref_server
     [CallDelete ''d'' 1 ''s'', CallCreate ''d'' '''', CallSubmit (ref_request 0 set_b 1)]
     (NewServer (srv_backend first_server) NewMemoryLocker NewMemoryPublisher)"

theorem cache_stale_across_servers:
  "fst (GetSnapshotAt ref_server ''d'' 0 second_server)
     = Inr \<lparr>snap_DocumentID = ''d'', snap_Version = 0, snap_Document = ''{}''\<rparr>"
  "fst (GetSnapshotAt ref_server ''d'' 0 (first_server\<lparr>srv_backend := srv_backend second_server\<rparr>))
     = Inr \<lparr>snap_DocumentID = ''d'', snap_Version = 0,
         snap_Document = ''{'' @ [CHR 0x22] @ ''b'' @ [CHR 0x22] @ '':2}''\<rparr>"
  by code_simp+


text \<open>
  A commit does not check that the document is still at the version it was read at.  A server
  that read version 0 under a lock that has run out commits its version 1 after another server's: the log has two
  records of version 1, and the document has the edit of the second only.
\<close>

definition read_before :: DocRecord where
  "read_before = \<lparr>doc_DocumentID = ''d'', doc_Version = 0, doc_Doc = ''{}''\<rparr>"

definition late_commit :: "SubmitResult res \<times> (MemoryBackend, MemoryLocker, MemoryPublisher, jnode) server_state" where
  "late_commit = commitOperation ref_server read_before (ref_request 0 set_b 2)
     (NewOperation [\<lparr>Operator = ObjectInsert (JNum 2), Path = [PathElementFromKey ''b'']\<rparr>]) False
     (NewServer (srv_backend first_server) NewMemoryLocker NewMemoryPublisher)"

theorem late_commit_loses_update:
  "map_sum id res_Version (fst late_commit) = Inr 1
   \<and> map_option (\<lambda>d. (md_version d, md_doc d, map op_Version (md_ops d))) (srv_backend (snd late_commit) ''d'')
     = Some (1, ''{'' @ [CHR 0x22] @ ''b'' @ [CHR 0x22] @ '':2}'', [1, 1])"
  by code_simp

end
