(* ===== verification/PathText.thy ===== *)
theory PathText
  imports JsonPath Decimal
begin

text \<open>
  Paths as text (\<open>path.go\<close>): \<open>String\<close> and \<open>UnmarshalJSON\<close>.  Decoding into \<open>[]any\<close> by
  \<open>encoding/json\<close> is a parameter; it yields numbers as \<open>float64\<close>, which \<open>toInt\<close> truncates.
\<close>

fun joined :: "string \<Rightarrow> string list \<Rightarrow> string" where
  "joined sep [] = ''''"
| "joined sep [x] = x"
| "joined sep (x # xs) = x @ sep @ joined sep xs"

definition element_text :: "PathElement \<Rightarrow> string" where
  "element_text elem =
     (if Key elem \<noteq> '''' then [CHR 0x22] @ Key elem @ [CHR 0x22] else print_int (Index elem))"

definition Path_String :: "Path \<Rightarrow> string" where
  "Path_String p = ''['' @ joined '', '' (map element_text p) @ '']''"

text \<open>Elements that are neither strings nor numbers are skipped; the receiver is appended to.\<close>

fun element_from_any :: "('f \<Rightarrow> int) \<Rightarrow> 'f goAny \<Rightarrow> PathElement list" where
  "element_from_any toInt (AStr pe) = [PathElementFromKey pe]"
| "element_from_any toInt (AFloat pe) = [PathElementFromKey (print_int (toInt pe))]"
| "element_from_any toInt _ = []"

definition Path_UnmarshalJSON ::
    "(string \<Rightarrow> 'f goAny list res) \<Rightarrow> ('f \<Rightarrow> int) \<Rightarrow> Path \<Rightarrow> string \<Rightarrow> Path res" where
  "Path_UnmarshalJSON decode toInt p data =
     andThen (decode data) (\<lambda>paths. Inr (p @ concat (map (element_from_any toInt) paths)))"

text \<open>
  Reading the array of a path's elements gives the path back exactly when all its elements are
  keys: an index is read as the key with its digits.
\<close>

lemma unmarshal_elements:
  assumes "decode data = Inr (map (\<lambda>pe. if Key pe \<noteq> '''' then AStr (Key pe) else AFloat (num (Index pe))) p)"
    and "\<And>i. toInt (num i) = i"
  shows "Path_UnmarshalJSON decode toInt [] data =
    Inr (map (\<lambda>pe. PathElementFromKey (if Key pe \<noteq> '''' then Key pe else print_int (Index pe))) p)"
proof -
  have "concat (map (element_from_any toInt)
      (map (\<lambda>pe. if Key pe \<noteq> '''' then AStr (Key pe) else AFloat (num (Index pe))) p))
    = map (\<lambda>pe. PathElementFromKey (if Key pe \<noteq> '''' then Key pe else print_int (Index pe))) p"
    using assms(2) by (induction p) auto
  then show ?thesis using assms(1) by (simp add: Path_UnmarshalJSON_def)
qed

lemma print_int_ne: "print_int i \<noteq> ''''"
  by (simp add: print_int_def)

lemma PathElementFromKey_iff: "PathElementFromKey k = pe \<longleftrightarrow> k = Key pe \<and> Index pe = 0"
  by (cases pe) (auto simp: PathElementFromKey_def)

theorem unmarshal_restores_iff:
  assumes "decode data = Inr (map (\<lambda>pe. if Key pe \<noteq> '''' then AStr (Key pe) else AFloat (num (Index pe))) p)"
    and "\<And>i. toInt (num i) = i" and "\<forall>pe \<in> set p. Key pe \<noteq> '''' \<longrightarrow> Index pe = 0"
  shows "Path_UnmarshalJSON decode toInt [] data = Inr p \<longleftrightarrow> (\<forall>pe \<in> set p. Key pe \<noteq> '''')"
  using assms(3) unfolding unmarshal_elements [where num = num and toInt = toInt and decode = decode and data = data, OF assms(1,2)]
  by (induction p) (auto simp: PathElementFromKey_iff print_int_ne)

lemma path_text_example:
  "Path_String [PathElementFromKey ''a'', PathElementFromIndex 2] = ''['' @ [CHR 0x22] @ ''a'' @ [CHR 0x22] @ '', 2]''"
  by code_simp

end
