(* ===== verification/CollabDemo.thy ===== *)
theory CollabDemo
  imports Engine
begin

text \<open>
  What the two collaboration servers under \<open>examples\<close> have in common: clients that join, a
  goroutine per client that greets it, reads its messages, acknowledges them and broadcasts the
  updates, and connections that may break.  The two programs hold the same code for this; the
  definitions follow \<open>examples/websocket/main.go\<close>.  Upgrading a request to a websocket, the socket
  itself, the pages and \<open>main\<close> are not modelled.
\<close>

section \<open>Requests and identifiers\<close>

text \<open>\<open>hostOf\<close> is the host \<open>url.Parse\<close> finds, or nothing when it fails.\<close>

definition sameOrigin :: "(string \<Rightarrow> string option) \<Rightarrow> string \<Rightarrow> string \<Rightarrow> bool" where
  "sameOrigin hostOf origin host =
     (if origin = '''' then True
      else case hostOf origin of None \<Rightarrow> False | Some parsed \<Rightarrow> parsed = host)"

definition hex_digit :: "nat \<Rightarrow> char" where
  "hex_digit n = (if n < 10 then char_of (48 + n) else char_of (87 + n))"

definition hex_encode :: "nat list \<Rightarrow> string" where
  "hex_encode bytes = concat (map (\<lambda>b. [hex_digit (b div 16), hex_digit (b mod 16)]) bytes)"

text \<open>\<open>buf\<close> is what \<open>rand.Read\<close> fills in, or nothing when it fails.\<close>

definition newClientID :: "nat list option \<Rightarrow> string" where
  "newClientID buf = (case buf of None \<Rightarrow> ''anonymous'' | Some bytes \<Rightarrow> hex_encode bytes)"

section \<open>Rebasing\<close>

text \<open>
  The servers hand the operations of their history to \<open>Transform\<close> itself, not clones.  It may change
  them: \<open>TransformMulti\<close> writes to the paths and operators of the base components it is given and returns
  those very components as the transformed operation, which then enters the history once more, and
  \<open>Consume\<close> and \<open>Apply\<close> edit values that operations share.  \<open>edits t i op\<close> is the operation that number \<open>i\<close> of
  the history, or the one in hand (\<open>i\<close> is then the length of the history), has become when the \<open>t\<close>-th
  such call has returned.  Which objects a call reaches depends on pointers and on how the node library
  stores its nodes; the theorems hold for every \<open>edits\<close>.
\<close>

type_synonym 'v edits = "nat \<Rightarrow> nat \<Rightarrow> 'v Operation \<Rightarrow> 'v Operation"

definition editHistory :: "'v edits \<Rightarrow> nat \<Rightarrow> 'v Operation list \<Rightarrow> 'v Operation list" where
  "editHistory edits t history = map (\<lambda>i. edits t i (history ! i)) [0..<length history]"

text \<open>
  The loop over the \<open>n\<close> operations of the history from number \<open>i\<close> on; the first error ends it.  The
  result is the transformed operation, the history and the number of calls so far.
\<close>

fun transformThrough ::
    "('v, 'f) env \<Rightarrow> 'v edits \<Rightarrow> nat \<Rightarrow> nat \<Rightarrow> 'v Operation \<Rightarrow> 'v Operation list \<Rightarrow> nat \<Rightarrow>
     'v Operation res \<times> 'v Operation list \<times> nat" where
  "transformThrough E edits 0 i transformed history t = (Inr transformed, history, t)"
| "transformThrough E edits (Suc n) i transformed history t =
     (case Engine_Transform E transformed (history ! i) of
        Inl e \<Rightarrow> (Inl e, editHistory edits t history, Suc t)
      | Inr (transformed, _) \<Rightarrow>
          transformThrough E edits n (Suc i) (edits t (length history) transformed)
            (editHistory edits t history) (Suc t))"

definition unshared :: "'v edits \<Rightarrow> bool" where
  "unshared edits \<longleftrightarrow> (\<forall>t i op. edits t i op = op)"

lemma length_editHistory [simp]: "length (editHistory edits t history) = length history"
  by (simp add: editHistory_def)

lemma editHistory_unshared: "unshared edits \<Longrightarrow> editHistory edits t history = history"
  by (simp add: unshared_def editHistory_def map_nth)

lemma transformThrough_length:
  "transformThrough E edits n i op history t = (r, history', t') \<Longrightarrow> length history' = length history"
  by (induction n arbitrary: i op history t) (fastforce split: sum.splits prod.splits)+

lemma transformThrough_unshared:
  "transformThrough E edits n i op history t = (r, history', t') \<Longrightarrow> unshared edits \<Longrightarrow> history' = history"
  by (induction n arbitrary: i op history t) (auto simp: editHistory_unshared split: sum.splits prod.splits)

lemma bindS_split:
  "P (bindS (r, st) f) \<longleftrightarrow> (\<forall>e. r = Inl e \<longrightarrow> P (Inl e, st)) \<and> (\<forall>x. r = Inr x \<longrightarrow> P (f x st))"
  by (cases r) auto

lemma bindS_split_asm:
  "P (bindS (r, st) f) \<longleftrightarrow> \<not> ((\<exists>e. r = Inl e \<and> \<not> P (Inl e, st)) \<or> (\<exists>x. r = Inr x \<and> \<not> P (f x st)))"
  by (cases r) auto

lemmas bindS_splits = bindS_split bindS_split_asm

section \<open>Connections\<close>

text \<open>
  A client is a number.  Where its goroutine is in \<open>handleWS\<close>: not running, registered, with the
  initial message in hand, reading, about to write an error message, about to acknowledge (with the
  update to broadcast afterwards, if any), about to collect the receivers of an update, and writing to
  them one by one.
\<close>

datatype 'm demo_pc = Gone | Registered | Greeting 'm | Reading | Refusing 'm | Acking 'm "'m option"
  | Publishing 'm | Sending 'm "nat set"

text \<open>\<open>dm_version\<close> is the local variable \<open>version\<close> of the goroutine, \<open>dm_sent\<close> what was written to a client.\<close>

record ('s, 'm) demo =
  dm_server :: 's
  dm_clients :: "nat set"
  dm_ids :: "nat \<Rightarrow> string"
  dm_version :: "nat \<Rightarrow> int"
  dm_pc :: "nat \<Rightarrow> 'm demo_pc"
  dm_sent :: "nat \<Rightarrow> 'm list"
  dm_broken :: "nat \<Rightarrow> bool"

definition newDemo :: "'s \<Rightarrow> ('s, 'm) demo" where
  "newDemo s =
     \<lparr>dm_server = s, dm_clients = {}, dm_ids = (\<lambda>_. ''''), dm_version = (\<lambda>_. 0), dm_pc = (\<lambda>_. Gone),
      dm_sent = (\<lambda>_. []), dm_broken = (\<lambda>_. False)\<rparr>"

definition addClient :: "nat \<Rightarrow> ('s, 'm) demo \<Rightarrow> ('s, 'm) demo" where
  "addClient c w = w\<lparr>dm_clients := insert c (dm_clients w)\<rparr>"

definition removeClient :: "nat \<Rightarrow> ('s, 'm) demo \<Rightarrow> ('s, 'm) demo" where
  "removeClient c w = w\<lparr>dm_clients := dm_clients w - {c}\<rparr>"

text \<open>Whom \<open>broadcastExcept\<close> writes to: the clients at the time it holds the lock, but the sender.\<close>

definition receivers :: "nat \<Rightarrow> ('s, 'm) demo \<Rightarrow> nat set" where
  "receivers c w = dm_clients w - {c}"

text \<open>
  \<open>WriteJSON\<close> fails when \<open>encoding/json\<close> refuses the message (a \<open>json.RawMessage\<close> that is not JSON)
  and on a connection that is broken.
\<close>

definition writeJSON :: "('m \<Rightarrow> bool) \<Rightarrow> nat \<Rightarrow> 'm \<Rightarrow> ('s, 'm) demo \<Rightarrow> unit res \<times> ('s, 'm) demo" where
  "writeJSON encodes c msg w =
     (if \<not> encodes msg then (Inl (LibError ''json''), w)
      else if dm_broken w c then (Inl (LibError ''websocket''), w)
      else (Inr (), w\<lparr>dm_sent := (dm_sent w)(c := dm_sent w c @ [msg])\<rparr>))"

definition goto :: "nat \<Rightarrow> 'm demo_pc \<Rightarrow> ('s, 'm) demo \<Rightarrow> ('s, 'm) demo" where
  "goto c pc w = w\<lparr>dm_pc := (dm_pc w)(c := pc)\<rparr>"

text \<open>Returning from \<open>handleWS\<close> runs the deferred \<open>removeClient\<close>.\<close>

definition leave :: "nat \<Rightarrow> ('s, 'm) demo \<Rightarrow> ('s, 'm) demo" where
  "leave c w = goto c Gone (removeClient c w)"

section \<open>The goroutine of a client\<close>

text \<open>
  \<open>hn_greet\<close> makes the initial message with its version from \<open>snapshot\<close>; \<open>hn_receive\<close> handles a
  message: an error message to write, the acknowledgement and the update, or a panic, which ends the
  goroutine (the deferred calls run).  \<open>hn_encodes\<close> is what \<open>encoding/json\<close> accepts.
\<close>

datatype 'm outcome = Refused 'm | Accepted 'm "'m option" | Panicked

record ('s, 'm, 'c) handlers =
  hn_greet :: "'s \<Rightarrow> string \<Rightarrow> 'm \<times> int"
  hn_receive :: "'s \<Rightarrow> string \<Rightarrow> int \<Rightarrow> 'c \<Rightarrow> 'm outcome \<times> 's"
  hn_encodes :: "'m \<Rightarrow> bool"

datatype 'c demo_event = Joins nat string | Snapshots nat | Greets nat | Receives nat 'c | Refuses nat | Acks nat
  | Collects nat | Sends nat nat | Returns nat | Leaves nat | Breaks nat

text \<open>
  Each event is a step of one goroutine (or a connection that breaks); one that is not at the
  program point of its goroutine changes nothing.
\<close>

fun demo_step :: "('s, 'm, 'c) handlers \<Rightarrow> 'c demo_event \<Rightarrow> ('s, 'm) demo \<Rightarrow> ('s, 'm) demo" where
  "demo_step P (Joins c i) w =
     (case dm_pc w c of
        Gone \<Rightarrow> goto c Registered (addClient c (w\<lparr>dm_ids := (dm_ids w)(c := i)\<rparr>))
      | _ \<Rightarrow> w)"
| "demo_step P (Snapshots c) w =
     (case dm_pc w c of
        Registered \<Rightarrow>
          (let (msg, version) = hn_greet P (dm_server w) (dm_ids w c)
           in goto c (Greeting msg) (w\<lparr>dm_version := (dm_version w)(c := version)\<rparr>))
      | _ \<Rightarrow> w)"
| "demo_step P (Greets c) w =
     (case dm_pc w c of
        Greeting msg \<Rightarrow>
          (case writeJSON (hn_encodes P) c msg w of (Inl _, w) \<Rightarrow> leave c w | (Inr _, w) \<Rightarrow> goto c Reading w)
      | _ \<Rightarrow> w)"
| "demo_step P (Receives c msg) w =
     (case dm_pc w c of
        Reading \<Rightarrow>
          (case hn_receive P (dm_server w) (dm_ids w c) (dm_version w c) msg of
             (Refused err, s) \<Rightarrow> goto c (Refusing err) (w\<lparr>dm_server := s\<rparr>)
           | (Accepted ack update, s) \<Rightarrow> goto c (Acking ack update) (w\<lparr>dm_server := s\<rparr>)
           | (Panicked, s) \<Rightarrow> leave c (w\<lparr>dm_server := s\<rparr>))
      | _ \<Rightarrow> w)"
| "demo_step P (Refuses c) w =
     (case dm_pc w c of
        Refusing err \<Rightarrow> goto c Reading (snd (writeJSON (hn_encodes P) c err w))
      | _ \<Rightarrow> w)"
| "demo_step P (Acks c) w =
     (case dm_pc w c of
        Acking ack update \<Rightarrow>
          (case writeJSON (hn_encodes P) c ack w of
             (Inl _, w) \<Rightarrow> leave c w
           | (Inr _, w) \<Rightarrow> goto c (case update of Some u \<Rightarrow> Publishing u | None \<Rightarrow> Reading) w)
      | _ \<Rightarrow> w)"
| "demo_step P (Collects c) w =
     (case dm_pc w c of
        Publishing u \<Rightarrow> goto c (Sending u (receivers c w)) w
      | _ \<Rightarrow> w)"
| "demo_step P (Sends c t) w =
     (case dm_pc w c of
        Sending u clients \<Rightarrow>
          (if t \<in> clients then goto c (Sending u (clients - {t})) (snd (writeJSON (hn_encodes P) t u w)) else w)
      | _ \<Rightarrow> w)"
| "demo_step P (Returns c) w =
     (case dm_pc w c of
        Sending u clients \<Rightarrow> (if clients = {} then goto c Reading w else w)
      | _ \<Rightarrow> w)"
| "demo_step P (Leaves c) w = (case dm_pc w c of Reading \<Rightarrow> leave c w | _ \<Rightarrow> w)"
| "demo_step P (Breaks c) w = w\<lparr>dm_broken := (dm_broken w)(c := True)\<rparr>"

fun demo_run :: "('s, 'm, 'c) handlers \<Rightarrow> 'c demo_event list \<Rightarrow> ('s, 'm) demo \<Rightarrow> ('s, 'm) demo" where
  "demo_run P [] w = w"
| "demo_run P (e # es) w = demo_run P es (demo_step P e w)"

section \<open>What is written is right\<close>

text \<open>
  \<open>good s g\<close> says that \<open>g\<close> is an account of what the server \<open>s\<close> has done, \<open>right g m\<close> that message \<open>m\<close>
  agrees with it.  When messages are right as they are made and stay right as the account goes on,
  everything written or in hand is.
\<close>

fun in_hand :: "'m demo_pc \<Rightarrow> 'm set" where
  "in_hand (Greeting m) = {m}"
| "in_hand (Refusing m) = {m}"
| "in_hand (Acking m u) = {m} \<union> set_option u"
| "in_hand (Publishing u) = {u}"
| "in_hand (Sending u _) = {u}"
| "in_hand _ = {}"

definition messages :: "('s, 'm) demo \<Rightarrow> 'm set" where
  "messages w = (\<Union>c. set (dm_sent w c) \<union> in_hand (dm_pc w c))"

definition all_right :: "('s \<Rightarrow> 'g \<Rightarrow> bool) \<Rightarrow> ('g \<Rightarrow> 'm \<Rightarrow> bool) \<Rightarrow> ('s, 'm) demo \<Rightarrow> bool" where
  "all_right good right w \<longleftrightarrow> (\<exists>g. good (dm_server w) g \<and> (\<forall>m \<in> messages w. right g m))"

fun outcome_messages :: "'m outcome \<Rightarrow> 'm set" where
  "outcome_messages (Refused m) = {m}"
| "outcome_messages (Accepted ack u) = {ack} \<union> set_option u"
| "outcome_messages Panicked = {}"

lemmas demo_defs = goto_def leave_def addClient_def removeClient_def

lemma messages_iff: "m \<in> messages w \<longleftrightarrow> (\<exists>c. m \<in> set (dm_sent w c) \<or> m \<in> in_hand (dm_pc w c))"
  by (auto simp: messages_def)

lemma writeJSON_cases:
  obtains (failed) e where "writeJSON f c m w = (Inl e, w)"
  | (written) "writeJSON f c m w = (Inr (), w\<lparr>dm_sent := (dm_sent w)(c := dm_sent w c @ [m])\<rparr>)"
  unfolding writeJSON_def by (cases "f m"; cases "dm_broken w c") simp_all

lemma writeJSON_messages: "messages (snd (writeJSON f c m w)) \<subseteq> messages w \<union> {m}"
  and writeJSON_server [simp]: "dm_server (snd (writeJSON f c m w)) = dm_server w"
  and writeJSON_pc [simp]: "dm_pc (snd (writeJSON f c m w)) = dm_pc w"
  by (rule writeJSON_cases [of f c m w]; auto simp: messages_iff split: if_splits)+

lemma goto_messages: "messages (goto c pc w) \<subseteq> messages w \<union> in_hand pc"
  and goto_server [simp]: "dm_server (goto c pc w) = dm_server w"
  by (auto simp: messages_iff goto_def split: if_splits)

lemma in_hand_messages: "in_hand (dm_pc w c) \<subseteq> messages w"
  by (auto simp: messages_iff)

lemma leave_messages: "messages (leave c w) \<subseteq> messages w"
  and leave_server [simp]: "dm_server (leave c w) = dm_server w"
  by (auto simp: messages_iff demo_defs split: if_splits)

text \<open>Only reading a message changes the server.\<close>

lemma step_writes:
  assumes "writeJSON f c m w = (r, w')" and "m \<in> messages w"
  shows "messages w' \<subseteq> messages w" "dm_server w' = dm_server w"
  using writeJSON_messages [of f c m w] writeJSON_server [of f c m w] assms by auto

lemma quiet_step:
  assumes "\<And>c msg. e \<noteq> Receives c msg" and "\<And>c. e \<noteq> Snapshots c"
  shows "messages (demo_step P e w) \<subseteq> messages w \<and> dm_server (demo_step P e w) = dm_server w"
proof (cases e)
  case (Joins c i)
  then show ?thesis by (auto simp: messages_iff demo_defs split: demo_pc.split if_splits)
next
  case (Greets c)
  show ?thesis
  proof (cases "dm_pc w c")
    case (Greeting m)
    obtain r w' where w': "writeJSON (hn_encodes P) c m w = (r, w')" by fastforce
    have "m \<in> messages w" using in_hand_messages [of w c] Greeting by simp
    note W = step_writes [OF w' this]
    show ?thesis
      using Greets Greeting w' W leave_messages [of c w'] goto_messages [of c Reading w']
      by (cases r) auto
  qed (use Greets in auto)
next
  case (Refuses c)
  show ?thesis
  proof (cases "dm_pc w c")
    case (Refusing m)
    then have "m \<in> messages w" using in_hand_messages [of w c] by simp
    then show ?thesis
      using Refuses Refusing writeJSON_messages [of "hn_encodes P" c m w] goto_messages [of c Reading "snd (writeJSON (hn_encodes P) c m w)"]
      by auto
  qed (use Refuses in auto)
next
  case (Acks c)
  show ?thesis
  proof (cases "dm_pc w c")
    case (Acking m u)
    obtain r w' where w': "writeJSON (hn_encodes P) c m w = (r, w')" by fastforce
    have hand: "{m} \<union> set_option u \<subseteq> messages w" using in_hand_messages [of w c] Acking by simp
    then have "m \<in> messages w" by simp
    note W = step_writes [OF w' this]
    show ?thesis
      using Acks Acking w' W hand leave_messages [of c w']
        goto_messages [of c "case u of Some x \<Rightarrow> Publishing x | None \<Rightarrow> Reading" w']
      by (cases r; cases u) auto
  qed (use Acks in auto)
next
  case (Collects c)
  show ?thesis
  proof (cases "dm_pc w c")
    case (Publishing u)
    then show ?thesis
      using Collects in_hand_messages [of w c] goto_messages [of c "Sending u (receivers c w)" w] by auto
  qed (use Collects in auto)
next
  case (Sends c t)
  show ?thesis
  proof (cases "dm_pc w c")
    case (Sending u cs)
    then have u: "u \<in> messages w" using in_hand_messages [of w c] by simp
    show ?thesis
      using Sends Sending u writeJSON_messages [of "hn_encodes P" t u w]
        goto_messages [of c "Sending u (cs - {t})" "snd (writeJSON (hn_encodes P) t u w)"]
      by auto
  qed (use Sends in auto)
next
  case (Returns c)
  show ?thesis
    using Returns goto_messages [of c Reading w] by (cases "dm_pc w c") auto
next
  case (Leaves c)
  show ?thesis using Leaves leave_messages [of c w] by (cases "dm_pc w c") auto
next
  case (Breaks c)
  then show ?thesis by (auto simp: messages_iff)
qed (use assms in auto)

locale demo_server =
  fixes P :: "('s, 'm, 'c) handlers" and good :: "'s \<Rightarrow> 'g \<Rightarrow> bool" and right :: "'g \<Rightarrow> 'm \<Rightarrow> bool"
  assumes greet_right: "good s g \<Longrightarrow> hn_greet P s i = (m, v) \<Longrightarrow> right g m"
    and receive_right: "good s g \<Longrightarrow> hn_receive P s i v c = (r, s') \<Longrightarrow>
          \<exists>g'. good s' g' \<and> (\<forall>m. right g m \<longrightarrow> right g' m) \<and> (\<forall>m \<in> outcome_messages r. right g' m)"
begin

lemma all_right_receives:
  assumes good: "good (dm_server w) g" and ok: "\<And>m. m \<in> messages w \<Longrightarrow> right g m" and pc: "dm_pc w c = Reading"
  shows "all_right good right (demo_step P (Receives c msg) w)"
proof -
  obtain r s' where h: "hn_receive P (dm_server w) (dm_ids w c) (dm_version w c) msg = (r, s')" by fastforce
  let ?w = "w\<lparr>dm_server := s'\<rparr>"
  have same: "messages ?w = messages w" by (auto simp: messages_iff)
  obtain g' where g': "good s' g'" "\<And>m. right g m \<Longrightarrow> right g' m" "\<And>m. m \<in> outcome_messages r \<Longrightarrow> right g' m"
    using receive_right [OF good h] by auto
  have "dm_server (demo_step P (Receives c msg) w) = s' \<and>
      messages (demo_step P (Receives c msg) w) \<subseteq> messages w \<union> outcome_messages r"
  proof (cases r)
    case (Refused err)
    then show ?thesis using pc h goto_messages [of c "Refusing err" ?w] same by auto
  next
    case (Accepted ack u)
    then show ?thesis using pc h goto_messages [of c "Acking ack u" ?w] same by auto
  next
    case Panicked
    then show ?thesis using pc h leave_messages [of c ?w] same by auto
  qed
  then show ?thesis using g' ok unfolding all_right_def by (intro exI [of _ g']) blast
qed

lemma all_right_step:
  assumes "all_right good right w"
  shows "all_right good right (demo_step P e w)"
proof -
  obtain g where good: "good (dm_server w) g" and ok: "\<And>m. m \<in> messages w \<Longrightarrow> right g m"
    using assms by (auto simp: all_right_def)
  consider (receives) c msg where "e = Receives c msg" | (snapshots) c where "e = Snapshots c"
    | (other) "\<And>c msg. e \<noteq> Receives c msg" "\<And>c. e \<noteq> Snapshots c"
    by (cases e) auto
  then show ?thesis
  proof cases
    case other
    then have "messages (demo_step P e w) \<subseteq> messages w" "dm_server (demo_step P e w) = dm_server w"
      using quiet_step [of e P w] by auto
    then show ?thesis using good ok unfolding all_right_def by (intro exI [of _ g]) auto
  next
    case (snapshots c)
    show ?thesis
    proof (cases "dm_pc w c")
      case Registered
      obtain m v where m: "hn_greet P (dm_server w) (dm_ids w c) = (m, v)" by fastforce
      let ?w = "w\<lparr>dm_version := (dm_version w)(c := v)\<rparr>"
      have "messages ?w = messages w" by (auto simp: messages_iff)
      then have "messages (demo_step P e w) \<subseteq> messages w \<union> {m}" "dm_server (demo_step P e w) = dm_server w"
        using snapshots Registered m goto_messages [of c "Greeting m" ?w] by auto
      then show ?thesis using good ok greet_right [OF good m] unfolding all_right_def by (intro exI [of _ g]) auto
    qed (use snapshots assms in auto)
  next
    case (receives c msg)
    then show ?thesis using all_right_receives [OF good ok] assms by (cases "dm_pc w c") auto
  qed
qed

theorem all_right_run: "all_right good right w \<Longrightarrow> all_right good right (demo_run P es w)"
  by (induction es arbitrary: w) (auto intro: all_right_step)

lemma all_right_new: "good s g \<Longrightarrow> all_right good right (newDemo s)"
  by (auto simp: all_right_def messages_def newDemo_def)

end

end
