(* ===== verification/TextCollab.thy ===== *)
theory TextCollab
  imports CollabDemo
begin

text \<open>
  \<open>examples/websocket/main.go\<close>: a server that keeps one text.  A client sends an operation on
  \<open>{"content": text}\<close> with the version it edited; the server transforms it through the
  operations committed since, applies it to the text and appends it to its history.
  \<open>depth\<close> is the depth of nested arrays the reader's stack can hold.
\<close>

section \<open>Messages and state\<close>

record clientMessage =
  cl_Type :: string
  cl_Version :: int
  cl_Op :: string

text \<open>\<open>Message\<close> is the text of an error; the error stands for it.\<close>

record serverMessage =
  msg_Type :: string
  msg_ClientID :: string
  msg_Version :: int
  msg_Document :: string
  msg_Op :: string
  msg_Message :: "go_error option"

definition serverMessage0 :: serverMessage where
  "serverMessage0 = \<lparr>msg_Type = '''', msg_ClientID = '''', msg_Version = 0, msg_Document = '''', msg_Op = '''',
     msg_Message = None\<rparr>"

text \<open>
  The clients of the server are kept in \<open>demo\<close>; \<open>cs_fresh\<close> numbers the subtype objects the reader allocates.
  \<open>cs_edits\<close>, which never changes, says how calls of the engine edit the history in place (see
  \<open>CollabDemo\<close>); \<open>cs_time\<close> counts these calls.
\<close>

record 'v collabServer =
  cs_ot :: JSONOperationTransformer
  cs_document :: string
  cs_history :: "'v Operation list"
  cs_fresh :: nat
  cs_edits :: "'v edits"
  cs_time :: nat

definition newCollabServer :: "'v edits \<Rightarrow> 'v collabServer" where
  "newCollabServer edits =
     \<lparr>cs_ot = NewJSONOperationTransformer, cs_document = '''', cs_history = [], cs_fresh = 0,
      cs_edits = edits, cs_time = 0\<rparr>"

definition snapshot :: "'v collabServer \<Rightarrow> string \<times> int" where
  "snapshot s = (cs_document s, int (length (cs_history s)))"

section \<open>Operations of a client\<close>

definition parseOperation ::
    "nat \<Rightarrow> ('v, 'f) env \<Rightarrow> 'v collabServer \<Rightarrow> string \<Rightarrow> ('v Operation \<times> nat) res" where
  "parseOperation depth E s rawOp =
     andThen (UnmarshalValue E rawOp) (\<lambda>node.
     case OperationComponentsFromValue depth E (ot_functions (cs_ot s)) (cs_fresh s) node of
       None \<Rightarrow> Inl Panic
     | Some components \<Rightarrow>
         andThen components (\<lambda>(components, fresh).
           let operation = NewOperation components
           in andThen (Operation_Validation operation) (\<lambda>_. Inr (operation, fresh))))"

definition applyOperation :: "('v, 'f) env \<Rightarrow> string \<Rightarrow> 'v Operation \<Rightarrow> string res" where
  "applyOperation E document op =
     (let doc = ValueFromAny E (AMap [(''content'', AStr document)])
      in andThen (Engine_Apply E doc op) (\<lambda>result.
           case GetStringKey E result ''content'' of
             None \<Rightarrow> Inl FmtError
           | Some content \<Rightarrow> Inr content))"

text \<open>Rebasing the operation of a client, and applying one; both may edit the history.\<close>

definition rebaseOperation ::
    "('v, 'f) env \<Rightarrow> int \<Rightarrow> 'v Operation \<Rightarrow> 'v collabServer \<Rightarrow> 'v Operation res \<times> 'v collabServer" where
  "rebaseOperation E baseVersion op s =
     (let i = nat baseVersion;
          (r, history, t) = transformThrough E (cs_edits s) (length (cs_history s) - i) i op (cs_history s) (cs_time s)
      in (r, s\<lparr>cs_history := history, cs_time := t\<rparr>))"

definition applyTransformed ::
    "('v, 'f) env \<Rightarrow> 'v Operation \<Rightarrow> 'v collabServer \<Rightarrow> (string \<times> 'v Operation) res \<times> 'v collabServer" where
  "applyTransformed E transformed s =
     (andThen (applyOperation E (cs_document s) transformed) (\<lambda>nextDocument.
        Inr (nextDocument, cs_edits s (cs_time s) (length (cs_history s)) transformed)),
      s\<lparr>cs_history := editHistory (cs_edits s) (cs_time s) (cs_history s), cs_time := Suc (cs_time s)\<rparr>)"

text \<open>The result is the update for the other clients, if any, and the acknowledgement.\<close>

definition applyClientOperation ::
    "nat \<Rightarrow> ('v, 'f) env \<Rightarrow> string \<Rightarrow> int \<Rightarrow> string \<Rightarrow> 'v collabServer \<Rightarrow>
     (serverMessage option \<times> serverMessage) res \<times> 'v collabServer" where
  "applyClientOperation depth E sender baseVersion rawOp s =
     (if baseVersion < 0 \<or> baseVersion > int (length (cs_history s)) then (Inl FmtError, s)
      else
        bindS (parseOperation depth E s rawOp, s) (\<lambda>(op, fresh) s.
        bindS (rebaseOperation E baseVersion op (s\<lparr>cs_fresh := fresh\<rparr>)) (\<lambda>transformed s.
        bindS (Operation_IsEmpty transformed, s) (\<lambda>empty s.
        if empty then
          (Inr (None, serverMessage0\<lparr>msg_Type := ''ack'', msg_Version := int (length (cs_history s)),
                  msg_Document := cs_document s\<rparr>), s)
        else
          bindS (applyTransformed E transformed s) (\<lambda>(nextDocument, transformed) s.
          let s = s\<lparr>cs_document := nextDocument, cs_history := cs_history s @ [transformed]\<rparr>;
              version = int (length (cs_history s));
              serialized = RawMessage E (Operation_ToValue E transformed)
          in (Inr (Some (serverMessage0\<lparr>msg_Type := ''update'', msg_ClientID := sender, msg_Version := version,
                     msg_Document := cs_document s, msg_Op := serialized\<rparr>),
                   serverMessage0\<lparr>msg_Type := ''ack'', msg_Version := version,
                     msg_Document := cs_document s\<rparr>), s))))))"

section \<open>The handler\<close>

definition errorMessage :: "go_error \<Rightarrow> serverMessage" where
  "errorMessage err = serverMessage0\<lparr>msg_Type := ''error'', msg_Message := Some err\<rparr>"

definition initMessage :: "'v collabServer \<Rightarrow> string \<Rightarrow> serverMessage \<times> int" where
  "initMessage s clientID =
     (let (document, version) = snapshot s
      in (serverMessage0\<lparr>msg_Type := ''init'', msg_ClientID := clientID, msg_Version := version,
            msg_Document := document\<rparr>, version))"

definition handleMessage ::
    "nat \<Rightarrow> ('v, 'f) env \<Rightarrow> 'v collabServer \<Rightarrow> string \<Rightarrow> clientMessage \<Rightarrow>
     serverMessage outcome \<times> 'v collabServer" where
  "handleMessage depth E s clientID msg =
     (if cl_Type msg \<noteq> ''op'' then (Refused (errorMessage FmtError), s)
      else case applyClientOperation depth E clientID (cl_Version msg) (cl_Op msg) s of
             (Inl err, s) \<Rightarrow> (if err = Panic then Panicked else Refused (errorMessage err), s)
           | (Inr (update, ack), s) \<Rightarrow> (Accepted ack update, s))"

text \<open>\<open>valid\<close> is \<open>json.Valid\<close>; an empty \<open>Op\<close> is omitted.\<close>

definition messageEncodes :: "(string \<Rightarrow> bool) \<Rightarrow> serverMessage \<Rightarrow> bool" where
  "messageEncodes valid msg \<longleftrightarrow> msg_Op msg = '''' \<or> valid (msg_Op msg)"

definition handleWS ::
    "nat \<Rightarrow> ('v, 'f) env \<Rightarrow> (string \<Rightarrow> bool) \<Rightarrow> ('v collabServer, serverMessage, clientMessage) handlers" where
  "handleWS depth E valid =
     \<lparr>hn_greet = initMessage, hn_receive = (\<lambda>s clientID _ msg. handleMessage depth E s clientID msg),
      hn_encodes = messageEncodes valid\<rparr>"

section \<open>The text is a replay of the operations applied\<close>

fun replay :: "('v, 'f) env \<Rightarrow> string \<Rightarrow> 'v Operation list \<Rightarrow> string res" where
  "replay E document [] = Inr document"
| "replay E document (op # ops) = andThen (applyOperation E document op) (\<lambda>document. replay E document ops)"

lemma replay_append: "replay E d (ops @ ops') = andThen (replay E d ops) (\<lambda>d. replay E d ops')"
  by (induction ops arbitrary: d) (simp_all add: andThen_assoc)

text \<open>
  The account of a run are the operations \<open>ops\<close> it has applied, each as it was when it was applied:
  one for each entry of the history, which is the same operation unless it has been edited since.
\<close>

definition replays :: "('v, 'f) env \<Rightarrow> 'v edits \<Rightarrow> 'v collabServer \<Rightarrow> 'v Operation list \<Rightarrow> bool" where
  "replays E edits s ops \<longleftrightarrow> cs_edits s = edits \<and> length ops = length (cs_history s)
     \<and> replay E '''' ops = Inr (cs_document s) \<and> (unshared edits \<longrightarrow> cs_history s = ops)"

text \<open>A message with a version carries the text of that version, an update also the operation that made it.\<close>

definition tells_version :: "('v, 'f) env \<Rightarrow> 'v edits \<Rightarrow> 'v Operation list \<Rightarrow> serverMessage \<Rightarrow> bool" where
  "tells_version E edits ops m =
     (if msg_Type m = ''error'' then msg_Message m \<noteq> None
      else 0 \<le> msg_Version m \<and> msg_Version m \<le> int (length ops)
         \<and> replay E '''' (take (nat (msg_Version m)) ops) = Inr (msg_Document m)
         \<and> (if msg_Type m = ''update''
            then 1 \<le> msg_Version m
              \<and> (unshared edits \<longrightarrow> msg_Op m = RawMessage E (Operation_ToValue E (ops ! (nat (msg_Version m) - 1))))
            else msg_Op m = ''''))"

lemma rebaseOperation_keeps:
  assumes "rebaseOperation E v op s = (r, s')"
  shows "cs_document s' = cs_document s" "cs_edits s' = cs_edits s"
    "length (cs_history s') = length (cs_history s)" "unshared (cs_edits s) \<Longrightarrow> cs_history s' = cs_history s"
  using assms unfolding rebaseOperation_def Let_def
  by (auto dest: transformThrough_length transformThrough_unshared split: prod.splits)

lemma applyTransformed_keeps:
  assumes "applyTransformed E op s = (r, s')"
  shows "cs_document s' = cs_document s" "cs_edits s' = cs_edits s"
    "length (cs_history s') = length (cs_history s)" "unshared (cs_edits s) \<Longrightarrow> cs_history s' = cs_history s"
    "r = Inr (d, op') \<Longrightarrow> applyOperation E (cs_document s) op = Inr d \<and> (unshared (cs_edits s) \<longrightarrow> op' = op)"
  using assms unfolding applyTransformed_def
  by (auto simp: editHistory_unshared unshared_def andThen_Inr_iff)

text \<open>States with the same text and, up to edits, the same history.\<close>

definition same_text :: "'v collabServer \<Rightarrow> 'v collabServer \<Rightarrow> bool" where
  "same_text s s' \<longleftrightarrow> cs_document s' = cs_document s \<and> cs_edits s' = cs_edits s
     \<and> length (cs_history s') = length (cs_history s) \<and> (unshared (cs_edits s) \<longrightarrow> cs_history s' = cs_history s)"

lemma same_text_trans: "same_text s s' \<Longrightarrow> same_text s' s'' \<Longrightarrow> same_text s s''"
  by (simp add: same_text_def)

lemma same_text_replays: "same_text s s' \<Longrightarrow> replays E edits s' ops \<longleftrightarrow> replays E edits s ops"
  by (auto simp: same_text_def replays_def)

text \<open>What a submission does to the state: nothing but edits, or one more operation.\<close>

lemma applyClientOperation_cases:
  assumes run: "applyClientOperation depth E sender v raw s = (r, s')"
  obtains (failed) e where "r = Inl e" "same_text s s'"
  | (empty) "same_text s s'"
      "r = Inr (None, serverMessage0\<lparr>msg_Type := ''ack'', msg_Version := int (length (cs_history s)),
                  msg_Document := cs_document s\<rparr>)"
  | (committed) op op' d s1 where "same_text s s1" "applyOperation E (cs_document s) op = Inr d"
      "unshared (cs_edits s) \<longrightarrow> op' = op" "s' = s1\<lparr>cs_document := d, cs_history := cs_history s1 @ [op']\<rparr>"
      "r = Inr (Some (serverMessage0\<lparr>msg_Type := ''update'', msg_ClientID := sender,
               msg_Version := int (Suc (length (cs_history s))), msg_Document := d,
               msg_Op := RawMessage E (Operation_ToValue E op')\<rparr>),
             serverMessage0\<lparr>msg_Type := ''ack'', msg_Version := int (Suc (length (cs_history s))), msg_Document := d\<rparr>)"
proof (cases "(v < 0 \<or> v > int (length (cs_history s))) \<or> (\<exists>e. parseOperation depth E s raw = Inl e)")
  case True
  then show ?thesis using run failed
    by (auto simp: applyClientOperation_def same_text_def split: if_splits)
next
  case False
  then obtain op0 fresh where p: "parseOperation depth E s raw = Inr (op0, fresh)"
    by (cases "parseOperation depth E s raw") auto
  obtain r1 s1 where b: "rebaseOperation E v op0 (s\<lparr>cs_fresh := fresh\<rparr>) = (r1, s1)" by fastforce
  have s1: "same_text s s1" using rebaseOperation_keeps [OF b] by (simp add: same_text_def)
  show ?thesis
  proof (cases "andThen r1 (\<lambda>op. andThen (Operation_IsEmpty op) (\<lambda>b. Inr (op, b)))")
    case (Inl e)
    then have "r = Inl e" "s' = s1" using run False p b
      by (auto simp: applyClientOperation_def andThen_Inl_iff split: if_splits)
    then show ?thesis using s1 failed by blast
  next
    case (Inr opb)
    then obtain op b' where op: "r1 = Inr op" "Operation_IsEmpty op = Inr b'" by (auto simp: andThen_Inr_iff)
    show ?thesis
    proof (cases b')
      case True
      then show ?thesis using run False p b op s1 empty
        by (auto simp: applyClientOperation_def same_text_def split: if_splits)
    next
      case False
      obtain r2 s2 where a: "applyTransformed E op s1 = (r2, s2)" by fastforce
      have s2: "same_text s1 s2" using applyTransformed_keeps(1-4) [OF a] by (simp add: same_text_def)
      note s = same_text_trans [OF s1 s2]
      show ?thesis
      proof (cases r2)
        case (Inl e)
        then have "r = Inl e" "s' = s2"
          using run \<open>\<not> ((v < 0 \<or> _) \<or> _)\<close> p b op False a by (auto simp: applyClientOperation_def split: if_splits)
        then show ?thesis using s failed by blast
      next
        case (Inr x)
        obtain d op' where x: "x = (d, op')" by fastforce
        have d: "applyOperation E (cs_document s) op = Inr d" "unshared (cs_edits s) \<longrightarrow> op' = op"
          using applyTransformed_keeps(5) [OF a] Inr x s1 by (auto simp: same_text_def)
        show ?thesis
          using run \<open>\<not> ((v < 0 \<or> _) \<or> _)\<close> p b op False a Inr x s
          by (intro committed [OF s d]) (auto simp: applyClientOperation_def same_text_def Let_def split: if_splits)
      qed
    qed
  qed
qed

lemma tells_version_kept:
  assumes "tells_version E edits ops m"
  shows "tells_version E edits (ops @ ops') m"
proof (cases "msg_Type m = ''error''")
  case False
  then have "nat (msg_Version m) \<le> length ops" using assms by (auto simp: tells_version_def nat_le_iff)
  moreover have "msg_Type m = ''update'' \<Longrightarrow> nat (msg_Version m) - 1 < length ops"
    using False assms by (auto simp: tells_version_def nat_le_iff)
  ultimately show ?thesis using False assms by (auto simp: tells_version_def nth_append)
qed (use assms in \<open>simp add: tells_version_def\<close>)

lemmas message_defs = errorMessage_def initMessage_def snapshot_def serverMessage0_def

lemma submitted_right:
  assumes good: "replays E edits s ops" and a: "applyClientOperation depth E i v raw s = (r, s')"
  shows "\<exists>ops'. replays E edits s' (ops @ ops') \<and> (\<forall>u ack. r = Inr (u, ack) \<longrightarrow>
    tells_version E edits (ops @ ops') ack \<and> (\<forall>x. u = Some x \<longrightarrow> tells_version E edits (ops @ ops') x))"
proof (cases rule: applyClientOperation_cases [OF a])
  case (1 e)
  then show ?thesis using good by (intro exI [of _ "[]"]) (simp add: same_text_replays)
next
  case 2
  then show ?thesis using good
    by (intro exI [of _ "[]"]) (auto simp: same_text_def replays_def tells_version_def message_defs)
next
  case (3 op op' d s1)
  have g: "cs_edits s = edits" "length ops = length (cs_history s)" "replay E '''' ops = Inr (cs_document s)"
      "unshared edits \<Longrightarrow> cs_history s = ops"
    using good by (auto simp: replays_def)
  have d: "replay E '''' (ops @ [op]) = Inr d" using g(3) 3(2) by (simp add: replay_append)
  have "replays E edits s' (ops @ [op])"
    using g(1,2,4) d 3(1,3) unfolding 3(4) by (auto simp: replays_def same_text_def)
  moreover have "tells_version E edits (ops @ [op]) ack" "u = Some x \<Longrightarrow> tells_version E edits (ops @ [op]) x"
    if "r = Inr (u, ack)" for u ack x
    using that g(1,2) d 3(3) unfolding 3(5)
    by (auto simp: tells_version_def serverMessage0_def nat_add_distrib nth_append)
  ultimately show ?thesis by blast
qed

lemma handleWS_simps [simp]:
  "hn_greet (handleWS depth E valid) = initMessage"
  "hn_receive (handleWS depth E valid) s i v msg = handleMessage depth E s i msg"
  by (simp_all add: handleWS_def)

lemma handled_right:
  assumes good: "replays E edits s ops" and h: "handleMessage depth E s i msg = (r, s')"
  shows "\<exists>ops'. replays E edits s' (ops @ ops') \<and> (\<forall>m \<in> outcome_messages r. tells_version E edits (ops @ ops') m)"
proof (cases "cl_Type msg \<noteq> ''op''")
  case True
  then show ?thesis using h good
    by (intro exI [of _ "[]"]) (auto simp: handleMessage_def tells_version_def message_defs)
next
  case False
  obtain a s1 where a: "applyClientOperation depth E i (cl_Version msg) (cl_Op msg) s = (a, s1)" by fastforce
  obtain ops' where ops': "replays E edits s1 (ops @ ops')" "\<And>u ack. a = Inr (u, ack) \<Longrightarrow>
      tells_version E edits (ops @ ops') ack \<and> (\<forall>x. u = Some x \<longrightarrow> tells_version E edits (ops @ ops') x)"
    using submitted_right [OF good a] by auto
  have "s' = s1 \<and> (\<forall>m \<in> outcome_messages r. tells_version E edits (ops @ ops') m)"
  proof (cases a)
    case (Inl e)
    have "tells_version E edits (ops @ ops') (errorMessage e)" by (simp add: tells_version_def message_defs)
    then show ?thesis using h False a Inl by (auto simp: handleMessage_def split: if_splits)
  next
    case (Inr x)
    then show ?thesis using h False a ops'(2) by (cases x) (auto simp: handleMessage_def)
  qed
  then show ?thesis using ops'(1) by blast
qed

interpretation text_server:
  demo_server "handleWS depth E valid" "replays E edits" "tells_version E edits" for depth E valid edits
proof (unfold_locales, unfold handleWS_simps)
  fix s s' :: "'a collabServer" and i :: string and m :: serverMessage and v :: int and c r ops
  assume good: "replays E edits s ops"
  show "initMessage s i = (m, v) \<Longrightarrow> tells_version E edits ops m"
    using good by (auto simp: replays_def tells_version_def message_defs)
  assume "handleMessage depth E s i c = (r, s')"
  from handled_right [OF good this]
  show "\<exists>ops'. replays E edits s' ops' \<and> (\<forall>m. tells_version E edits ops m \<longrightarrow> tells_version E edits ops' m)
      \<and> (\<forall>m \<in> outcome_messages r. tells_version E edits ops' m)"
    using tells_version_kept by blast
qed

end
