(* ===== verification/BlockCollab.thy ===== *)
theory BlockCollab
  imports CollabDemo DiffOps
begin

text \<open>
  \<open>examples/blocknote-collab/main.go\<close>: a server that keeps one document of blocks.  A client sends
  its whole document with the version it edited; the server compares it with its snapshot of that
  version, transforms the difference through the operations committed since, applies it to the
  current document, and keeps a snapshot of every version.  The parts this program shares with the
  websocket example are in \<open>CollabDemo\<close>.  \<open>depth\<close> is the depth \<open>Diff\<close> may descend.
\<close>

section \<open>Messages and state\<close>

record clientMessage =
  bc_Type :: string
  bc_Version :: int
  bc_Document :: string

text \<open>\<open>Message\<close> is the text of an error; the error stands for it.\<close>

record serverMessage =
  bm_Type :: string
  bm_ClientID :: string
  bm_Version :: int
  bm_Document :: string
  bm_Message :: "go_error option"

definition serverMessage0 :: serverMessage where
  "serverMessage0 = \<lparr>bm_Type = '''', bm_ClientID = '''', bm_Version = 0, bm_Document = '''', bm_Message = None\<rparr>"

text \<open>
  The document may hold nodes that operations of the history hold, too, so a call of the engine can edit
  it in place as it can the history (see \<open>CollabDemo\<close>): \<open>bs_edits\<close> and \<open>bs_docEdits\<close>, which never change,
  say how the calls, counted by \<open>bs_time\<close>, edit the history and the document.  A snapshot is made
  by parsing and shares nothing.
\<close>

record 'v collabServer =
  bs_ot :: JSONOperationTransformer
  bs_document :: 'v
  bs_history :: "'v Operation list"
  bs_snapshots :: "'v list"
  bs_edits :: "'v edits"
  bs_docEdits :: "nat \<Rightarrow> 'v \<Rightarrow> 'v"
  bs_time :: nat

definition cloneValue :: "('v, 'f) env \<Rightarrow> 'v \<Rightarrow> 'v res" where
  "cloneValue E value = UnmarshalValue E (RawMessage E value)"

text \<open>The greeting of the first block, in UTF-8.\<close>

definition welcomeText :: string where
  "welcomeText =
     map char_of [0xE6 :: nat, 0xAC, 0xA2, 0xE8, 0xBF, 0x8E, 0xE6, 0x9D, 0xA5, 0xE5, 0x88, 0xB0]
       @ '' jsonot + BlockNote ''
       @ map char_of [0xE5 :: nat, 0x8D, 0x8F, 0xE5, 0x90, 0x8C, 0xE7, 0xBC, 0x96, 0xE8, 0xBE, 0x91,
                      0xE7, 0xA4, 0xBA, 0xE4, 0xBE, 0x8B]"

definition initialDoc :: "('v, 'f) env \<Rightarrow> 'v" where
  "initialDoc E =
     ValueFromAny E (AMap
       [(''blocks'', AList
          [AMap
             [(''id'', AStr ''welcome-block''),
              (''type'', AStr ''paragraph''),
              (''content'', AList
                 [AMap
                    [(''type'', AStr ''text''),
                     (''text'', AStr welcomeText),
                     (''styles'', AMap [])]])]])])"

text \<open>The program panics when the first document cannot be copied.\<close>

definition newCollabServer :: "('v, 'f) env \<Rightarrow> 'v edits \<Rightarrow> (nat \<Rightarrow> 'v \<Rightarrow> 'v) \<Rightarrow> 'v collabServer res" where
  "newCollabServer E edits docEdits =
     (case cloneValue E (initialDoc E) of
        Inl e \<Rightarrow> Inl Panic
      | Inr clone \<Rightarrow>
          Inr \<lparr>bs_ot = NewJSONOperationTransformer, bs_document = initialDoc E, bs_history = [],
               bs_snapshots = [clone], bs_edits = edits, bs_docEdits = docEdits, bs_time = 0\<rparr>)"

definition snapshot :: "('v, 'f) env \<Rightarrow> 'v collabServer \<Rightarrow> string \<times> int" where
  "snapshot E s = (RawMessage E (bs_document s), int (length (bs_history s)))"

definition validateClientDocument :: "('v, 'f) env \<Rightarrow> 'v \<Rightarrow> unit res" where
  "validateClientDocument E document =
     (if \<not> IsObject E document then Inl FmtError
      else case GetKey E document ''blocks'' of
             None \<Rightarrow> Inl FmtError
           | Some blocks \<Rightarrow>
               andThen (reify (GetArray E blocks)) (\<lambda>arr.
                 case arr of
                   Inl _ \<Rightarrow> Inl FmtError
                 | Inr arr \<Rightarrow> if length arr = 0 then Inl FmtError else Inr ()))"

section \<open>Synchronising\<close>

text \<open>Rebasing the difference, and applying it to the current document; both may edit the history and the
  document.\<close>

definition rebaseChange ::
    "('v, 'f) env \<Rightarrow> int \<Rightarrow> 'v Operation \<Rightarrow> 'v collabServer \<Rightarrow> 'v Operation res \<times> 'v collabServer" where
  "rebaseChange E baseVersion op s =
     (let i = nat baseVersion;
          (r, history, t) = transformThrough E (bs_edits s) (length (bs_history s) - i) i op (bs_history s) (bs_time s)
      in (wrapError r, s\<lparr>bs_history := history, bs_document := fold (bs_docEdits s) [bs_time s..<t] (bs_document s),
            bs_time := t\<rparr>))"

definition applyChange ::
    "('v, 'f) env \<Rightarrow> 'v \<Rightarrow> 'v Operation \<Rightarrow> 'v collabServer \<Rightarrow> ('v \<times> 'v Operation) res \<times> 'v collabServer" where
  "applyChange E current transformed s =
     (andThen (wrapError (Engine_Apply E current transformed)) (\<lambda>nextDoc.
        Inr (nextDoc, bs_edits s (bs_time s) (length (bs_history s)) transformed)),
      s\<lparr>bs_history := editHistory (bs_edits s) (bs_time s) (bs_history s),
        bs_document := bs_docEdits s (bs_time s) (bs_document s), bs_time := Suc (bs_time s)\<rparr>)"

text \<open>
  The change of a client: its document compared with the snapshot of its version, rebased.  There is
  at most one snapshot more than operations, so the slice of the history is in range.
\<close>

definition clientChange ::
    "nat \<Rightarrow> ('v, 'f) env \<Rightarrow> int \<Rightarrow> string \<Rightarrow> 'v collabServer \<Rightarrow> 'v Operation res \<times> 'v collabServer" where
  "clientChange depth E baseVersion rawDocument s =
     (if baseVersion < 0 \<or> baseVersion \<ge> int (length (bs_snapshots s)) then (Inl FmtError, s)
      else
        bindS (andThen (wrapError (UnmarshalValue E rawDocument)) (\<lambda>clientDoc.
               andThen (validateClientDocument E clientDoc) (\<lambda>_.
               andThen (wrapError (cloneValue E (bs_snapshots s ! nat baseVersion))) (\<lambda>baseDoc.
               case Diff depth E (bs_ot s) baseDoc clientDoc of
                 None \<Rightarrow> Inl Panic
               | Some diffResult \<Rightarrow> wrapError diffResult))), s)
          (\<lambda>transformed s. rebaseChange E baseVersion transformed s))"

text \<open>
  Applying and committing it.  When the new document cannot be copied the document and the history
  have already been changed.
\<close>

definition commitChange ::
    "('v, 'f) env \<Rightarrow> string \<Rightarrow> 'v Operation \<Rightarrow> 'v collabServer \<Rightarrow>
     (serverMessage option \<times> serverMessage) res \<times> 'v collabServer" where
  "commitChange E sender transformed s =
     bindS (wrapError (cloneValue E (bs_document s)), s) (\<lambda>current s.
     bindS (applyChange E current transformed s) (\<lambda>(nextDoc, transformed) s.
     bindS (wrapError (validateClientDocument E nextDoc), s) (\<lambda>_ s.
     let s = s\<lparr>bs_document := nextDoc, bs_history := bs_history s @ [transformed]\<rparr> in
     bindS (wrapError (cloneValue E nextDoc), s) (\<lambda>clonedSnapshot s.
     let s = s\<lparr>bs_snapshots := bs_snapshots s @ [clonedSnapshot]\<rparr>;
         version = int (length (bs_history s));
         raw = RawMessage E (bs_document s)
     in (Inr (Some (serverMessage0\<lparr>bm_Type := ''update'', bm_ClientID := sender, bm_Version := version,
                bm_Document := raw\<rparr>),
              serverMessage0\<lparr>bm_Type := ''ack'', bm_Version := version, bm_Document := raw\<rparr>), s)))))"

text \<open>The result is the update for the other clients, if any, and the acknowledgement.\<close>

definition applyClientSync ::
    "nat \<Rightarrow> ('v, 'f) env \<Rightarrow> string \<Rightarrow> int \<Rightarrow> string \<Rightarrow> 'v collabServer \<Rightarrow>
     (serverMessage option \<times> serverMessage) res \<times> 'v collabServer" where
  "applyClientSync depth E sender baseVersion rawDocument s =
     bindS (clientChange depth E baseVersion rawDocument s) (\<lambda>transformed s.
     bindS (Operation_IsEmpty transformed, s) (\<lambda>empty s.
     if empty then
       let raw = RawMessage E (bs_document s)
       in (Inr (None, serverMessage0\<lparr>bm_Type := ''ack'', bm_Version := int (length (bs_history s)),
               bm_Document := raw\<rparr>), s)
     else commitChange E sender transformed s))"

section \<open>The handler\<close>

definition initMessage :: "('v, 'f) env \<Rightarrow> 'v collabServer \<Rightarrow> string \<Rightarrow> serverMessage \<times> int" where
  "initMessage E s clientID =
     (let (docRaw, version) = snapshot E s
      in (serverMessage0\<lparr>bm_Type := ''init'', bm_ClientID := clientID, bm_Version := version,
            bm_Document := docRaw\<rparr>, version))"

text \<open>An error message carries the version the client was greeted with.\<close>

definition errorMessage :: "int \<Rightarrow> go_error \<Rightarrow> serverMessage" where
  "errorMessage version err =
     serverMessage0\<lparr>bm_Type := ''error'', bm_Version := version, bm_Message := Some err\<rparr>"

definition handleMessage ::
    "nat \<Rightarrow> ('v, 'f) env \<Rightarrow> 'v collabServer \<Rightarrow> string \<Rightarrow> int \<Rightarrow> clientMessage \<Rightarrow>
     serverMessage outcome \<times> 'v collabServer" where
  "handleMessage depth E s clientID version msg =
     (if bc_Type msg \<noteq> ''sync'' then (Refused (errorMessage version FmtError), s)
      else case applyClientSync depth E clientID (bc_Version msg) (bc_Document msg) s of
             (Inl err, s) \<Rightarrow> (if err = Panic then Panicked else Refused (errorMessage version err), s)
           | (Inr (update, ack), s) \<Rightarrow> (Accepted ack update, s))"

text \<open>\<open>valid\<close> is \<open>json.Valid\<close>; an empty \<open>Document\<close> is omitted.\<close>

definition messageEncodes :: "(string \<Rightarrow> bool) \<Rightarrow> serverMessage \<Rightarrow> bool" where
  "messageEncodes valid msg \<longleftrightarrow> bm_Document msg = '''' \<or> valid (bm_Document msg)"

definition handleWS ::
    "nat \<Rightarrow> ('v, 'f) env \<Rightarrow> (string \<Rightarrow> bool) \<Rightarrow> ('v collabServer, serverMessage, clientMessage) handlers" where
  "handleWS depth E valid =
     \<lparr>hn_greet = initMessage E, hn_receive = handleMessage depth E, hn_encodes = messageEncodes valid\<rparr>"

section \<open>Snapshots and history\<close>

text \<open>Every document the server accepts can be copied.\<close>

definition copies :: "('v, 'f) env \<Rightarrow> bool" where
  "copies E \<longleftrightarrow> (\<forall>d. validateClientDocument E d = Inr () \<longrightarrow> (\<exists>w. cloneValue E d = Inr w))"

text \<open>
  There is a snapshot of every version, and the last snapshot is a copy of the document; each operation
  leads from a snapshot to the next.
\<close>

definition linked :: "('v, 'f) env \<Rightarrow> 'v collabServer \<Rightarrow> bool" where
  "linked E s \<longleftrightarrow> length (bs_snapshots s) = Suc (length (bs_history s))
     \<and> cloneValue E (bs_document s) = Inr (last (bs_snapshots s))"

definition chained :: "('v, 'f) env \<Rightarrow> 'v collabServer \<Rightarrow> bool" where
  "chained E s \<longleftrightarrow>
     (\<forall>i < length (bs_history s). \<exists>d. Engine_Apply E (bs_snapshots s ! i) (bs_history s ! i) = Inr d
        \<and> cloneValue E d = Inr (bs_snapshots s ! Suc i))"

text \<open>
  No edit in place reaches the history or the document.  The account of a run is the list of its
  snapshots.
\<close>

definition untouched_by :: "'v edits \<Rightarrow> (nat \<Rightarrow> 'v \<Rightarrow> 'v) \<Rightarrow> bool" where
  "untouched_by edits docEdits \<longleftrightarrow> unshared edits \<and> (\<forall>t d. docEdits t d = d)"

definition accounts ::
    "('v, 'f) env \<Rightarrow> 'v edits \<Rightarrow> (nat \<Rightarrow> 'v \<Rightarrow> 'v) \<Rightarrow> 'v collabServer \<Rightarrow> 'v list \<Rightarrow> bool" where
  "accounts E edits docEdits s ws \<longleftrightarrow> copies E \<and> bs_edits s = edits \<and> bs_docEdits s = docEdits
     \<and> bs_snapshots s = ws \<and> length ws = Suc (length (bs_history s))
     \<and> (untouched_by edits docEdits \<longrightarrow> linked E s \<and> chained E s)"

text \<open>
  The document of an update, when parsed, is the snapshot of its version; so is that of any other message
  when no edit in place has reached the document.
\<close>

definition tells_snapshot ::
    "('v, 'f) env \<Rightarrow> 'v edits \<Rightarrow> (nat \<Rightarrow> 'v \<Rightarrow> 'v) \<Rightarrow> 'v list \<Rightarrow> serverMessage \<Rightarrow> bool" where
  "tells_snapshot E edits docEdits ws m \<longleftrightarrow>
     (if bm_Type m = ''error'' then bm_Message m \<noteq> None
      else 0 \<le> bm_Version m \<and> bm_Version m < int (length ws)
         \<and> (bm_Type m = ''update'' \<or> untouched_by edits docEdits \<longrightarrow>
              UnmarshalValue E (bm_Document m) = Inr (ws ! nat (bm_Version m))))"

lemma wrapError_Inr_iff [simp]: "wrapError r = Inr x \<longleftrightarrow> r = Inr x"
  by (cases r rule: wrapError.cases) auto

lemma wrapError_Inl: "wrapError (Inl e) = Inl (if e = Panic then Panic else WrapError e)"
  by (cases e) auto

text \<open>States with the same snapshots and, up to edits, the same document and history.\<close>

definition same_blocks :: "'v collabServer \<Rightarrow> 'v collabServer \<Rightarrow> bool" where
  "same_blocks s s' \<longleftrightarrow> bs_snapshots s' = bs_snapshots s \<and> bs_edits s' = bs_edits s
     \<and> bs_docEdits s' = bs_docEdits s \<and> length (bs_history s') = length (bs_history s)
     \<and> (untouched_by (bs_edits s) (bs_docEdits s) \<longrightarrow>
          bs_history s' = bs_history s \<and> bs_document s' = bs_document s)"

lemma same_blocks_refl [simp]: "same_blocks s s"
  by (simp add: same_blocks_def)

lemma same_blocks_trans: "same_blocks s s' \<Longrightarrow> same_blocks s' s'' \<Longrightarrow> same_blocks s s''"
  by (simp add: same_blocks_def)

lemma same_blocks_accounts: "same_blocks s s' \<Longrightarrow> accounts E e d s ws \<Longrightarrow> accounts E e d s' ws"
  by (auto simp: same_blocks_def accounts_def linked_def chained_def)

lemma fold_docEdits: "(\<And>t d. docEdits t d = d) \<Longrightarrow> fold docEdits ts d = d"
  by (induction ts arbitrary: d) simp_all

lemma rebaseChange_same: "rebaseChange E v op s = (r, s') \<Longrightarrow> same_blocks s s'"
  unfolding rebaseChange_def Let_def
  by (auto simp: same_blocks_def untouched_by_def fold_docEdits
      dest: transformThrough_length transformThrough_unshared split: prod.splits)

lemma applyChange_same:
  assumes "applyChange E c op s = (r, s')"
  shows "same_blocks s s'"
    and "r = Inr (d, op') \<Longrightarrow> Engine_Apply E c op = Inr d \<and> (unshared (bs_edits s) \<longrightarrow> op' = op)"
  using assms unfolding applyChange_def
  by (auto simp: same_blocks_def untouched_by_def editHistory_unshared unshared_def andThen_Inr_iff)

lemma clientChange_same:
  assumes "clientChange depth E v raw s = (r, s')"
  shows "same_blocks s s'"
  using assms unfolding clientChange_def
  by (auto dest: rebaseChange_same split: if_splits bindS_splits)

text \<open>
  What a synchronisation does to the state: nothing but edits, one more version, or, when the new
  document cannot be copied, one more operation without a snapshot.
\<close>

definition committedAs ::
    "('v, 'f) env \<Rightarrow> string \<Rightarrow> 'v collabServer \<Rightarrow> 'v Operation \<Rightarrow> 'v \<Rightarrow> 'v \<Rightarrow> 'v collabServer \<Rightarrow>
     serverMessage option \<times> serverMessage \<Rightarrow> bool" where
  "committedAs E sender s op d w s' msgs \<longleftrightarrow>
     s' = s\<lparr>bs_document := d, bs_history := bs_history s @ [op], bs_snapshots := bs_snapshots s @ [w]\<rparr>
     \<and> msgs = (Some (serverMessage0\<lparr>bm_Type := ''update'', bm_ClientID := sender,
                       bm_Version := int (Suc (length (bs_history s))), bm_Document := RawMessage E d\<rparr>),
               serverMessage0\<lparr>bm_Type := ''ack'', bm_Version := int (Suc (length (bs_history s))),
                 bm_Document := RawMessage E d\<rparr>)"

lemma commitChange_cases:
  assumes run: "commitChange E sender op s = (r, s')"
  obtains (failed) e where "r = Inl e" "same_blocks s s'"
  | (uncopied) e d op' s1 where "r = Inl e" "validateClientDocument E d = Inr ()" "\<forall>w. cloneValue E d \<noteq> Inr w"
      "same_blocks s s1" "s' = s1\<lparr>bs_document := d, bs_history := bs_history s1 @ [op']\<rparr>"
  | (committed) c d w op' s1 msgs where "cloneValue E (bs_document s) = Inr c" "Engine_Apply E c op = Inr d"
      "unshared (bs_edits s) \<longrightarrow> op' = op" "cloneValue E d = Inr w" "r = Inr msgs"
      "same_blocks s s1" "committedAs E sender s1 op' d w s' msgs"
proof (cases "cloneValue E (bs_document s)")
  case (Inl e)
  then show ?thesis using run failed by (auto simp: commitChange_def wrapError_Inl)
next
  case (Inr c)
  obtain r1 s1 where a: "applyChange E c op s = (r1, s1)" by fastforce
  note s1 = applyChange_same(1) [OF a]
  show ?thesis
  proof (cases "andThen r1 (\<lambda>x. andThen (validateClientDocument E (fst x)) (\<lambda>_. Inr x))")
    case (Inl e)
    then have "s' = s1 \<and> (\<exists>e. r = Inl e)"
      using run \<open>cloneValue E (bs_document s) = Inr c\<close> a
      by (cases r1) (auto simp: commitChange_def andThen_Inl_iff wrapError_Inl)
    then show ?thesis using failed s1 by auto
  next
    case (Inr x)
    then obtain d op' where x: "r1 = Inr (d, op')" and valid: "validateClientDocument E d = Inr ()"
      by (auto simp: andThen_Inr_iff)
    note d = applyChange_same(2) [OF a x]
    show ?thesis
    proof (cases "cloneValue E d")
      case (Inl e)
      then have none: "\<forall>w. cloneValue E d \<noteq> Inr w" by simp
      show ?thesis
        using run \<open>cloneValue E (bs_document s) = Inr c\<close> a x valid Inl
        by (intro uncopied [OF _ valid none s1]) (auto simp: commitChange_def wrapError_Inl Let_def)
    next
      case (Inr w)
      then show ?thesis
        using run \<open>cloneValue E (bs_document s) = Inr c\<close> a x valid d s1 committed [of c d op' w _ s1]
        by (auto simp: commitChange_def committedAs_def Let_def)
    qed
  qed
qed

lemma applyClientSync_cases:
  assumes run: "applyClientSync depth E sender v raw s = (r, s')"
  obtains (failed) e where "r = Inl e" "same_blocks s s'"
  | (uncopied) e d op' s1 where "r = Inl e" "validateClientDocument E d = Inr ()" "\<forall>w. cloneValue E d \<noteq> Inr w"
      "same_blocks s s1" "s' = s1\<lparr>bs_document := d, bs_history := bs_history s1 @ [op']\<rparr>"
  | (empty) "same_blocks s s'"
      "r = Inr (None, serverMessage0\<lparr>bm_Type := ''ack'', bm_Version := int (length (bs_history s)),
                  bm_Document := RawMessage E (bs_document s')\<rparr>)"
  | (committed) op c d w op' s0 s1 msgs where "same_blocks s s0" "cloneValue E (bs_document s0) = Inr c"
      "Engine_Apply E c op = Inr d" "unshared (bs_edits s) \<longrightarrow> op' = op" "cloneValue E d = Inr w" "r = Inr msgs"
      "same_blocks s s1" "committedAs E sender s1 op' d w s' msgs"
proof -
  obtain r0 s0 where c: "clientChange depth E v raw s = (r0, s0)" by fastforce
  note s0 = clientChange_same [OF c]
  show ?thesis
  proof (cases "andThen r0 (\<lambda>op. andThen (Operation_IsEmpty op) (\<lambda>b. Inr (op, b)))")
    case (Inl e)
    then have "s' = s0 \<and> (\<exists>e. r = Inl e)"
      using run c by (cases r0) (auto simp: applyClientSync_def andThen_Inl_iff)
    then show ?thesis using failed s0 by auto
  next
    case (Inr opb)
    then obtain op b where op: "r0 = Inr op" "Operation_IsEmpty op = Inr b" by (auto simp: andThen_Inr_iff)
    show ?thesis
    proof (cases b)
      case True
      then show ?thesis using run c op s0 empty by (auto simp: applyClientSync_def same_blocks_def)
    next
      case False
      then have "commitChange E sender op s0 = (r, s')" using run c op by (simp add: applyClientSync_def)
      then show ?thesis
      proof (cases rule: commitChange_cases)
        case (failed e)
        then show ?thesis using that(1) same_blocks_trans [OF s0] by blast
      next
        case (uncopied e d op' s1)
        then show ?thesis using that(2) same_blocks_trans [OF s0] by blast
      next
        case (committed c d w op' s1 msgs)
        moreover have "bs_edits s0 = bs_edits s" using s0 by (simp add: same_blocks_def)
        ultimately show ?thesis using that(4) [OF s0] same_blocks_trans [OF s0] by metis
      qed
    qed
  qed
qed

lemmas block_message_defs = errorMessage_def initMessage_def snapshot_def serverMessage0_def

lemma chained_committed:
  assumes "linked E s" and "chained E s" and "cloneValue E (bs_document s) = Inr c" and "Engine_Apply E c op = Inr d"
    and "cloneValue E d = Inr w"
    and s': "s' = s\<lparr>bs_document := d, bs_history := bs_history s @ [op], bs_snapshots := bs_snapshots s @ [w]\<rparr>"
  shows "linked E s'" "chained E s'"
proof -
  let ?n = "length (bs_history s)"
  have len: "length (bs_snapshots s) = Suc ?n" and c: "c = bs_snapshots s ! ?n"
    using assms(1,3) by (auto simp: linked_def last_conv_nth simp flip: length_greater_0_conv)
  show "linked E s'" using assms(5) len unfolding s' by (simp add: linked_def)
  show "chained E s'"
    using assms(2,4,5) len unfolding s' c chained_def by (auto simp: nth_append less_Suc_eq)
qed

lemma tells_snapshot_kept:
  assumes "tells_snapshot E e de ws m"
  shows "tells_snapshot E e de (ws @ ws') m"
  using assms by (auto simp: tells_snapshot_def nth_append nat_less_iff)

lemma tells_current:
  assumes "accounts E e de s ws" and "bm_Type m \<noteq> ''error''" and "bm_Type m \<noteq> ''update''"
    and "bm_Version m = int (length (bs_history s))" and "bm_Document m = RawMessage E (bs_document s)"
  shows "tells_snapshot E e de ws m"
  using assms by (auto simp: tells_snapshot_def accounts_def linked_def cloneValue_def last_conv_nth
      simp flip: length_greater_0_conv)

lemma synced:
  assumes A: "accounts E e de s ws" and a: "applyClientSync depth E i v raw s = (r, s')"
  shows "\<exists>ws'. accounts E e de s' (ws @ ws') \<and> (\<forall>u ack. r = Inr (u, ack) \<longrightarrow>
    tells_snapshot E e de (ws @ ws') ack \<and> (\<forall>x. u = Some x \<longrightarrow> tells_snapshot E e de (ws @ ws') x))"
proof (cases rule: applyClientSync_cases [OF a])
  case (1 e')
  then show ?thesis using same_blocks_accounts [OF _ A] by (intro exI [of _ "[]"]) simp
next
  case (2 e' d op' s1)
  then show ?thesis using A by (auto simp: accounts_def copies_def)
next
  case 3
  have A': "accounts E e de s' ws" using same_blocks_accounts [OF 3(1) A] .
  have "tells_snapshot E e de ws (serverMessage0\<lparr>bm_Type := ''ack'', bm_Version := int (length (bs_history s)),
      bm_Document := RawMessage E (bs_document s')\<rparr>)"
    using 3(1) by (intro tells_current [OF A']) (simp_all add: serverMessage0_def same_blocks_def)
  then show ?thesis using A' 3(2) by (intro exI [of _ "[]"]) simp
next
  case (4 op c d w op' s0 s1 msgs)
  have A0: "accounts E e de s0 ws" and A1: "accounts E e de s1 ws"
    using same_blocks_accounts [OF 4(1) A] same_blocks_accounts [OF 4(7) A] .
  have s': "s' = s1\<lparr>bs_document := d, bs_history := bs_history s1 @ [op'], bs_snapshots := bs_snapshots s1 @ [w]\<rparr>"
    using 4(8) by (simp add: committedAs_def)
  have "linked E s' \<and> chained E s'" if u: "untouched_by e de"
  proof -
    have "bs_document s1 = bs_document s0" "op' = op"
      using u A 4(1,4,7) by (auto simp: accounts_def same_blocks_def untouched_by_def)
    then show ?thesis
      using chained_committed [of E s1 c op d w s'] A1 u 4(2,3,5) s' by (simp add: accounts_def)
  qed
  then have "accounts E e de s' (ws @ [w])" using A1 s' by (simp add: accounts_def)
  moreover have "tells_snapshot E e de (ws @ [w]) ack" "u = Some x \<Longrightarrow> tells_snapshot E e de (ws @ [w]) x"
    if "r = Inr (u, ack)" for u ack x
    using that 4(5,6,8) A1
    by (auto simp: committedAs_def tells_snapshot_def serverMessage0_def accounts_def cloneValue_def nth_append)
  ultimately show ?thesis by blast
qed

lemma block_handleWS_simps [simp]:
  "hn_greet (handleWS depth E valid) = initMessage E"
  "hn_receive (handleWS depth E valid) = handleMessage depth E"
  by (simp_all add: handleWS_def)

lemma block_handled:
  assumes A: "accounts E e de s ws" and h: "handleMessage depth E s i v msg = (r, s')"
  shows "\<exists>ws'. accounts E e de s' (ws @ ws') \<and> (\<forall>m \<in> outcome_messages r. tells_snapshot E e de (ws @ ws') m)"
proof (cases "bc_Type msg \<noteq> ''sync''")
  case True
  then show ?thesis using h A
    by (intro exI [of _ "[]"]) (auto simp: handleMessage_def tells_snapshot_def block_message_defs)
next
  case False
  obtain a s1 where a: "applyClientSync depth E i (bc_Version msg) (bc_Document msg) s = (a, s1)" by fastforce
  obtain ws' where ws': "accounts E e de s1 (ws @ ws')" "\<And>u ack. a = Inr (u, ack) \<Longrightarrow>
      tells_snapshot E e de (ws @ ws') ack \<and> (\<forall>x. u = Some x \<longrightarrow> tells_snapshot E e de (ws @ ws') x)"
    using synced [OF A a] by auto
  have "s' = s1 \<and> (\<forall>m \<in> outcome_messages r. tells_snapshot E e de (ws @ ws') m)"
  proof (cases a)
    case (Inl err)
    have "tells_snapshot E e de (ws @ ws') (errorMessage v err)" by (simp add: tells_snapshot_def block_message_defs)
    then show ?thesis using h False a Inl by (auto simp: handleMessage_def split: if_splits)
  next
    case (Inr x)
    then show ?thesis using h False a ws'(2) by (cases x) (auto simp: handleMessage_def)
  qed
  then show ?thesis using ws'(1) by blast
qed

interpretation block_server:
  demo_server "handleWS depth E valid" "accounts E edits docEdits" "tells_snapshot E edits docEdits"
  for depth E valid edits docEdits
proof (unfold_locales, unfold block_handleWS_simps)
  fix s s' :: "'a collabServer" and i :: string and m :: serverMessage and v :: int and c r ws
  assume A: "accounts E edits docEdits s ws"
  show "initMessage E s i = (m, v) \<Longrightarrow> tells_snapshot E edits docEdits ws m"
    using A by (intro tells_current [OF A]) (auto simp: block_message_defs)
  assume "handleMessage depth E s i v c = (r, s')"
  from block_handled [OF A this]
  show "\<exists>ws'. accounts E edits docEdits s' ws'
      \<and> (\<forall>m. tells_snapshot E edits docEdits ws m \<longrightarrow> tells_snapshot E edits docEdits ws' m)
      \<and> (\<forall>m \<in> outcome_messages r. tells_snapshot E edits docEdits ws' m)"
    using tells_snapshot_kept by blast
qed

end
