(* ===== verification/CollabProperties.thy ===== *)
theory CollabProperties
  imports TextCollab BlockCollab DiffProperties
begin

text \<open>
  The properties of the two example servers, over every interleaving of their clients' goroutines.
\<close>

section \<open>The text server\<close>

text \<open>C16: In every run of the websocket example, from the empty text, whatever the clients send, in
  whatever order their goroutines take their steps and however calls of the engine edit the history in place:
  there is a list of operations, one for each entry of the history (the entry as it was when it was
  applied), that leads from the empty text to the server's text, and every initial message, acknowledgement and
  update written to a client carries the text after as many of them as the version it names.  Where no
  edit in place reaches the history, these operations are the history, and an update carries the operation
  that made its version.\<close>

theorem text_messages_tell_history:
  "let w = demo_run (TextCollab.handleWS depth E valid) es (newDemo (TextCollab.newCollabServer edits))
   in \<exists>ops. length ops = length (cs_history (dm_server w)) \<and> replay E '''' ops = Inr (cs_document (dm_server w))
        \<and> (unshared edits \<longrightarrow> cs_history (dm_server w) = ops)
        \<and> (\<forall>c. list_all (tells_version E edits ops) (dm_sent w c))"
proof -
  have "replays E edits (TextCollab.newCollabServer edits) []"
    by (simp add: replays_def TextCollab.newCollabServer_def)
  then have "all_right (replays E edits) (tells_version E edits)
      (demo_run (TextCollab.handleWS depth E valid) es (newDemo (TextCollab.newCollabServer edits)))"
    by (intro text_server.all_right_run text_server.all_right_new)
  then show ?thesis by (auto simp: all_right_def list_all_iff messages_def Let_def replays_def)
qed

section \<open>The block server\<close>

text \<open>C17: In every run of the BlockNote example with documents that can be copied by printing and
  parsing, however calls of the engine edit the history and the document in place: there is one snapshot
  more than operations, every message a client gets (but an error) names a version the server has a
  snapshot of, and the document of an update, when parsed, is the snapshot of its version, which is the
  one the server compares with when the client sends that version back.  Where no edit in place
  reaches the history and the document, each operation of the history leads from one snapshot to the
  next, the last snapshot is a copy of the document, and initial messages and acknowledgements carry the
  snapshot of their version, too.\<close>

theorem block_messages_tell_snapshots:
  assumes "copies E" and "BlockCollab.newCollabServer E edits docEdits = Inr s"
  shows "let w = demo_run (BlockCollab.handleWS depth E valid) es (newDemo s)
    in length (bs_snapshots (dm_server w)) = Suc (length (bs_history (dm_server w)))
     \<and> list_all (tells_snapshot E edits docEdits (bs_snapshots (dm_server w))) (dm_sent w c)
     \<and> (untouched_by edits docEdits \<longrightarrow> linked E (dm_server w) \<and> chained E (dm_server w))"
proof -
  have "accounts E edits docEdits s (bs_snapshots s)"
    using assms by (auto simp: accounts_def linked_def chained_def BlockCollab.newCollabServer_def split: sum.splits)
  then have "all_right (accounts E edits docEdits) (tells_snapshot E edits docEdits)
      (demo_run (BlockCollab.handleWS depth E valid) es (newDemo s))"
    by (intro block_server.all_right_run block_server.all_right_new)
  then show ?thesis by (auto simp: all_right_def list_all_iff messages_def Let_def accounts_def)
qed

lemma ref_clone: "cloneValue ref_env d = Inr (norm d)"
  by (simp add: cloneValue_def ref_env_def SonicAPI_def Sonic_RawMessage_def Unmarshal_print del: print_json.simps)

lemma ref_copies: "copies ref_env"
  by (simp add: copies_def ref_clone)

definition block0 :: "jnode BlockCollab.collabServer" where
  "block0 = \<lparr>bs_ot = NewJSONOperationTransformer, bs_document = initialDoc ref_env, bs_history = [],
     bs_snapshots = [norm (initialDoc ref_env)], bs_edits = (\<lambda>_ _ op. op), bs_docEdits = (\<lambda>_ d. d), bs_time = 0\<rparr>"

lemma ref_new: "BlockCollab.newCollabServer ref_env (\<lambda>_ _ op. op) (\<lambda>_ d. d) = Inr block0"
  by (simp add: BlockCollab.newCollabServer_def ref_clone block0_def)

lemma block_messages_tell_snapshots_witness:
  "let w = demo_run (BlockCollab.handleWS 9 ref_env (\<lambda>_. True)) [Joins 1 ''a'', Snapshots 1, Greets 1] (newDemo block0)
   in linked ref_env (dm_server w) \<and> chained ref_env (dm_server w)
     \<and> list_all (tells_snapshot ref_env (\<lambda>_ _ op. op) (\<lambda>_ d. d) (bs_snapshots (dm_server w))) (dm_sent w 1)"
  using block_messages_tell_snapshots [OF ref_copies ref_new, of 9 "\<lambda>_. True" "[Joins 1 ''a'', Snapshots 1, Greets 1]" 1]
  by (simp add: untouched_by_def unshared_def Let_def del: demo_run.simps)

context diff_contract
begin

lemma blocks_validate:
  assumes "view d = Obj m" and "m ''blocks'' = Some (Arr (b # bs))"
  shows "validateClientDocument E d = Inr ()"
proof -
  obtain w where w: "GetKey E d ''blocks'' = Some w" "view w = Arr (b # bs)"
    using GetKey_Obj [OF assms(1), of "''blocks''"] assms(2) by (auto simp: map_option_eq_Some)
  obtain vs where vs: "GetArray E w = Inr vs" "map view vs = b # bs" using GetArray_Arr [OF w(2)] by (elim exE conjE)
  have "vs \<noteq> []" using vs(2) by auto
  moreover have "IsObject E d" using assms(1) by (simp add: IsObject_iff)
  ultimately show ?thesis using w(1) vs(1) by (simp add: validateClientDocument_def)
qed

lemma sync_wins:
  assumes F: "builtins_intact (ot_functions (bs_ot s))"
    and R: "\<And>d m. view d = Obj m \<Longrightarrow> \<exists>w. cloneValue E d = Inr w \<and> view w = view d"
    and L: "linked E s" and doc: "view (bs_document s) = Obj d"
    and P: "UnmarshalValue E raw = Inr clientDoc"
    and m: "view clientDoc = Obj m" "m ''blocks'' = Some (Arr (b # bs))"
    and D: "diffable numI Named (Obj d) (Obj m)"
  shows "\<exists>n. \<forall>depth \<ge> n. \<exists>u ack s' w.
         applyClientSync depth E sender (int (length (bs_history s))) raw s = (Inr (u, ack), s')
       \<and> view (bs_document s') = Obj m
       \<and> UnmarshalValue E (bm_Document ack) = Inr w \<and> view w = Obj m"
proof -
  let ?n = "length (bs_history s)"
  obtain S where S: "cloneValue E (bs_document s) = Inr S" "view S = Obj d"
    using R [OF doc] doc by auto
  have len: "length (bs_snapshots s) = Suc ?n" and last: "bs_snapshots s ! ?n = S"
    using L S(1) by (auto simp: linked_def last_conv_nth simp flip: length_greater_0_conv)
  obtain base where base: "cloneValue E S = Inr base" "view base = Obj d" using R [OF S(2)] S(2) by auto
  obtain n op v' where op: "Diff n E (bs_ot s) base clientDoc = Some (Inr op)"
      "Engine_Apply E S op = Inr v'" "view v' = Obj m"
    using diff_apply [OF F, of base clientDoc] D base(2) m(1) S(2) by metis
  obtain w where w: "cloneValue E v' = Inr w" "view w = Obj m" using R [OF op(3)] op(3) by auto
  obtain cs where cs: "op = Some cs" using op(2) by (cases op) (auto simp: Engine_Apply_def)
  have change: "clientChange k E (int ?n) raw s = (Inr op, s)" if "n \<le> k" for k
    using diffInto_le [OF op(1) [unfolded Diff_def] that] len last base(1) P blocks_validate [OF m]
    by (simp add: clientChange_def Diff_def rebaseChange_def)
  show ?thesis
  proof (cases "cs = []")
    case True
    then have "Obj m = Obj d" using op(2,3) S(2) cs by (simp add: Engine_Apply_def)
    then show ?thesis
      using change True cs doc S
      by (intro exI [of _ n]) (auto simp: applyClientSync_def Operation_IsEmpty_def cloneValue_def BlockCollab.serverMessage0_def)
  next
    case False
    then show ?thesis
      using change cs S(1) op(2,3) w blocks_validate [OF op(3) m(2)]
      by (intro exI [of _ n])
        (auto simp: applyClientSync_def commitChange_def applyChange_def Operation_IsEmpty_def Let_def cloneValue_def
           BlockCollab.serverMessage0_def)
  qed
qed

end

text \<open>C18: In the BlockNote example, while there is a snapshot of every version and the last one is a copy
  of the document, a client that edited the current version gets its way: when its
  document has a non-empty array of blocks and the comparison can express the change, the server,
  given enough depth, accepts it, its document then stands for the client's, and so does the text of
  the acknowledgement.\<close>

theorem current_sync_wins:
  assumes C: "diff_contract E view numI" and F: "builtins_intact (ot_functions (bs_ot s))"
    and R: "\<And>d m. view d = Obj m \<Longrightarrow> \<exists>w. cloneValue E d = Inr w \<and> view w = view d"
    and L: "linked E s" and v: "v = int (length (bs_history s))"
    and doc: "view (bs_document s) = Obj d"
    and P: "UnmarshalValue E raw = Inr clientDoc"
    and m: "view clientDoc = Obj m" "m ''blocks'' = Some (Arr (b # bs))"
    and D: "diffable numI Named (Obj d) (Obj m)"
  shows "\<exists>n. \<forall>depth \<ge> n. \<exists>u ack s' w. applyClientSync depth E sender v raw s = (Inr (u, ack), s')
       \<and> view (bs_document s') = Obj m
       \<and> UnmarshalValue E (bm_Document ack) = Inr w \<and> view w = Obj m"
  unfolding v by (rule diff_contract.sync_wins [OF C F R L doc P m D])

definition two_blocks :: string where \<open>two_blocks = ''{"blocks":["x","y"]}''\<close>

definition block_members :: "string \<Rightarrow> int jdoc option" where
  "block_members = (case jdoc_of (initialDoc ref_env) of Obj m \<Rightarrow> m | _ \<Rightarrow> \<lambda>_. None)"

lemma ref_reparses: "jdoc_of d = Obj m \<Longrightarrow> \<exists>w. cloneValue ref_env d = Inr w \<and> jdoc_of w = jdoc_of d"
  by (simp add: ref_clone jdoc_norm)

lemma two_blocks_parse: "UnmarshalValue ref_env two_blocks = Inr (JObj [(''blocks'', JArr [JStr ''x'', JStr ''y''])])"
  by code_simp

fun one_block :: "jnode \<Rightarrow> bool" where
  "one_block (JObj [(k, JArr [n])]) \<longleftrightarrow> k = ''blocks''"
| "one_block _ \<longleftrightarrow> False"

lemma initialDoc_one_block: "one_block (initialDoc ref_env)"
  by code_simp

lemma block0_members: "\<exists>d. jdoc_of (bs_document block0) = Obj [''blocks'' \<mapsto> Arr [d]]"
  using initialDoc_one_block by (cases "initialDoc ref_env" rule: one_block.cases) (auto simp: block0_def fun_eq_iff)

lemma block0_diffable: "diffable (\<lambda>i. i) Named (Obj [''blocks'' \<mapsto> Arr [d]]) (Obj [''blocks'' \<mapsto> Arr [e, f]])"
  by (rule diffable.members) (auto split: if_splits intro: diffable.replaced)

text \<open>The first client replaces the welcome block by two blocks.\<close>

lemma current_sync_wins_witness:
  "\<exists>n. \<forall>depth \<ge> n. \<exists>u ack s' w. applyClientSync depth ref_env ''a'' 0 two_blocks block0 = (Inr (u, ack), s')
     \<and> jdoc_of (bs_document s') = Obj [''blocks'' \<mapsto> Arr [Atom (StrA ''x''), Atom (StrA ''y'')]]
     \<and> UnmarshalValue ref_env (bm_Document ack) = Inr w
     \<and> jdoc_of w = Obj [''blocks'' \<mapsto> Arr [Atom (StrA ''x''), Atom (StrA ''y'')]]"
proof -
  obtain d where d: "jdoc_of (bs_document block0) = Obj [''blocks'' \<mapsto> Arr [d]]" using block0_members ..
  show ?thesis
    by (rule current_sync_wins [OF ref_diff_contract _ ref_reparses _ _ d two_blocks_parse _ _ block0_diffable])
      (auto simp: block0_def linked_def ref_clone NewJSONOperationTransformer_def new_holder_builtins fun_eq_iff)
qed

section \<open>Sessions\<close>

definition text_op :: "int \<Rightarrow> string \<Rightarrow> TextCollab.clientMessage" where
  "text_op v s = \<lparr>cl_Type = ''op'', cl_Version = v, cl_Op = s\<rparr>"

definition insert_at_0 :: "string \<Rightarrow> string" where
  \<open>insert_at_0 s = ''[{"p":["content"],"t":"text","o":{"p":0,"i":"'' @ s @ ''"}}]''\<close>

definition delete_at_0 :: "string \<Rightarrow> string" where
  \<open>delete_at_0 s = ''[{"p":["content"],"t":"text","o":{"p":0,"d":"'' @ s @ ''"}}]''\<close>

definition comes :: "nat \<Rightarrow> 'c demo_event list" where
  "comes c = [Joins c [char_of (96 + c)], Snapshots c, Greets c]"

definition text_run :: "TextCollab.clientMessage demo_event list \<Rightarrow> (jnode TextCollab.collabServer, TextCollab.serverMessage) demo" where
  "text_run es = demo_run (TextCollab.handleWS 10 ref_env (\<lambda>_. True)) es (newDemo (TextCollab.newCollabServer (\<lambda>_ _ op. op)))"

text \<open>Two clients insert into the empty text at the same time; both end with the server's text.\<close>

definition two_inserts :: "TextCollab.clientMessage demo_event list" where
  "two_inserts = comes 1 @ comes 2 @
     [Receives 1 (text_op 0 (insert_at_0 ''hi'')), Receives 2 (text_op 0 (insert_at_0 ''yo'')),
      Acks 1, Collects 1, Sends 1 2, Returns 1, Acks 2, Collects 2, Sends 2 1, Returns 2]"

lemma concurrent_text_session:
  "let w = text_run two_inserts
   in cs_document (dm_server w) = ''yohi''
    \<and> msg_Document (last (dm_sent w 1)) = ''yohi'' \<and> msg_Version (last (dm_sent w 1)) = 2
    \<and> msg_Document (last (dm_sent w 2)) = ''yohi'' \<and> msg_Version (last (dm_sent w 2)) = 2"
  by code_simp

lemma text_messages_tell_history_witness:
  "replay ref_env '''' (cs_history (dm_server (text_run two_inserts))) = Inr ''yohi''
   \<and> list_all (tells_version ref_env (\<lambda>_ _ op. op) (cs_history (dm_server (text_run two_inserts))))
       (dm_sent (text_run two_inserts) 2)"
  using text_messages_tell_history [of 10 ref_env "\<lambda>_. True" two_inserts "\<lambda>_ _ op. op", folded text_run_def]
    concurrent_text_session
  by (auto simp: unshared_def Let_def)

text \<open>
  \<open>Transform\<close> changes the history it is given.  A client of the text server that moves element 0 twice, at a
  version before an insertion into the text, makes the path of that insertion, \<open>["content"]\<close>,
  into \<open>[3]\<close>: the component is the one in the history, and it is also what the server goes on with.
\<close>

lemma transform_rewrites_history:
  \<open>let move = \<lparr>Operator = ListMove 3, Path = [PathElementFromIndex 0]\<rparr>;
       insertion = (\<lambda>e. \<lparr>Operator = SubTypeOperator Text (JObj [(''p'', JNum 0), (''i'', JStr ''hi'')]) TextSubType,
                        Path = [e]\<rparr>)
   in Engine_Transform ref_env (NewOperation [move, move]) (NewOperation [insertion (PathElementFromKey ''content'')])
      = Inr (NewOperation [insertion (PathElementFromIndex 3)], NewOperation [insertion (PathElementFromIndex 3)])\<close>
  by code_simp

text \<open>
  An update is broadcast after the lock has been released.  When the goroutine of the first client is
  overtaken, the third client is sent version 2 before version 1: at the end nobody has anything left
  to send, and the last text it got is ''hi'', which the second client has deleted.
\<close>

lemma updates_out_of_order:
  "let w = text_run (comes 1 @ comes 2 @ comes 3 @
         [Receives 1 (text_op 0 (insert_at_0 ''hi'')), Receives 2 (text_op 1 (delete_at_0 ''hi'')),
          Acks 1, Acks 2, Collects 1, Collects 2, Sends 2 3, Sends 2 1, Returns 2, Sends 1 3, Sends 1 2, Returns 1])
   in dm_pc w 1 = Reading \<and> dm_pc w 2 = Reading \<and> dm_pc w 3 = Reading
    \<and> cs_document (dm_server w) = '''' \<and> length (cs_history (dm_server w)) = 2
    \<and> map msg_Version (dm_sent w 3) = [0, 2, 1] \<and> msg_Document (last (dm_sent w 3)) = ''hi''"
  by code_simp

text \<open>
  When the acknowledgement cannot be written the goroutine returns before it broadcasts: the edit is
  committed, and the other clients are not told.
\<close>

lemma lost_ack_loses_update:
  "let w = text_run (comes 1 @ comes 2 @
         [Receives 1 (text_op 0 (insert_at_0 ''hi'')), Breaks 1, Acks 1])
   in dm_pc w 1 = Gone \<and> dm_pc w 2 = Reading \<and> dm_clients w = {2}
    \<and> cs_document (dm_server w) = ''hi'' \<and> map msg_Version (dm_sent w 2) = [0]"
  by code_simp

text \<open>
  The page counts UTF-16 units, the text subtype bytes: an insertion the browser places after a
  two-byte character splits it.
\<close>

lemma browser_offset_splits_character:
  \<open>let w = text_run (comes 1 @
         [Receives 1 (text_op 0 (insert_at_0 [char_of (0xC3 :: nat), char_of (0xA9 :: nat)])), Acks 1, Collects 1, Returns 1,
          Receives 1 (text_op 1 ''[{"p":["content"],"t":"text","o":{"p":1,"i":"x"}}]'')])
   in cs_document (dm_server w) = [char_of (0xC3 :: nat), CHR ''x'', char_of (0xA9 :: nat)]\<close>
  by code_simp

text \<open>When the new document cannot be copied the sync is answered with an error, but it has been committed,
  without a snapshot: from then on a version is compared with the snapshot of another one.\<close>

lemma uncopied_sync_commits:
  assumes "linked E s" and "applyClientSync depth E sender v raw s = (Inl e, s')"
  shows "same_blocks s s' \<or>
    length (bs_history s') = Suc (length (bs_history s)) \<and> length (bs_snapshots s') = length (bs_history s')"
  using assms(2) by (rule applyClientSync_cases) (use assms(1) in \<open>auto simp: linked_def same_blocks_def\<close>)

definition block_op :: "int \<Rightarrow> string \<Rightarrow> BlockCollab.clientMessage" where
  "block_op v s = \<lparr>bc_Type = ''sync'', bc_Version = v, bc_Document = s\<rparr>"

text \<open>
  Two clients of the block server: the first replaces the blocks; then the second adds a member while the
  first, still at version 1, changes a block, and the server merges the two edits.  The refusal of
  an unknown version names the version of connect time, which the client has left behind.
\<close>

lemma concurrent_block_session:
  \<open>let w = demo_run (BlockCollab.handleWS 10 ref_env (\<lambda>_. True)) (comes 1 @ comes 2 @
         [Receives 1 (block_op 0 two_blocks), Acks 1, Collects 1, Sends 1 2, Returns 1,
          Receives 2 (block_op 1 ''{"blocks":["x","y"],"title":"t"}''), Acks 2, Collects 2, Sends 2 1, Returns 2,
          Receives 1 (block_op 1 ''{"blocks":["x","z"]}''), Acks 1, Collects 1, Sends 1 2, Returns 1,
          Receives 2 (block_op 7 two_blocks), Refuses 2]) (newDemo block0)
   in map bm_Version (dm_sent w 2) = [0, 1, 2, 3, 0] \<and> map bm_Version (dm_sent w 1) = [0, 1, 2, 3]
    \<and> RawMessage ref_env (bs_document (dm_server w)) = ''{"blocks":["x","z"],"title":"t"}''\<close>
  by code_simp

end
