(* ===== verification/ServerFleet.thy ===== *)
theory ServerFleet
  imports ServerProperties
begin

text \<open>
  Several servers on one backend, locker and publisher (\<open>NewServer\<close> called more than once with the same
  services).  Each server has a cache of parsed operations and a counter of its own; a call of one
  of them runs under the lock of its document, so the calls are taken as wholes, in any order.
  Servers share no values: what one edits in place is not in the cache of another (\<open>fl_edits\<close> counts the
  calls that edit for the whole fleet, so that no two of them are taken to have the same effect).  What the single
  server promises about the log holds for the fleet, whatever the caches hold; the caches stand for
  the log as long as no document is deleted (\<open>cache_stale_across_servers\<close> shows why).  The first is
  what the comment on \<open>Server\<close> in \<open>server.go\<close> promises to nodes that share a locker and a backend.
\<close>

section \<open>Calls of a fleet\<close>

record ('s, 'l, 'p, 'v) fleet =
  fl_backend :: 's
  fl_locks :: 'l
  fl_pub :: 'p
  fl_caches :: "nat \<Rightarrow> 'v parsedOpCache"
  fl_fresh :: "nat \<Rightarrow> nat"
  fl_edits :: nat

definition NewFleet :: "'s \<Rightarrow> 'l \<Rightarrow> 'p \<Rightarrow> ('s, 'l, 'p, 'v) fleet" where
  "NewFleet backend locker pub =
     \<lparr>fl_backend = backend, fl_locks = locker, fl_pub = pub, fl_caches = (\<lambda>_ _. None), fl_fresh = (\<lambda>_. 0),
      fl_edits = 0\<rparr>"

definition server_of :: "nat \<Rightarrow> ('s, 'l, 'p, 'v) fleet \<Rightarrow> ('s, 'l, 'p, 'v) server_state" where
  "server_of i f = \<lparr>srv_backend = fl_backend f, srv_locks = fl_locks f, srv_pub = fl_pub f,
     srv_parsedOps = fl_caches f i, srv_fresh = fl_fresh f i, srv_edits = fl_edits f\<rparr>"

definition put_server ::
    "nat \<Rightarrow> ('s, 'l, 'p, 'v) server_state \<Rightarrow> ('s, 'l, 'p, 'v) fleet \<Rightarrow> ('s, 'l, 'p, 'v) fleet" where
  "put_server i st f = \<lparr>fl_backend = srv_backend st, fl_locks = srv_locks st, fl_pub = srv_pub st,
     fl_caches = (fl_caches f)(i := srv_parsedOps st), fl_fresh = (fl_fresh f)(i := srv_fresh st),
     fl_edits = srv_edits st\<rparr>"

definition fleet_call ::
    "('s, 'l, 'p, 'v, 'f, 'j) server_config \<Rightarrow> nat \<Rightarrow> server_call \<Rightarrow> ('s, 'l, 'p, 'v) fleet \<Rightarrow>
     ('s, 'l, 'p, 'v) fleet" where
  "fleet_call C i c f = put_server i (run_call C c (server_of i f)) f"

fun fleet_run ::
    "('s, 'l, 'p, 'v, 'f, 'j) server_config \<Rightarrow> (nat \<times> server_call) list \<Rightarrow> ('s, 'l, 'p, 'v) fleet \<Rightarrow>
     ('s, 'l, 'p, 'v) fleet" where
  "fleet_run C [] f = f"
| "fleet_run C ((i, c) # cs) f = fleet_run C cs (fleet_call C i c f)"

lemma new_server_of: "server_of i (NewFleet backend locker pub) = NewServer backend locker pub"
  by (simp add: server_of_def NewFleet_def NewServer_def)

lemma server_put [simp]: "server_of i (put_server i st f) = st"
  by (simp add: server_of_def put_server_def)

lemma fleet_call_backend [simp]:
  "fl_backend (fleet_call C i c f) = srv_backend (run_call C c (server_of i f))"
  by (simp add: fleet_call_def put_server_def)

lemma server_of_backend [simp]: "srv_backend (server_of i f) = fl_backend f"
  by (simp add: server_of_def)

lemma server_of_cache [simp]: "srv_parsedOps (server_of i f) = fl_caches f i"
  by (simp add: server_of_def)

section \<open>The log\<close>

definition fleet_inv :: "('s \<Rightarrow> string \<Rightarrow> memDoc option) \<Rightarrow> nat \<Rightarrow> ('s, 'l, 'p, 'v) fleet \<Rightarrow> bool" where
  "fleet_inv stored n f \<longleftrightarrow>
     (\<forall>docID d. stored (fl_backend f) docID = Some d \<longrightarrow>
        log_ok docID d \<and> length (md_ops d) \<le> n \<and> unique_sequences (md_ops d))"

lemma fleet_inv_server:
  "fleet_inv stored n f \<longleftrightarrow> log_inv stored (server_of i f) \<and> log_size stored n (server_of i f) \<and>
     (\<forall>docID d. stored (fl_backend f) docID = Some d \<longrightarrow> unique_sequences (md_ops d))"
  by (auto simp: fleet_inv_def log_inv_def log_size_def)

lemma in_log_grows:
  assumes "in_log stored s r"
    and grows: "\<And>d. stored s (op_DocumentID r) = Some d \<Longrightarrow>
      \<exists>d'. stored s' (op_DocumentID r) = Some d' \<and> prefix (md_ops d) (md_ops d')"
  shows "in_log stored s' r"
proof -
  obtain d k where d: "stored s (op_DocumentID r) = Some d" "k < length (md_ops d)" "md_ops d ! k = r"
      "op_Version r = int k + 1"
    using assms(1) by (auto simp: in_log_def)
  obtain d' xs where d': "stored s' (op_DocumentID r) = Some d'" "md_ops d' = md_ops d @ xs"
    using grows [OF d(1)] by (auto simp: prefix_def)
  show ?thesis unfolding in_log_def
    by (intro exI [of _ d'] exI [of _ k]) (use d d' in \<open>simp add: nth_append\<close>)
qed

context server_history
begin

lemma fleet_call_inv:
  assumes inv: "fleet_inv stored n f" and n: "int n + 1 < 2 ^ 63"
  shows "fleet_inv stored (Suc n) (fleet_call C i c f)"
proof -
  have L: "log_inv stored (server_of i f)" "log_size stored n (server_of i f)"
    and U: "\<And>docID d. stored (fl_backend f) docID = Some d \<Longrightarrow> unique_sequences (md_ops d)"
    using inv by (auto simp: fleet_inv_server [of stored n f i])
  let ?st = "run_call C c (server_of i f)"
  have "log_inv stored ?st \<and> log_size stored (Suc n) ?st"
    using run_call_sound [of "server_of i f" c] L n by (auto simp: sound_step_def)
  moreover have "unique_sequences (md_ops d)" if "stored (srv_backend ?st) docID = Some d" for docID d
    using doc_step_unique [OF run_call_doc_step [OF L(1)] _ that] U by simp
  ultimately show ?thesis by (auto simp: fleet_inv_def log_inv_def log_size_def)
qed

lemma fleet_run_inv:
  "fleet_inv stored n f \<Longrightarrow> int n + int (length calls) < 2 ^ 63 \<Longrightarrow>
   fleet_inv stored (n + length calls) (fleet_run C calls f)"
proof (induction calls arbitrary: n f)
  case (Cons ic cs)
  obtain i c where ic: "ic = (i, c)" by fastforce
  show ?case
    using fleet_call_inv [OF Cons.prems(1), of i c] Cons.IH [of "Suc n" "fleet_call C i c f"] Cons.prems(2) ic by simp
qed simp

lemma fleet_call_doc_step:
  "fleet_inv stored n f \<Longrightarrow> doc_step c (stored (fl_backend f)) (stored (fl_backend (fleet_call C i c f)))"
  using run_call_doc_step [of "server_of i f" c] by (simp add: fleet_inv_server [of stored n f i])

text \<open>Without deletions the logs grow, and the caches of all servers go on standing for them.\<close>

lemma fleet_call_caches:
  assumes inv: "fleet_inv stored n f" and n: "int n + 1 < 2 ^ 63"
    and caches: "\<And>j. cache_inv C stored (server_of j f)" and keep: "\<And>docID. \<not> deletes docID c"
  shows "cache_inv C stored (server_of j (fleet_call C i c f))"
proof (cases "j = i")
  case True
  then show ?thesis
    using run_call_sound [of "server_of i f" c] inv caches [of i] n
    by (auto simp: fleet_inv_server [of stored n f i] sound_step_def fleet_call_def)
next
  case False
  have step: "doc_step c (stored (fl_backend f)) (stored (fl_backend (fleet_call C i c f)))"
    by (rule fleet_call_doc_step [OF inv])
  have "in_log stored (fl_backend (fleet_call C i c f)) r" if "in_log stored (fl_backend f) r" for r
    by (rule in_log_grows [OF that doc_step_grows [OF step _ keep]])
  moreover have "fl_caches (fleet_call C i c f) j = fl_caches f j"
    using False by (simp add: fleet_call_def put_server_def)
  ultimately show ?thesis using caches [of j] unfolding cache_inv_def server_of_backend server_of_cache by metis
qed

lemma fleet_run_caches:
  assumes "fleet_inv stored n f" and "int n + int (length calls) < 2 ^ 63"
    and "\<And>j. cache_inv C stored (server_of j f)" and "\<forall>c \<in> snd ` set calls. \<forall>docID. \<not> deletes docID c"
  shows "cache_inv C stored (server_of j (fleet_run C calls f))"
  using assms
proof (induction calls arbitrary: n f)
  case (Cons ic cs)
  obtain i c where ic: "ic = (i, c)" by fastforce
  have n: "int n + 1 < 2 ^ 63" using Cons.prems(2) by simp
  have "cache_inv C stored (server_of k (fleet_call C i c f))" for k
    by (rule fleet_call_caches [OF Cons.prems(1) n Cons.prems(3)]) (use Cons.prems(4) ic in auto)
  moreover have "int (Suc n) + int (length cs) < 2 ^ 63" "\<forall>c \<in> snd ` set cs. \<forall>docID. \<not> deletes docID c"
    using Cons.prems(2,4) by auto
  ultimately have "cache_inv C stored (server_of j (fleet_run C cs (fleet_call C i c f)))"
    by (intro Cons.IH [OF fleet_call_inv [OF Cons.prems(1) n]])
  then show ?case using ic by simp
qed simp

end

section \<open>Memory servers\<close>

definition NewMemoryFleet :: "(MemoryBackend, MemoryLocker, MemoryPublisher, 'v) fleet" where
  "NewMemoryFleet = NewFleet NewMemoryBackend NewMemoryLocker NewMemoryPublisher"

lemma memory_fleet_start: "fleet_inv (\<lambda>b. b) 0 NewMemoryFleet"
  by (simp add: fleet_inv_def NewMemoryFleet_def NewFleet_def NewMemoryBackend_def)

lemma memory_fleet_inv:
  "int (length calls) < 2 ^ 63 \<Longrightarrow>
   fleet_inv (\<lambda>b. b) (length calls) (fleet_run (memory_config E ot U depth maxGap) calls NewMemoryFleet)"
  using memory_server.fleet_run_inv [OF memory_fleet_start, of calls] by simp

text \<open>C12: Any number of servers on one backend, called in any order, is one document store: every call, of
  whichever server and whatever the server has cached, is one step of the abstract store, the log of each
  document is numbered 1 to its version, and no two of its records carry the same source and
  positive sequence number, so an operation sent again to another server is not committed twice.\<close>

theorem fleet_refines_document_store:
  assumes "int (length calls) < 2 ^ 63"
  shows "let C = memory_config E ot U depth maxGap; f = fleet_run C calls NewMemoryFleet
    in doc_step c (fl_backend f) (fl_backend (fleet_call C i c f))
     \<and> pred_option (\<lambda>d. md_version d = int (length (md_ops d)) \<and>
          map op_Version (md_ops d) = map int [1..<Suc (length (md_ops d))] \<and>
          distinct (filter has_sequence (map OpRecord_opID (md_ops d)))) (fl_backend f docID)"
proof -
  note inv = memory_fleet_inv [OF assms, of E ot U depth maxGap]
  have "map op_Version (md_ops d) = map int [1..<Suc (length (md_ops d))]" if "log_ok docID d" for d
    using that by (intro nth_equalityI) (auto simp: log_ok_def simp del: upt_Suc)
  then show ?thesis
    using memory_server.fleet_call_doc_step [OF inv] inv
    by (auto simp: Let_def fleet_inv_def log_ok_def unique_sequences_def pred_option_def simp del: upt_Suc)
qed

text \<open>Two servers commit to one document in turn; the second is sent the first one's operation again.\<close>

definition fleet_history :: "(nat \<times> server_call) list" where
  "fleet_history = [(0, CallCreate ''d'' ''''), (0, CallSubmit (ref_request 0 set_a 1)),
     (1, CallSubmit (ref_request 0 set_b 2)), (1, CallSubmit (ref_request 0 set_a 1))]"

lemma fleet_refines_document_store_witness:
  "let C = memory_config ref_env NewJSONOperationTransformer ref_json 3 2;
       f = fleet_run C fleet_history NewMemoryFleet
   in doc_step (CallCreate ''d'' '''') (fl_backend f) (fl_backend (fleet_call C 7 (CallCreate ''d'' '''') f))
     \<and> pred_option (\<lambda>d. md_version d = int (length (md_ops d)) \<and>
          map op_Version (md_ops d) = map int [1..<Suc (length (md_ops d))] \<and>
          distinct (filter has_sequence (map OpRecord_opID (md_ops d)))) (fl_backend f ''d'')"
  by (rule fleet_refines_document_store) (simp add: fleet_history_def)

lemma fleet_commits:
  "map_option (\<lambda>d. (md_doc d, map op_Version (md_ops d)))
     (fl_backend (fleet_run (memory_config ref_env NewJSONOperationTransformer ref_json 3 2) fleet_history NewMemoryFleet) ''d'')
   = Some (''{'' @ [CHR 0x22] @ ''a'' @ [CHR 0x22] @ '':1,'' @ [CHR 0x22] @ ''b'' @ [CHR 0x22] @ '':2}'', [1, 2])"
  by code_simp

text \<open>C13: While no document is deleted, an operation any of the servers has cached belongs to the record of
  its document and version in the common log, also when another server committed that record: it has,
  component by component, the paths and the operators of an operation that stands for the record's text,
  and is that operation itself where no edit in place reaches the values of the node library.\<close>

theorem fleet_caches_stand_for_log:
  assumes "int (length calls) < 2 ^ 63" and "\<forall>c \<in> snd ` set calls. \<forall>docID. \<not> deletes docID c"
    and "f = fleet_run (memory_config E ot U depth maxGap) calls NewMemoryFleet"
    and "fl_caches f j docID = Some versions" and "versions v = Some op"
  shows "\<exists>r d op'. fl_backend f docID = Some d \<and> r \<in> set (md_ops d) \<and> op_Version r = v \<and>
    stands_for (memory_config E ot U depth maxGap) (op_Op r) op' \<and> op_shape op = op_shape op' \<and>
    ((\<forall>t n w i b x. sharedEdit E t n w i b x = x) \<longrightarrow> op = op')"
proof -
  have "cache_inv (memory_config E ot U depth maxGap) (\<lambda>b. b) (server_of k NewMemoryFleet)" for k
    by (simp add: cache_inv_def NewMemoryFleet_def NewFleet_def server_of_def)
  then have "cache_inv (memory_config E ot U depth maxGap) (\<lambda>b. b) (server_of j f)"
    unfolding assms(3) using assms(1,2)
    by (intro memory_server.fleet_run_caches [OF memory_fleet_start]) auto
  then obtain r where r: "in_log (\<lambda>b. b) (fl_backend f) r" "op_DocumentID r = docID" "op_Version r = v"
      "represents (memory_config E ot U depth maxGap) r op"
    using assms(4,5) unfolding cache_inv_def server_of_cache server_of_backend by blast
  from r(4) obtain op' where "stands_for (memory_config E ot U depth maxGap) (op_Op r) op'"
      "op_shape op = op_shape op'" "(\<forall>t n w i b x. sharedEdit E t n w i b x = x) \<longrightarrow> op = op'"
    by (rule represents_shape) auto
  then show ?thesis using r(1-3) by (auto simp: in_log_def intro!: exI [of _ r])
qed

definition ref_fleet :: "(MemoryBackend, MemoryLocker, MemoryPublisher, jnode) fleet" where
  "ref_fleet = fleet_run (memory_config ref_env NewJSONOperationTransformer ref_json 3 2) fleet_history NewMemoryFleet"

lemma second_server_cached:
  "case fl_caches ref_fleet 1 ''d'' of None \<Rightarrow> False
   | Some versions \<Rightarrow> (case versions 1 of None \<Rightarrow> False | Some _ \<Rightarrow> True)"
  by code_simp

text \<open>The second server has cached the record of version 1, which the first server committed.\<close>

lemma fleet_caches_stand_for_log_witness:
  "\<exists>versions op r d. fl_caches ref_fleet 1 ''d'' = Some versions \<and> versions 1 = Some op
     \<and> fl_backend ref_fleet ''d'' = Some d \<and> r \<in> set (md_ops d) \<and> op_Version r = 1
     \<and> stands_for (memory_config ref_env NewJSONOperationTransformer ref_json 3 2) (op_Op r) op"
proof -
  obtain versions op where c: "fl_caches ref_fleet 1 ''d'' = Some versions" "versions 1 = Some op"
    using second_server_cached by (auto split: option.splits)
  show ?thesis
    using fleet_caches_stand_for_log [OF _ _ ref_fleet_def c] c by (auto simp: fleet_history_def)
qed

end
