(* ===== verification/Spec2Isabelle.thy ===== *)
theory Spec2Isabelle
  imports OTProperties EditProperties SubTypeProperties TransformProperties SessionProperties
    DiffProperties AjsonProperties RedisProperties PathText CollabProperties ServerFleet
begin

text \<open>
  A verification development for \<open>jsonot\<close>, a Go library of operational transformation on JSON
  documents.

  \<^bold>\<open>The program.\<close>  A document is a \<open>Value\<close>, an interface with two implementations
  (\<open>value_sonic.go\<close>, \<open>value_ajson.go\<close>).  An edit is an \<open>Operation\<close>, a list of components, each
  an operator at a path.  The engine (\<open>jsonot.go\<close>) reads operations from JSON
  (\<open>OperationFactory\<close>), applies them (\<open>apply.go\<close>), transforms concurrent ones against each
  other (\<open>transform.go\<close>), inverts and composes them (\<open>operation.go\<close>) and lets users register
  subtypes (\<open>subtype.go\<close>).  The package \<open>sharedb\<close> shares documents between clients: a server
  (\<open>server.go\<close>) commits submitted operations under a lock per document to a backend, rebasing
  stale ones with the engine, and publishes events; a session layer keeps replayable envelopes for
  each client session (\<open>mailbox.go\<close>, \<open>memory_mailbox.go\<close>, \<open>reconnect.go\<close>) and speaks a websocket
  protocol (\<open>ws_protocol.go\<close>, \<open>ws_transport.go\<close>).  Backend, lock and publisher live in memory
  (\<open>memory.go\<close>) or on a redis server (\<open>redis.go\<close>).  \<open>diff.go\<close> computes the operation between two
  documents.  Two programs under \<open>examples\<close> are collaboration servers of their own on the engine.

  \<^bold>\<open>Theories.\<close>
  \<^item> \<open>GoPrelude\<close>: errors and panics as values (\<open>'a res\<close>), \<open>int\<close> arithmetic at 64 bits (\<open>i64\<close>),
    slices, \<open>strconv.Atoi\<close>.  \<open>Decimal\<close>: writing integers and reading them back.  \<open>ListEdits\<close>: insertion and deletion at a position and their laws.
  \<^item> \<open>JsonValue\<close>: the \<open>Value\<close> interface (record \<open>value_api\<close>), the documents values stand for
    (\<open>jdoc\<close>), and the interface's laws as the locales \<open>value_contract\<close>,
    \<open>value_floats\<close> (numbers that keep an exact float), \<open>value_numbers\<close> (those that compare like
    integers, too) and \<open>value_texts\<close>.
  \<^item> \<open>JsonPath\<close> and \<open>PathText\<close> (\<open>path.go\<close>), \<open>Operators\<close> (\<open>operator.go\<close>, \<open>action.go\<close>, the holder of subtypes),
    \<open>SubTypes\<close> (\<open>subtype.go\<close>), \<open>Operations\<close> (\<open>operation.go\<close>: components, operations, builders),
    \<open>ApplyOps\<close> (\<open>apply.go\<close>), \<open>TransformOps\<close> (\<open>transform.go\<close>), \<open>Factory\<close> (\<open>operation.go\<close>:
    \<open>OperationFactory\<close>), \<open>Engine\<close> (\<open>jsonot.go\<close>).
  \<^item> \<open>SonicNode\<close>: \<open>SonicValue\<close> and \<open>SonicValueFactory\<close> over the node type of the third-party
    sonic library, which is a parameter (\<open>sonic_ast\<close>) with its documented behaviour as the
    locale \<open>sonic_contract\<close>; it gives the laws of \<open>Value\<close>.  \<open>ReferenceJson\<close> and
    \<open>ReferenceNode\<close> instantiate the parameter by a JSON tree with its own printer and parser, so
    that the hypotheses hold of something and witnesses can be computed; \<open>SonicEnv\<close> closes the
    chain.
  \<^item> \<open>AjsonNode\<close>: \<open>AJSONValue\<close> and its factory (\<open>value_ajson.go\<close>) over the node type of the
    third-party ajson library, likewise a parameter (\<open>ajson\<close>, locale \<open>ajson_contract\<close>); it gives the
    same laws of \<open>Value\<close>.  \<open>AjsonReference\<close> instantiates it by trees whose objects are finite maps.
  \<^item> \<open>DiffOps\<close> (\<open>diff.go\<close>): \<open>Diff\<close> and its helpers, with the nesting depth as fuel.
    \<open>DiffBehaviour\<close>: which pairs of documents it can tell apart (\<open>diffable\<close>), and that its
    operation performs the edit; any fuel above the depth of the first document is enough.
  \<^item> \<open>Documents\<close>: reading and replacing the subdocument at a path (\<open>doc_at\<close>, \<open>doc_put\<close>), and the
    refinement of \<open>RouteGetOnValue\<close>, \<open>RouteSetOnValue\<close> and \<open>ApplyToValue\<close> by them (locale
    \<open>ot_contract\<close>).  \<open>Convergence\<close> and \<open>ObjectConvergence\<close>: what the transformation functions
    do to two concurrent components, as small tables, and the convergence lemmas.
  \<^item> \<open>Storage\<close>, \<open>Publishing\<close>, \<open>Locking\<close> (\<open>sharedb/backend.go\<close>, \<open>sharedb/memory.go\<close>): the
    interfaces \<open>Backend\<close>, \<open>Publisher\<close> and \<open>Locker\<close> as records of operations, what they promise as
    locales (\<open>backend_contract\<close>, \<open>reliable_backend\<close>, \<open>publisher_contract\<close>), and the memory
    implementations as their interpretations.  The locker is also a step relation of interleaved
    callers (\<open>locker_step\<close>), with mutual exclusion and progress from its invariant.
  \<^item> \<open>ServerOps\<close> (\<open>sharedb/server.go\<close>): every method of the server, with the cache of parsed
    operations in its state.  \<open>ServerInvariants\<close> and \<open>ServerBehaviour\<close> prove, for every backend
    that keeps its contract (locale \<open>server_history\<close>), that the log stays consistent, the cached
    operations belong to its records, a call is one step of an abstract document store (\<open>doc_step\<close>), and retries are
    found.  \<open>ServerFleet\<close>: any number of servers on the same services, each with its own cache,
    called in any order.
  \<^item> \<open>Mailbox\<close> (\<open>sharedb/mailbox.go\<close>, \<open>memory_mailbox.go\<close>, \<open>mailbox_dispatch.go\<close>,
    \<open>reconnect.go\<close>): envelopes, the \<open>MailboxStore\<close> interface with the locale \<open>mailbox_contract\<close>, the
    memory store, replay.  \<open>Sessions\<close> (\<open>ws_transport.go\<close>): connections and the session registry, as
    atomic methods and with \<open>Register\<close> and \<open>Close\<close> interleaved (\<open>session_step\<close>).  \<open>Protocol\<close>
    (\<open>ws_protocol.go\<close>): messages, handlers, relays and the inbound dispatcher;
    \<open>ProtocolBehaviour\<close>: what handlers leave alone, and the invariant of every run of the transport
    (\<open>ws_run\<close>).
  \<^item> \<open>RedisStore\<close>, \<open>RedisLocks\<close>, \<open>RedisPublishing\<close> (\<open>sharedb/redis.go\<close>): the adapter over the commands
    of a redis server, a parameter (record \<open>redis\<close>) with their documented effect on the keyspace, on
    expiring keys and on channels as the locales \<open>redis_contract\<close>, \<open>redis_clock\<close> and
    \<open>redis_channels\<close>; encoding by \<open>encoding/json\<close> is a parameter (\<open>redis_json\<close>), what
    \<open>MarshalJSON\<close> hands to it is modelled.  \<open>RedisRefinement\<close> relates a keyspace to a memory
    backend (\<open>holds\<close>) and proves the simulation call by call; \<open>ServerSimulation\<close> shows for every method
    of the server that a backend which answers the server's calls like another may take its place
    (locale \<open>backend_simulation\<close>), and \<open>RedisServer\<close> that the redis backend may; \<open>RedisLocks\<close> interleaves threads and
    passing time (\<open>redis_step\<close>).  \<open>RedisReference\<close> is a keyspace with a clock and a codec on which
    the contracts hold.
  \<^item> \<open>CollabDemo\<close>: what the two servers under \<open>examples\<close> share, clients whose goroutines greet, read,
    acknowledge and broadcast in any interleaving while connections break (\<open>demo_step\<close>), and the rebasing
    through a history that the engine edits (\<open>transformThrough\<close>); the locale
    \<open>demo_server\<close> states when everything such a server sends agrees with an account of its run.  \<open>TextCollab\<close>
    (\<open>examples/websocket/main.go\<close>) and \<open>BlockCollab\<close> (\<open>examples/blocknote-collab/main.go\<close>) are the two
    servers and its interpretations.
  \<^item> \<open>OTProperties\<close>, \<open>EditProperties\<close>, \<open>SubTypeProperties\<close>, \<open>TransformProperties\<close>,
    \<open>ServerProperties\<close>, \<open>HistoryProperties\<close>, \<open>SessionProperties\<close>, \<open>DiffProperties\<close>,
    \<open>AjsonProperties\<close>, \<open>RedisProperties\<close>, \<open>CollabProperties\<close>: the properties, with witnesses that run the model on the
    reference instances.

  \<^bold>\<open>How Go is read.\<close>  A call that can fail or panic has type \<open>'a res\<close>; \<open>Inl Panic\<close> is a panic,
  which no caller catches (in the examples it ends the goroutine of the client).  Values are updated in place in Go; here a function returns the
  updated value, and where the source relies on the sharing (the operands \<open>Consume\<close> edits, the
  path \<open>Invert\<close> writes to) the definition returns the changed object as well.  Where objects are kept
  and used again, which of them a later call edits is a matter of pointers and of how the node
  library stores its nodes.  There the edit is a parameter, which the theorems quantify over: \<open>sharedEdit\<close> of
  \<open>value_api\<close> for the values that a cached operation of the server shares with its clones (\<open>touch\<close>,
  \<open>inHand\<close> in \<open>ServerOps\<close>), \<open>edits\<close> and \<open>docEdits\<close> for the history and the document of the example servers;
  the reference instances take it to be the identity.  \<open>int\<close> is HOL's
  \<open>int\<close> with \<open>i64\<close> at every addition that can wrap.  Strings are lists of bytes.  Go maps
  are association lists in the interface and functions in \<open>jdoc\<close>.

  \<^bold>\<open>What the properties say.\<close>  Applying an operator refines the edit of the document it names;
  concurrent list and object operators converge, with the exact exceptions; inverses restore and
  merges preserve the effect, again with the exceptions; subtype operands round-trip and merge;
  the reader terminates (its fuel counts the nesting of arrays, so any bound above the
  depth is enough).  Several properties and lemmas state behaviour that is not what the code means to do:
  position 0 of arrays, the composition to a no-op, deletes meeting replaces, text deletions,
  the transformation of operations with several components, a rollback whose inverses cancel, a
  registration that races with a close, versions of one document that silence another's events.

  The server properties are about all runs of fewer than \<open>2 ^ 63\<close> calls (versions are 64-bit),
  with the depth of nested operation arrays the reader's stack holds as a parameter
  (\<open>cfg_depth\<close>).  A submission commits exactly one record and one event or changes nothing, is
  committed when it is current and applies, and is answered from the log when it is sent again.
  The session properties are about all runs of the transport: who can write, what is replayed, what
  a relay sends, which connection is active.

  The redis backend answers every sequence of calls that keeps to the use \<open>well_used\<close> (content on
  creation, versions the document has, records that survive encoding) as the memory backend does,
  and the server on redis answers its clients as the memory server does;
  its locks exclude each other while their time to live lasts and tokens differ, and waiting
  for one ends after 50 attempts; events reach subscribers in order, at most once.
  The example servers tell every client, with every version the text server and every update of the block
  server names, the document of that version, whatever the interleaving and whatever the engine edits in
  their history; the order in which updates arrive is not that of the versions, and an
  update can be lost with a connection.
  Several servers on one backend are one document store as long as the lock keeps their calls apart, and the
  operations in their caches keep the paths and operators of the common log's records while no document is deleted
  (values can be edited in place); by example, a cache goes stale
  when another server deletes and recreates a document, and a commit after the lock has run out loses an update.

  \<^bold>\<open>Not modelled.\<close>  Logging and debug formatting, which are output only; of the programs under \<open>examples\<close> the
  HTTP servers, the upgrade to a websocket, flags and pages; the text \<open>encoding/json\<close> produces for messages, the websocket, and \<open>NewRedisServer\<close>, which only
  assembles the redis parts: the server model keeps the states of backend, locker and publisher
  apart.  Two handles on one ajson tree are not aliased: a child changed in place is written back
  by the operation that changed it.  Within one call of \<open>Transform\<close> or \<open>Apply\<close> values shared by different
  components are taken as separate; what such sharing leaves behind is the subject of the edits above.  The methods of the server run
  as wholes: \<open>GetSnapshotAt\<close>, which takes no lock, is not interleaved with other calls.
\<close>

end
